(* ===== verification/Prelude.thy ===== *)
theory Prelude
  imports Complex_Main "HOL-Library.Word"
begin

text \<open>
  Shared vocabulary of the development: Python's byte strings, slices and
  \<open>struct\<close> codes, the exceptions the sources raise, and the generic lemmas on
  lists and words that every component uses.  The collections \<open>bytes_simps\<close>
  (values of byte codes) and \<open>len_simps\<close> (lengths of buffers and frames)
  gather the facts that component proofs rewrite with.
\<close>

unbundle bit_operations_syntax

named_theorems bytes_simps "values read back from packed bytes"
named_theorems len_simps "lengths of packed bytes, buffers and frames"

section \<open>Bytes and exceptions\<close>

type_synonym byte = "8 word"
type_synonym bytes = "byte list"

datatype py_error =
    IndexError | KeyError | ValueError | TypeError | AttributeError
  | StructError | OSError | SocketTimeout | OverflowError | RuntimeError string | LibError string

text \<open>The text \<open>str(e)\<close> of an exception whose message the sources inspect.
  Only messages of library exceptions and of \<open>RuntimeError\<close> carry content that
  the sources look at; the built-in ones are reduced to their class name.\<close>

fun exn_text :: "py_error \<Rightarrow> string" where
  "exn_text (RuntimeError m) = m"
| "exn_text (LibError m) = m"
| "exn_text IndexError = ''index out of range''"
| "exn_text KeyError = ''key''"
| "exn_text ValueError = ''invalid value''"
| "exn_text TypeError = ''type''"
| "exn_text AttributeError = ''attribute''"
| "exn_text StructError = ''struct format requires another value''"
| "exn_text OSError = ''os error''"
| "exn_text SocketTimeout = ''timed out''"
| "exn_text OverflowError = ''overflow''"

section \<open>Fallible steps in sequence\<close>

definition bindE :: "'err + 'a \<Rightarrow> ('a \<Rightarrow> 'err + 'b) \<Rightarrow> 'err + 'b" where
  "bindE step next_step = (case step of Inr v \<Rightarrow> next_step v | Inl err \<Rightarrow> Inl err)"

lemma bindE_simps [simp]: "bindE (Inl e) f = Inl e" "bindE (Inr x) f = f x"
  by (simp_all add: bindE_def)

lemma bindE_Inr: "bindE m f = Inr y \<longleftrightarrow> (\<exists>x. m = Inr x \<and> f x = Inr y)"
  by (simp add: bindE_def split: sum.splits)

section \<open>Slices\<close>

text \<open>\<open>xs[a:b]\<close> for non-negative bounds, and the slice assignment
  \<open>buf[a:b] = v\<close> of a \<open>bytearray\<close>, which changes the length of the buffer
  whenever \<open>v\<close> is not as long as the slice.\<close>

definition py_slice :: "nat \<Rightarrow> nat \<Rightarrow> 'a list \<Rightarrow> 'a list" where
  "py_slice a b xs = take (b - a) (drop a xs)"

definition slice_set :: "nat \<Rightarrow> nat \<Rightarrow> 'a list \<Rightarrow> 'a list \<Rightarrow> 'a list" where
  "slice_set a b v buf = take a buf @ v @ drop (max a b) buf"

definition zeros :: "nat \<Rightarrow> bytes" where
  "zeros n = replicate n 0"

definition ljust :: "nat \<Rightarrow> bytes \<Rightarrow> bytes" where
  "ljust n xs = xs @ zeros (n - length xs)"

lemma length_zeros [simp]: "length (zeros n) = n"
  by (simp add: zeros_def)

lemma set_zeros: "set (zeros n) \<subseteq> {0}"
  by (auto simp: zeros_def)

lemma take_zeros [simp]: "take k (zeros n) = zeros (min k n)"
  by (simp add: zeros_def)

lemma drop_zeros [simp]: "drop k (zeros n) = zeros (n - k)"
  by (simp add: zeros_def)

lemma zeros_0 [simp]: "zeros 0 = []"
  by (simp add: zeros_def)

lemma zeros_Suc: "zeros (Suc n) = 0 # zeros n"
  by (simp add: zeros_def)

lemma zeros_append: "zeros m @ zeros n = zeros (m + n)"
  by (simp add: zeros_def replicate_add)

lemma length_py_slice [len_simps]: "length (py_slice a b xs) = min (b - a) (length xs - a)"
  by (simp add: py_slice_def)

lemma length_ljust [simp, len_simps]: "length (ljust n xs) = max n (length xs)"
  by (simp add: ljust_def)

lemma ljust_id [simp]: "n \<le> length xs \<Longrightarrow> ljust n xs = xs"
  by (simp add: ljust_def)

lemma ljust_zeros: "length xs \<le> n \<Longrightarrow> set xs \<subseteq> {0} \<Longrightarrow> ljust n xs = zeros n"
proof -
  assume "length xs \<le> n" "set xs \<subseteq> {0}"
  moreover from this have "xs = zeros (length xs)"
    by (metis zeros_def replicate_eqI subsetD singletonD)
  ultimately show ?thesis
    by (metis ljust_def zeros_append le_add_diff_inverse)
qed

lemma slice_set_prefix:
  "length v = n \<Longrightarrow> n \<le> length buf \<Longrightarrow> length (slice_set 0 n v buf) = length buf"
  by (simp add: slice_set_def)

lemma slice_set_whole [simp]: "length buf \<le> n \<Longrightarrow> slice_set 0 n v buf = v"
  by (simp add: slice_set_def)

lemma slice_set_take: "length v = n \<Longrightarrow> take n (slice_set 0 n v buf) = v"
  by (simp add: slice_set_def)

lemma slice_set_drop: "length v = n \<Longrightarrow> drop n (slice_set 0 n v buf) = drop n buf"
  by (simp add: slice_set_def)

lemma length_slice_set: "length (slice_set 0 n v buf) = length v + (length buf - n)"
  by (simp add: slice_set_def)

lemma py_slice_append:
  "a = length xs \<Longrightarrow> b = length xs + length ys \<Longrightarrow> py_slice a b (xs @ ys @ zs) = ys"
  by (simp add: py_slice_def)

lemma py_slice_0: "py_slice 0 b xs = take b xs"
  by (simp add: py_slice_def)

text \<open>Slices with Python's index rule: a negative bound counts from the end, and
  every bound is clipped to the sequence.\<close>

definition clip :: "nat \<Rightarrow> int \<Rightarrow> nat" where
  "clip n i = nat (if i < 0 then max 0 (int n + i) else min i (int n))"

definition islice :: "int \<Rightarrow> int \<Rightarrow> 'a list \<Rightarrow> 'a list" where
  "islice a b xs = py_slice (clip (length xs) a) (clip (length xs) b) xs"

definition islice_set :: "int \<Rightarrow> int \<Rightarrow> 'a list \<Rightarrow> 'a list \<Rightarrow> 'a list" where
  "islice_set a b v buf = slice_set (clip (length buf) a) (clip (length buf) b) v buf"

lemma clip_nonneg: "0 \<le> i \<Longrightarrow> clip n i = min (nat i) n"
  by (simp add: clip_def min_def nat_le_iff le_nat_iff)

lemma islice_nonneg: "0 \<le> a \<Longrightarrow> 0 \<le> b \<Longrightarrow> islice a b xs = py_slice (nat a) (nat b) xs"
  by (auto simp: islice_def clip_nonneg py_slice_def min_def)

lemma islice_set_nonneg: "0 \<le> b \<Longrightarrow> islice_set 0 b v buf = slice_set 0 (nat b) v buf"
  by (auto simp: islice_set_def clip_nonneg slice_set_def min_def)

section \<open>Sixteen and thirty-two bit codes\<close>

text \<open>\<open>struct.pack\<close> and \<open>struct.unpack\<close> for the formats \<open>>H\<close>,
  \<open><H\<close> and \<open>>I\<close>.  Packing a value out of range raises
  \<open>struct.error\<close>; reading needs enough bytes.\<close>

definition be16 :: "int \<Rightarrow> bytes" where
  "be16 v = [word_of_int (v div 256), word_of_int v]"

definition le16 :: "int \<Rightarrow> bytes" where
  "le16 v = [word_of_int v, word_of_int (v div 256)]"

definition be32 :: "int \<Rightarrow> bytes" where
  "be32 v = be16 (v div 65536) @ be16 v"

definition pack_H :: "int \<Rightarrow> py_error + bytes" where
  "pack_H v = (if 0 \<le> v \<and> v < 65536 then Inr (be16 v) else Inl StructError)"

definition pack_I :: "int \<Rightarrow> py_error + bytes" where
  "pack_I v = (if 0 \<le> v \<and> v < 4294967296 then Inr (be32 v) else Inl StructError)"

definition val16 :: "byte \<Rightarrow> byte \<Rightarrow> int" where
  "val16 hi lo = uint hi * 256 + uint lo"

definition unpack_H :: "bytes \<Rightarrow> nat \<Rightarrow> py_error + int" where
  "unpack_H bs off =
     (if off + 2 \<le> length bs then Inr (val16 (bs ! off) (bs ! (off + 1))) else Inl StructError)"

definition val32 :: "byte \<Rightarrow> byte \<Rightarrow> byte \<Rightarrow> byte \<Rightarrow> int" where
  "val32 a b c d = val16 a b * 65536 + val16 c d"

definition unpack_I :: "bytes \<Rightarrow> nat \<Rightarrow> py_error + int" where
  "unpack_I bs off =
     (if off + 4 \<le> length bs
      then Inr (val32 (bs ! off) (bs ! (off + 1)) (bs ! (off + 2)) (bs ! (off + 3)))
      else Inl StructError)"

lemma length_be16 [simp, len_simps]: "length (be16 v) = 2"
  by (simp add: be16_def)

lemma length_le16 [simp, len_simps]: "length (le16 v) = 2"
  by (simp add: le16_def)

lemma length_be32 [simp, len_simps]: "length (be32 v) = 4"
  by (simp add: be32_def)

lemma uint_byte_of_int [bytes_simps]: "uint (word_of_int v :: byte) = v mod 256"
  by (simp add: uint_word_of_int)

lemma uint_byte_bounds [simp]: "0 \<le> uint (b :: byte)" "uint (b :: byte) < 256"
  using uint_lt2p [of b] by simp_all

lemma val16_bounds [simp]: "0 \<le> val16 a b" "val16 a b < 65536"
proof -
  show "0 \<le> val16 a b" by (simp add: val16_def)
  have "uint a \<le> 255" "uint b \<le> 255"
    using uint_byte_bounds(2) [of a] uint_byte_bounds(2) [of b] by linarith+
  then show "val16 a b < 65536" by (simp add: val16_def)
qed

lemma val32_bounds [simp]: "0 \<le> val32 a b c d" "val32 a b c d < 4294967296"
proof -
  show "0 \<le> val32 a b c d" by (simp add: val32_def)
  have "val16 a b \<le> 65535" "val16 c d \<le> 65535"
    using val16_bounds(2) [of a b] val16_bounds(2) [of c d] by linarith+
  then show "val32 a b c d < 4294967296" by (simp add: val32_def)
qed

lemma val16_be16 [bytes_simps]:
  "val16 (word_of_int (v div 256)) (word_of_int v) = v mod 65536"
proof -
  have "v mod 65536 = (v div 256) mod 256 * 256 + v mod 256"
    using zmod_zmult2_eq [of 256 v 256] by simp
  then show ?thesis
    by (simp add: val16_def bytes_simps)
qed

lemma val32_be32 [bytes_simps]:
  "val32 (word_of_int (v div 65536 div 256)) (word_of_int (v div 65536))
         (word_of_int (v div 256)) (word_of_int v) = v mod 4294967296"
proof -
  have "v mod 4294967296 = (v div 65536) mod 65536 * 65536 + v mod 65536"
    using zmod_zmult2_eq [of 65536 v 65536] by simp
  then show ?thesis
    by (simp add: val32_def bytes_simps)
qed

lemma val16_nth_be16 [bytes_simps]: "val16 (be16 v ! 0) (be16 v ! Suc 0) = v mod 65536"
  by (simp add: be16_def val16_be16)

lemma unat_byte [simp]: "unat (b :: byte) < 256"
proof -
  have "unat b < 2 ^ LENGTH(8)" by (rule unsigned_less)
  then show ?thesis by simp
qed

lemma unat_word_of_nat_byte [bytes_simps]: "unat (word_of_nat n :: byte) = n mod 256"
  by (simp add: unsigned_of_nat take_bit_eq_mod)

lemma unpack_H_be16 [bytes_simps]: "unpack_H (be16 v @ xs) 0 = Inr (v mod 65536)"
  by (simp add: unpack_H_def be16_def bytes_simps)

lemma unpack_H_append [bytes_simps]:
  "length xs = off \<Longrightarrow> unpack_H (xs @ be16 v @ ys) off = Inr (v mod 65536)"
  by (simp add: unpack_H_def nth_append be16_def bytes_simps)

lemma unpack_I_be32 [bytes_simps]: "unpack_I (be32 v @ xs) 0 = Inr (v mod 4294967296)"
  by (simp add: unpack_I_def be32_def be16_def numeral_2_eq_2 numeral_3_eq_3 bytes_simps)

lemma unpack_H_Inr: "off + 2 \<le> length bs \<Longrightarrow> \<exists>v. unpack_H bs off = Inr v \<and> 0 \<le> v \<and> v < 65536"
  by (simp add: unpack_H_def val16_bounds)

lemma and_mask16: "(v::int) AND 0xFFFF = v mod 65536"
  using take_bit_eq_mask [of 16 v] by (simp add: take_bit_eq_mod mask_eq_exp_minus_1)

lemma and_mask8: "(v::int) AND 0xFF = v mod 256"
  using take_bit_eq_mask [of 8 v] by (simp add: take_bit_eq_mod mask_eq_exp_minus_1)

lemma byte_of_int_mod [simp]: "(word_of_int (v mod 256) :: byte) = word_of_int v"
  by (rule word_uint_eqI) (simp add: bytes_simps)

lemma be16_mod [simp]: "be16 (v mod 65536) = be16 v"
proof -
  have *: "v mod 65536 = 256 * ((v div 256) mod 256) + v mod 256"
    using zmod_zmult2_eq [of 256 v 256] by simp
  have "v mod 65536 div 256 = (v div 256) mod 256"
    unfolding * by simp
  moreover have "(word_of_int (v mod 65536) :: byte) = word_of_int v"
    by (rule word_uint_eqI) (simp add: bytes_simps mod_mod_cancel)
  ultimately show ?thesis
    by (simp add: be16_def)
qed

lemma pack_H_masked [bytes_simps]: "pack_H (v AND 0xFFFF) = Inr (be16 v)"
  by (simp add: pack_H_def and_mask16)

lemma pack_H_ok: "0 \<le> v \<Longrightarrow> v < 65536 \<Longrightarrow> pack_H v = Inr (be16 v)"
  by (simp add: pack_H_def)

lemma pack_I_ok: "0 \<le> v \<Longrightarrow> v < 4294967296 \<Longrightarrow> pack_I v = Inr (be32 v)"
  by (simp add: pack_I_def)

section \<open>Lists indexed by position\<close>

lemma list_all2_update:
  "list_all2 P xs ys \<Longrightarrow> (i < length xs \<Longrightarrow> P x (ys ! i)) \<Longrightarrow> list_all2 P (xs[i := x]) ys"
  by (auto simp: list_all2_conv_all_nth) (metis nth_list_update_eq nth_list_update_neq)

lemma map_update_same: "f x = f (xs ! i) \<Longrightarrow> map f (xs[i := x]) = map f xs"
  by (cases "i < length xs") (auto simp: map_update list_update_same_conv list_update_beyond)

lemma concat_map_length: "length (concat (map f xs)) = sum_list (map (length \<circ> f) xs)"
  by (simp add: length_concat comp_def)

end
