(* ===== verification/Config.thy ===== *)
theory Config
  imports Prelude "HOL-Library.Monad_Syntax"
begin

text \<open>
  The application configuration of \<open>profinet_gateway_py/config.py\<close>: the
  dataclasses, the rack helpers of a device, and loading and saving
  \<open>config.json\<close>.  A JSON text is represented by its parsed value; the
  standard library's \<open>json\<close> reads back what it writes.  A dataclass does not
  check the types of its fields, so a file that gives a field a value of another
  JSON type loads in Python; such a file is \<open>Outside\<close> the typed records here.
\<close>

section \<open>Dataclasses\<close>

record drive_object =
  do_slot :: int
  do_subslot :: int
  do_module_ident :: int
  do_module_name :: string
  do_submodule_ident :: int
  do_submodule_name :: string
  do_input_length :: int
  do_output_length :: int

record device_config =
  dc_gsdml_path :: string
  dc_dap_id :: string
  dc_station_name :: string
  dc_ip :: string
  dc_subnet :: string
  dc_gateway :: string
  dc_mac :: string
  dc_canvas_x :: int
  dc_canvas_y :: int
  dc_drive_objects :: "drive_object list"
  dc_slot :: int
  dc_subslot :: int
  dc_module_ident :: int
  dc_submodule_ident :: int
  dc_module_name :: string
  dc_submodule_name :: string
  dc_input_length :: int
  dc_output_length :: int

record gateway_config =
  gc_protocol :: string
  gc_port :: int
  gc_bind :: string
  gc_framed :: bool
  gc_tcp_stream :: bool
  gc_cpu_affinity :: string
  gc_priority :: string
  gc_watchdog_ms :: int

record app_config =
  ac_adapter :: string
  ac_devices :: "device_config list"
  ac_gateway :: gateway_config

definition default_drive_object :: drive_object where
  "default_drive_object = \<lparr>do_slot = 1, do_subslot = 1, do_module_ident = 0, do_module_name = '''',
     do_submodule_ident = 0, do_submodule_name = '''', do_input_length = 4, do_output_length = 4\<rparr>"

definition default_device_config :: device_config where
  "default_device_config = \<lparr>dc_gsdml_path = '''', dc_dap_id = '''', dc_station_name = '''',
     dc_ip = ''192.168.1.50'', dc_subnet = ''255.255.255.0'', dc_gateway = ''192.168.1.1'',
     dc_mac = '''', dc_canvas_x = 100, dc_canvas_y = 100, dc_drive_objects = [],
     dc_slot = 1, dc_subslot = 1, dc_module_ident = 0, dc_submodule_ident = 0,
     dc_module_name = '''', dc_submodule_name = '''', dc_input_length = 4, dc_output_length = 4\<rparr>"

definition default_gateway_config :: gateway_config where
  "default_gateway_config = \<lparr>gc_protocol = ''TCP'', gc_port = 5000, gc_bind = ''0.0.0.0'',
     gc_framed = False, gc_tcp_stream = False, gc_cpu_affinity = '''', gc_priority = ''high'',
     gc_watchdog_ms = 0\<rparr>"

definition default_app_config :: app_config where
  "default_app_config = \<lparr>ac_adapter = '''', ac_devices = [], ac_gateway = default_gateway_config\<rparr>"

section \<open>Rack helpers of a device\<close>

definition effective_drive_objects :: "device_config \<Rightarrow> drive_object list" where
  "effective_drive_objects dc =
     (if dc_drive_objects dc \<noteq> [] then dc_drive_objects dc
      else [\<lparr>do_slot = dc_slot dc, do_subslot = dc_subslot dc,
             do_module_ident = dc_module_ident dc, do_module_name = dc_module_name dc,
             do_submodule_ident = dc_submodule_ident dc,
             do_submodule_name = dc_submodule_name dc,
             do_input_length = dc_input_length dc, do_output_length = dc_output_length dc\<rparr>])"

definition total_input_length :: "device_config \<Rightarrow> int" where
  "total_input_length dc = sum_list (map do_input_length (effective_drive_objects dc))"

definition total_output_length :: "device_config \<Rightarrow> int" where
  "total_output_length dc = sum_list (map do_output_length (effective_drive_objects dc))"

definition sync_legacy_from_rack :: "device_config \<Rightarrow> device_config" where
  "sync_legacy_from_rack dc =
     (case effective_drive_objects dc of
        [] \<Rightarrow> dc
      | d # _ \<Rightarrow> dc\<lparr>dc_slot := do_slot d, dc_subslot := do_subslot d,
                    dc_module_ident := do_module_ident d, dc_module_name := do_module_name d,
                    dc_submodule_ident := do_submodule_ident d,
                    dc_submodule_name := do_submodule_name d,
                    dc_input_length := do_input_length d,
                    dc_output_length := do_output_length d\<rparr>)"

lemma effective_nonempty [simp]: "effective_drive_objects dc \<noteq> []"
  by (simp add: effective_drive_objects_def)

lemma effective_sync [simp]:
  "effective_drive_objects (sync_legacy_from_rack dc) = effective_drive_objects dc"
  by (cases "dc_drive_objects dc") (simp_all add: sync_legacy_from_rack_def effective_drive_objects_def)

lemma total_lengths_sync [simp]:
  "total_input_length (sync_legacy_from_rack dc) = total_input_length dc"
  "total_output_length (sync_legacy_from_rack dc) = total_output_length dc"
  by (simp_all add: total_input_length_def total_output_length_def)

lemma sync_idem: "sync_legacy_from_rack (sync_legacy_from_rack dc) = sync_legacy_from_rack dc"
proof -
  obtain d ds where "effective_drive_objects dc = d # ds"
    using effective_nonempty [of dc] by (cases "effective_drive_objects dc") auto
  moreover from this have "effective_drive_objects (sync_legacy_from_rack dc) = d # ds"
    by simp
  ultimately show ?thesis
    unfolding sync_legacy_from_rack_def [of "sync_legacy_from_rack dc"]
    by (simp add: sync_legacy_from_rack_def)
qed

section \<open>JSON values and the calls of the standard library\<close>

datatype json =
    JNull | JBool bool | JInt int | JFloat rat | JStr string
  | JArr "json list" | JObj "(string \<times> json) list"

datatype 'a outcome = Ok 'a | Raised py_error | Outside

text \<open>\<open>dict(d)\<close>: of an object, or of an iterable of pairs.  Keys that are not
  hashable raise \<open>TypeError\<close>.\<close>

fun py_pair :: "json \<Rightarrow> py_error + (json \<times> json)" where
  "py_pair (JArr [k, v]) = (case k of JArr _ \<Rightarrow> Inl TypeError | JObj _ \<Rightarrow> Inl TypeError | _ \<Rightarrow> Inr (k, v))"
| "py_pair (JArr _) = Inl ValueError"
| "py_pair (JStr [a, b]) = Inr (JStr [a], JStr [b])"
| "py_pair (JStr _) = Inl ValueError"
| "py_pair (JObj [(a, _), (b, _)]) = Inr (JStr a, JStr b)"
| "py_pair (JObj _) = Inl ValueError"
| "py_pair _ = Inl TypeError"

fun map_err :: "('a \<Rightarrow> py_error + 'b) \<Rightarrow> 'a list \<Rightarrow> py_error + 'b list" where
  "map_err f [] = Inr []"
| "map_err f (x # xs) =
     (case f x of Inl e \<Rightarrow> Inl e
      | Inr y \<Rightarrow> (case map_err f xs of Inl e \<Rightarrow> Inl e | Inr ys \<Rightarrow> Inr (y # ys)))"

fun py_dict :: "json \<Rightarrow> py_error + (json \<times> json) list" where
  "py_dict (JObj kvs) = Inr (map (\<lambda>(k, v). (JStr k, v)) kvs)"
| "py_dict (JArr xs) = map_err py_pair xs"
| "py_dict (JStr s) = (if s = [] then Inr [] else Inl ValueError)"
| "py_dict _ = Inl TypeError"

text \<open>\<open>for x in v\<close> over a JSON value.\<close>

fun py_iter :: "json \<Rightarrow> py_error + json list" where
  "py_iter (JArr xs) = Inr xs"
| "py_iter (JStr s) = Inr (map (\<lambda>c. JStr [c]) s)"
| "py_iter (JObj kvs) = Inr (map (JStr \<circ> fst) kvs)"
| "py_iter _ = Inl TypeError"

text \<open>A later binding of a key replaces an earlier one.\<close>

definition dict_get :: "'k \<Rightarrow> ('k \<times> json) list \<Rightarrow> json option" where
  "dict_get k d = map_of (rev d) k"

section \<open>Loading\<close>

definition known :: "string list \<Rightarrow> (json \<times> json) list \<Rightarrow> (string \<times> json) list" where
  "known valid d =
     concat (map (\<lambda>(k, v). case k of JStr s \<Rightarrow> if s \<in> set valid then [(s, v)] else [] | _ \<Rightarrow> []) d)"

definition fields_drive_object :: "string list" where
  "fields_drive_object = [''slot'', ''subslot'', ''module_ident'', ''module_name'',
     ''submodule_ident'', ''submodule_name'', ''input_length'', ''output_length'']"

definition fields_device_config :: "string list" where
  "fields_device_config = [''gsdml_path'', ''dap_id'', ''station_name'', ''ip'', ''subnet'',
     ''gateway'', ''mac'', ''canvas_x'', ''canvas_y'', ''drive_objects'', ''slot'', ''subslot'',
     ''module_ident'', ''submodule_ident'', ''module_name'', ''submodule_name'',
     ''input_length'', ''output_length'']"

definition fields_gateway_config :: "string list" where
  "fields_gateway_config = [''protocol'', ''port'', ''bind'', ''framed'', ''tcp_stream'',
     ''cpu_affinity'', ''priority'', ''watchdog_ms'']"

text \<open>A keyword argument of the constructor, or the field's default; \<open>None\<close> is a
  value whose JSON type is not the field's.\<close>

definition kw_int :: "(string \<times> json) list \<Rightarrow> string \<Rightarrow> int \<Rightarrow> int option" where
  "kw_int d k def = (case dict_get k d of None \<Rightarrow> Some def | Some (JInt i) \<Rightarrow> Some i | _ \<Rightarrow> None)"

definition kw_str :: "(string \<times> json) list \<Rightarrow> string \<Rightarrow> string \<Rightarrow> string option" where
  "kw_str d k def = (case dict_get k d of None \<Rightarrow> Some def | Some (JStr s) \<Rightarrow> Some s | _ \<Rightarrow> None)"

definition kw_bool :: "(string \<times> json) list \<Rightarrow> string \<Rightarrow> bool \<Rightarrow> bool option" where
  "kw_bool d k def = (case dict_get k d of None \<Rightarrow> Some def | Some (JBool b) \<Rightarrow> Some b | _ \<Rightarrow> None)"

definition mk_drive_object :: "(string \<times> json) list \<Rightarrow> drive_object option" where
  "mk_drive_object d = do {
     slot \<leftarrow> kw_int d ''slot'' 1;
     subslot \<leftarrow> kw_int d ''subslot'' 1;
     mident \<leftarrow> kw_int d ''module_ident'' 0;
     mname \<leftarrow> kw_str d ''module_name'' '''';
     sident \<leftarrow> kw_int d ''submodule_ident'' 0;
     sname \<leftarrow> kw_str d ''submodule_name'' '''';
     inl \<leftarrow> kw_int d ''input_length'' 4;
     outl \<leftarrow> kw_int d ''output_length'' 4;
     Some \<lparr>do_slot = slot, do_subslot = subslot, do_module_ident = mident, do_module_name = mname,
       do_submodule_ident = sident, do_submodule_name = sname, do_input_length = inl,
       do_output_length = outl\<rparr> }"

definition mk_device_config :: "(string \<times> json) list \<Rightarrow> device_config option" where
  "mk_device_config d = do {
     path \<leftarrow> kw_str d ''gsdml_path'' '''';
     dap \<leftarrow> kw_str d ''dap_id'' '''';
     name \<leftarrow> kw_str d ''station_name'' '''';
     ip \<leftarrow> kw_str d ''ip'' ''192.168.1.50'';
     subnet \<leftarrow> kw_str d ''subnet'' ''255.255.255.0'';
     gw \<leftarrow> kw_str d ''gateway'' ''192.168.1.1'';
     mac \<leftarrow> kw_str d ''mac'' '''';
     x \<leftarrow> kw_int d ''canvas_x'' 100;
     y \<leftarrow> kw_int d ''canvas_y'' 100;
     slot \<leftarrow> kw_int d ''slot'' 1;
     subslot \<leftarrow> kw_int d ''subslot'' 1;
     mident \<leftarrow> kw_int d ''module_ident'' 0;
     sident \<leftarrow> kw_int d ''submodule_ident'' 0;
     mname \<leftarrow> kw_str d ''module_name'' '''';
     sname \<leftarrow> kw_str d ''submodule_name'' '''';
     inl \<leftarrow> kw_int d ''input_length'' 4;
     outl \<leftarrow> kw_int d ''output_length'' 4;
     Some \<lparr>dc_gsdml_path = path, dc_dap_id = dap, dc_station_name = name, dc_ip = ip,
       dc_subnet = subnet, dc_gateway = gw, dc_mac = mac, dc_canvas_x = x, dc_canvas_y = y,
       dc_drive_objects = [], dc_slot = slot, dc_subslot = subslot, dc_module_ident = mident,
       dc_submodule_ident = sident, dc_module_name = mname, dc_submodule_name = sname,
       dc_input_length = inl, dc_output_length = outl\<rparr> }"

definition mk_gateway_config :: "(string \<times> json) list \<Rightarrow> gateway_config option" where
  "mk_gateway_config d = do {
     proto \<leftarrow> kw_str d ''protocol'' ''TCP'';
     port \<leftarrow> kw_int d ''port'' 5000;
     bnd \<leftarrow> kw_str d ''bind'' ''0.0.0.0'';
     framed \<leftarrow> kw_bool d ''framed'' False;
     stream \<leftarrow> kw_bool d ''tcp_stream'' False;
     aff \<leftarrow> kw_str d ''cpu_affinity'' '''';
     prio \<leftarrow> kw_str d ''priority'' ''high'';
     wd \<leftarrow> kw_int d ''watchdog_ms'' 0;
     Some \<lparr>gc_protocol = proto, gc_port = port, gc_bind = bnd, gc_framed = framed,
       gc_tcp_stream = stream, gc_cpu_affinity = aff, gc_priority = prio, gc_watchdog_ms = wd\<rparr> }"

text \<open>\<open>DriveObject(**_known(DriveObject, x))\<close>: \<open>x.items()\<close> needs an object.\<close>

fun load_drive_object :: "json \<Rightarrow> drive_object outcome" where
  "load_drive_object (JObj kvs) =
     (case mk_drive_object (known fields_drive_object (map (\<lambda>(k, v). (JStr k, v)) kvs)) of
        Some d \<Rightarrow> Ok d | None \<Rightarrow> Outside)"
| "load_drive_object _ = Raised AttributeError"

fun map_out :: "('a \<Rightarrow> 'b outcome) \<Rightarrow> 'a list \<Rightarrow> 'b list outcome" where
  "map_out f [] = Ok []"
| "map_out f (x # xs) =
     (case f x of Raised e \<Rightarrow> Raised e | Outside \<Rightarrow> Outside
      | Ok y \<Rightarrow> (case map_out f xs of Raised e \<Rightarrow> Raised e | Outside \<Rightarrow> Outside
                 | Ok ys \<Rightarrow> Ok (y # ys)))"

text \<open>One pass of the loop over \<open>data["devices"]\<close>.\<close>

definition load_device :: "json \<Rightarrow> device_config outcome" where
  "load_device j =
     (case py_dict j of Inl e \<Rightarrow> Raised e
      | Inr d \<Rightarrow>
         (let v = (case dict_get (JStr ''drive_objects'') d of None \<Rightarrow> JArr [] | Some v \<Rightarrow> v);
              d' = filter (\<lambda>(k, _). k \<noteq> JStr ''drive_objects'') d
          in case py_iter v of Inl e \<Rightarrow> Raised e
             | Inr xs \<Rightarrow>
                (case map_out load_drive_object xs of Raised e \<Rightarrow> Raised e | Outside \<Rightarrow> Outside
                 | Ok dos \<Rightarrow>
                    (case mk_device_config (known fields_device_config d') of
                       None \<Rightarrow> Outside
                     | Some dc \<Rightarrow> Ok (dc\<lparr>dc_drive_objects := dos\<rparr>)))))"

text \<open>An entry that raises is skipped.\<close>

fun load_devices :: "json list \<Rightarrow> device_config list outcome" where
  "load_devices [] = Ok []"
| "load_devices (j # js) =
     (case load_device j of
        Raised _ \<Rightarrow> load_devices js
      | Outside \<Rightarrow> Outside
      | Ok dc \<Rightarrow> (case load_devices js of Ok dcs \<Rightarrow> Ok (dc # dcs) | r \<Rightarrow> r))"

fun load_gateway :: "json \<Rightarrow> gateway_config outcome" where
  "load_gateway (JObj kvs) =
     (case mk_gateway_config (known fields_gateway_config (map (\<lambda>(k, v). (JStr k, v)) kvs)) of
        Some g \<Rightarrow> Ok g | None \<Rightarrow> Outside)"
| "load_gateway _ = Ok default_gateway_config"

text \<open>The content of a file: a complete JSON text, or one that does not parse (a
  write that stopped half way).\<close>

datatype content = Complete json | Partial

record files =
  config_json :: "content option"
  config_tmp :: "content option"

fun load_data :: "json \<Rightarrow> app_config outcome" where
  "load_data (JObj data) =
     (case (case dict_get ''adapter'' data of None \<Rightarrow> Some '''' | Some (JStr s) \<Rightarrow> Some s | _ \<Rightarrow> None) of
        None \<Rightarrow> Outside
      | Some adapter \<Rightarrow>
         (case load_gateway (case dict_get ''gateway'' data of None \<Rightarrow> JObj [] | Some g \<Rightarrow> g) of
            Raised e \<Rightarrow> Raised e | Outside \<Rightarrow> Outside
          | Ok gw \<Rightarrow>
             (case py_iter (case dict_get ''devices'' data of None \<Rightarrow> JArr [] | Some v \<Rightarrow> v) of
                Inl e \<Rightarrow> Raised e
              | Inr js \<Rightarrow>
                 (case load_devices js of Raised e \<Rightarrow> Raised e | Outside \<Rightarrow> Outside
                  | Ok dcs \<Rightarrow> Ok \<lparr>ac_adapter = adapter, ac_devices = dcs, ac_gateway = gw\<rparr>))))"
| "load_data _ = Raised AttributeError"

definition load_config :: "files \<Rightarrow> app_config outcome" where
  "load_config fs =
     (case config_json fs of
        None \<Rightarrow> Ok default_app_config
      | Some Partial \<Rightarrow> Ok default_app_config
      | Some (Complete j) \<Rightarrow> load_data j)"

section \<open>Saving\<close>

definition asdict_drive_object :: "drive_object \<Rightarrow> json" where
  "asdict_drive_object d = JObj [
     (''slot'', JInt (do_slot d)), (''subslot'', JInt (do_subslot d)),
     (''module_ident'', JInt (do_module_ident d)), (''module_name'', JStr (do_module_name d)),
     (''submodule_ident'', JInt (do_submodule_ident d)),
     (''submodule_name'', JStr (do_submodule_name d)),
     (''input_length'', JInt (do_input_length d)), (''output_length'', JInt (do_output_length d))]"

definition asdict_device_config :: "device_config \<Rightarrow> json" where
  "asdict_device_config d = JObj [
     (''gsdml_path'', JStr (dc_gsdml_path d)), (''dap_id'', JStr (dc_dap_id d)),
     (''station_name'', JStr (dc_station_name d)), (''ip'', JStr (dc_ip d)),
     (''subnet'', JStr (dc_subnet d)), (''gateway'', JStr (dc_gateway d)),
     (''mac'', JStr (dc_mac d)), (''canvas_x'', JInt (dc_canvas_x d)),
     (''canvas_y'', JInt (dc_canvas_y d)),
     (''drive_objects'', JArr (map asdict_drive_object (dc_drive_objects d))),
     (''slot'', JInt (dc_slot d)), (''subslot'', JInt (dc_subslot d)),
     (''module_ident'', JInt (dc_module_ident d)),
     (''submodule_ident'', JInt (dc_submodule_ident d)),
     (''module_name'', JStr (dc_module_name d)),
     (''submodule_name'', JStr (dc_submodule_name d)),
     (''input_length'', JInt (dc_input_length d)), (''output_length'', JInt (dc_output_length d))]"

definition asdict_gateway_config :: "gateway_config \<Rightarrow> json" where
  "asdict_gateway_config g = JObj [
     (''protocol'', JStr (gc_protocol g)), (''port'', JInt (gc_port g)),
     (''bind'', JStr (gc_bind g)), (''framed'', JBool (gc_framed g)),
     (''tcp_stream'', JBool (gc_tcp_stream g)), (''cpu_affinity'', JStr (gc_cpu_affinity g)),
     (''priority'', JStr (gc_priority g)), (''watchdog_ms'', JInt (gc_watchdog_ms g))]"

definition config_data :: "app_config \<Rightarrow> json" where
  "config_data cfg = JObj [
     (''adapter'', JStr (ac_adapter cfg)),
     (''gateway'', asdict_gateway_config (ac_gateway cfg)),
     (''devices'', JArr (map asdict_device_config (ac_devices cfg)))]"

text \<open>The file operations of \<open>save_config\<close>, one at a time: a crash leaves the
  files as some prefix of them has left them.\<close>

datatype fs_op = OpenTmp | DumpTmp json | ReplaceTmp

fun fs_step :: "files \<Rightarrow> fs_op \<Rightarrow> files" where
  "fs_step fs OpenTmp = fs\<lparr>config_tmp := Some Partial\<rparr>"
| "fs_step fs (DumpTmp j) = fs\<lparr>config_tmp := Some (Complete j)\<rparr>"
| "fs_step fs ReplaceTmp = fs\<lparr>config_json := config_tmp fs, config_tmp := None\<rparr>"

definition save_ops :: "app_config \<Rightarrow> fs_op list" where
  "save_ops cfg = [OpenTmp, DumpTmp (config_data cfg), ReplaceTmp]"

definition save_config :: "app_config \<Rightarrow> files \<Rightarrow> files" where
  "save_config cfg fs = foldl fs_step fs (save_ops cfg)"

section \<open>What a load reads back\<close>

named_theorems cfg_simps "evaluation of the configuration decoders on written data"

lemmas [cfg_simps] = known_def dict_get_def kw_int_def kw_str_def kw_bool_def
  fields_drive_object_def fields_device_config_def fields_gateway_config_def
  mk_drive_object_def mk_device_config_def mk_gateway_config_def

lemma load_drive_object_asdict [simp]: "load_drive_object (asdict_drive_object d) = Ok d"
  by (simp add: asdict_drive_object_def cfg_simps)

lemma map_out_asdict [simp]: "map_out load_drive_object (map asdict_drive_object ds) = Ok ds"
  by (induction ds) simp_all

lemma load_device_asdict [simp]: "load_device (asdict_device_config d) = Ok d"
  by (simp add: load_device_def asdict_device_config_def cfg_simps)

lemma load_devices_asdict [simp]: "load_devices (map asdict_device_config ds) = Ok ds"
  by (induction ds) simp_all

lemma load_gateway_asdict [simp]: "load_gateway (asdict_gateway_config g) = Ok g"
  by (simp add: asdict_gateway_config_def cfg_simps)

lemma load_data_config_data [simp]: "load_data (config_data cfg) = Ok cfg"
  by (simp add: config_data_def dict_get_def)

lemma load_devices_no_raise: "load_devices js \<noteq> Raised e"
  by (induction js) (auto split: outcome.splits)

lemma load_gateway_no_raise: "load_gateway j \<noteq> Raised e"
  by (cases j) (auto split: option.splits)

end
