(* ===== verification/Py_Str.thy ===== *)
theory Py_Str
  imports Prelude
begin

text \<open>
  The string methods of Python that the sources call, on ASCII text: case
  conversion, stripping, splitting, searching, number parsing and hexadecimal
  formatting.
\<close>

section \<open>Characters\<close>

definition ord_c :: "char \<Rightarrow> nat" where
  "ord_c c = of_char c"

definition is_space :: "char \<Rightarrow> bool" where
  "is_space c \<longleftrightarrow> ord_c c = 32 \<or> (9 \<le> ord_c c \<and> ord_c c \<le> 13) \<or> (28 \<le> ord_c c \<and> ord_c c \<le> 31)"

definition is_digit :: "char \<Rightarrow> bool" where
  "is_digit c \<longleftrightarrow> 48 \<le> ord_c c \<and> ord_c c \<le> 57"

definition upper_c :: "char \<Rightarrow> char" where
  "upper_c c = (if 97 \<le> ord_c c \<and> ord_c c \<le> 122 then char_of (ord_c c - 32) else c)"

definition lower_c :: "char \<Rightarrow> char" where
  "lower_c c = (if 65 \<le> ord_c c \<and> ord_c c \<le> 90 then char_of (ord_c c + 32) else c)"

definition upper :: "string \<Rightarrow> string" where "upper s = map upper_c s"

definition lower :: "string \<Rightarrow> string" where "lower s = map lower_c s"

lemma ord_c_bound [simp]: "ord_c c < 256"
  by (simp add: ord_c_def)

lemma ord_c_char_of [simp]: "n < 256 \<Longrightarrow> ord_c (char_of n) = n"
  by (simp add: ord_c_def)

lemma upper_c_idem [simp]: "upper_c (upper_c c) = upper_c c"
proof -
  have "ord_c c - 32 < 256"
    using ord_c_bound [of c] by linarith
  then show ?thesis
    by (auto simp: upper_c_def)
qed

lemma lower_c_idem [simp]: "lower_c (lower_c c) = lower_c c"
  by (simp add: lower_c_def)

lemma upper_idem [simp]: "upper (upper s) = upper s"
  by (simp add: upper_def)

lemma lower_idem [simp]: "lower (lower s) = lower s"
  by (simp add: lower_def)

lemma length_upper [simp]: "length (upper s) = length s"
  by (simp add: upper_def)

lemma length_lower [simp]: "length (lower s) = length s"
  by (simp add: lower_def)

section \<open>Stripping, splitting, searching\<close>

definition strip :: "string \<Rightarrow> string" where
  "strip s = rev (dropWhile is_space (rev (dropWhile is_space s)))"

text \<open>\<open>s.split()\<close>: the maximal runs of non-space characters.\<close>

fun words_from :: "string \<Rightarrow> string \<Rightarrow> string list" where
  "words_from [] cur = (if cur = [] then [] else [cur])"
| "words_from (c # cs) cur =
     (if is_space c then (if cur = [] then words_from cs [] else cur # words_from cs [])
      else words_from cs (cur @ [c]))"

definition split_ws :: "string \<Rightarrow> string list" where
  "split_ws s = words_from s []"

text \<open>\<open>s.split(c)\<close> for a one-character separator.\<close>

fun split_on :: "char \<Rightarrow> string \<Rightarrow> string list" where
  "split_on sep [] = [[]]"
| "split_on sep (c # cs) =
     (if c = sep then [] # split_on sep cs
      else (case split_on sep cs of [] \<Rightarrow> [[c]] | w # ws \<Rightarrow> (c # w) # ws))"

fun starts_with :: "string \<Rightarrow> string \<Rightarrow> bool" where
  "starts_with s [] = True"
| "starts_with [] (p # ps) = False"
| "starts_with (c # cs) (p # ps) = (c = p \<and> starts_with cs ps)"

fun contains :: "string \<Rightarrow> string \<Rightarrow> bool" where
  "contains p [] = (p = [])"
| "contains p (c # cs) = (starts_with (c # cs) p \<or> contains p cs)"

definition replace_c :: "char \<Rightarrow> char \<Rightarrow> string \<Rightarrow> string" where
  "replace_c a b s = map (\<lambda>c. if c = a then b else c) s"

text \<open>The part after the first occurrence of \<open>p\<close> (\<open>s.split(p, 1)[-1]\<close>), the
  whole string when it does not occur.\<close>

fun after_first :: "string \<Rightarrow> string \<Rightarrow> string option" where
  "after_first p [] = (if p = [] then Some [] else None)"
| "after_first p (c # cs) =
     (if starts_with (c # cs) p then Some (drop (length p) (c # cs)) else after_first p cs)"

definition split1_last :: "string \<Rightarrow> string \<Rightarrow> string" where
  "split1_last p s = (case after_first p s of None \<Rightarrow> s | Some t \<Rightarrow> t)"

lemma split_on_nonempty [simp]: "split_on sep s \<noteq> []"
  by (induction s) (auto split: list.splits)

lemma words_from_cur: "cur \<noteq> [] \<Longrightarrow> words_from s cur \<noteq> []"
  by (induction s cur rule: words_from.induct) auto

lemma words_from_nonempty: "\<exists>c \<in> set s. \<not> is_space c \<Longrightarrow> words_from s cur \<noteq> []"
  by (induction s cur rule: words_from.induct) (auto simp: words_from_cur)

lemma split_ws_nonempty: "strip s \<noteq> [] \<Longrightarrow> split_ws s \<noteq> []"
proof -
  assume "strip s \<noteq> []"
  then have "\<exists>c \<in> set (dropWhile is_space s). \<not> is_space c"
    by (auto simp: strip_def)
  then have "\<exists>c \<in> set s. \<not> is_space c"
    by (meson set_dropWhileD)
  then show ?thesis
    by (simp add: split_ws_def words_from_nonempty)
qed

lemma in_set_dropWhile: "c \<in> set s \<Longrightarrow> \<not> P c \<Longrightarrow> c \<in> set (dropWhile P s)"
  by (induction s) auto

lemma in_set_strip: "c \<in> set s \<Longrightarrow> \<not> is_space c \<Longrightarrow> c \<in> set (strip s)"
  by (simp add: strip_def in_set_dropWhile)

section \<open>Numbers\<close>

definition hex_digit :: "char \<Rightarrow> nat option" where
  "hex_digit c =
     (let n = ord_c c in
      if 48 \<le> n \<and> n \<le> 57 then Some (n - 48)
      else if 65 \<le> n \<and> n \<le> 70 then Some (n - 55)
      else if 97 \<le> n \<and> n \<le> 102 then Some (n - 87)
      else None)"

text \<open>The digits of a literal in base \<open>b\<close>, with single underscores between
  digits, as \<open>int(s, b)\<close> accepts them.\<close>

fun digits_val :: "nat \<Rightarrow> string \<Rightarrow> nat \<Rightarrow> nat option" where
  "digits_val b [] acc = Some acc"
| "digits_val b (c # cs) acc =
     (if c = CHR ''_'' then
        (case cs of [] \<Rightarrow> None | d # _ \<Rightarrow> if d = CHR ''_'' then None else digits_val b cs acc)
      else (case hex_digit c of None \<Rightarrow> None
            | Some v \<Rightarrow> if v < b then digits_val b cs (acc * b + v) else None))"

definition literal_val :: "nat \<Rightarrow> string \<Rightarrow> nat option" where
  "literal_val b s = (case s of [] \<Rightarrow> None | c # _ \<Rightarrow> if c = CHR ''_'' then None else digits_val b s 0)"

text \<open>A sign, then the rest.\<close>

definition signed_val :: "(string \<Rightarrow> nat option) \<Rightarrow> string \<Rightarrow> int option" where
  "signed_val f s =
     (case s of
        [] \<Rightarrow> None
      | c # cs \<Rightarrow> if c = CHR ''-'' then map_option (\<lambda>n. - int n) (f cs)
                  else if c = CHR ''+'' then map_option int (f cs)
                  else map_option int (f s))"

definition opt_prefix :: "string \<Rightarrow> string \<Rightarrow> string \<Rightarrow> string" where
  "opt_prefix p q s = (if starts_with s p \<or> starts_with s q then drop 2 s else s)"

text \<open>After a base prefix one underscore may follow (\<open>0x_ff\<close>).\<close>

definition after_prefix :: "nat \<Rightarrow> string \<Rightarrow> nat option" where
  "after_prefix b s = literal_val b (case s of [] \<Rightarrow> [] | c # cs \<Rightarrow> if c = CHR ''_'' then cs else s)"

text \<open>\<open>int(s)\<close>, \<open>int(s, 16)\<close> and \<open>int(s, 0)\<close>.  The last reads the base off
  the prefix and refuses a decimal literal with leading zeros unless it is zero.\<close>

definition parse_dec :: "string \<Rightarrow> int option" where
  "parse_dec s = signed_val (literal_val 10) (strip s)"

definition parse_hex :: "string \<Rightarrow> int option" where
  "parse_hex s = signed_val
     (\<lambda>t. if starts_with t ''0x'' \<or> starts_with t ''0X'' then after_prefix 16 (drop 2 t)
          else literal_val 16 t) (strip s)"

definition auto_val :: "string \<Rightarrow> nat option" where
  "auto_val t =
     (if starts_with t ''0x'' \<or> starts_with t ''0X'' then after_prefix 16 (drop 2 t)
      else if starts_with t ''0o'' \<or> starts_with t ''0O'' then after_prefix 8 (drop 2 t)
      else if starts_with t ''0b'' \<or> starts_with t ''0B'' then after_prefix 2 (drop 2 t)
      else (case literal_val 10 t of
              None \<Rightarrow> None
            | Some n \<Rightarrow> if starts_with t ''0'' \<and> n \<noteq> 0 then None else Some n))"

definition parse_auto :: "string \<Rightarrow> int option" where
  "parse_auto s = signed_val auto_val (strip s)"

text \<open>Upper-case hexadecimal with a minimal width (\<open>f"{n:04X}"\<close> and kin).\<close>

definition hex_char :: "nat \<Rightarrow> char" where
  "hex_char n = (if n < 10 then char_of (n + 48) else char_of (n + 55))"

fun hex_digits :: "nat \<Rightarrow> string" where
  "hex_digits n = (if n < 16 then [hex_char n] else hex_digits (n div 16) @ [hex_char (n mod 16)])"

declare hex_digits.simps [simp del]

definition hex_fmt :: "nat \<Rightarrow> nat \<Rightarrow> string" where
  "hex_fmt w n = (let d = hex_digits n in replicate (w - length d) (CHR ''0'') @ d)"

definition hex_byte :: "byte \<Rightarrow> string" where
  "hex_byte b = [hex_char (unat b div 16), hex_char (unat b mod 16)]"

text \<open>A decimal number, as \<open>str\<close> writes it.\<close>

fun dec_digits :: "nat \<Rightarrow> string" where
  "dec_digits n = (if n < 10 then [char_of (n + 48)] else dec_digits (n div 10) @ [char_of (n mod 10 + 48)])"

declare dec_digits.simps [simp del]

definition dec_int :: "int \<Rightarrow> string" where
  "dec_int v = (if v < 0 then ''-'' @ dec_digits (nat (- v)) else dec_digits (nat v))"

text \<open>\<open>sep.join(parts)\<close>.\<close>

fun join :: "string \<Rightarrow> string list \<Rightarrow> string" where
  "join sep [] = []"
| "join sep [x] = x"
| "join sep (x # y # ys) = x @ sep @ join sep (y # ys)"

lemma hex_digit_hex_char [simp]: "n < 16 \<Longrightarrow> hex_digit (hex_char n) = Some n"
  by (simp add: hex_digit_def hex_char_def Let_def)

lemma ord_c_hex_char: "n < 16 \<Longrightarrow> ord_c (hex_char n) = (if n < 10 then n + 48 else n + 55)"
  by (simp add: hex_char_def)

lemma hex_char_not [simp]:
  assumes "n < 16"
  shows "hex_char n \<noteq> CHR '':''" and "hex_char n \<noteq> CHR ''_''"
proof -
  have "ord_c (CHR '':'') = 58" "ord_c (CHR ''_'') = 95"
    by (simp_all add: ord_c_def)
  moreover have "ord_c (hex_char n) \<noteq> 58" "ord_c (hex_char n) \<noteq> 95"
    using assms by (auto simp: ord_c_hex_char)
  ultimately show "hex_char n \<noteq> CHR '':''" "hex_char n \<noteq> CHR ''_''"
    by metis+
qed

text \<open>Splitting what was joined.\<close>

lemma split_on_append: "sep \<notin> set w \<Longrightarrow> split_on sep (w @ sep # s) = w # split_on sep s"
  by (induction w) auto

lemma split_on_single: "sep \<notin> set w \<Longrightarrow> split_on sep w = [w]"
  by (induction w) auto

lemma split_on_join: "ws \<noteq> [] \<Longrightarrow> list_all (\<lambda>w. sep \<notin> set w) ws \<Longrightarrow> split_on sep (join [sep] ws) = ws"
  by (induction "[sep]" ws rule: join.induct) (simp_all add: split_on_append split_on_single)

lemma unat_byte_div: "unat (b :: byte) div 16 < 16"
  using less_mult_imp_div_less [of "unat b" 16 16] by simp

text \<open>\<open>round\<close> rounds halves to even.\<close>

definition py_round :: "rat \<Rightarrow> int" where
  "py_round x =
     (let f = \<lfloor>x\<rfloor>; d = x - of_int f
      in if d < 1 / 2 then f else if d > 1 / 2 then f + 1 else if even f then f else f + 1)"

text \<open>The dash of the sources, in UTF-8.\<close>

definition em_dash :: string where
  "em_dash = [char_of (0xE2 :: nat), char_of (0x80 :: nat), char_of (0x94 :: nat)]"

section \<open>Reading back what was written\<close>

lemma strip_id: "list_all (\<lambda>c. \<not> is_space c) s \<Longrightarrow> strip s = s"
proof -
  assume *: "list_all (\<lambda>c. \<not> is_space c) s"
  have id: "dropWhile is_space t = t" if "list_all (\<lambda>c. \<not> is_space c) t" for t
    using that by (cases t) simp_all
  show ?thesis using * by (simp add: strip_def id)
qed

lemma digits_val_append:
  "CHR ''_'' \<notin> set xs \<Longrightarrow>
   digits_val b (xs @ ys) acc = (case digits_val b xs acc of None \<Rightarrow> None | Some a \<Rightarrow> digits_val b ys a)"
  by (induction xs arbitrary: acc) (auto split: option.split)

lemma hex_digit_dec: "(k :: nat) < 10 \<Longrightarrow> hex_digit (char_of (k + 48)) = Some k"
  by (simp add: hex_digit_def Let_def)

lemma dec_char_not:
  assumes "(k :: nat) < 10"
  shows "char_of (k + 48) \<noteq> CHR ''_''" "char_of (k + 48) \<noteq> CHR ''-''" "char_of (k + 48) \<noteq> CHR ''+''"
    "\<not> is_space (char_of (k + 48))"
proof -
  have k: "ord_c (char_of (k + 48)) = k + 48" using assms by simp
  have o: "ord_c (CHR ''_'') = 95" "ord_c (CHR ''-'') = 45" "ord_c (CHR ''+'') = 43"
    by (simp_all add: ord_c_def)
  have no: "char_of (k + 48) \<noteq> c" if "ord_c c \<noteq> k + 48" for c
    using k that by metis
  show "char_of (k + 48) \<noteq> CHR ''_''" "char_of (k + 48) \<noteq> CHR ''-''" "char_of (k + 48) \<noteq> CHR ''+''"
    by (rule no, use o assms in linarith)+
  show "\<not> is_space (char_of (k + 48))"
    using k by (simp add: is_space_def)
qed

lemma dec_digits_chars: "c \<in> set (dec_digits n) \<Longrightarrow> \<exists>k. k < (10 :: nat) \<and> c = char_of (k + 48)"
proof (induction n rule: dec_digits.induct)
  case (1 n)
  show ?case
  proof (cases "n < 10")
    case True
    with "1.prems" show ?thesis by (subst (asm) dec_digits.simps) auto
  next
    case False
    with "1.prems" have "c \<in> set (dec_digits (n div 10)) \<or> c = char_of (n mod 10 + 48)"
      by (subst (asm) dec_digits.simps) auto
    moreover have "n mod 10 < 10" by simp
    ultimately show ?thesis using "1.IH" False by blast
  qed
qed

lemma dec_digits_no: "CHR ''_'' \<notin> set (dec_digits n)" "list_all (\<lambda>c. \<not> is_space c) (dec_digits n)"
  using dec_digits_chars dec_char_not by (fastforce simp: list_all_iff)+

lemma dec_digits_nonempty [simp]: "dec_digits n \<noteq> []"
  by (subst dec_digits.simps) simp

lemma digits_val_dec: "digits_val 10 (dec_digits n) 0 = Some n"
proof (induction n rule: dec_digits.induct)
  case (1 n)
  show ?case
  proof (cases "n < 10")
    case True
    then show ?thesis using dec_char_not(1) [of n] by (subst dec_digits.simps) (simp add: hex_digit_dec)
  next
    case False
    have m: "n mod 10 < 10" by simp
    show ?thesis
      using False "1.IH" dec_digits_no(1) dec_char_not(1) [OF m] hex_digit_dec [OF m]
      by (subst dec_digits.simps) (simp add: digits_val_append)
  qed
qed

lemma parse_dec_digits [simp]: "parse_dec (dec_digits n) = Some (int n)"
proof -
  obtain c cs where d: "dec_digits n = c # cs" using dec_digits_nonempty [of n] by (cases "dec_digits n") auto
  have "c \<in> set (dec_digits n)" by (simp add: d)
  then obtain k :: nat where "k < 10" "c = char_of (k + 48)" using dec_digits_chars by blast
  then have c: "c \<noteq> CHR ''_''" "c \<noteq> CHR ''-''" "c \<noteq> CHR ''+''" using dec_char_not [of k] by simp_all
  have "strip (dec_digits n) = c # cs" using strip_id [OF dec_digits_no(2) [of n]] d by simp
  moreover have "literal_val 10 (c # cs) = Some n" using digits_val_dec [of n] c(1) by (simp add: literal_val_def d)
  ultimately show ?thesis using c by (simp add: parse_dec_def signed_val_def)
qed

lemma hex_digits_chars: "c \<in> set (hex_digits n) \<Longrightarrow> \<exists>k<16. c = hex_char k"
proof (induction n rule: hex_digits.induct)
  case (1 n)
  show ?case
  proof (cases "n < 16")
    case True
    with "1.prems" show ?thesis by (subst (asm) hex_digits.simps) auto
  next
    case False
    with "1.prems" have "c \<in> set (hex_digits (n div 16)) \<or> c = hex_char (n mod 16)"
      by (subst (asm) hex_digits.simps) auto
    moreover have "n mod 16 < 16" by simp
    ultimately show ?thesis using "1.IH" False by blast
  qed
qed

lemma hex_char_zero: "hex_char 0 = CHR ''0''"
  by (simp add: hex_char_def char_of_def bit_0)

lemma hex_fmt_chars: "c \<in> set (hex_fmt w n) \<Longrightarrow> \<exists>k<16. c = hex_char k"
  using hex_digits_chars by (fastforce simp: hex_fmt_def Let_def hex_char_zero [symmetric] split: if_splits)

lemma digits_val_hex: "digits_val 16 (hex_digits n) 0 = Some n"
proof (induction n rule: hex_digits.induct)
  case (1 n)
  have no: "CHR ''_'' \<notin> set (hex_digits k)" for k
    using hex_digits_chars hex_char_not(2) by fastforce
  show ?case
  proof (cases "n < 16")
    case True
    then show ?thesis using hex_char_not(2) [of n] by (subst hex_digits.simps) simp
  next
    case False
    have m: "n mod 16 < 16" by simp
    show ?thesis
      using False "1.IH" no hex_char_not(2) [OF m] hex_digit_hex_char [OF m]
      by (subst hex_digits.simps) (simp add: digits_val_append)
  qed
qed

lemma hex_char_no_space: "k < 16 \<Longrightarrow> \<not> is_space (hex_char k)"
  using ord_c_hex_char [of k] by (auto simp: is_space_def)

text \<open>A number as the windows show it, \<open>f''0x{n:04X}''\<close>, reads back.\<close>

lemma parse_hex_fmt: "parse_hex (''0x'' @ hex_fmt w n) = Some (int n)"
proof -
  have zero: "digits_val 16 (replicate k (CHR ''0'') @ s) 0 = digits_val 16 s 0" for k s
    by (induction k) (simp_all add: hex_digit_def ord_c_def)
  have ne: "hex_fmt w n \<noteq> []" by (simp add: hex_fmt_def Let_def) (subst hex_digits.simps, simp)
  then obtain c cs where d: "hex_fmt w n = c # cs" by (cases "hex_fmt w n") auto
  have "c \<in> set (hex_fmt w n)" by (simp add: d)
  then obtain k where "k < 16" "c = hex_char k" using hex_fmt_chars by blast
  then have c: "c \<noteq> CHR ''_''" using hex_char_not(2) [of k] by simp
  have "\<not> is_space c'" if "c' \<in> set (hex_fmt w n)" for c'
    using hex_fmt_chars [OF that] hex_char_no_space by blast
  then have sp: "list_all (\<lambda>c. \<not> is_space c) (''0x'' @ hex_fmt w n)"
    by (simp add: list_all_iff is_space_def ord_c_def)
  have "digits_val 16 (hex_fmt w n) 0 = Some n"
    by (simp add: hex_fmt_def Let_def zero digits_val_hex)
  then have "literal_val 16 (hex_fmt w n) = Some n"
    using c by (simp add: literal_val_def d)
  with c d show ?thesis
    unfolding parse_hex_def strip_id [OF sp] by (simp add: signed_val_def after_prefix_def)
qed

end
