(* ===== verification/Framing.thy ===== *)
theory Framing
  imports Prelude
begin

text \<open>
  The per-drive framing of the client protocol: a block is
  \<open>[SOF][DriveID][Len, two bytes big-endian][data][EOF]\<close>.  The constants are
  shared by \<open>gateway_server.py\<close> and \<open>vfd_tcp_client.py\<close>.  Both sides walk a
  buffer with the same loop; here that loop has a reference in \<open>scan\<close>, and the
  locale \<open>block_codec\<close> states what a writer and a reader of blocks owe each
  other.
\<close>

definition FRAME_SOF :: bytes where "FRAME_SOF = [0xAA, 0x55]"

definition FRAME_EOF :: bytes where "FRAME_EOF = [0x55, 0xAA]"

definition FRAME_OVERHEAD :: nat where
  "FRAME_OVERHEAD = length FRAME_SOF + 1 + 2 + length FRAME_EOF"

lemma FRAME_OVERHEAD_7: "FRAME_OVERHEAD = 7"
  by (simp add: FRAME_OVERHEAD_def FRAME_SOF_def FRAME_EOF_def)

text \<open>The bytes of one block.\<close>

definition frame_block :: "nat \<Rightarrow> bytes \<Rightarrow> bytes" where
  "frame_block i d = FRAME_SOF @ [word_of_nat i] @ be16 (int (length d)) @ d @ FRAME_EOF"

lemma length_frame_block [len_simps]: "length (frame_block i d) = FRAME_OVERHEAD + length d"
  by (simp add: frame_block_def FRAME_OVERHEAD_7 FRAME_SOF_def FRAME_EOF_def)

section \<open>The walk over a buffer\<close>

text \<open>The reading loop looks at the buffer from a position on: too short a rest ends
  it, a rest that does not open a block, or whose block is not closed where its length
  says, is advanced by one byte, and a block is taken whole.\<close>

definition opens_block :: "bytes \<Rightarrow> bool" where
  "opens_block bs \<longleftrightarrow> take 2 bs = FRAME_SOF"

definition block_len :: "bytes \<Rightarrow> nat" where
  "block_len bs = nat (val16 (bs ! 3) (bs ! 4))"

definition closes_block :: "bytes \<Rightarrow> bool" where
  "closes_block bs \<longleftrightarrow>
     5 + block_len bs + 2 \<le> length bs \<and> take 2 (drop (5 + block_len bs) bs) = FRAME_EOF"

function scan :: "bytes \<Rightarrow> (nat \<times> bytes) list" where
  "scan bs =
     (if length bs < FRAME_OVERHEAD then []
      else if opens_block bs \<and> closes_block bs
      then (unat (bs ! 2), take (block_len bs) (drop 5 bs)) # scan (drop (7 + block_len bs) bs)
      else scan (drop 1 bs))"
  by pat_completeness auto
termination
  by (relation "measure length") (auto simp: FRAME_OVERHEAD_7)

declare scan.simps [simp del]

lemma scan_short: "length bs < 7 \<Longrightarrow> scan bs = []"
  by (subst scan.simps) (simp add: FRAME_OVERHEAD_7)

lemma scan_skip:
  "7 \<le> length bs \<Longrightarrow> \<not> (opens_block bs \<and> closes_block bs) \<Longrightarrow> scan bs = scan (drop 1 bs)"
  by (subst scan.simps) (auto simp: FRAME_OVERHEAD_7)

lemma scan_take:
  "7 \<le> length bs \<Longrightarrow> opens_block bs \<Longrightarrow> closes_block bs \<Longrightarrow>
   scan bs = (unat (bs ! 2), take (block_len bs) (drop 5 bs)) # scan (drop (7 + block_len bs) bs)"
  by (subst scan.simps) (simp add: FRAME_OVERHEAD_7)

text \<open>What a scan can return: identifiers of one byte, and payloads that fit the
  length field and the buffer.\<close>

lemma scan_bounds:
  "(i, d) \<in> set (scan bs) \<Longrightarrow> i < 256 \<and> length d < 65536 \<and> length d + 7 \<le> length bs"
proof (induction bs rule: scan.induct)
  case (1 bs)
  show ?case
  proof (cases "length bs < 7")
    case True
    with 1 show ?thesis by (simp add: scan_short)
  next
    case long: False
    show ?thesis
    proof (cases "opens_block bs \<and> closes_block bs")
      case True
      have len: "block_len bs < 65536" "5 + block_len bs + 2 \<le> length bs"
        using True by (simp_all add: block_len_def closes_block_def nat_less_iff)
      have byte: "unat (bs ! 2) < 256"
        by simp
      from "1.prems" True long consider
          "i = unat (bs ! 2)" "d = take (block_len bs) (drop 5 bs)"
        | "(i, d) \<in> set (scan (drop (7 + block_len bs) bs))"
        by (auto simp: scan_take)
      then show ?thesis
      proof cases
        case 1
        with len byte show ?thesis by auto
      next
        case 2
        then show ?thesis
          using "1.IH"(1) long True by (fastforce simp: FRAME_OVERHEAD_7)
      qed
    next
      case False
      then show ?thesis
        using "1.IH"(2) "1.prems" long by (fastforce simp: FRAME_OVERHEAD_7 scan_skip)
    qed
  qed
qed

text \<open>A block in front of a buffer is taken, whatever follows it.\<close>

lemma frame_block_parts:
  assumes "length d < 65536"
  shows "opens_block (frame_block i d @ rest)"
    and "block_len (frame_block i d @ rest) = length d"
    and "closes_block (frame_block i d @ rest)"
    and "(frame_block i d @ rest) ! 2 = word_of_nat i"
    and "drop 5 (frame_block i d @ rest) = d @ FRAME_EOF @ rest"
proof -
  show "opens_block (frame_block i d @ rest)"
    by (simp add: opens_block_def frame_block_def FRAME_SOF_def)
  show len: "block_len (frame_block i d @ rest) = length d"
  proof -
    have "(frame_block i d @ rest) ! 3 = be16 (int (length d)) ! 0"
      and "(frame_block i d @ rest) ! 4 = be16 (int (length d)) ! Suc 0"
      by (simp_all add: frame_block_def FRAME_SOF_def nth_append)
    with assms show ?thesis
      by (simp add: block_len_def bytes_simps)
  qed
  show dr: "drop 5 (frame_block i d @ rest) = d @ FRAME_EOF @ rest"
    by (simp add: frame_block_def FRAME_SOF_def be16_def)
  have "drop (5 + length d) (frame_block i d @ rest) = FRAME_EOF @ rest"
    by (metis add.commute append_eq_conv_conj dr drop_drop)
  then show "closes_block (frame_block i d @ rest)"
    by (simp add: closes_block_def len len_simps FRAME_OVERHEAD_7 FRAME_EOF_def)
  show "(frame_block i d @ rest) ! 2 = word_of_nat i"
    by (simp add: frame_block_def FRAME_SOF_def)
qed

lemma scan_frame_block:
  assumes "i < 256" and "length d < 65536"
  shows "scan (frame_block i d @ rest) = (i, d) # scan rest"
proof -
  note parts = frame_block_parts [OF assms(2), of i rest]
  let ?bs = "frame_block i d @ rest"
  have "drop (7 + length d) ?bs = rest"
    by (simp add: len_simps FRAME_OVERHEAD_7)
  moreover have "take (length d) (drop 5 ?bs) = d"
    by (simp only: parts) simp
  moreover have "unat (word_of_nat i :: byte) = i"
    using assms(1) by (simp add: bytes_simps)
  moreover have "scan ?bs = (unat (?bs ! 2), take (block_len ?bs) (drop 5 ?bs))
      # scan (drop (7 + block_len ?bs) ?bs)"
    by (rule scan_take) (simp_all add: parts len_simps FRAME_OVERHEAD_7)
  ultimately show ?thesis
    by (simp only: parts)
qed

section \<open>Which blocks a buffer holds\<close>

text \<open>The reading of a buffer that needs no loop: a block begins where the buffer continues
  with the bytes of some block, end marker included, and the blocks of a buffer are the
  leftmost ones that do not overlap.  Whatever lies between them, be it noise, a lone start
  marker or a block with a wrong length or end, begins no block.\<close>

definition starts_block :: "bytes \<Rightarrow> bool" where
  "starts_block bs \<longleftrightarrow> (\<exists>i d rest. i < 256 \<and> length d < 65536 \<and> bs = frame_block i d @ rest)"

inductive leftmost_blocks :: "bytes \<Rightarrow> (nat \<times> bytes) list \<Rightarrow> bool" where
  no_block: "\<forall>k. \<not> starts_block (drop k bs) \<Longrightarrow> leftmost_blocks bs []"
| next_block: "\<forall>k < length gap. \<not> starts_block (drop k (gap @ frame_block i d @ rest)) \<Longrightarrow>
    i < 256 \<Longrightarrow> length d < 65536 \<Longrightarrow> leftmost_blocks rest ps \<Longrightarrow>
    leftmost_blocks (gap @ frame_block i d @ rest) ((i, d) # ps)"

lemma take2_split: "take 2 xs = [a, b] \<Longrightarrow> xs = a # b # drop 2 xs"
  by (metis append_take_drop_id append_Cons append_Nil)

lemma be16_val16: "be16 (val16 a b) = [a, b]"
proof -
  have "(uint a * 256 + uint b) div 256 = uint a"
    using uint_lt2p [of b] by simp
  moreover have "(word_of_int (uint a * 256 + uint b) :: byte) = word_of_int (uint b)"
    unfolding word_of_int_eq_iff by (simp add: take_bit_eq_mod)
  ultimately show ?thesis
    by (simp add: be16_def val16_def del: of_int_add of_int_mult)
qed

lemma starts_block_iff: "starts_block bs \<longleftrightarrow> 7 \<le> length bs \<and> opens_block bs \<and> closes_block bs"
proof
  assume "starts_block bs"
  then obtain i d rest where b: "length d < 65536" "bs = frame_block i d @ rest"
    by (auto simp: starts_block_def)
  then show "7 \<le> length bs \<and> opens_block bs \<and> closes_block bs"
    using frame_block_parts [OF b(1), of i rest] by (simp add: len_simps FRAME_OVERHEAD_7)
next
  assume r: "7 \<le> length bs \<and> opens_block bs \<and> closes_block bs"
  let ?n = "block_len bs"
  let ?d = "take ?n (drop 5 bs)"
  have "take 2 bs = [0xAA, 0x55]"
    using r by (simp add: opens_block_def FRAME_SOF_def)
  then have "bs = 0xAA # 0x55 # drop 2 bs"
    by (rule take2_split)
  moreover have "drop 2 bs = bs ! 2 # bs ! 3 # bs ! 4 # drop 5 bs"
    using r by (simp add: Cons_nth_drop_Suc numeral_eq_Suc)
  moreover have "drop 5 bs = ?d @ FRAME_EOF @ drop (7 + ?n) bs"
  proof -
    have "take 2 (drop (5 + ?n) bs) = [0x55, 0xAA]"
      using r by (simp add: closes_block_def FRAME_EOF_def)
    then have "drop (5 + ?n) bs = FRAME_EOF @ drop (7 + ?n) bs"
      using take2_split [of "drop (5 + ?n) bs"] by (simp add: FRAME_EOF_def add.commute)
    then show ?thesis
      by (metis add.commute append_take_drop_id drop_drop)
  qed
  moreover have "length ?d = ?n"
    using r by (auto simp: closes_block_def)
  moreover have n: "?n < 65536"
    by (simp add: block_len_def nat_less_iff)
  moreover have "be16 (int ?n) = [bs ! 3, bs ! 4]"
    by (simp add: block_len_def be16_val16)
  moreover have "(word_of_nat (unat (bs ! 2)) :: byte) = bs ! 2"
    by simp
  ultimately have "bs = frame_block (unat (bs ! 2)) ?d @ drop (7 + ?n) bs"
    by (simp add: frame_block_def FRAME_SOF_def)
  moreover have "unat (bs ! 2) < 256"
    by simp
  ultimately show "starts_block bs"
    using n \<open>length ?d = ?n\<close> unfolding starts_block_def by metis
qed

lemma scan_no_start: "\<not> starts_block (x # bs) \<Longrightarrow> scan (x # bs) = scan bs"
  by (cases "7 \<le> length (x # bs)") (auto simp: starts_block_iff scan_skip scan_short)

lemma scan_gap:
  "\<forall>k < length gap. \<not> starts_block (drop k (gap @ rest)) \<Longrightarrow> scan (gap @ rest) = scan rest"
proof (induction gap)
  case Nil
  then show ?case by simp
next
  case (Cons x gap)
  have "\<not> starts_block (x # gap @ rest)"
    using Cons.prems by (metis append_Cons drop0 length_greater_0_conv list.distinct(1))
  moreover have "\<forall>k < length gap. \<not> starts_block (drop k (gap @ rest))"
    using Cons.prems by (metis Suc_less_eq append_Cons drop_Suc_Cons length_Cons)
  ultimately show ?case
    using Cons.IH by (simp add: scan_no_start)
qed

lemma leftmost_blocks_scan: "leftmost_blocks bs ps \<Longrightarrow> ps = scan bs"
proof (induction rule: leftmost_blocks.induct)
  case (no_block bs)
  then show ?case
    using scan_gap [of bs "[]"] by (simp add: scan_short)
next
  case (next_block gap i d rest ps)
  then show ?case
    by (simp add: scan_gap scan_frame_block)
qed

lemma starts_drop_Cons:
  "\<not> starts_block (x # bs) \<Longrightarrow> (\<And>j. k = Suc j \<Longrightarrow> \<not> starts_block (drop j bs)) \<Longrightarrow>
   \<not> starts_block (drop k (x # bs))"
  by (cases k) simp_all

lemma leftmost_blocks_skip:
  assumes "leftmost_blocks bs ps" and "\<not> starts_block (x # bs)"
  shows "leftmost_blocks (x # bs) ps"
  using assms
proof cases
  case no_block
  then show ?thesis
    using starts_drop_Cons [OF assms(2)] by (auto intro!: leftmost_blocks.no_block)
next
  case (next_block gap i d rest ps')
  have "\<forall>k < length (x # gap). \<not> starts_block (drop k ((x # gap) @ frame_block i d @ rest))"
    using next_block assms(2) starts_drop_Cons [of x bs] by auto
  then have "leftmost_blocks ((x # gap) @ frame_block i d @ rest) ((i, d) # ps')"
    using next_block by (intro leftmost_blocks.next_block)
  with next_block show ?thesis by simp
qed

lemma leftmost_blocks_ex: "leftmost_blocks bs (scan bs)"
proof (induction "length bs" arbitrary: bs rule: less_induct)
  case less
  show ?case
  proof (cases "starts_block bs")
    case True
    then obtain i d rest where b: "i < 256" "length d < 65536" "bs = frame_block i d @ rest"
      by (auto simp: starts_block_def)
    then have "leftmost_blocks rest (scan rest)"
      by (intro less) (simp add: len_simps FRAME_OVERHEAD_7)
    then show ?thesis
      using leftmost_blocks.next_block [of "[]" i d rest] b by (simp add: scan_frame_block)
  next
    case False
    show ?thesis
    proof (cases bs)
      case Nil
      then show ?thesis
        by (auto simp: scan_short starts_block_iff intro: leftmost_blocks.no_block)
    next
      case (Cons x bs')
      then have "leftmost_blocks bs' (scan bs')"
        by (intro less) simp
      with Cons False show ?thesis
        by (simp add: leftmost_blocks_skip scan_no_start)
    qed
  qed
qed

section \<open>What writers and readers of blocks owe each other\<close>

locale block_codec =
  fixes enc :: "nat \<Rightarrow> bytes \<Rightarrow> bytes" and dec :: "bytes \<Rightarrow> (nat \<times> bytes) list"
  assumes dec_nil: "dec [] = []"
    and dec_enc: "i < 256 \<Longrightarrow> length d < 65536 \<Longrightarrow> dec (enc i d @ rest) = (i, d) # dec rest"
begin

definition enc_all :: "bytes list \<Rightarrow> bytes" where
  "enc_all ds = concat (map (\<lambda>(i, d). enc i d) (enumerate 0 ds))"

lemma dec_concat:
  "\<forall>(i, d) \<in> set ps. i < 256 \<and> length d < 65536 \<Longrightarrow>
   dec (concat (map (\<lambda>(i, d). enc i d) ps) @ rest) = ps @ dec rest"
  by (induction ps) (auto simp: dec_enc)

lemma dec_enc_all:
  assumes "length ds \<le> 256" and "\<forall>d \<in> set ds. length d < 65536"
  shows "dec (enc_all ds) = enumerate 0 ds"
proof -
  have "\<forall>(i, d) \<in> set (enumerate 0 ds). i < 256 \<and> length d < 65536"
    using assms by (auto simp: in_set_enumerate_eq)
  then show ?thesis
    using dec_concat [of "enumerate 0 ds" "[]"] by (simp add: enc_all_def dec_nil)
qed

end

interpretation blocks: block_codec frame_block scan
  by unfold_locales (simp_all add: scan_short scan_frame_block)

section \<open>Walkers over the blocks of a buffer\<close>

text \<open>The gateway and its client both walk a buffer by position: act on a block whose
  markers are right, advance by one byte otherwise.  \<open>act\<close> is the body of the
  loop on the buffer, \<open>put\<close> its effect on the payload.\<close>

locale block_walker =
  fixes walk :: "bytes \<Rightarrow> nat \<Rightarrow> 's \<Rightarrow> 's"
    and act :: "nat \<Rightarrow> nat \<Rightarrow> nat \<Rightarrow> bytes \<Rightarrow> 's \<Rightarrow> 's"
    and put :: "nat \<times> bytes \<Rightarrow> 's \<Rightarrow> 's"
  assumes walk_unfold: "walk data pos s =
     (if pos + FRAME_OVERHEAD \<le> length data then
        if py_slice pos (pos + 2) data \<noteq> FRAME_SOF then walk data (pos + 1) s
        else
          (let drive = unat (data ! (pos + 2));
               len = nat (val16 (data ! (pos + 3)) (data ! (pos + 4)));
               ds = pos + 5;
               de = ds + len
           in if de + 2 > length data \<or> py_slice de (de + 2) data \<noteq> FRAME_EOF
              then walk data (pos + 1) s
              else walk data (de + 2) (act drive len ds data s))
      else s)"
    and act_put: "ds + len \<le> length data \<Longrightarrow> act i len ds data s = put (i, take len (drop ds data)) s"
begin

text \<open>One step of the walk, with its tests read off the rest of the buffer.\<close>

lemma walk_step:
  assumes long: "pos + FRAME_OVERHEAD \<le> length data"
  defines "bs \<equiv> drop pos data"
  shows "walk data pos s =
    (if opens_block bs \<and> closes_block bs
     then walk data (pos + 5 + block_len bs + 2)
            (put (unat (bs ! 2), take (block_len bs) (drop 5 bs)) s)
     else walk data (pos + 1) s)"
proof -
  have slice: "py_slice pos (pos + 2) data = take 2 bs"
    by (simp add: py_slice_def bs_def)
  have drive: "data ! (pos + 2) = bs ! 2"
    and len: "nat (val16 (data ! (pos + 3)) (data ! (pos + 4))) = block_len bs"
    using long by (simp_all add: bs_def block_len_def FRAME_OVERHEAD_7)
  have eof: "py_slice (pos + 5 + block_len bs) (pos + 5 + block_len bs + 2) data
      = take 2 (drop (5 + block_len bs) bs)"
    by (simp add: py_slice_def bs_def add.commute add.left_commute)
  have close: "(pos + 5 + block_len bs + 2 > length data \<or>
      py_slice (pos + 5 + block_len bs) (pos + 5 + block_len bs + 2) data \<noteq> FRAME_EOF)
      = (\<not> closes_block bs)"
    unfolding closes_block_def eof using long by (auto simp: FRAME_OVERHEAD_7 bs_def)
  have block: "act (unat (bs ! 2)) (block_len bs) (pos + 5) data s
      = put (unat (bs ! 2), take (block_len bs) (drop 5 bs)) s" if "closes_block bs"
    using that long
    by (subst act_put) (auto simp: closes_block_def FRAME_OVERHEAD_7 bs_def add.commute)
  show ?thesis
    unfolding walk_unfold [of data pos s] Let_def slice drive len close
    using long by (simp add: block opens_block_def)
qed

lemma walk_end: "\<not> pos + FRAME_OVERHEAD \<le> length data \<Longrightarrow> walk data pos s = s"
  by (subst walk_unfold) simp

lemma walk_scan: "walk data pos s = fold put (scan (drop pos data)) s"
proof (induction "length data - pos" arbitrary: pos s rule: less_induct)
  case less
  let ?bs = "drop pos data"
  show ?case
  proof (cases "pos + FRAME_OVERHEAD \<le> length data")
    case False
    then show ?thesis
      by (simp add: walk_end scan_short FRAME_OVERHEAD_7)
  next
    case long: True
    then have IH: "pos < p \<Longrightarrow> walk data p s' = fold put (scan (drop p data)) s'" for p s'
      by (intro less) (simp add: FRAME_OVERHEAD_7)
    show ?thesis
    proof (cases "opens_block ?bs \<and> closes_block ?bs")
      case False
      with long show ?thesis
        by (auto simp: walk_step IH scan_skip FRAME_OVERHEAD_7)
    next
      case True
      with long show ?thesis
        by (simp add: walk_step IH scan_take FRAME_OVERHEAD_7 add.commute add.left_commute)
    qed
  qed
qed

end

end
