(* ===== verification/Gateway.thy ===== *)
theory Gateway
  imports Config Py_Str Framing
begin

text \<open>
  The state of \<open>GatewayServer\<close> (\<open>profinet_gateway_py/gateway_server.py\<close>) and every
  operation on it that is not a socket loop: configuration, the shared output and
  input buffers, flat and framed frames, traffic counters, the communication
  watchdog, starting and stopping.  Each definition is the body of one method; the
  bodies that hold \<open>self._lock\<close> are atomic.  Instants are exact rationals in
  seconds.  Log lines are the constructors of \<open>gw_event\<close>.
\<close>

section \<open>State\<close>

record dev_io =
  io_out :: bytes
  io_inp :: bytes

record monitor =
  rx_frames :: nat
  rx_bytes :: nat
  last_rx :: bytes
  tx_frames :: nat
  tx_bytes :: nat
  last_tx :: bytes

datatype server_kind = Tcp_server | Udp_server | Stm_server

datatype gw_event =
    WatchdogCleared | WatchdogTripped int
  | Listening string string int | WatchdogArmed int | ServerStopped
  | BindError server_kind | ClientConnected nat | ClientDisconnected nat

record gateway =
  gw_protocol :: string
  gw_port :: int
  gw_bind :: string
  gw_framed :: bool
  gw_tcp_stream :: bool
  gw_device_configs :: "device_config list"
  gw_io :: "dev_io list"
  gw_sock :: bool
  gw_thread :: "server_kind option"
  gw_running :: bool
  gw_client_conn :: "nat option"
  gw_client_addr :: "nat option"
  gw_mon :: monitor
  gw_watchdog_ms :: int
  gw_last_rx_t :: rat
  gw_watchdog_tripped :: bool
  gw_wd_thread :: bool
  gw_log :: "gw_event list"

definition gw_init :: gateway where
  "gw_init = \<lparr>gw_protocol = ''TCP'', gw_port = 5000, gw_bind = ''0.0.0.0'', gw_framed = False,
     gw_tcp_stream = False, gw_device_configs = [], gw_io = [], gw_sock = False, gw_thread = None,
     gw_running = False, gw_client_conn = None, gw_client_addr = None,
     gw_mon = \<lparr>rx_frames = 0, rx_bytes = 0, last_rx = [], tx_frames = 0, tx_bytes = 0, last_tx = []\<rparr>,
     gw_watchdog_ms = 0, gw_last_rx_t = 0, gw_watchdog_tripped = False, gw_wd_thread = False,
     gw_log = []\<rparr>"

definition gw_say :: "gw_event \<Rightarrow> gateway \<Rightarrow> gateway" where
  "gw_say e g = g\<lparr>gw_log := gw_log g @ [e]\<rparr>"

section \<open>Traffic counters and the watchdog\<close>

definition mon_rx :: "rat \<Rightarrow> bytes \<Rightarrow> gateway \<Rightarrow> gateway" where
  "mon_rx now data g =
     (let m = gw_mon g;
          g1 = g\<lparr>gw_mon := m\<lparr>rx_frames := rx_frames m + 1, rx_bytes := rx_bytes m + length data,
                             last_rx := data\<rparr>, gw_last_rx_t := now\<rparr>
      in if gw_watchdog_tripped g1
         then gw_say WatchdogCleared (g1\<lparr>gw_watchdog_tripped := False\<rparr>)
         else g1)"

definition mon_tx :: "bytes \<Rightarrow> gateway \<Rightarrow> gateway" where
  "mon_tx data g =
     (let m = gw_mon g
      in g\<lparr>gw_mon := m\<lparr>tx_frames := tx_frames m + 1, tx_bytes := tx_bytes m + length data,
                       last_tx := data\<rparr>\<rparr>)"

record monitor_view =
  mv_mon :: monitor
  mv_protocol :: string
  mv_port :: int
  mv_bind :: string
  mv_running :: bool
  mv_client :: "nat option"
  mv_watchdog_ms :: int
  mv_watchdog_tripped :: bool
  mv_ms_since_rx :: rat

definition get_monitor :: "rat \<Rightarrow> gateway \<Rightarrow> monitor_view" where
  "get_monitor now g =
     \<lparr>mv_mon = gw_mon g, mv_protocol = gw_protocol g, mv_port = gw_port g, mv_bind = gw_bind g,
      mv_running = gw_running g,
      mv_client = (if gw_client_conn g \<noteq> None then gw_client_addr g else None),
      mv_watchdog_ms = gw_watchdog_ms g, mv_watchdog_tripped = gw_watchdog_tripped g,
      mv_ms_since_rx = (if gw_last_rx_t g \<noteq> 0 then (now - gw_last_rx_t g) * 1000 else - 1)\<rparr>"

definition zero_outputs :: "gateway \<Rightarrow> gateway" where
  "zero_outputs g =
     g\<lparr>gw_io := map (\<lambda>io. io\<lparr>io_out := zeros (length (io_out io))\<rparr>) (gw_io g)\<rparr>"

text \<open>One pass of the loop body at the instant \<open>now\<close>, and the loop over the
  instants at which it wakes up.\<close>

definition watchdog_pass :: "rat \<Rightarrow> gateway \<Rightarrow> gateway" where
  "watchdog_pass now g =
     (if gw_watchdog_ms g > 0 then
        (let last = gw_last_rx_t g in
         if last > 0 \<and> (now - last) * 1000 > of_int (gw_watchdog_ms g) then
           zero_outputs
             (if \<not> gw_watchdog_tripped g
              then gw_say (WatchdogTripped (gw_watchdog_ms g)) (g\<lparr>gw_watchdog_tripped := True\<rparr>)
              else g)
         else g)
      else g)"

fun watchdog_loop :: "rat list \<Rightarrow> gateway \<Rightarrow> gateway" where
  "watchdog_loop [] g = g"
| "watchdog_loop (t # ts) g = (if gw_running g then watchdog_loop ts (watchdog_pass t g) else g)"

definition is_running :: "gateway \<Rightarrow> bool" where
  "is_running g = gw_running g"

definition client_connected :: "gateway \<Rightarrow> bool" where
  "client_connected g = (gw_client_conn g \<noteq> None)"

section \<open>Configuration and frame sizes\<close>

text \<open>\<open>bytearray(n)\<close> refuses a negative size.\<close>

definition bytearray_n :: "int \<Rightarrow> py_error + bytes" where
  "bytearray_n n = (if n < 0 then Inl ValueError else Inr (zeros (nat n)))"

definition fresh_io :: "device_config \<Rightarrow> py_error + dev_io" where
  "fresh_io dc =
     (case bytearray_n (total_output_length dc) of Inl e \<Rightarrow> Inl e
      | Inr out \<Rightarrow> (case bytearray_n (total_input_length dc) of Inl e \<Rightarrow> Inl e
                    | Inr inp \<Rightarrow> Inr \<lparr>io_out = out, io_inp = inp\<rparr>))"

definition gw_configure ::
  "string \<Rightarrow> int \<Rightarrow> string \<Rightarrow> device_config list \<Rightarrow> bool \<Rightarrow> int \<Rightarrow> bool \<Rightarrow> gateway
   \<Rightarrow> py_error option \<times> gateway" where
  "gw_configure protocol port bnd dcs framed wd_ms stream g =
     (let g1 = g\<lparr>gw_protocol := upper protocol, gw_port := port, gw_bind := bnd, gw_framed := framed,
                 gw_tcp_stream := stream, gw_watchdog_ms := wd_ms, gw_last_rx_t := 0,
                 gw_watchdog_tripped := False, gw_device_configs := dcs\<rparr>
      in case map_err fresh_io dcs of
           Inl e \<Rightarrow> (Some e, g1)
         | Inr ios \<Rightarrow> (None, g1\<lparr>gw_io := ios\<rparr>))"

definition out_frame_size :: "gateway \<Rightarrow> int" where
  "out_frame_size g =
     sum_list (map total_output_length (gw_device_configs g)) +
     (if gw_framed g then int FRAME_OVERHEAD * int (length (gw_device_configs g)) else 0)"

definition in_frame_size :: "gateway \<Rightarrow> int" where
  "in_frame_size g =
     sum_list (map total_input_length (gw_device_configs g)) +
     (if gw_framed g then int FRAME_OVERHEAD * int (length (gw_device_configs g)) else 0)"

section \<open>Frames to and from the client\<close>

text \<open>\<open>self._io[i]\<close> raises when the list is shorter than the configuration.\<close>

definition flat_part :: "dev_io list \<Rightarrow> nat \<Rightarrow> py_error + bytes" where
  "flat_part ios i = (if i < length ios then Inr (io_inp (ios ! i)) else Inl IndexError)"

definition framed_part :: "dev_io list \<Rightarrow> nat \<Rightarrow> py_error + bytes" where
  "framed_part ios i =
     (if i < length ios then
        (let data = io_inp (ios ! i) in
         case pack_H (int (length data)) of Inl e \<Rightarrow> Inl e
         | Inr len \<Rightarrow> Inr (FRAME_SOF @ [word_of_int (int i AND 0xFF)] @ len @ data @ FRAME_EOF))
      else Inl IndexError)"

definition build_inputs :: "gateway \<Rightarrow> py_error + bytes" where
  "build_inputs g =
     (case map_err ((if gw_framed g then framed_part else flat_part) (gw_io g))
             [0 ..< length (gw_device_configs g)] of
        Inl e \<Rightarrow> Inl e | Inr parts \<Rightarrow> Inr (concat parts))"

text \<open>The flat branch: the devices in order, each taking its slice of the frame.  The
  slice assignment replaces \<open>n\<close> bytes of the buffer by what is left of the frame, so
  a frame that is too short shrinks the buffer.\<close>

fun apply_flat :: "bytes \<Rightarrow> int \<Rightarrow> nat \<Rightarrow> device_config list \<Rightarrow> dev_io list \<Rightarrow> py_error option \<times> dev_io list"
where
  "apply_flat data offset i [] ios = (None, ios)"
| "apply_flat data offset i (dc # dcs) ios =
     (let n = total_output_length dc in
      if i < length ios then
        apply_flat data (offset + n) (Suc i) dcs
          (ios[i := (ios ! i)\<lparr>io_out := islice_set 0 n (islice offset (offset + n) data)
                                          (io_out (ios ! i))\<rparr>])
      else (Some IndexError, ios))"

text \<open>The framed branch: walk the blocks, and advance one byte on a bad marker.\<close>

definition put_block :: "nat \<Rightarrow> nat \<Rightarrow> nat \<Rightarrow> bytes \<Rightarrow> dev_io list \<Rightarrow> dev_io list" where
  "put_block drive len ds data ios =
     (if drive < length ios then
        (let m = min len (length (io_out (ios ! drive))) in
         ios[drive := (ios ! drive)\<lparr>io_out := slice_set 0 m (py_slice ds (ds + m) data)
                                               (io_out (ios ! drive))\<rparr>])
      else ios)"

function apply_framed :: "bytes \<Rightarrow> nat \<Rightarrow> dev_io list \<Rightarrow> dev_io list" where
  "apply_framed data pos ios =
     (if pos + FRAME_OVERHEAD \<le> length data then
        if py_slice pos (pos + 2) data \<noteq> FRAME_SOF then apply_framed data (pos + 1) ios
        else
          (let drive = unat (data ! (pos + 2));
               len = nat (val16 (data ! (pos + 3)) (data ! (pos + 4)));
               ds = pos + 5;
               de = ds + len
           in if de + 2 > length data \<or> py_slice de (de + 2) data \<noteq> FRAME_EOF
              then apply_framed data (pos + 1) ios
              else apply_framed data (de + 2) (put_block drive len ds data ios))
      else ios)"
  by pat_completeness auto
termination
  by (relation "measure (\<lambda>(data, pos, ios). length data - pos)") (auto simp: FRAME_OVERHEAD_7)

declare apply_framed.simps [simp del]

definition apply_outputs :: "bytes \<Rightarrow> gateway \<Rightarrow> py_error option \<times> gateway" where
  "apply_outputs data g =
     (if \<not> gw_framed g then
        (let (e, ios) = apply_flat data 0 0 (gw_device_configs g) (gw_io g)
         in (e, g\<lparr>gw_io := ios\<rparr>))
      else (None, g\<lparr>gw_io := apply_framed data 0 (gw_io g)\<rparr>))"

section \<open>Buffers by device index\<close>

definition get_outputs :: "gateway \<Rightarrow> nat \<Rightarrow> bytes" where
  "get_outputs g idx = (if idx < length (gw_io g) then io_out (gw_io g ! idx) else [])"

definition get_inputs :: "gateway \<Rightarrow> nat \<Rightarrow> bytes" where
  "get_inputs g idx = (if idx < length (gw_io g) then io_inp (gw_io g ! idx) else [])"

definition set_inputs :: "nat \<Rightarrow> bytes \<Rightarrow> gateway \<Rightarrow> gateway" where
  "set_inputs idx data g =
     (if idx < length (gw_io g) then
        (let io = gw_io g ! idx; n = min (length data) (length (io_inp io))
         in g\<lparr>gw_io := (gw_io g)[idx := io\<lparr>io_inp := slice_set 0 n (take n data) (io_inp io)\<rparr>]\<rparr>)
      else g)"

definition get_stw1_nsoll :: "gateway \<Rightarrow> nat \<Rightarrow> int \<times> int" where
  "get_stw1_nsoll g idx =
     (let out = get_outputs g idx in
      if length out \<ge> 4 then (val16 (out ! 0) (out ! 1), val16 (out ! 2) (out ! 3)) else (0, 0))"

definition set_zsw1_nist :: "nat \<Rightarrow> int \<Rightarrow> int \<Rightarrow> gateway \<Rightarrow> py_error option \<times> gateway" where
  "set_zsw1_nist idx zsw1 nist g =
     (case pack_H zsw1 of Inl e \<Rightarrow> (Some e, g)
      | Inr a \<Rightarrow> (case pack_H nist of Inl e \<Rightarrow> (Some e, g)
                  | Inr b \<Rightarrow> (None, set_inputs idx (a @ b) g)))"

definition set_outputs :: "nat \<Rightarrow> bytes \<Rightarrow> gateway \<Rightarrow> gateway" where
  "set_outputs idx data g =
     (if idx < length (gw_io g) then
        (let io = gw_io g ! idx; n = min (length data) (length (io_out io))
         in g\<lparr>gw_io := (gw_io g)[idx := io\<lparr>io_out := slice_set 0 n (take n data) (io_out io)\<rparr>]\<rparr>)
      else g)"

section \<open>Lifecycle\<close>

definition gw_start :: "gateway \<Rightarrow> gateway" where
  "gw_start g =
     (if gw_running g then g
      else
        (let g1 = g\<lparr>gw_running := True,
                    gw_thread := Some (if gw_protocol g = ''UDP'' then Udp_server
                                       else if gw_protocol g = ''STM'' then Stm_server
                                       else Tcp_server)\<rparr>;
             g2 = gw_say (Listening (gw_protocol g) (gw_bind g) (gw_port g)) g1
         in if gw_watchdog_ms g2 > 0
            then gw_say (WatchdogArmed (gw_watchdog_ms g2)) (g2\<lparr>gw_wd_thread := True\<rparr>)
            else g2))"

definition gw_stop :: "gateway \<Rightarrow> gateway" where
  "gw_stop g =
     gw_say ServerStopped
       (g\<lparr>gw_running := False, gw_wd_thread := False, gw_client_conn := None, gw_sock := False\<rparr>)"

section \<open>Buffer sizes\<close>

text \<open>The buffers have the sizes the configuration gives: the invariant that
  \<open>configure\<close> establishes.\<close>

definition io_sizes :: "dev_io list \<Rightarrow> (nat \<times> nat) list" where
  "io_sizes ios = map (\<lambda>io. (length (io_out io), length (io_inp io))) ios"

definition cfg_sizes :: "device_config list \<Rightarrow> (nat \<times> nat) list" where
  "cfg_sizes dcs = map (\<lambda>dc. (nat (total_output_length dc), nat (total_input_length dc))) dcs"

definition lengths_ok :: "device_config list \<Rightarrow> bool" where
  "lengths_ok dcs \<longleftrightarrow> (\<forall>dc \<in> set dcs. 0 \<le> total_output_length dc \<and> 0 \<le> total_input_length dc)"

definition gw_sized :: "gateway \<Rightarrow> bool" where
  "gw_sized g \<longleftrightarrow> io_sizes (gw_io g) = cfg_sizes (gw_device_configs g) \<and> lengths_ok (gw_device_configs g)"

text \<open>The weaker bound that every handler keeps: no output buffer outgrows its configured
  size, and the input buffers have theirs exactly.\<close>

definition io_within :: "nat \<times> nat \<Rightarrow> nat \<times> nat \<Rightarrow> bool" where
  "io_within a b \<longleftrightarrow> fst a \<le> fst b \<and> snd a = snd b"

definition gw_bounded :: "gateway \<Rightarrow> bool" where
  "gw_bounded g \<longleftrightarrow> list_all2 io_within (io_sizes (gw_io g)) (cfg_sizes (gw_device_configs g))
     \<and> lengths_ok (gw_device_configs g)"

named_theorems gw_defs "definitions of the gateway's operations"

lemmas [gw_defs] = gw_say_def mon_rx_def mon_tx_def zero_outputs_def watchdog_pass_def
  apply_outputs_def set_inputs_def set_outputs_def get_outputs_def get_inputs_def
  gw_start_def gw_stop_def Let_def

lemma length_io_sizes [simp]: "length (io_sizes ios) = length ios"
  by (simp add: io_sizes_def)

lemma nth_io_sizes: "i < length ios \<Longrightarrow> io_sizes ios ! i = (length (io_out (ios ! i)), length (io_inp (ios ! i)))"
  by (simp add: io_sizes_def)

lemma io_sizes_update:
  "length (io_out io) = length (io_out (ios ! i)) \<Longrightarrow> length (io_inp io) = length (io_inp (ios ! i)) \<Longrightarrow>
   io_sizes (ios[i := io]) = io_sizes ios"
  unfolding io_sizes_def by (rule map_update_same) simp

lemma gw_sized_lengths:
  assumes "gw_sized g"
  shows "length (gw_io g) = length (gw_device_configs g)"
    and "i < length (gw_device_configs g) \<Longrightarrow>
      int (length (io_out (gw_io g ! i))) = total_output_length (gw_device_configs g ! i)"
    and "i < length (gw_device_configs g) \<Longrightarrow>
      int (length (io_inp (gw_io g ! i))) = total_input_length (gw_device_configs g ! i)"
proof -
  from assms have eq: "io_sizes (gw_io g) = cfg_sizes (gw_device_configs g)"
    and ok: "lengths_ok (gw_device_configs g)"
    by (simp_all add: gw_sized_def)
  show len: "length (gw_io g) = length (gw_device_configs g)"
    using arg_cong [OF eq, of length] by (simp add: cfg_sizes_def)
  assume i: "i < length (gw_device_configs g)"
  have "io_sizes (gw_io g) ! i = cfg_sizes (gw_device_configs g) ! i"
    by (simp add: eq)
  with i len ok show "int (length (io_out (gw_io g ! i))) = total_output_length (gw_device_configs g ! i)"
    and "int (length (io_inp (gw_io g ! i))) = total_input_length (gw_device_configs g ! i)"
    by (auto simp: nth_io_sizes cfg_sizes_def lengths_ok_def)
qed

lemma gw_sized_bounded: "gw_sized g \<Longrightarrow> gw_bounded g"
  by (simp add: gw_sized_def gw_bounded_def io_within_def list_all2_same)

lemma gw_bounded_length: "gw_bounded g \<Longrightarrow> length (gw_io g) = length (gw_device_configs g)"
  by (auto simp: gw_bounded_def cfg_sizes_def dest!: list_all2_lengthD)

lemma gw_bounded_nth:
  assumes "gw_bounded g" and "i < length (gw_device_configs g)"
  shows "int (length (io_out (gw_io g ! i))) \<le> total_output_length (gw_device_configs g ! i)"
    and "int (length (io_inp (gw_io g ! i))) = total_input_length (gw_device_configs g ! i)"
proof -
  have len: "length (gw_io g) = length (gw_device_configs g)"
    using assms(1) by (rule gw_bounded_length)
  have "io_within (io_sizes (gw_io g) ! i) (cfg_sizes (gw_device_configs g) ! i)"
    using assms len by (auto simp: gw_bounded_def dest: list_all2_nthD)
  moreover have "0 \<le> total_output_length (gw_device_configs g ! i)"
    "0 \<le> total_input_length (gw_device_configs g ! i)"
    using assms by (simp_all add: gw_bounded_def lengths_ok_def)
  ultimately show "int (length (io_out (gw_io g ! i))) \<le> total_output_length (gw_device_configs g ! i)"
    and "int (length (io_inp (gw_io g ! i))) = total_input_length (gw_device_configs g ! i)"
    using assms(2) len by (simp_all add: nth_io_sizes cfg_sizes_def io_within_def le_nat_iff)
qed

lemma gw_bounded_cong:
  "io_sizes (gw_io g') = io_sizes (gw_io g) \<Longrightarrow> gw_device_configs g' = gw_device_configs g \<Longrightarrow>
   gw_bounded g' = gw_bounded g"
  by (simp add: gw_bounded_def)

lemma map_err_length: "map_err f xs = Inr ys \<Longrightarrow> length ys = length xs"
  by (induction xs arbitrary: ys) (auto split: sum.splits)

lemma map_err_Inr: "(\<And>x. x \<in> set xs \<Longrightarrow> f x = Inr (g x)) \<Longrightarrow> map_err f xs = Inr (map g xs)"
  by (induction xs) auto

lemma fresh_io_Inr:
  "fresh_io dc = Inr io \<Longrightarrow>
   0 \<le> total_output_length dc \<and> 0 \<le> total_input_length dc \<and>
   io = \<lparr>io_out = zeros (nat (total_output_length dc)), io_inp = zeros (nat (total_input_length dc))\<rparr>"
  by (auto simp: fresh_io_def bytearray_n_def split: if_splits)

lemma fresh_io_sizes:
  "map_err fresh_io dcs = Inr ios \<Longrightarrow> io_sizes ios = cfg_sizes dcs \<and> lengths_ok dcs"
  by (induction dcs arbitrary: ios)
    (auto simp: io_sizes_def cfg_sizes_def lengths_ok_def split: sum.splits dest!: fresh_io_Inr)

lemma fresh_io_ok: "lengths_ok dcs \<Longrightarrow> \<exists>ios. map_err fresh_io dcs = Inr ios"
  by (induction dcs) (auto simp: lengths_ok_def fresh_io_def bytearray_n_def)

lemma gw_configure_sized:
  "gw_configure p pt b dcs fr wd st g = (None, g') \<Longrightarrow> gw_sized g' \<and> gw_device_configs g' = dcs"
  by (auto simp: gw_configure_def gw_sized_def Let_def split: sum.splits dest: fresh_io_sizes)

lemma sized_mon_rx [simp]: "gw_sized (mon_rx t d g) = gw_sized g"
  by (simp add: gw_defs gw_sized_def)

lemma sized_mon_tx [simp]: "gw_sized (mon_tx d g) = gw_sized g"
  by (simp add: gw_defs gw_sized_def)

lemma sized_zero_outputs [simp]: "gw_sized (zero_outputs g) = gw_sized g"
  by (simp add: gw_defs gw_sized_def io_sizes_def comp_def)

lemma sized_say [simp]: "gw_sized (gw_say e g) = gw_sized g"
  by (simp add: gw_defs gw_sized_def)

lemma sized_watchdog_pass [simp]: "gw_sized (watchdog_pass t g) = gw_sized g"
  by (simp add: watchdog_pass_def Let_def) (simp add: gw_sized_def gw_say_def zero_outputs_def io_sizes_def comp_def)

lemma sized_set_inputs [simp]: "gw_sized (set_inputs i d g) = gw_sized g"
  by (simp add: gw_defs gw_sized_def io_sizes_update slice_set_prefix)

lemma sized_set_outputs [simp]: "gw_sized (set_outputs i d g) = gw_sized g"
  by (simp add: gw_defs gw_sized_def io_sizes_update slice_set_prefix)

lemma bounded_ops [simp]:
  "gw_bounded (mon_rx t d g) = gw_bounded g" "gw_bounded (mon_tx d g) = gw_bounded g"
  "gw_bounded (watchdog_pass t g) = gw_bounded g" "gw_bounded (set_inputs i d g) = gw_bounded g"
  "gw_bounded (set_outputs i d g) = gw_bounded g"
  by (rule gw_bounded_cong;
      simp add: gw_defs io_sizes_update slice_set_prefix; simp add: io_sizes_def comp_def)+

section \<open>The framed branch is a fold over the blocks of the buffer\<close>

definition put_payload :: "nat \<times> bytes \<Rightarrow> dev_io list \<Rightarrow> dev_io list" where
  "put_payload p ios =
     (case p of (i, d) \<Rightarrow>
        if i < length ios
        then ios[i := (ios ! i)\<lparr>io_out := take (length (io_out (ios ! i))) d
                                          @ drop (length d) (io_out (ios ! i))\<rparr>]
        else ios)"

lemma put_block_payload:
  assumes "ds + len \<le> length data"
  shows "put_block i len ds data ios = put_payload (i, take len (drop ds data)) ios"
proof -
  have d: "min (length data - ds) len = len"
    using assms by simp
  have "slice_set 0 (min len n) (py_slice ds (ds + min len n) data) buf
      = take n (take len (drop ds data)) @ drop len buf"
    if "n = length buf" for n and buf :: bytes
    using that by (auto simp: slice_set_def py_slice_def min_def)
  then show ?thesis
    by (simp add: put_block_def put_payload_def Let_def d)
qed

interpretation gw_walk: block_walker apply_framed put_block put_payload
proof unfold_locales
  show "apply_framed data pos ios = (if pos + FRAME_OVERHEAD \<le> length data then
        if py_slice pos (pos + 2) data \<noteq> FRAME_SOF then apply_framed data (pos + 1) ios
        else
          (let drive = unat (data ! (pos + 2));
               len = nat (val16 (data ! (pos + 3)) (data ! (pos + 4)));
               ds = pos + 5;
               de = ds + len
           in if de + 2 > length data \<or> py_slice de (de + 2) data \<noteq> FRAME_EOF
              then apply_framed data (pos + 1) ios
              else apply_framed data (de + 2) (put_block drive len ds data ios))
      else ios)" for data pos ios
    by (rule apply_framed.simps)
qed (rule put_block_payload)

lemmas apply_framed_scan = gw_walk.walk_scan

text \<open>No frame, however malformed, changes the size of a buffer or the inputs.\<close>

lemma put_payload_sizes [simp]: "io_sizes (put_payload p ios) = io_sizes ios"
  by (cases p) (auto simp: put_payload_def min_def intro!: io_sizes_update)

lemma fold_put_payload_sizes [simp]: "io_sizes (fold put_payload ps ios) = io_sizes ios"
  by (induction ps arbitrary: ios) simp_all

lemma put_payload_inputs: "map io_inp (put_payload p ios) = map io_inp ios"
  by (cases p) (auto simp: put_payload_def intro!: map_update_same)

lemma fold_put_payload_inputs: "map io_inp (fold put_payload ps ios) = map io_inp ios"
  by (induction ps arbitrary: ios) (simp_all add: put_payload_inputs)

lemma sized_apply_framed: "gw_framed g \<Longrightarrow> gw_sized (snd (apply_outputs d g)) = gw_sized g"
  by (simp add: apply_outputs_def gw_sized_def apply_framed_scan)

section \<open>The flat branch gives each device its slice of the frame\<close>

lemma islice_mid:
  "a = int (length xs) \<Longrightarrow> b = a + int (length ys) \<Longrightarrow> islice a b (xs @ ys @ zs) = ys"
  by (simp add: islice_nonneg py_slice_def nat_add_distrib)

lemma apply_flat_slices:
  assumes "list_all2 (\<lambda>dc d. int (length d) = total_output_length dc) dcs ds"
    and "list_all2 (\<lambda>io d. length (io_out io) \<le> length d) ios ds"
  shows "apply_flat (p @ concat ds @ post) (int (length p)) (length pre) dcs (pre @ ios)
    = (None, pre @ map2 (\<lambda>io d. io\<lparr>io_out := d\<rparr>) ios ds)"
  using assms
proof (induction arbitrary: p pre ios rule: list_all2_induct)
  case Nil
  then show ?case by simp
next
  case (Cons dc dcs d ds)
  then obtain io ios' where ios: "ios = io # ios'" "length (io_out io) \<le> length d"
    "list_all2 (\<lambda>io d. length (io_out io) \<le> length d) ios' ds"
    by (auto simp: list_all2_Cons2)
  have IH: "apply_flat ((p @ d) @ concat ds @ post) (int (length (p @ d))) (length (pre @ [io\<lparr>io_out := d\<rparr>]))
      dcs ((pre @ [io\<lparr>io_out := d\<rparr>]) @ ios')
    = (None, (pre @ [io\<lparr>io_out := d\<rparr>]) @ map2 (\<lambda>io d. io\<lparr>io_out := d\<rparr>) ios' ds)"
    by (rule Cons.IH) (rule ios(3))
  have slice: "islice (int (length p)) (int (length p) + int (length d)) (p @ d @ concat ds @ post) = d"
    by (rule islice_mid) simp_all
  have set: "islice_set 0 (int (length d)) d (io_out io) = d"
    using ios(2) by (simp add: islice_set_nonneg)
  show ?case
    using IH by (simp add: Let_def slice set ios(1) flip: Cons.hyps(1))
qed

text \<open>A whole flat frame, in a gateway whose buffers have their configured sizes.\<close>

definition fits_outputs :: "gateway \<Rightarrow> bytes list \<Rightarrow> bool" where
  "fits_outputs g ds \<longleftrightarrow> map length ds = map fst (cfg_sizes (gw_device_configs g))"

lemma fits_outputs_nth:
  assumes "gw_sized g" and "fits_outputs g ds"
  shows "length ds = length (gw_io g)"
    and "i < length ds \<Longrightarrow> length (io_out (gw_io g ! i)) = length (ds ! i)"
proof -
  from assms(1) have sz: "map fst (io_sizes (gw_io g)) = map fst (cfg_sizes (gw_device_configs g))"
    by (simp add: gw_sized_def)
  with assms(2) have eq: "map length ds = map (\<lambda>io. length (io_out io)) (gw_io g)"
    by (simp add: fits_outputs_def io_sizes_def comp_def)
  show "length ds = length (gw_io g)"
    using arg_cong [OF eq, of length] by simp
  assume "i < length ds"
  then show "length (io_out (gw_io g ! i)) = length (ds ! i)"
    using arg_cong [OF eq, of "\<lambda>xs. xs ! i"] \<open>length ds = length (gw_io g)\<close> by simp
qed

text \<open>A frame that is too short leaves shorter buffers, never longer ones.\<close>

lemma islice_set_short:
  "0 \<le> off \<Longrightarrow> 0 \<le> n \<Longrightarrow> int (length buf) \<le> n \<Longrightarrow>
   int (length (islice_set 0 n (islice off (off + n) data) buf)) \<le> n"
  by (auto simp: islice_nonneg islice_set_nonneg slice_set_def py_slice_def nat_add_distrib)

lemma apply_flat_bounded:
  assumes "list_all2 (\<lambda>io dc. int (length (io_out io)) \<le> total_output_length dc) ios dcs"
    and "\<forall>dc \<in> set dcs. 0 \<le> total_output_length dc" and "0 \<le> off"
  shows "\<exists>ios'. apply_flat data off (length pre) dcs (pre @ ios) = (None, pre @ ios')
    \<and> list_all2 (\<lambda>io dc. int (length (io_out io)) \<le> total_output_length dc) ios' dcs
    \<and> map io_inp ios' = map io_inp ios"
  using assms
proof (induction arbitrary: pre off rule: list_all2_induct)
  case Nil
  then show ?case by simp
next
  case (Cons io ios dc dcs)
  let ?n = "total_output_length dc"
  let ?io = "io\<lparr>io_out := islice_set 0 ?n (islice off (off + ?n) data) (io_out io)\<rparr>"
  have step: "apply_flat data off (length pre) (dc # dcs) (pre @ io # ios) =
      apply_flat data (off + ?n) (length (pre @ [?io])) dcs ((pre @ [?io]) @ ios)"
    by (simp add: Let_def)
  obtain ios' where "apply_flat data (off + ?n) (length (pre @ [?io])) dcs ((pre @ [?io]) @ ios)
      = (None, (pre @ [?io]) @ ios')"
    "list_all2 (\<lambda>io dc. int (length (io_out io)) \<le> total_output_length dc) ios' dcs"
    "map io_inp ios' = map io_inp ios"
    using Cons.IH [of "off + ?n" "pre @ [?io]"] Cons.prems by auto
  moreover have "int (length (io_out ?io)) \<le> ?n"
    using islice_set_short [OF Cons.prems(2), of ?n "io_out io" data] Cons.hyps(1) Cons.prems(1) by simp
  ultimately show ?case
    unfolding step by (intro exI [of _ "?io # ios'"]) simp
qed

lemma apply_outputs_bounded:
  assumes "gw_bounded g"
  shows "\<exists>ios. apply_outputs d g = (None, g\<lparr>gw_io := ios\<rparr>) \<and> gw_bounded (g\<lparr>gw_io := ios\<rparr>)
           \<and> map io_inp ios = map io_inp (gw_io g)"
proof (cases "gw_framed g")
  case True
  then show ?thesis
    using assms
    by (intro exI [of _ "fold put_payload (scan d) (gw_io g)"])
      (simp add: apply_outputs_def apply_framed_scan gw_bounded_def fold_put_payload_inputs)
next
  case False
  let ?dcs = "gw_device_configs g"
  have len: "length (gw_io g) = length ?dcs"
    using assms by (rule gw_bounded_length)
  have "list_all2 (\<lambda>io dc. int (length (io_out io)) \<le> total_output_length dc) (gw_io g) ?dcs"
    using len gw_bounded_nth(1) [OF assms] by (simp add: list_all2_conv_all_nth)
  moreover have ok: "lengths_ok ?dcs"
    using assms by (simp add: gw_bounded_def)
  ultimately obtain ios where ios: "apply_flat d 0 0 ?dcs (gw_io g) = (None, ios)"
    "list_all2 (\<lambda>io dc. int (length (io_out io)) \<le> total_output_length dc) ios ?dcs"
    "map io_inp ios = map io_inp (gw_io g)"
    using apply_flat_bounded [of "gw_io g" ?dcs 0 d "[]"] by (auto simp: lengths_ok_def)
  have inp: "length (io_inp (ios ! i)) = length (io_inp (gw_io g ! i))" if "i < length ios" for i
    using arg_cong [OF ios(3), of "\<lambda>xs. length (xs ! i)"] that
      map_eq_imp_length_eq [OF ios(3)] by simp
  have "list_all2 io_within (io_sizes ios) (cfg_sizes ?dcs)"
    using ios(2) inp gw_bounded_nth(2) [OF assms]
    by (auto simp: list_all2_conv_all_nth io_within_def nth_io_sizes cfg_sizes_def)
      (metis nat_int nat_mono)
  then show ?thesis
    using False ios ok by (intro exI [of _ ios]) (simp add: apply_outputs_def gw_bounded_def)
qed

text \<open>A frame of the full size gives every buffer its configured size, whatever it was.\<close>

lemma bounded_outputs_nth:
  assumes "gw_bounded g" and "fits_outputs g ds"
  shows "list_all2 (\<lambda>dc d. int (length d) = total_output_length dc) (gw_device_configs g) ds"
    and "list_all2 (\<lambda>io d. length (io_out io) \<le> length d) (gw_io g) ds"
proof -
  have len: "length (gw_io g) = length (gw_device_configs g)"
    using assms(1) by (rule gw_bounded_length)
  have eq: "map length ds = map (\<lambda>dc. nat (total_output_length dc)) (gw_device_configs g)"
    using assms(2) by (simp add: fits_outputs_def cfg_sizes_def comp_def)
  have l: "length ds = length (gw_device_configs g)"
    using arg_cong [OF eq, of length] by simp
  have d: "int (length (ds ! i)) = total_output_length (gw_device_configs g ! i)"
    if "i < length ds" for i
    using arg_cong [OF eq, of "\<lambda>xs. xs ! i"] that l assms(1)
    by (simp add: gw_bounded_def lengths_ok_def)
  then show "list_all2 (\<lambda>dc d. int (length d) = total_output_length dc) (gw_device_configs g) ds"
    using l by (simp add: list_all2_conv_all_nth)
  show "list_all2 (\<lambda>io d. length (io_out io) \<le> length d) (gw_io g) ds"
    using l len d gw_bounded_nth(1) [OF assms(1)]
    by (auto simp: list_all2_conv_all_nth) (metis of_nat_le_iff)
qed

lemma apply_outputs_full:
  assumes "gw_bounded g" and "\<not> gw_framed g" and "fits_outputs g ds"
  shows "apply_outputs (concat ds @ post) g =
    (None, g\<lparr>gw_io := map2 (\<lambda>io d. io\<lparr>io_out := d\<rparr>) (gw_io g) ds\<rparr>)"
  using apply_flat_slices [OF bounded_outputs_nth [OF assms(1,3)], of "[]" post "[]"] assms(2)
  by (simp add: apply_outputs_def)

lemma apply_outputs_flat:
  assumes "gw_sized g" and "\<not> gw_framed g" and "fits_outputs g ds"
  shows "apply_outputs (concat ds @ post) g =
    (None, g\<lparr>gw_io := map2 (\<lambda>io d. io\<lparr>io_out := d\<rparr>) (gw_io g) ds\<rparr>)"
  using apply_outputs_full [OF gw_sized_bounded] assms by simp

text \<open>A frame with a block for every device, in a framed gateway.\<close>

lemma fold_put_payload_enumerate:
  assumes "list_all2 (\<lambda>io d. length (io_out io) = length d) ios ds"
  shows "fold put_payload (enumerate (length pre) ds) (pre @ ios)
    = pre @ map2 (\<lambda>io d. io\<lparr>io_out := d\<rparr>) ios ds"
  using assms
proof (induction arbitrary: pre rule: list_all2_induct)
  case Nil
  then show ?case by simp
next
  case (Cons io ios d ds)
  have "put_payload (length pre, d) (pre @ io # ios) = (pre @ [io\<lparr>io_out := d\<rparr>]) @ ios"
    using Cons.hyps by (simp add: put_payload_def)
  then show ?case
    using Cons.IH [of "pre @ [io\<lparr>io_out := d\<rparr>]"] by simp
qed

lemma apply_outputs_framed:
  assumes "gw_sized g" and "gw_framed g" and "fits_outputs g ds"
    and "length ds \<le> 256" and "\<forall>d \<in> set ds. length d < 65536"
  shows "apply_outputs (blocks.enc_all ds) g =
    (None, g\<lparr>gw_io := map2 (\<lambda>io d. io\<lparr>io_out := d\<rparr>) (gw_io g) ds\<rparr>)"
proof -
  note n = fits_outputs_nth [OF assms(1,3)]
  have "fold put_payload (enumerate 0 ds) (gw_io g) = map2 (\<lambda>io d. io\<lparr>io_out := d\<rparr>) (gw_io g) ds"
    using n fold_put_payload_enumerate [of "gw_io g" ds "[]"] by (simp add: list_all2_conv_all_nth)
  then show ?thesis
    using assms(2) by (simp add: apply_outputs_def apply_framed_scan blocks.dec_enc_all [OF assms(4,5)])
qed

lemma get_outputs_map2:
  "length ds = length ios \<Longrightarrow> i < length ds \<Longrightarrow> gw_io g = map2 (\<lambda>io d. io\<lparr>io_out := d\<rparr>) ios ds \<Longrightarrow>
   get_outputs g i = ds ! i"
  by (simp add: get_outputs_def)

text \<open>Any frame that is long enough splits into slices, so a sized gateway takes it
  without raising and stays sized.\<close>

lemma split_by_lengths: "sum_list ns \<le> length d \<Longrightarrow> \<exists>ds post. d = concat ds @ post \<and> map length ds = ns"
proof (induction ns arbitrary: d)
  case Nil
  then show ?case by auto
next
  case (Cons n ns)
  then obtain ds post where "drop n d = concat ds @ post" "map length ds = ns"
    by (metis Cons.IH add_le_imp_le_diff add.commute length_drop sum_list.Cons)
  then have "d = concat (take n d # ds) @ post" "map length (take n d # ds) = n # ns"
    using Cons.prems by simp_all (metis append_assoc append_take_drop_id)
  then show ?case by (intro exI [of _ "take n d # ds"] exI [of _ post] conjI)
qed

lemma out_frame_size_sum:
  "gw_bounded g \<Longrightarrow> \<not> gw_framed g \<Longrightarrow>
   out_frame_size g = int (sum_list (map fst (cfg_sizes (gw_device_configs g))))"
proof -
  have "sum_list (map total_output_length dcs) = int (sum_list (map fst (cfg_sizes dcs)))"
    if "lengths_ok dcs" for dcs
    using that by (induction dcs) (auto simp: lengths_ok_def cfg_sizes_def)
  then show "gw_bounded g \<Longrightarrow> \<not> gw_framed g \<Longrightarrow> ?thesis"
    by (simp add: out_frame_size_def gw_bounded_def)
qed

lemma apply_outputs_full_size:
  assumes "gw_bounded g" and "\<not> gw_framed g" and "out_frame_size g \<le> int (length d)"
  shows "\<exists>ios. apply_outputs d g = (None, g\<lparr>gw_io := ios\<rparr>) \<and> gw_sized (g\<lparr>gw_io := ios\<rparr>)
           \<and> map io_inp ios = map io_inp (gw_io g)"
proof -
  obtain ds post where d: "d = concat ds @ post" "map length ds = map fst (cfg_sizes (gw_device_configs g))"
    using assms split_by_lengths [of "map fst (cfg_sizes (gw_device_configs g))" d]
    by (auto simp: out_frame_size_sum)
  then have fits: "fits_outputs g ds"
    by (simp add: fits_outputs_def)
  let ?dcs = "gw_device_configs g"
  let ?ios = "map2 (\<lambda>io d. io\<lparr>io_out := d\<rparr>) (gw_io g) ds"
  have l: "length (gw_io g) = length ?dcs" "length ds = length ?dcs"
    using gw_bounded_length [OF assms(1)] map_eq_imp_length_eq [OF d(2)] by (simp_all add: cfg_sizes_def)
  have ds: "int (length (ds ! i)) = total_output_length (?dcs ! i)" if "i < length ?dcs" for i
    using bounded_outputs_nth(1) [OF assms(1) fits] that by (simp add: list_all2_conv_all_nth)
  have "io_sizes ?ios = cfg_sizes ?dcs"
  proof (rule nth_equalityI)
    show "length (io_sizes ?ios) = length (cfg_sizes ?dcs)"
      using l by (simp add: cfg_sizes_def)
    fix i
    assume "i < length (io_sizes ?ios)"
    then have i: "i < length ?dcs" using l by simp
    have "nat (total_output_length (?dcs ! i)) = length (ds ! i)"
      by (simp flip: ds [OF i])
    moreover have "nat (total_input_length (?dcs ! i)) = length (io_inp (gw_io g ! i))"
      by (simp flip: gw_bounded_nth(2) [OF assms(1) i])
    ultimately show "io_sizes ?ios ! i = cfg_sizes ?dcs ! i"
      using i l by (simp add: nth_io_sizes cfg_sizes_def)
  qed
  moreover have "map io_inp ?ios = map io_inp (gw_io g)"
    using l by (auto intro!: nth_equalityI)
  ultimately show ?thesis
    using apply_outputs_full [OF assms(1,2) fits] d(1) assms(1) by (auto simp: gw_sized_def gw_bounded_def)
qed

lemma apply_outputs_ok:
  assumes "gw_sized g" and "gw_framed g \<or> out_frame_size g \<le> int (length d)"
  shows "\<exists>ios. apply_outputs d g = (None, g\<lparr>gw_io := ios\<rparr>) \<and> gw_sized (g\<lparr>gw_io := ios\<rparr>)
           \<and> map io_inp ios = map io_inp (gw_io g)"
proof (cases "gw_framed g")
  case True
  then show ?thesis
    using assms(1)
    by (intro exI [of _ "fold put_payload (scan d) (gw_io g)"])
      (simp add: apply_outputs_def apply_framed_scan gw_sized_def fold_put_payload_inputs)
next
  case False
  then show ?thesis
    using apply_outputs_full_size [OF gw_sized_bounded] assms by simp
qed

section \<open>Input frames\<close>

lemma framed_part_block:
  "i < length ios \<Longrightarrow> length (io_inp (ios ! i)) < 65536 \<Longrightarrow>
   framed_part ios i = Inr (frame_block i (io_inp (ios ! i)))"
proof -
  have "(word_of_int (int i AND 255) :: byte) = word_of_nat i"
    by (simp add: and_mask8)
  then show "i < length ios \<Longrightarrow> length (io_inp (ios ! i)) < 65536 \<Longrightarrow> ?thesis"
    by (simp add: framed_part_def frame_block_def Let_def pack_H_ok)
qed

lemma map_nth_upt: "map (\<lambda>i. f (xs ! i)) [0 ..< length xs] = map f xs"
  by (rule nth_equalityI) auto

lemma map_enumerate_nth: "map (\<lambda>i. f i (xs ! i)) [0 ..< length xs] = map (\<lambda>(i, x). f i x) (enumerate 0 xs)"
  by (rule nth_equalityI) (auto simp: nth_enumerate_eq)

lemma build_inputs_flat:
  assumes "length (gw_io g) = length (gw_device_configs g)" and "\<not> gw_framed g"
  shows "build_inputs g = Inr (concat (map io_inp (gw_io g)))"
proof -
  have "map_err (flat_part (gw_io g)) [0 ..< length (gw_io g)] =
      Inr (map (\<lambda>i. io_inp (gw_io g ! i)) [0 ..< length (gw_io g)])"
    by (rule map_err_Inr) (simp add: flat_part_def)
  then show ?thesis
    using assms(2) by (simp add: build_inputs_def map_nth_upt flip: assms(1))
qed

lemma build_inputs_framed:
  assumes "length (gw_io g) = length (gw_device_configs g)" and "gw_framed g"
    and "\<forall>io \<in> set (gw_io g). length (io_inp io) < 65536"
  shows "build_inputs g = Inr (blocks.enc_all (map io_inp (gw_io g)))"
proof -
  have "map_err (framed_part (gw_io g)) [0 ..< length (gw_io g)] =
      Inr (map (\<lambda>i. frame_block i (map io_inp (gw_io g) ! i)) [0 ..< length (gw_io g)])"
    by (rule map_err_Inr) (use assms(3) in \<open>simp add: framed_part_block\<close>)
  then have "map_err (framed_part (gw_io g)) [0 ..< length (gw_io g)] =
      Inr (map (\<lambda>(i, d). frame_block i d) (enumerate 0 (map io_inp (gw_io g))))"
    using map_enumerate_nth [of frame_block "map io_inp (gw_io g)"] by simp
  then show ?thesis
    using assms(2) by (simp add: build_inputs_def blocks.enc_all_def flip: assms(1))
qed

text \<open>An input frame depends on the input buffers only.\<close>

lemma build_inputs_cong:
  assumes "gw_framed g1 = gw_framed g2" and "gw_device_configs g1 = gw_device_configs g2"
    and "map io_inp (gw_io g1) = map io_inp (gw_io g2)"
  shows "build_inputs g1 = build_inputs g2"
proof -
  have len: "length (gw_io g1) = length (gw_io g2)"
    using assms(3) by (metis length_map)
  have "io_inp (gw_io g1 ! i) = io_inp (gw_io g2 ! i)" if "i < length (gw_io g2)" for i
    using arg_cong [OF assms(3), of "\<lambda>xs. xs ! i"] that len by simp
  then have "flat_part (gw_io g1) = flat_part (gw_io g2)" "framed_part (gw_io g1) = framed_part (gw_io g2)"
    by (auto simp: fun_eq_iff flat_part_def framed_part_def len)
  then show ?thesis
    using assms by (simp add: build_inputs_def)
qed

lemma get_inputs_cong: "map io_inp (gw_io g1) = map io_inp (gw_io g2) \<Longrightarrow> get_inputs g1 i = get_inputs g2 i"
  by (metis get_inputs_def length_map nth_map)

section \<open>The watchdog\<close>

definition outs_zero :: "gateway \<Rightarrow> bool" where
  "outs_zero g \<longleftrightarrow> (\<forall>io \<in> set (gw_io g). set (io_out io) \<subseteq> {0})"

definition silent :: "rat \<Rightarrow> gateway \<Rightarrow> bool" where
  "silent now g \<longleftrightarrow> gw_watchdog_ms g > 0 \<and> gw_last_rx_t g > 0 \<and>
     (now - gw_last_rx_t g) * 1000 > of_int (gw_watchdog_ms g)"

lemma outs_zero_zero_outputs [simp]: "outs_zero (zero_outputs g)"
  using set_zeros by (auto simp: outs_zero_def zero_outputs_def)

lemma outs_zero_get: "outs_zero g \<Longrightarrow> set (get_outputs g i) \<subseteq> {0}"
  by (auto simp: outs_zero_def get_outputs_def)

lemma watchdog_pass_silent:
  assumes "silent now g"
  shows "outs_zero (watchdog_pass now g)" and "gw_watchdog_tripped (watchdog_pass now g)"
  using assms outs_zero_zero_outputs
  by (auto simp: watchdog_pass_def silent_def Let_def zero_outputs_def gw_say_def)

lemma watchdog_pass_alive: "\<not> silent now g \<Longrightarrow> watchdog_pass now g = g"
  by (auto simp: watchdog_pass_def silent_def Let_def)

end
