(* ===== verification/Gw_Socket.thy ===== *)
theory Gw_Socket
  imports Gateway
begin

text \<open>
  The socket loops of \<open>GatewayServer\<close>: receiving exact amounts from a stream, the
  request/response, streaming and STM handlers of a TCP client, the UDP loop and the
  accept loops.  A connection is a script of what its \<open>recv\<close> calls return and
  whether its \<open>sendall\<close> calls succeed; a loop that reaches the end of its script is
  blocked in a call, and its result says so.  The instants at which a loop body runs are
  a list of times.
\<close>

section \<open>Receiving from a stream\<close>

text \<open>What the network does next: a segment arrives, a receive times out, the peer
  closes, or the socket fails.\<close>

datatype recv_ev = Data bytes | TimedOut | Closed | Broken

datatype recv_res = R_data bytes | R_closed | R_timeout | R_error | R_pending

text \<open>\<open>conn.recv(k)\<close>: at most \<open>k\<close> bytes of the pending segment, the rest stays.\<close>

fun sock_recv :: "nat \<Rightarrow> recv_ev list \<Rightarrow> recv_res \<times> recv_ev list" where
  "sock_recv k [] = (R_pending, [])"
| "sock_recv k (Data bs # es) =
     (if bs = [] then (R_closed, es)
      else if length bs \<le> k then (R_data bs, es)
      else (R_data (take k bs), Data (drop k bs) # es))"
| "sock_recv k (TimedOut # es) = (R_timeout, es)"
| "sock_recv k (Closed # es) = (R_closed, es)"
| "sock_recv k (Broken # es) = (R_error, es)"

text \<open>\<open>Got []\<close> is the empty result an idle or stalled client gives, \<open>NoFrame\<close> is
  \<open>None\<close>, \<open>Waiting\<close> says the call has not returned.\<close>

datatype rx = Got bytes | NoFrame | RxError py_error | Waiting

lemma sock_recv_timeout: "sock_recv k es = (R_timeout, es') \<Longrightarrow> length es' < length es"
  by (cases "(k, es)" rule: sock_recv.cases) (auto split: if_splits)

lemma sock_recv_data:
  "sock_recv k es = (R_data d, es') \<Longrightarrow> 0 < k \<Longrightarrow>
   d \<noteq> [] \<and> length d \<le> k \<and> (length es' < length es \<or> length d = k \<and> length es' = length es)"
  by (cases "(k, es)" rule: sock_recv.cases) (auto split: if_splits)

function recv_exact :: "nat \<Rightarrow> rat \<Rightarrow> bytes \<Rightarrow> rat \<Rightarrow> recv_ev list \<Rightarrow> rx \<times> recv_ev list" where
  "recv_exact n deadline buf waited es =
     (if length buf < n then
        (case sock_recv (n - length buf) es of
           (R_data chunk, es') \<Rightarrow> recv_exact n deadline (buf @ chunk) 0 es'
         | (R_closed, es') \<Rightarrow> (NoFrame, es')
         | (R_timeout, es') \<Rightarrow>
             if buf = [] then (Got [], es')
             else if waited + 1 / 10 \<ge> deadline then (Got [], es')
             else recv_exact n deadline buf (waited + 1 / 10) es'
         | (R_error, es') \<Rightarrow> (RxError OSError, es')
         | (R_pending, es') \<Rightarrow> (Waiting, es'))
      else (Got buf, es))"
  by pat_completeness auto
termination
proof (relation "measure (\<lambda>(n, deadline, buf, waited, es). (n - length buf) + length es)", goal_cases)
  case 1 show ?case by simp
next
  case (2 n deadline buf waited es r es' chunk)
  then have "sock_recv (n - length buf) es = (R_data chunk, es')" by simp
  from sock_recv_data [OF this] 2(1) show ?case
    by (auto simp flip: length_greater_0_conv)
next
  case (3 n deadline buf waited es r es')
  then have "sock_recv (n - length buf) es = (R_timeout, es')" by simp
  from sock_recv_timeout [OF this] show ?case by simp
qed

declare recv_exact.simps [simp del]

function recv_all :: "bool \<Rightarrow> nat \<Rightarrow> bytes \<Rightarrow> recv_ev list \<Rightarrow> rx \<times> recv_ev list" where
  "recv_all running n buf es =
     (if length buf < n \<and> running then
        (case sock_recv (n - length buf) es of
           (R_data chunk, es') \<Rightarrow> recv_all running n (buf @ chunk) es'
         | (R_closed, es') \<Rightarrow> (NoFrame, es')
         | (R_timeout, es') \<Rightarrow> recv_all running n buf es'
         | (R_error, es') \<Rightarrow> (NoFrame, es')
         | (R_pending, es') \<Rightarrow> (Waiting, es'))
      else if length buf = n then (Got buf, es) else (NoFrame, es))"
  by pat_completeness auto
termination
proof (relation "measure (\<lambda>(running, n, buf, es). (n - length buf) + length es)", goal_cases)
  case 1 show ?case by simp
next
  case (2 running n buf es r es' chunk)
  then have "sock_recv (n - length buf) es = (R_data chunk, es')" by simp
  from sock_recv_data [OF this] 2(1) show ?case
    by (auto simp flip: length_greater_0_conv)
next
  case (3 running n buf es r es')
  then have "sock_recv (n - length buf) es = (R_timeout, es')" by simp
  from sock_recv_timeout [OF this] show ?case by simp
qed

declare recv_all.simps [simp del]

section \<open>Connections\<close>

record conn =
  c_rx :: "recv_ev list"
  c_send_ok :: "bool list"
  c_sent :: "bytes list"
  c_open :: bool

datatype step = Go | Break | Die py_error | Wait

text \<open>\<open>sendall\<close>: succeeds, or raises \<open>OSError\<close>.\<close>

definition conn_send :: "bytes \<Rightarrow> conn \<Rightarrow> bool \<times> conn" where
  "conn_send bs c =
     (case c_send_ok c of
        [] \<Rightarrow> (True, c\<lparr>c_sent := c_sent c @ [bs]\<rparr>)
      | ok # oks \<Rightarrow> (if ok then (True, c\<lparr>c_send_ok := oks, c_sent := c_sent c @ [bs]\<rparr>)
                     else (False, c\<lparr>c_send_ok := oks\<rparr>)))"

definition conn_close :: "conn \<Rightarrow> conn" where
  "conn_close c = c\<lparr>c_open := False\<rparr>"

text \<open>Sending the current input frame, after \<open>wrap\<close> has put a length in front or not.\<close>

definition send_inputs :: "(bytes \<Rightarrow> py_error + bytes) \<Rightarrow> gateway \<Rightarrow> conn \<Rightarrow> step \<times> gateway \<times> conn" where
  "send_inputs wrap g c =
     (case build_inputs g of
        Inl e \<Rightarrow> (Die e, g, c)
      | Inr frame \<Rightarrow>
         (case wrap frame of
            Inl e \<Rightarrow> (Die e, g, c)
          | Inr msg \<Rightarrow>
             (case conn_send msg c of
                (True, c') \<Rightarrow> (Go, mon_tx frame g, c')
              | (False, c') \<Rightarrow> (Break, g, c'))))"

section \<open>TCP, request and response\<close>

text \<open>One pass of the loop of \<open>_handle_tcp_client\<close>, with the frame sizes taken when
  the client connected.\<close>

definition tcp_iter :: "int \<Rightarrow> int \<Rightarrow> rat \<Rightarrow> gateway \<Rightarrow> conn \<Rightarrow> step \<times> gateway \<times> conn" where
  "tcp_iter out_size inp_size now g c =
     (if out_size > 0 then
        (case recv_exact (nat out_size) 2 [] 0 (c_rx c) of (r, es) \<Rightarrow>
           (let c1 = c\<lparr>c_rx := es\<rparr> in
            case r of
              Waiting \<Rightarrow> (Wait, g, c1)
            | RxError _ \<Rightarrow> (Break, g, c1)
            | NoFrame \<Rightarrow> (Break, g, c1)
            | Got data \<Rightarrow>
                if data = [] then (Go, g, c1)
                else
                  (case apply_outputs data (mon_rx now data g) of
                     (Some e, g1) \<Rightarrow> (Die e, g1, c1)
                   | (None, g1) \<Rightarrow> if inp_size > 0 then send_inputs Inr g1 c1 else (Go, g1, c1))))
      else if inp_size > 0 then send_inputs Inr g c
      else (Go, g, c))"

fun tcp_loop :: "int \<Rightarrow> int \<Rightarrow> rat list \<Rightarrow> gateway \<Rightarrow> conn \<Rightarrow> step \<times> gateway \<times> conn" where
  "tcp_loop out_size inp_size [] g c = (Go, g, c)"
| "tcp_loop out_size inp_size (t # ts) g c =
     (if gw_running g then
        (case tcp_iter out_size inp_size t g c of
           (Go, g1, c1) \<Rightarrow> tcp_loop out_size inp_size ts g1 c1
         | r \<Rightarrow> r)
      else (Break, g, c))"

section \<open>Full-duplex handlers: TCP streaming and STM\<close>

text \<open>The transmit thread's body, the receive bodies, and the two threads
  interleaved as a schedule says (\<open>True\<close> for the transmit thread).  The transmit
  thread ends at its first failure; the receive loop's end sets \<open>tx_stop\<close> and closes
  the connection, whatever ended it.\<close>

definition tx_pass :: "int \<Rightarrow> (bytes \<Rightarrow> py_error + bytes) \<Rightarrow> gateway \<Rightarrow> conn \<Rightarrow> step \<times> gateway \<times> conn" where
  "tx_pass in_size wrap g c = (if in_size > 0 then send_inputs wrap g c else (Go, g, c))"

definition rx_apply :: "rat \<Rightarrow> bytes \<Rightarrow> gateway \<Rightarrow> conn \<Rightarrow> step \<times> gateway \<times> conn" where
  "rx_apply now data g c =
     (case apply_outputs data (mon_rx now data g) of
        (Some e, g1) \<Rightarrow> (Die e, g1, c)
      | (None, g1) \<Rightarrow> (Go, g1, c))"

definition stream_rx :: "int \<Rightarrow> rat \<Rightarrow> gateway \<Rightarrow> conn \<Rightarrow> step \<times> gateway \<times> conn" where
  "stream_rx out_size now g c =
     (if out_size > 0 then
        (case recv_all (gw_running g) (nat out_size) [] (c_rx c) of (r, es) \<Rightarrow>
           (let c1 = c\<lparr>c_rx := es\<rparr> in
            case r of
              Got data \<Rightarrow> rx_apply now data g c1
            | Waiting \<Rightarrow> (Wait, g, c1)
            | _ \<Rightarrow> (Break, g, c1)))
      else (Go, g, c))"

definition stm_wrap :: "bytes \<Rightarrow> py_error + bytes" where
  "stm_wrap frame = (case pack_I (int (length frame)) of Inl e \<Rightarrow> Inl e | Inr h \<Rightarrow> Inr (h @ frame))"

definition stm_rx :: "rat \<Rightarrow> gateway \<Rightarrow> conn \<Rightarrow> step \<times> gateway \<times> conn" where
  "stm_rx now g c =
     (case recv_all (gw_running g) 4 [] (c_rx c) of (r, es) \<Rightarrow>
        (let c1 = c\<lparr>c_rx := es\<rparr> in
         case r of
           Got hdr \<Rightarrow>
             (case unpack_I hdr 0 of
                Inl e \<Rightarrow> (Die e, g, c1)
              | Inr n \<Rightarrow>
                  if n = 0 \<or> n > 1000000 then (Go, g, c1)
                  else
                    (case recv_all (gw_running g) (nat n) [] es of (r2, es2) \<Rightarrow>
                       (let c2 = c\<lparr>c_rx := es2\<rparr> in
                        case r2 of
                          Got payload \<Rightarrow> rx_apply now payload g c2
                        | Waiting \<Rightarrow> (Wait, g, c2)
                        | _ \<Rightarrow> (Break, g, c2))))
         | Waiting \<Rightarrow> (Wait, g, c1)
         | _ \<Rightarrow> (Break, g, c1)))"

fun duplex_loop ::
  "(gateway \<Rightarrow> conn \<Rightarrow> step \<times> gateway \<times> conn) \<Rightarrow> (rat \<Rightarrow> gateway \<Rightarrow> conn \<Rightarrow> step \<times> gateway \<times> conn)
   \<Rightarrow> (bool \<times> rat) list \<Rightarrow> bool \<Rightarrow> gateway \<Rightarrow> conn \<Rightarrow> step \<times> gateway \<times> conn" where
  "duplex_loop tx rcv [] alive g c = (Go, g, c)"
| "duplex_loop tx rcv ((is_tx, t) # sched) alive g c =
     (if is_tx then
        (if alive \<and> gw_running g then
           (case tx g c of
              (Go, g1, c1) \<Rightarrow> duplex_loop tx rcv sched True g1 c1
            | (_, g1, c1) \<Rightarrow> duplex_loop tx rcv sched False g1 c1)
         else duplex_loop tx rcv sched False g c)
      else if gw_running g then
        (case rcv t g c of
           (Go, g1, c1) \<Rightarrow> duplex_loop tx rcv sched alive g1 c1
         | (Wait, g1, c1) \<Rightarrow> (Wait, g1, c1)
         | (s, g1, c1) \<Rightarrow> (s, g1, conn_close c1))
      else (Break, g, conn_close c))"

definition handle_tcp_stream :: "(bool \<times> rat) list \<Rightarrow> gateway \<Rightarrow> conn \<Rightarrow> step \<times> gateway \<times> conn" where
  "handle_tcp_stream sched g c =
     duplex_loop (tx_pass (in_frame_size g) Inr) (stream_rx (out_frame_size g)) sched True g c"

definition handle_stm_client :: "(bool \<times> rat) list \<Rightarrow> gateway \<Rightarrow> conn \<Rightarrow> step \<times> gateway \<times> conn" where
  "handle_stm_client sched g c =
     duplex_loop (tx_pass (in_frame_size g) stm_wrap) stm_rx sched True g c"

definition handle_tcp_client :: "(bool \<times> rat) list \<Rightarrow> gateway \<Rightarrow> conn \<Rightarrow> step \<times> gateway \<times> conn" where
  "handle_tcp_client sched g c =
     (if gw_tcp_stream g then handle_tcp_stream sched g c
      else (case tcp_loop (out_frame_size g) (in_frame_size g) (map snd sched) g c of
              (Break, g1, c1) \<Rightarrow> (Break, g1, conn_close c1)
            | r \<Rightarrow> r))"

section \<open>Accepting clients\<close>

text \<open>What \<open>accept\<close> does next: a client with its address, its connection and the
  schedule under which its handler runs; a timeout; or an error.\<close>

datatype accept_ev = Accepted nat conn "(bool \<times> rat) list" | AcceptTimeout | AcceptError

fun accept_loop ::
  "((bool \<times> rat) list \<Rightarrow> gateway \<Rightarrow> conn \<Rightarrow> step \<times> gateway \<times> conn) \<Rightarrow> accept_ev list \<Rightarrow> gateway
   \<Rightarrow> step \<times> gateway" where
  "accept_loop handler [] g = (Wait, g)"
| "accept_loop handler (AcceptTimeout # evs) g =
     (if gw_running g then accept_loop handler evs g else (Break, g))"
| "accept_loop handler (AcceptError # evs) g = (Break, g)"
| "accept_loop handler (Accepted addr c sched # evs) g =
     (if gw_running g then
        (case handler sched
                (gw_say (ClientConnected addr) (g\<lparr>gw_client_conn := Some addr, gw_client_addr := Some addr\<rparr>)) c of
           (Break, g1, _) \<Rightarrow>
             accept_loop handler evs (gw_say (ClientDisconnected addr) (g1\<lparr>gw_client_conn := None\<rparr>))
         | (s, g1, _) \<Rightarrow> (s, g1))
      else (Break, g))"

definition listen ::
  "server_kind \<Rightarrow> ((bool \<times> rat) list \<Rightarrow> gateway \<Rightarrow> conn \<Rightarrow> step \<times> gateway \<times> conn) \<Rightarrow> bool \<Rightarrow> accept_ev list
   \<Rightarrow> gateway \<Rightarrow> step \<times> gateway" where
  "listen kind handler bind_ok evs g =
     (if bind_ok then accept_loop handler evs (g\<lparr>gw_sock := True\<rparr>)
      else (Break, (gw_say (BindError kind) (g\<lparr>gw_sock := True\<rparr>))\<lparr>gw_running := False\<rparr>))"

definition tcp_server :: "bool \<Rightarrow> accept_ev list \<Rightarrow> gateway \<Rightarrow> step \<times> gateway" where
  "tcp_server = listen Tcp_server handle_tcp_client"

definition stm_server :: "bool \<Rightarrow> accept_ev list \<Rightarrow> gateway \<Rightarrow> step \<times> gateway" where
  "stm_server = listen Stm_server handle_stm_client"

section \<open>UDP\<close>

text \<open>A datagram with its sender, the instant it is handled and whether the reply can
  be sent; a timeout; an error.\<close>

datatype udp_ev = Datagram bytes nat rat bool | UdpTimeout | UdpError

definition udp_iter :: "int \<Rightarrow> bytes \<Rightarrow> nat \<Rightarrow> rat \<Rightarrow> bool \<Rightarrow> gateway \<Rightarrow> step \<times> gateway \<times> bytes list" where
  "udp_iter out_size data addr now send_ok g =
     (let g1 = g\<lparr>gw_client_addr := Some addr\<rparr> in
      case (if int (length data) \<ge> out_size then apply_outputs data (mon_rx now data g1) else (None, g1)) of
        (Some e, g2) \<Rightarrow> (Die e, g2, [])
      | (None, g2) \<Rightarrow>
         (case build_inputs g2 of
            Inl e \<Rightarrow> (Die e, g2, [])
          | Inr frame \<Rightarrow> if send_ok then (Go, mon_tx frame g2, [frame]) else (Break, g2, [])))"

fun udp_loop :: "int \<Rightarrow> udp_ev list \<Rightarrow> gateway \<Rightarrow> step \<times> gateway \<times> bytes list" where
  "udp_loop out_size [] g = (Wait, g, [])"
| "udp_loop out_size (UdpTimeout # evs) g =
     (if gw_running g then udp_loop out_size evs g else (Break, g, []))"
| "udp_loop out_size (UdpError # evs) g = (Break, g, [])"
| "udp_loop out_size (Datagram data addr now ok # evs) g =
     (if gw_running g then
        (case udp_iter out_size data addr now ok g of
           (Go, g1, sent) \<Rightarrow>
             (case udp_loop out_size evs g1 of (s, g2, later) \<Rightarrow> (s, g2, sent @ later))
         | r \<Rightarrow> r)
      else (Break, g, []))"

definition udp_server :: "bool \<Rightarrow> udp_ev list \<Rightarrow> gateway \<Rightarrow> step \<times> gateway \<times> bytes list" where
  "udp_server bind_ok evs g =
     (if bind_ok then udp_loop (out_frame_size g) evs (g\<lparr>gw_sock := True\<rparr>)
      else (Break, (gw_say (BindError Udp_server) (g\<lparr>gw_sock := True\<rparr>))\<lparr>gw_running := False\<rparr>, []))"

section \<open>A stream is its bytes, however it is cut into segments\<close>

primrec stream :: "recv_ev list \<Rightarrow> bytes" where
  "stream [] = []"
| "stream (e # es) = (case e of Data bs \<Rightarrow> bs | _ \<Rightarrow> []) @ stream es"

text \<open>Scripts in which data arrives steadily, and scripts in which it may pause.\<close>

definition steady :: "recv_ev list \<Rightarrow> bool" where
  "steady es \<longleftrightarrow> (\<forall>e \<in> set es. \<exists>bs. e = Data bs \<and> bs \<noteq> [])"

definition lively :: "recv_ev list \<Rightarrow> bool" where
  "lively es \<longleftrightarrow> (\<forall>e \<in> set es. e = TimedOut \<or> (\<exists>bs. e = Data bs \<and> bs \<noteq> []))"

lemma steady_lively: "steady es \<Longrightarrow> lively es"
  by (auto simp: steady_def lively_def)

lemma steady_Nil [simp]: "steady []"
  by (simp add: steady_def)

lemma lively_Nil [simp]: "lively []"
  by (simp add: lively_def)

lemma steady_Cons [simp]: "steady (e # es) \<longleftrightarrow> (\<exists>bs. e = Data bs \<and> bs \<noteq> []) \<and> steady es"
  by (simp add: steady_def)

lemma lively_Cons [simp]:
  "lively (e # es) \<longleftrightarrow> (e = TimedOut \<or> (\<exists>bs. e = Data bs \<and> bs \<noteq> [])) \<and> lively es"
  by (simp add: lively_def)

text \<open>One receive of a steady or lively script.\<close>

lemma sock_recv_steady:
  assumes "steady es" and "0 < k" and "stream es \<noteq> []"
  shows "\<exists>d es'. sock_recv k es = (R_data d, es') \<and> steady es' \<and> stream es = d @ stream es'
    \<and> d \<noteq> [] \<and> length d \<le> k"
  using assms by (cases "(k, es)" rule: sock_recv.cases) auto

lemma sock_recv_lively:
  assumes "lively es" and "0 < k" and "stream es \<noteq> []"
  shows "(\<exists>d es'. sock_recv k es = (R_data d, es') \<and> lively es' \<and> stream es = d @ stream es'
      \<and> d \<noteq> [] \<and> length d \<le> k)
    \<or> (\<exists>es'. sock_recv k es = (R_timeout, es') \<and> lively es' \<and> stream es' = stream es
      \<and> length es' < length es)"
  using assms by (cases "(k, es)" rule: sock_recv.cases) auto

lemma recv_exact_stream:
  assumes "steady es" and "length buf \<le> n" and "n \<le> length buf + length (stream es)"
  shows "\<exists>es'. recv_exact n dl buf w es = (Got (buf @ take (n - length buf) (stream es)), es')
    \<and> steady es' \<and> stream es' = drop (n - length buf) (stream es)"
  using assms
proof (induction "n - length buf" arbitrary: buf w es rule: less_induct)
  case less
  show ?case
  proof (cases "length buf = n")
    case True
    with less.prems show ?thesis by (simp add: recv_exact.simps)
  next
    case False
    with less.prems have k: "0 < n - length buf" and ne: "stream es \<noteq> []" by auto
    obtain d es1 where d: "sock_recv (n - length buf) es = (R_data d, es1)" "steady es1"
      "stream es = d @ stream es1" "d \<noteq> []" "length d \<le> n - length buf"
      using sock_recv_steady [OF less.prems(1) k ne] by blast
    have "\<exists>es'. recv_exact n dl (buf @ d) 0 es1 =
        (Got ((buf @ d) @ take (n - length (buf @ d)) (stream es1)), es')
        \<and> steady es' \<and> stream es' = drop (n - length (buf @ d)) (stream es1)"
      using d less.prems k by (intro less.hyps) (auto simp flip: length_greater_0_conv)
    moreover have "recv_exact n dl buf w es = recv_exact n dl (buf @ d) 0 es1"
      using d(1) k by (simp add: recv_exact.simps [of n dl buf])
    ultimately show ?thesis
      using d(3,5) by simp
  qed
qed

lemma recv_all_stream:
  assumes "lively es" and "length buf \<le> n" and "n \<le> length buf + length (stream es)"
  shows "\<exists>es'. recv_all True n buf es = (Got (buf @ take (n - length buf) (stream es)), es')
    \<and> lively es' \<and> stream es' = drop (n - length buf) (stream es)"
  using assms
proof (induction "(n - length buf) + length es" arbitrary: buf es rule: less_induct)
  case less
  show ?case
  proof (cases "length buf = n")
    case True
    with less.prems show ?thesis by (simp add: recv_all.simps)
  next
    case False
    with less.prems have k: "0 < n - length buf" and ne: "stream es \<noteq> []" by auto
    consider
        (data) d es1 where "sock_recv (n - length buf) es = (R_data d, es1)" "lively es1"
          "stream es = d @ stream es1" "d \<noteq> []" "length d \<le> n - length buf"
      | (pause) es1 where "sock_recv (n - length buf) es = (R_timeout, es1)" "lively es1"
          "stream es1 = stream es" "length es1 < length es"
      using sock_recv_lively [OF less.prems(1) k ne] by blast
    then show ?thesis
    proof cases
      case data
      have "\<exists>es'. recv_all True n (buf @ d) es1 =
          (Got ((buf @ d) @ take (n - length (buf @ d)) (stream es1)), es')
          \<and> lively es' \<and> stream es' = drop (n - length (buf @ d)) (stream es1)"
        using data less.prems k sock_recv_data [OF data(1) k]
        by (intro less.hyps) (auto simp flip: length_greater_0_conv)
      moreover have "recv_all True n buf es = recv_all True n (buf @ d) es1"
        using data(1) k by (simp add: recv_all.simps [of True n buf])
      ultimately show ?thesis
        using data(3,5) by simp
    next
      case pause
      have "recv_all True n buf es = recv_all True n buf es1"
        using pause(1) k by (simp add: recv_all.simps [of True n buf])
      then show ?thesis
        using less.hyps [of buf es1] pause less.prems by simp
    qed
  qed
qed

section \<open>The request/response handler serves frames\<close>

text \<open>The abstract server: whole frames in, whole input frames out.\<close>

definition serve_frame :: "rat \<Rightarrow> bytes \<Rightarrow> gateway \<Rightarrow> gateway" where
  "serve_frame t f g = snd (apply_outputs f (mon_rx t f g))"

fun serve_frames :: "(rat \<times> bytes) list \<Rightarrow> gateway \<Rightarrow> gateway \<times> bytes list" where
  "serve_frames [] g = (g, [])"
| "serve_frames ((t, f) # fs) g =
     (let g1 = serve_frame t f g;
          reply = (case build_inputs g1 of Inl _ \<Rightarrow> [] | Inr r \<Rightarrow> r);
          (g2, rs) = serve_frames fs (mon_tx reply g1)
      in (g2, reply # rs))"

definition inputs_fit :: "gateway \<Rightarrow> bool" where
  "inputs_fit g \<longleftrightarrow> (\<forall>io \<in> set (gw_io g). length (io_inp io) < 65536)"

lemma build_inputs_bounded: "gw_bounded g \<Longrightarrow> inputs_fit g \<Longrightarrow> \<exists>r. build_inputs g = Inr r"
  using build_inputs_flat [of g] build_inputs_framed [of g] gw_bounded_length [of g]
  by (cases "gw_framed g") (auto simp: inputs_fit_def)

lemma build_inputs_ok: "gw_sized g \<Longrightarrow> inputs_fit g \<Longrightarrow> \<exists>r. build_inputs g = Inr r"
  by (rule build_inputs_bounded [OF gw_sized_bounded])

lemma mon_rx_same [simp]:
  "gw_framed (mon_rx t f g) = gw_framed g" "gw_io (mon_rx t f g) = gw_io g"
  "gw_device_configs (mon_rx t f g) = gw_device_configs g" "gw_running (mon_rx t f g) = gw_running g"
  "out_frame_size (mon_rx t f g) = out_frame_size g" "gw_watchdog_ms (mon_rx t f g) = gw_watchdog_ms g"
  by (simp_all add: mon_rx_def gw_say_def Let_def out_frame_size_def)

lemma mon_tx_same [simp]:
  "gw_framed (mon_tx f g) = gw_framed g" "gw_io (mon_tx f g) = gw_io g"
  "gw_device_configs (mon_tx f g) = gw_device_configs g" "gw_running (mon_tx f g) = gw_running g"
  "out_frame_size (mon_tx f g) = out_frame_size g" "gw_watchdog_ms (mon_tx f g) = gw_watchdog_ms g"
  by (simp_all add: mon_tx_def Let_def out_frame_size_def)

lemma inputs_fit_map: "inputs_fit g \<longleftrightarrow> (\<forall>d \<in> set (map io_inp (gw_io g)). length d < 65536)"
  by (simp add: inputs_fit_def)

lemma serve_frame_ok:
  assumes "gw_sized g" and "gw_framed g \<or> out_frame_size g \<le> int (length f)"
  shows "apply_outputs f (mon_rx t f g) = (None, serve_frame t f g)"
    and "gw_sized (serve_frame t f g)"
    and "inputs_fit (serve_frame t f g) = inputs_fit g"
    and "gw_running (serve_frame t f g) = gw_running g"
    and "gw_framed (serve_frame t f g) = gw_framed g"
    and "out_frame_size (serve_frame t f g) = out_frame_size g"
proof -
  obtain ios where "apply_outputs f (mon_rx t f g) = (None, (mon_rx t f g)\<lparr>gw_io := ios\<rparr>)"
    "gw_sized ((mon_rx t f g)\<lparr>gw_io := ios\<rparr>)" "map io_inp ios = map io_inp (gw_io g)"
    using apply_outputs_ok [of "mon_rx t f g" f] assms by auto
  then show "apply_outputs f (mon_rx t f g) = (None, serve_frame t f g)"
    and "gw_sized (serve_frame t f g)"
    and "inputs_fit (serve_frame t f g) = inputs_fit g"
    and "gw_running (serve_frame t f g) = gw_running g"
    and "gw_framed (serve_frame t f g) = gw_framed g"
    and "out_frame_size (serve_frame t f g) = out_frame_size g"
    using mon_rx_same(5) [of t f g]
    by (simp_all add: serve_frame_def inputs_fit_map out_frame_size_def)
qed

text \<open>One pass on a steady stream whose first frame is complete.\<close>

lemma tcp_iter_frame:
  assumes "gw_sized g" and "inputs_fit g" and "int (length f) = out_frame_size g" and "f \<noteq> []"
    and "0 < inp_size" and "steady (c_rx c)" and "stream (c_rx c) = f @ tl_bytes" and "c_send_ok c = []"
  shows "\<exists>es' reply. build_inputs (serve_frame t f g) = Inr reply \<and>
    tcp_iter (out_frame_size g) inp_size t g c =
      (Go, mon_tx reply (serve_frame t f g), c\<lparr>c_rx := es', c_sent := c_sent c @ [reply]\<rparr>)
    \<and> steady es' \<and> stream es' = tl_bytes"
proof -
  have n: "nat (out_frame_size g) = length f" and pos: "0 < out_frame_size g"
    using assms(3,4) by (simp_all flip: assms(3))
  obtain es' where es': "recv_exact (length f) 2 [] 0 (c_rx c) = (Got f, es')" "steady es'"
    "stream es' = tl_bytes"
    using recv_exact_stream [OF assms(6), of "[]" "length f" 2 0] assms(7) by auto
  note ok = serve_frame_ok [OF assms(1), of f t]
  obtain reply where "build_inputs (serve_frame t f g) = Inr reply"
    using build_inputs_ok [of "serve_frame t f g"] ok assms(2,3) by auto
  then show ?thesis
    using es' ok(1) assms(3,4,5,8) n pos
    by (intro exI [of _ es'] exI [of _ reply]) (simp add: tcp_iter_def send_inputs_def conn_send_def)
qed

lemma tcp_loop_serves:
  assumes "gw_sized g" and "inputs_fit g" and "gw_running g"
    and "\<forall>(t, f) \<in> set tfs. int (length f) = out_frame_size g" and "0 < out_frame_size g" and "0 < inp_size"
    and "steady (c_rx c)" and "stream (c_rx c) = concat (map snd tfs)" and "c_send_ok c = []"
  shows "\<exists>c'. tcp_loop (out_frame_size g) inp_size (map fst tfs) g c = (Go, fst (serve_frames tfs g), c')
    \<and> c_sent c' = c_sent c @ snd (serve_frames tfs g) \<and> stream (c_rx c') = []"
  using assms
proof (induction tfs arbitrary: g c)
  case Nil
  then show ?case by simp
next
  case (Cons tf tfs)
  obtain t f where tf: "tf = (t, f)" by (cases tf)
  have f: "int (length f) = out_frame_size g" "f \<noteq> []" "stream (c_rx c) = f @ concat (map snd tfs)"
    using Cons.prems tf by auto
  obtain es' reply where step: "build_inputs (serve_frame t f g) = Inr reply"
    "tcp_iter (out_frame_size g) inp_size t g c =
      (Go, mon_tx reply (serve_frame t f g), c\<lparr>c_rx := es', c_sent := c_sent c @ [reply]\<rparr>)"
    "steady es'" "stream es' = concat (map snd tfs)"
    using tcp_iter_frame [OF Cons.prems(1,2) f(1,2) Cons.prems(6,7) f(3) Cons.prems(9)] by blast
  let ?g1 = "mon_tx reply (serve_frame t f g)"
  let ?c1 = "c\<lparr>c_rx := es', c_sent := c_sent c @ [reply]\<rparr>"
  note ok = serve_frame_ok [OF Cons.prems(1), of f t]
  have same: "out_frame_size ?g1 = out_frame_size g"
    using ok f(1) by simp
  have "\<exists>c'. tcp_loop (out_frame_size ?g1) inp_size (map fst tfs) ?g1 ?c1 = (Go, fst (serve_frames tfs ?g1), c')
    \<and> c_sent c' = c_sent ?c1 @ snd (serve_frames tfs ?g1) \<and> stream (c_rx c') = []"
  proof (rule Cons.IH)
    show "gw_sized ?g1" "inputs_fit ?g1" "gw_running ?g1"
      using ok f(1) Cons.prems by (simp_all add: inputs_fit_map)
    show "\<forall>(t, f) \<in> set tfs. int (length f) = out_frame_size ?g1" "0 < out_frame_size ?g1"
      using Cons.prems same by auto
  qed (use Cons.prems step in auto)
  then show ?case
    using step Cons.prems(3) same by (auto simp: tf Let_def split: prod.splits)
qed

section \<open>Whatever the network does\<close>

text \<open>Every result of a receive has the length that was asked for.\<close>

lemma recv_exact_length:
  "recv_exact n dl buf w es = (Got d, es') \<Longrightarrow> length buf \<le> n \<Longrightarrow> d = [] \<or> length d = n"
proof (induction n dl buf w es arbitrary: d es' rule: recv_exact.induct)
  case (1 n dl buf w es)
  show ?case
  proof (cases "length buf < n")
    case False
    with "1.prems" show ?thesis by (simp add: recv_exact.simps)
  next
    case True
    obtain r es1 where r: "sock_recv (n - length buf) es = (r, es1)"
      by (cases "sock_recv (n - length buf) es")
    then show ?thesis
      using "1.IH" [OF True r [symmetric]] "1.prems" True sock_recv_data [of "n - length buf" es _ es1]
      by (cases r) (fastforce simp: recv_exact.simps [of n dl buf] split: if_splits)+
  qed
qed

lemma recv_all_length: "recv_all r n buf es = (Got d, es') \<Longrightarrow> length d = n"
proof (induction r n buf es arbitrary: d es' rule: recv_all.induct)
  case (1 running n buf es)
  show ?case
  proof (cases "length buf < n \<and> running")
    case False
    with "1.prems" show ?thesis by (auto simp: recv_all.simps split: if_splits)
  next
    case True
    obtain r es1 where r: "sock_recv (n - length buf) es = (r, es1)"
      by (cases "sock_recv (n - length buf) es")
    then show ?thesis
      using "1.IH" [OF True r [symmetric]] "1.prems" True
      by (cases r) (auto simp: recv_all.simps [of _ n buf es])
  qed
qed

text \<open>What a handler must keep: buffers within their configured sizes, inputs that fit a
  block, the configuration and the inputs as they were; and no uncaught exception.  A step
  with \<open>keep\<close> keeps the configured sizes exactly as well.\<close>

definition gw_ok :: "gateway \<Rightarrow> bool" where
  "gw_ok g \<longleftrightarrow> gw_bounded g \<and> inputs_fit g"

definition same_shape :: "gateway \<Rightarrow> gateway \<Rightarrow> bool" where
  "same_shape g g' \<longleftrightarrow> gw_device_configs g' = gw_device_configs g \<and> gw_framed g' = gw_framed g
     \<and> gw_protocol g' = gw_protocol g \<and> gw_running g' = gw_running g
     \<and> map io_inp (gw_io g') = map io_inp (gw_io g)"

definition good_step :: "bool \<Rightarrow> gateway \<Rightarrow> step \<times> gateway \<times> 'x \<Rightarrow> bool" where
  "good_step keep g r \<longleftrightarrow> (case r of (s, g', _) \<Rightarrow> gw_ok g' \<and> same_shape g g'
     \<and> (keep \<and> gw_sized g \<longrightarrow> gw_sized g') \<and> (\<forall>e. s \<noteq> Die e))"

lemma same_shape_refl [simp]: "same_shape g g"
  by (simp add: same_shape_def)

lemma same_shape_trans: "same_shape g g1 \<Longrightarrow> same_shape g1 g2 \<Longrightarrow> same_shape g g2"
  by (simp add: same_shape_def)

lemma mon_same_shape [simp]: "same_shape g (mon_rx t d g)" "same_shape g (mon_tx d g)"
  "same_shape g (g\<lparr>gw_client_addr := a\<rparr>)"
  by (simp_all add: same_shape_def mon_rx_def mon_tx_def gw_say_def Let_def)

lemma same_shape_mon_tx [simp]: "same_shape g (mon_tx d g1) = same_shape g g1"
  by (simp add: same_shape_def mon_tx_def Let_def)

lemma gw_ok_mon [simp]: "gw_ok (mon_rx t d g) = gw_ok g" "gw_ok (mon_tx d g) = gw_ok g"
  "gw_ok (g\<lparr>gw_client_addr := a\<rparr>) = gw_ok g" "gw_sized (g\<lparr>gw_client_addr := a\<rparr>) = gw_sized g"
  by (simp_all add: gw_ok_def inputs_fit_map) (simp_all add: gw_sized_def gw_bounded_def)

lemma good_stay: "gw_ok g \<Longrightarrow> (\<And>e. s \<noteq> Die e) \<Longrightarrow> good_step keep g (s, g, x)"
  by (simp add: good_step_def)

lemma good_send:
  assumes "gw_ok g" and "same_shape g0 g" and "\<And>f. build_inputs g = Inr f \<Longrightarrow> \<exists>m. wrap f = Inr m"
    and "keep \<and> gw_sized g0 \<longrightarrow> gw_sized g"
  shows "good_step keep g0 (send_inputs wrap g c)"
proof -
  obtain f where f: "build_inputs g = Inr f"
    using assms(1) build_inputs_bounded by (auto simp: gw_ok_def)
  with assms show ?thesis
    by (cases "conn_send (THE m. wrap f = Inr m) c"; cases "fst (conn_send (THE m. wrap f = Inr m) c)")
      (auto simp: send_inputs_def good_step_def split: sum.splits prod.splits bool.splits)
qed

text \<open>Whatever is applied, the buffers stay within their sizes; a framed gateway keeps them
  exactly, and so does a flat one that is given at least a full frame.\<close>

lemma apply_outputs_good:
  assumes "gw_ok g"
  shows "\<exists>g'. apply_outputs d g = (None, g') \<and> gw_ok g' \<and> same_shape g g'
    \<and> ((gw_framed g \<or> out_frame_size g \<le> int (length d)) \<and> gw_sized g \<longrightarrow> gw_sized g')"
proof -
  obtain ios where ios: "apply_outputs d g = (None, g\<lparr>gw_io := ios\<rparr>)" "gw_bounded (g\<lparr>gw_io := ios\<rparr>)"
    "map io_inp ios = map io_inp (gw_io g)"
    using apply_outputs_bounded [of g d] assms by (auto simp: gw_ok_def)
  moreover from ios(3) assms have "inputs_fit (g\<lparr>gw_io := ios\<rparr>)"
    by (simp add: gw_ok_def inputs_fit_map del: set_map)
  moreover have "(gw_framed g \<or> out_frame_size g \<le> int (length d)) \<and> gw_sized g \<longrightarrow> gw_sized (g\<lparr>gw_io := ios\<rparr>)"
    using apply_outputs_ok [of g d] ios(1) by auto
  ultimately show ?thesis
    by (auto simp: gw_ok_def same_shape_def)
qed

lemma tcp_iter_good: "gw_ok g \<Longrightarrow> good_step True g (tcp_iter (out_frame_size g) inp_size t g c)"
proof -
  assume ok: "gw_ok g"
  show ?thesis
  proof (cases "out_frame_size g > 0")
    case False
    with ok show ?thesis
      by (auto simp: tcp_iter_def intro!: good_send good_stay)
  next
    case True
    obtain r es where r: "recv_exact (nat (out_frame_size g)) 2 [] 0 (c_rx c) = (r, es)"
      by (cases "recv_exact (nat (out_frame_size g)) 2 [] 0 (c_rx c)")
    show ?thesis
    proof (cases "\<exists>d. r = Got d \<and> d \<noteq> []")
      case False
      with r True ok show ?thesis
        by (cases r) (auto simp: tcp_iter_def intro!: good_stay)
    next
      case got: True
      then obtain d where d: "r = Got d" "d \<noteq> []" by auto
      then have "length d = nat (out_frame_size g)"
        using recv_exact_length [of "nat (out_frame_size g)" 2 "[]" 0 "c_rx c" d es] r by simp
      then obtain g1 where g1: "apply_outputs d (mon_rx t d g) = (None, g1)" "gw_ok g1"
        "same_shape (mon_rx t d g) g1" "gw_sized g \<longrightarrow> gw_sized g1"
        using apply_outputs_good [of "mon_rx t d g" d] ok True by auto
      then have "same_shape g g1"
        using same_shape_trans [OF mon_same_shape(1)] by blast
      with g1 d r True ok show ?thesis
        by (auto simp: tcp_iter_def Let_def good_step_def [of True g "(Go, g1, c\<lparr>c_rx := es\<rparr>)"] intro!: good_send)
    qed
  qed
qed

lemma rx_apply_good:
  assumes "gw_ok g" and "keep \<Longrightarrow> gw_framed g \<or> out_frame_size g \<le> int (length d)"
  shows "good_step keep g (rx_apply t d g c)"
proof -
  obtain g1 where "apply_outputs d (mon_rx t d g) = (None, g1)" "gw_ok g1" "same_shape (mon_rx t d g) g1"
    "keep \<and> gw_sized g \<longrightarrow> gw_sized g1"
    using apply_outputs_good [of "mon_rx t d g" d] assms by auto
  then show ?thesis
    using same_shape_trans [OF mon_same_shape(1)] by (auto simp: rx_apply_def good_step_def)
qed

lemma stream_rx_good: "gw_ok g \<Longrightarrow> good_step True g (stream_rx (out_frame_size g) t g c)"
proof -
  assume ok: "gw_ok g"
  obtain r es where r: "recv_all (gw_running g) (nat (out_frame_size g)) [] (c_rx c) = (r, es)"
    by (cases "recv_all (gw_running g) (nat (out_frame_size g)) [] (c_rx c)")
  have "r = Got d \<Longrightarrow> out_frame_size g \<le> int (length d)" for d
    using recv_all_length [of "gw_running g" "nat (out_frame_size g)" "[]" "c_rx c" d es] r by simp
  with ok r show ?thesis
    by (cases r) (auto simp: stream_rx_def intro!: good_stay rx_apply_good)
qed

text \<open>The length-prefixed handler takes a payload of any length, so in flat mode it may leave
  the buffers shorter than they are configured.\<close>

lemma unpack_I_hdr: "length hdr = 4 \<Longrightarrow> \<exists>n. unpack_I hdr 0 = Inr n"
  by (simp add: unpack_I_def)

lemma stm_rx_good: "gw_ok g \<Longrightarrow> good_step (gw_framed g) g (stm_rx t g c)"
proof -
  assume ok: "gw_ok g"
  obtain r es where r: "recv_all (gw_running g) 4 [] (c_rx c) = (r, es)"
    by (cases "recv_all (gw_running g) 4 [] (c_rx c)")
  show ?thesis
  proof (cases "\<exists>h. r = Got h")
    case False
    with r ok show ?thesis
      by (cases r) (auto simp: stm_rx_def intro!: good_stay)
  next
    case True
    then obtain h where h: "r = Got h" by auto
    then obtain n where n: "unpack_I h 0 = Inr n"
      using recv_all_length [of "gw_running g" 4 "[]" "c_rx c" h es] r unpack_I_hdr by auto
    obtain r2 es2 where "recv_all (gw_running g) (nat n) [] es = (r2, es2)"
      by (cases "recv_all (gw_running g) (nat n) [] es")
    with r h n ok show ?thesis
      by (cases r2) (auto simp: stm_rx_def Let_def intro!: good_stay rx_apply_good)
  qed
qed

lemma udp_iter_good: "gw_ok g \<Longrightarrow> good_step True g (udp_iter (out_frame_size g) d a t ok g)"
proof -
  assume "gw_ok g"
  let ?g1 = "g\<lparr>gw_client_addr := Some a\<rparr>"
  have sz: "out_frame_size ?g1 = out_frame_size g"
    by (simp add: out_frame_size_def)
  have "\<exists>g2. (if int (length d) \<ge> out_frame_size g then apply_outputs d (mon_rx t d ?g1) else (None, ?g1)) = (None, g2)
      \<and> gw_ok g2 \<and> same_shape g g2 \<and> (gw_sized g \<longrightarrow> gw_sized g2)"
  proof (cases "int (length d) \<ge> out_frame_size g")
    case True
    then obtain g2 where "apply_outputs d (mon_rx t d ?g1) = (None, g2)" "gw_ok g2" "same_shape (mon_rx t d ?g1) g2"
      "gw_sized g \<longrightarrow> gw_sized g2"
      using apply_outputs_good [of "mon_rx t d ?g1" d] \<open>gw_ok g\<close> sz by auto
    moreover have "same_shape g (mon_rx t d ?g1)"
      by (rule same_shape_trans [OF mon_same_shape(3) mon_same_shape(1)])
    ultimately show ?thesis
      using True same_shape_trans [of g "mon_rx t d ?g1" g2] by simp
  qed (use \<open>gw_ok g\<close> in simp)
  then obtain g2 where g2: "(if int (length d) \<ge> out_frame_size g then apply_outputs d (mon_rx t d ?g1) else (None, ?g1)) = (None, g2)"
    "gw_ok g2" "same_shape g g2" "gw_sized g \<longrightarrow> gw_sized g2" by blast
  then obtain f where "build_inputs g2 = Inr f"
    using build_inputs_bounded by (auto simp: gw_ok_def)
  with g2 show ?thesis
    by (simp add: udp_iter_def Let_def good_step_def)
qed

section \<open>A length-prefixed frame, in any segments\<close>

lemma stm_rx_frame:
  assumes "gw_running g" and "lively (c_rx c)" and "stream (c_rx c) = be32 (int (length p)) @ p @ rest"
    and "p \<noteq> []" and "length p \<le> 1000000"
  shows "\<exists>es'. stm_rx t g c = rx_apply t p g (c\<lparr>c_rx := es'\<rparr>) \<and> lively es' \<and> stream es' = rest"
proof -
  obtain es1 where es1: "recv_all True 4 [] (c_rx c) = (Got (be32 (int (length p))), es1)" "lively es1"
    "stream es1 = p @ rest"
    using recv_all_stream [OF assms(2), of "[]" 4] assms(3) by (auto simp: len_simps)
  obtain es2 where es2: "recv_all True (length p) [] es1 = (Got p, es2)" "lively es2" "stream es2 = rest"
    using recv_all_stream [OF es1(2), of "[]" "length p"] es1(3) by auto
  have "unpack_I (be32 (int (length p))) 0 = Inr (int (length p))"
    using unpack_I_be32 [of "int (length p)" "[]"] assms(5) by simp
  then show ?thesis
    using es1 es2 assms(1,4,5) by (intro exI [of _ es2]) (simp add: stm_rx_def Let_def)
qed

text \<open>A handler step that is good, spelled out.\<close>

lemma good_stepD:
  assumes "good_step keep g r"
  shows "gw_bounded (fst (snd r))" and "map io_inp (gw_io (fst (snd r))) = map io_inp (gw_io g)"
    and "gw_device_configs (fst (snd r)) = gw_device_configs g" and "fst r \<noteq> Die e"
    and "keep \<Longrightarrow> gw_sized g \<Longrightarrow> gw_sized (fst (snd r))"
  using assms by (cases r; auto simp: good_step_def gw_ok_def same_shape_def)+

end
