(* ===== verification/Client.thy ===== *)
theory Client
  imports Gw_Socket
begin

text \<open>
  The drive control panel \<open>profinet_gateway_py/vfd_tcp_client.py\<close>: the words of a
  panel and their entry fields, and the poll loop that sends the output frame and
  reads the input frame back, over TCP, STM or UDP, flat or framed.  Labels are kept
  as the text and the number they show; floating-point percentages and times are
  exact rationals.
\<close>

section \<open>Panels\<close>

definition NSOLL_100PCT :: int where "NSOLL_100PCT = 0x4000"

definition STW1_OFF2 :: int where "STW1_OFF2 = 0x0000"
definition STW1_STOP :: int where "STW1_STOP = 0x047E"
definition STW1_RUN :: int where "STW1_RUN = 0x047F"
definition STW1_FAULT_ACK :: int where "STW1_FAULT_ACK = 0x0080"

definition ZSW1_BITS :: "(nat \<times> string) list" where
  "ZSW1_BITS = [
     (0, ''RDY_ON''), (1, ''RDY''), (2, ''RUN''), (3, ''FAULT''),
     (4, ''NO_OFF2''), (5, ''NO_OFF3''), (6, ''SW_INHIB''), (7, ''WARN''),
     (8, ''SPD_DEV''), (9, ''CTRL_REQ''), (10, ''SPD_REACHED'')]"

definition decode_zsw1 :: "int \<Rightarrow> string" where
  "decode_zsw1 z =
     (let s = join '' '' (map snd (filter (\<lambda>(b, name). z AND push_bit b 1 \<noteq> 0) ZSW1_BITS))
      in if s \<noteq> [] then s else em_dash)"

record panel =
  pan_stw1 :: int
  pan_nsoll :: int
  pan_stw1_var :: string
  pan_nsoll_var :: string
  pan_pct_var :: rat
  pan_pct_lbl :: rat
  pan_zsw1_var :: string
  pan_zbits_var :: string
  pan_nist_var :: "string \<times> rat"

definition hex4 :: "int \<Rightarrow> string" where
  "hex4 v = ''0x'' @ hex_fmt 4 (nat v)"

definition new_panel :: panel where
  "new_panel = \<lparr>pan_stw1 = 0, pan_nsoll = 0, pan_stw1_var = ''0x0000'', pan_nsoll_var = ''0x0000'',
     pan_pct_var = 0, pan_pct_lbl = 0, pan_zsw1_var = ''0x0000'', pan_zbits_var = em_dash,
     pan_nist_var = (''0x0000'', 0)\<rparr>"

definition set_stw1 :: "int \<Rightarrow> panel \<Rightarrow> panel" where
  "set_stw1 v p = (let w = v AND 0xFFFF in p\<lparr>pan_stw1 := w, pan_stw1_var := hex4 w\<rparr>)"

text \<open>The fault acknowledge sets its bit at once, and clears it again on a timer.\<close>

definition fault_ack :: "panel \<Rightarrow> panel" where
  "fault_ack p = set_stw1 (pan_stw1 p OR STW1_FAULT_ACK) p"

definition fault_ack_timer :: "panel \<Rightarrow> panel" where
  "fault_ack_timer p = set_stw1 (pan_stw1 p AND NOT STW1_FAULT_ACK) p"

text \<open>The entry fields: \<open>text\<close> is what the user typed.\<close>

definition stw1_from_entry :: "string \<Rightarrow> panel \<Rightarrow> panel" where
  "stw1_from_entry text p =
     (let p1 = (case parse_hex (strip text) of
                  Some v \<Rightarrow> p\<lparr>pan_stw1 := v AND 0xFFFF\<rparr>
                | None \<Rightarrow> p)
      in p1\<lparr>pan_stw1_var := hex4 (pan_stw1 p1)\<rparr>)"

definition nsoll_from_scale :: "rat \<Rightarrow> panel \<Rightarrow> panel" where
  "nsoll_from_scale pct p =
     (let v = py_round (pct / 100 * of_int NSOLL_100PCT) AND 0xFFFF
      in p\<lparr>pan_pct_var := pct, pan_nsoll := v, pan_pct_lbl := pct, pan_nsoll_var := hex4 v\<rparr>)"

definition nsoll_from_entry :: "string \<Rightarrow> panel \<Rightarrow> panel" where
  "nsoll_from_entry text p =
     (let p1 = (case parse_hex (strip text) of
                  Some v \<Rightarrow>
                    (let w = v AND 0xFFFF; pct = of_int w * 100 / of_int NSOLL_100PCT
                     in p\<lparr>pan_nsoll := w, pan_pct_var := pct, pan_pct_lbl := pct\<rparr>)
                | None \<Rightarrow> p)
      in p1\<lparr>pan_nsoll_var := hex4 (pan_nsoll p1)\<rparr>)"

definition update_inputs :: "int \<Rightarrow> int \<Rightarrow> panel \<Rightarrow> panel" where
  "update_inputs zsw1 nist p =
     (let s = (if nist \<ge> 0x8000 then nist - 0x10000 else nist)
      in p\<lparr>pan_zsw1_var := hex4 zsw1, pan_zbits_var := decode_zsw1 zsw1,
           pan_nist_var := (hex4 nist, of_int s * 100 / of_int NSOLL_100PCT)\<rparr>)"

section \<open>The poll loop\<close>

record client =
  cl_panels :: "panel list"
  cl_connected :: bool
  cl_tx :: nat
  cl_rx :: nat
  cl_rtt :: rat
  cl_rtt_min :: "rat option"
  cl_rtt_max :: rat
  cl_rtt_avg :: rat
  cl_posted :: "(int \<times> int) list list"

datatype proto = TCP | STM | UDP

text \<open>\<open>None\<close> is the infinite minimum before the first reply; \<open>cl_posted\<close> are
  the input values handed to the window.  The panels are rebuilt, and the statistics
  reset, only between sessions.\<close>

definition rebuild_panels :: "int \<Rightarrow> client \<Rightarrow> client" where
  "rebuild_panels n cl =
     (if cl_connected cl then cl else cl\<lparr>cl_panels := replicate (nat (max 1 n)) new_panel\<rparr>)"

definition client_connected_ok :: "client \<Rightarrow> client" where
  "client_connected_ok cl =
     cl\<lparr>cl_connected := True, cl_rtt := 0, cl_rtt_avg := 0, cl_rtt_max := 0, cl_rtt_min := None\<rparr>"

definition panel_words :: "panel \<Rightarrow> bytes" where
  "panel_words p = be16 (pan_stw1 p AND 0xFFFF) @ be16 (pan_nsoll p AND 0xFFFF)"

definition panel_block :: "nat \<Rightarrow> nat \<times> panel \<Rightarrow> py_error + bytes" where
  "panel_block out_b ip =
     (case ip of (i, p) \<Rightarrow>
       (case pack_H (int out_b) of Inl e \<Rightarrow> Inl e
        | Inr len \<Rightarrow> Inr (FRAME_SOF @ [word_of_int (int i AND 0xFF)] @ len @
                          ljust out_b (panel_words p) @ FRAME_EOF)))"

definition client_frame :: "bool \<Rightarrow> nat \<Rightarrow> panel list \<Rightarrow> py_error + bytes" where
  "client_frame framed out_b ps =
     (if framed then
        (case map_err (panel_block out_b) (enumerate 0 ps) of Inl e \<Rightarrow> Inl e
         | Inr blocks \<Rightarrow> Inr (concat blocks))
      else Inr (concat (map (\<lambda>p. ljust out_b (panel_words p)) ps)))"

text \<open>The client's own \<open>_recv_exact\<close>: a timeout before the first byte gives up.\<close>

function client_recv :: "nat \<Rightarrow> bytes \<Rightarrow> recv_ev list \<Rightarrow> rx \<times> recv_ev list" where
  "client_recv n buf es =
     (if length buf < n then
        (case sock_recv (n - length buf) es of
           (R_data chunk, es') \<Rightarrow> client_recv n (buf @ chunk) es'
         | (R_closed, es') \<Rightarrow> (NoFrame, es')
         | (R_timeout, es') \<Rightarrow> if buf \<noteq> [] then client_recv n buf es' else (NoFrame, es')
         | (R_error, es') \<Rightarrow> (RxError OSError, es')
         | (R_pending, es') \<Rightarrow> (Waiting, es'))
      else (Got buf, es))"
  by pat_completeness auto
termination
proof (relation "measure (\<lambda>(n, buf, es). (n - length buf) + length es)", goal_cases)
  case 1 show ?case by simp
next
  case (2 n buf es r es' chunk)
  then have "sock_recv (n - length buf) es = (R_data chunk, es')" by simp
  from sock_recv_data [OF this] 2(1) show ?case
    by (auto simp flip: length_greater_0_conv)
next
  case (3 n buf es r es')
  then have "sock_recv (n - length buf) es = (R_timeout, es')" by simp
  from sock_recv_timeout [OF this] show ?case by simp
qed

declare client_recv.simps [simp del]

text \<open>\<open>recvfrom(4096)\<close> takes one datagram, cut to its size.\<close>

fun recv_datagram :: "recv_ev list \<Rightarrow> rx \<times> recv_ev list" where
  "recv_datagram [] = (Waiting, [])"
| "recv_datagram (Data bs # es) = (Got (take 4096 bs), es)"
| "recv_datagram (TimedOut # es) = (RxError SocketTimeout, es)"
| "recv_datagram (_ # es) = (RxError OSError, es)"

text \<open>The input frame, by the protocol.\<close>

definition recv_reply :: "proto \<Rightarrow> nat \<Rightarrow> recv_ev list \<Rightarrow> rx \<times> recv_ev list" where
  "recv_reply proto inp_size es =
     (case proto of
        STM \<Rightarrow>
          (case client_recv 4 [] es of
             (Got hdr, es1) \<Rightarrow>
               (case unpack_I hdr 0 of Inl e \<Rightarrow> (RxError e, es1)
                | Inr n \<Rightarrow> client_recv (nat n) [] es1)
           | r \<Rightarrow> r)
      | TCP \<Rightarrow> client_recv inp_size [] es
      | UDP \<Rightarrow> recv_datagram es)"

text \<open>The input values: the framed walk, and the flat offsets.\<close>

definition put_vals :: "nat \<Rightarrow> nat \<Rightarrow> nat \<Rightarrow> bytes \<Rightarrow> (int \<times> int) list \<Rightarrow> (int \<times> int) list" where
  "put_vals drv len ds data vals =
     (if drv < length vals \<and> len \<ge> 4
      then vals[drv := (val16 (data ! ds) (data ! (ds + 1)), val16 (data ! (ds + 2)) (data ! (ds + 3)))]
      else vals)"

function client_walk :: "bytes \<Rightarrow> nat \<Rightarrow> (int \<times> int) list \<Rightarrow> (int \<times> int) list" where
  "client_walk data pos vals =
     (if pos + FRAME_OVERHEAD \<le> length data then
        if py_slice pos (pos + 2) data \<noteq> FRAME_SOF then client_walk data (pos + 1) vals
        else
          (let drive = unat (data ! (pos + 2));
               len = nat (val16 (data ! (pos + 3)) (data ! (pos + 4)));
               ds = pos + 5;
               de = ds + len
           in if de + 2 > length data \<or> py_slice de (de + 2) data \<noteq> FRAME_EOF
              then client_walk data (pos + 1) vals
              else client_walk data (de + 2) (put_vals drive len ds data vals))
      else vals)"
  by pat_completeness auto
termination
  by (relation "measure (\<lambda>(data, pos, vals). length data - pos)") (auto simp: FRAME_OVERHEAD_7)

declare client_walk.simps [simp del]

definition flat_val :: "nat \<Rightarrow> bytes \<Rightarrow> nat \<Rightarrow> int \<times> int" where
  "flat_val in_b data i =
     (let off = i * in_b in
      if off + 4 \<le> length data
      then (val16 (data ! off) (data ! (off + 1)), val16 (data ! (off + 2)) (data ! (off + 3)))
      else (0, 0))"

definition client_vals :: "bool \<Rightarrow> nat \<Rightarrow> nat \<Rightarrow> bytes \<Rightarrow> (int \<times> int) list" where
  "client_vals framed n in_b data =
     (if framed then client_walk data 0 (replicate n (0, 0)) else map (flat_val in_b data) [0 ..< n])"

text \<open>The counters and the round-trip times after a reply.\<close>

definition track_rtt :: "rat \<Rightarrow> client \<Rightarrow> client" where
  "track_rtt rtt cl =
     cl\<lparr>cl_tx := cl_tx cl + 1, cl_rx := cl_rx cl + 1, cl_rtt := rtt,
        cl_rtt_min := Some (case cl_rtt_min cl of None \<Rightarrow> rtt | Some m \<Rightarrow> min m rtt),
        cl_rtt_max := max (cl_rtt_max cl) rtt,
        cl_rtt_avg := (if cl_rtt_avg cl = 0 then rtt else cl_rtt_avg cl * (9 / 10) + rtt * (1 / 10))\<rparr>"

text \<open>What the entry fields give when the loop starts.\<close>

record poll_conf =
  pc_n :: nat
  pc_out_b :: nat
  pc_in_b :: nat
  pc_framed :: bool

definition poll_conf_of :: "nat \<Rightarrow> int \<Rightarrow> int \<Rightarrow> bool \<Rightarrow> poll_conf" where
  "poll_conf_of n outb inb framed =
     \<lparr>pc_n = n, pc_out_b = nat (max 4 outb), pc_in_b = nat (max 4 inb), pc_framed = framed\<rparr>"

definition poll_inp_size :: "poll_conf \<Rightarrow> nat" where
  "poll_inp_size pc = pc_n pc * (if pc_framed pc then pc_in_b pc + FRAME_OVERHEAD else pc_in_b pc)"

definition poll_msg :: "proto \<Rightarrow> bytes \<Rightarrow> py_error + bytes" where
  "poll_msg proto frame =
     (if proto = STM
      then (case pack_I (int (length frame)) of Inl e \<Rightarrow> Inl e | Inr h \<Rightarrow> Inr (h @ frame))
      else Inr frame)"

text \<open>One pass; \<open>rtt\<close> is the time it took, in milliseconds.  Over UDP it reads the target from an
  attribute that no socket object has.  A failed send is a broken socket and ends the loop; that the
  send of so short a message times out is left out (the code would go on with the next pass).\<close>

definition poll_iter :: "proto \<Rightarrow> poll_conf \<Rightarrow> rat \<Rightarrow> client \<Rightarrow> conn \<Rightarrow> step \<times> client \<times> conn" where
  "poll_iter proto pc rtt cl c =
     (case client_frame (pc_framed pc) (pc_out_b pc) (cl_panels cl) of
        Inl e \<Rightarrow> (Die e, cl, c)
      | Inr frame \<Rightarrow>
         (case poll_msg proto frame of
            Inl e \<Rightarrow> (Die e, cl, c)
          | Inr msg \<Rightarrow>
             if proto = UDP then (Die AttributeError, cl, c)
             else
             (case conn_send msg c of
                (False, c1) \<Rightarrow> (Break, cl, c1)
              | (True, c1) \<Rightarrow>
                 (case recv_reply proto (poll_inp_size pc) (c_rx c1) of (r, es) \<Rightarrow>
                    (let c2 = c1\<lparr>c_rx := es\<rparr> in
                     case r of
                       Waiting \<Rightarrow> (Wait, cl, c2)
                     | NoFrame \<Rightarrow> (Break, cl, c2)
                     | RxError e \<Rightarrow> ((if e = SocketTimeout then Go else if e = OSError then Break else Die e), cl, c2)
                     | Got data \<Rightarrow>
                         (let cl1 = track_rtt rtt cl;
                              vals = client_vals (pc_framed pc) (pc_n pc) (pc_in_b pc) data
                          in (Go, cl1\<lparr>cl_posted := cl_posted cl1 @ [vals]\<rparr>, c2)))))))"

definition client_disconnect :: "client \<Rightarrow> conn \<Rightarrow> client \<times> conn" where
  "client_disconnect cl c = (cl\<lparr>cl_connected := False\<rparr>, conn_close c)"

fun poll_loop :: "proto \<Rightarrow> poll_conf \<Rightarrow> rat list \<Rightarrow> client \<Rightarrow> conn \<Rightarrow> step \<times> client \<times> conn" where
  "poll_loop proto pc [] cl c = (Go, cl, c)"
| "poll_loop proto pc (rtt # rtts) cl c =
     (if cl_connected cl then
        (case poll_iter proto pc rtt cl c of
           (Go, cl1, c1) \<Rightarrow> poll_loop proto pc rtts cl1 c1
         | (Break, cl1, c1) \<Rightarrow> (Break, client_disconnect cl1 c1)
         | r \<Rightarrow> r)
      else (Break, client_disconnect cl c))"

definition apply_inputs :: "(int \<times> int) list \<Rightarrow> client \<Rightarrow> client" where
  "apply_inputs vals cl =
     cl\<lparr>cl_panels := map2 (\<lambda>p (z, nist). update_inputs z nist p) (take (length vals) (cl_panels cl)) vals
          @ drop (length vals) (cl_panels cl)\<rparr>"

section \<open>The framed walk is a fold over the blocks\<close>

definition put_word_pair :: "nat \<times> bytes \<Rightarrow> (int \<times> int) list \<Rightarrow> (int \<times> int) list" where
  "put_word_pair p vals =
     (case p of (i, d) \<Rightarrow>
        if i < length vals \<and> length d \<ge> 4
        then vals[i := (val16 (d ! 0) (d ! 1), val16 (d ! 2) (d ! 3))] else vals)"

interpretation cl_walk: block_walker client_walk put_vals put_word_pair
proof unfold_locales
  show "client_walk data pos vals = (if pos + FRAME_OVERHEAD \<le> length data then
        if py_slice pos (pos + 2) data \<noteq> FRAME_SOF then client_walk data (pos + 1) vals
        else
          (let drive = unat (data ! (pos + 2));
               len = nat (val16 (data ! (pos + 3)) (data ! (pos + 4)));
               ds = pos + 5;
               de = ds + len
           in if de + 2 > length data \<or> py_slice de (de + 2) data \<noteq> FRAME_EOF
              then client_walk data (pos + 1) vals
              else client_walk data (de + 2) (put_vals drive len ds data vals))
      else vals)" for data pos vals
    by (rule client_walk.simps)
  show "put_vals i len ds data s = put_word_pair (i, take len (drop ds data)) s"
    if "ds + len \<le> length data" for ds len data i s
    using that by (auto simp: put_vals_def put_word_pair_def)
qed

lemma length_put_word_pair [simp]: "length (put_word_pair p vals) = length vals"
  by (cases p) (simp add: put_word_pair_def)

lemma length_fold_put_word_pair [simp]: "length (fold put_word_pair ps vals) = length vals"
  by (induction ps arbitrary: vals) simp_all

lemma length_client_vals [simp]: "length (client_vals framed n in_b data) = n"
  by (simp add: client_vals_def cl_walk.walk_scan)

section \<open>The frame of the client in the gateway, and back\<close>

lemma length_panel_words [simp]: "length (panel_words p) = 4"
  by (simp add: panel_words_def)

definition panel_slot :: "nat \<Rightarrow> panel \<Rightarrow> bytes" where
  "panel_slot out_b p = ljust out_b (panel_words p)"

lemma length_panel_slot [simp]: "length (panel_slot out_b p) = max out_b 4"
  by (simp add: panel_slot_def)

lemma words_of_panel_words:
  "val16 (panel_words p ! 0) (panel_words p ! Suc 0) = pan_stw1 p mod 65536"
  "val16 (panel_words p ! 2) (panel_words p ! 3) = pan_nsoll p mod 65536"
  by (simp_all add: panel_words_def be16_def nth_append and_mask16 bytes_simps)

lemma words_of_panel_slot:
  "val16 (panel_slot b p ! 0) (panel_slot b p ! Suc 0) = pan_stw1 p mod 65536"
  "val16 (panel_slot b p ! 2) (panel_slot b p ! 3) = pan_nsoll p mod 65536"
  by (simp_all add: panel_slot_def ljust_def nth_append words_of_panel_words)

lemma client_frame_flat: "client_frame False out_b ps = Inr (concat (map (panel_slot out_b) ps))"
  by (simp add: client_frame_def panel_slot_def [abs_def])

lemma panel_block_frame:
  assumes "4 \<le> out_b" and "out_b < 65536"
  shows "panel_block out_b (i, p) = Inr (frame_block i (panel_slot out_b p))"
proof -
  have "(word_of_int (int i AND 255) :: byte) = word_of_nat i"
    by (simp add: and_mask8)
  then show ?thesis
    using assms by (simp add: panel_block_def frame_block_def panel_slot_def pack_H_ok max_def)
qed

lemma client_frame_framed:
  assumes "4 \<le> out_b" and "out_b < 65536"
  shows "client_frame True out_b ps = Inr (blocks.enc_all (map (panel_slot out_b) ps))"
proof -
  have "map_err (panel_block out_b) (enumerate k ps)
      = Inr (map (\<lambda>(i, p). frame_block i (panel_slot out_b p)) (enumerate k ps))" for k
    by (rule map_err_Inr) (auto simp: panel_block_frame assms)
  moreover have "map (\<lambda>(i, p). frame_block i (panel_slot out_b p)) (enumerate k ps)
      = map (\<lambda>(i, d). frame_block i d) (enumerate k (map (panel_slot out_b) ps))" for k
    by (induction ps arbitrary: k) simp_all
  ultimately show ?thesis
    by (simp add: client_frame_def blocks.enc_all_def)
qed

text \<open>Every device of the gateway has the client's byte counts.\<close>

definition uniform :: "nat \<Rightarrow> nat \<Rightarrow> gateway \<Rightarrow> bool" where
  "uniform out_b in_b g \<longleftrightarrow> gw_sized g \<and> (\<forall>s \<in> set (cfg_sizes (gw_device_configs g)). s = (out_b, in_b))"

lemma uniform_sizes:
  assumes "uniform out_b in_b g"
  shows "gw_sized g" and "length (gw_io g) = length (gw_device_configs g)"
    and "i < length (gw_io g) \<Longrightarrow> length (io_out (gw_io g ! i)) = out_b"
    and "i < length (gw_io g) \<Longrightarrow> length (io_inp (gw_io g ! i)) = in_b"
proof -
  show sized: "gw_sized g"
    using assms by (simp add: uniform_def)
  then show "length (gw_io g) = length (gw_device_configs g)"
    by (rule gw_sized_lengths)
  from sized assms have all: "\<forall>s \<in> set (io_sizes (gw_io g)). s = (out_b, in_b)"
    by (simp add: uniform_def gw_sized_def)
  assume "i < length (gw_io g)"
  then have "(length (io_out (gw_io g ! i)), length (io_inp (gw_io g ! i))) \<in> set (io_sizes (gw_io g))"
    by (simp add: io_sizes_def)
  with all show "length (io_out (gw_io g ! i)) = out_b" "length (io_inp (gw_io g ! i)) = in_b"
    by auto
qed

lemma uniform_frame_sizes:
  assumes "uniform out_b in_b g"
  shows "out_frame_size g = int (length (gw_io g) * (if gw_framed g then out_b + FRAME_OVERHEAD else out_b))"
    and "in_frame_size g = int (length (gw_io g) * (if gw_framed g then in_b + FRAME_OVERHEAD else in_b))"
proof -
  have len: "length (gw_io g) = length (gw_device_configs g)"
    using assms by (rule uniform_sizes)
  have "sum_list (map total_output_length dcs) = int (length dcs * out_b)
      \<and> sum_list (map total_input_length dcs) = int (length dcs * in_b)"
    if "lengths_ok dcs" "\<forall>s \<in> set (cfg_sizes dcs). s = (out_b, in_b)" for dcs
    using that by (induction dcs) (auto simp: lengths_ok_def cfg_sizes_def algebra_simps)
  then have "sum_list (map total_output_length (gw_device_configs g)) = int (length (gw_io g) * out_b)"
    "sum_list (map total_input_length (gw_device_configs g)) = int (length (gw_io g) * in_b)"
    using assms len by (simp_all add: uniform_def gw_sized_def)
  then show "out_frame_size g = int (length (gw_io g) * (if gw_framed g then out_b + FRAME_OVERHEAD else out_b))"
    and "in_frame_size g = int (length (gw_io g) * (if gw_framed g then in_b + FRAME_OVERHEAD else in_b))"
    by (simp_all add: out_frame_size_def in_frame_size_def algebra_simps flip: len)
qed

text \<open>The client's frame, flat or framed, sets every output buffer to its panel's slot.\<close>

lemma client_frame_applied:
  assumes "uniform out_b in_b g" and "4 \<le> out_b" and "out_b < 65536"
    and "length ps = length (gw_io g)" and "length ps \<le> 256"
  shows "\<exists>f. client_frame (gw_framed g) out_b ps = Inr f \<and> int (length f) = out_frame_size g
    \<and> apply_outputs f g =
        (None, g\<lparr>gw_io := map2 (\<lambda>io d. io\<lparr>io_out := d\<rparr>) (gw_io g) (map (panel_slot out_b) ps)\<rparr>)"
proof -
  note u = uniform_sizes [OF assms(1)]
  let ?ds = "map (panel_slot out_b) ps"
  have "io_sizes (gw_io g) = cfg_sizes (gw_device_configs g)"
    using u(1) by (simp add: gw_sized_def)
  then have "map fst (cfg_sizes (gw_device_configs g)) = map (\<lambda>io. length (io_out io)) (gw_io g)"
    by (metis (no_types, lifting) fst_conv io_sizes_def list.map_comp map_eq_conv comp_apply)
  moreover have "map (\<lambda>io. length (io_out io)) (gw_io g) = map length ?ds"
    using u(3) assms(2,4) by (auto intro!: nth_equalityI)
  ultimately have fits: "fits_outputs g ?ds"
    by (simp add: fits_outputs_def)
  have len: "length (frame_block i d) = length d + FRAME_OVERHEAD" for i d
    by (simp add: len_simps FRAME_OVERHEAD_7)
  show ?thesis
  proof (cases "gw_framed g")
    case True
    have "length (blocks.enc_all ?ds) = length ps * (out_b + FRAME_OVERHEAD)"
    proof -
      have "length (concat (map (\<lambda>(i, d). frame_block i d) (enumerate k ?ds))) = length ps * (out_b + FRAME_OVERHEAD)" for k
        using assms(2) by (induction ps arbitrary: k) (simp_all add: len)
      then show ?thesis by (simp add: blocks.enc_all_def)
    qed
    with True show ?thesis
      using apply_outputs_framed [OF u(1) True fits] assms
      by (simp add: client_frame_framed uniform_frame_sizes(1) [OF assms(1)])
  next
    case False
    have "length (concat ?ds) = length ps * out_b"
      using assms(2) by (induction ps) simp_all
    with False show ?thesis
      using apply_outputs_flat [OF u(1) False fits, of "[]"] assms
      by (simp add: client_frame_flat uniform_frame_sizes(1) [OF assms(1)])
  qed
qed

definition word_pair :: "bytes \<Rightarrow> int \<times> int" where
  "word_pair d = (val16 (d ! 0) (d ! 1), val16 (d ! 2) (d ! 3))"

lemma concat_uniform_nth:
  "\<forall>d \<in> set ds. length d = b \<Longrightarrow> i < length ds \<Longrightarrow> k < b \<Longrightarrow> concat ds ! (i * b + k) = ds ! i ! k"
proof (induction ds arbitrary: i)
  case Nil
  then show ?case by simp
next
  case (Cons d ds)
  then show ?case
    by (cases i) (simp_all add: nth_append)
qed

lemma length_concat_uniform: "\<forall>d \<in> set ds. length d = b \<Longrightarrow> length (concat ds) = length ds * b"
  by (induction ds) simp_all

lemma flat_val_concat:
  assumes "\<forall>d \<in> set ds. length d = b" and "4 \<le> b" and "i < length ds"
  shows "flat_val b (concat ds) i = word_pair (ds ! i)"
proof -
  have "i * b + b \<le> length ds * b"
    using assms(3) by (metis Suc_leI add.commute mult_Suc mult_le_mono1)
  then show ?thesis
    using concat_uniform_nth [OF assms(1,3), of 0] concat_uniform_nth [OF assms(1,3), of 1]
      concat_uniform_nth [OF assms(1,3), of 2] concat_uniform_nth [OF assms(1,3), of 3] assms(2)
    by (simp add: flat_val_def word_pair_def Let_def length_concat_uniform [OF assms(1)])
qed

lemma fold_word_pairs:
  "\<forall>d \<in> set ds. 4 \<le> length d \<Longrightarrow>
   fold put_word_pair (enumerate (length pre) ds) (pre @ replicate (length ds) (0, 0)) = pre @ map word_pair ds"
proof (induction ds arbitrary: pre)
  case Nil
  then show ?case by simp
next
  case (Cons d ds)
  have "put_word_pair (length pre, d) (pre @ (0, 0) # replicate (length ds) (0, 0))
      = (pre @ [word_pair d]) @ replicate (length ds) (0, 0)"
    using Cons.prems by (simp add: put_word_pair_def word_pair_def)
  then show ?case
    using Cons.IH [of "pre @ [word_pair d]"] Cons.prems by simp
qed

lemma client_vals_reply:
  assumes "uniform out_b in_b g" and "4 \<le> in_b" and "in_b < 65536" and "length (gw_io g) \<le> 256"
  shows "\<exists>r. build_inputs g = Inr r \<and> int (length r) = in_frame_size g
    \<and> client_vals (gw_framed g) (length (gw_io g)) in_b r = map (word_pair \<circ> io_inp) (gw_io g)"
proof -
  note u = uniform_sizes [OF assms(1)]
  let ?ds = "map io_inp (gw_io g)"
  have b: "\<forall>d \<in> set ?ds. length d = in_b"
    using u(4) by (auto simp: in_set_conv_nth)
  show ?thesis
  proof (cases "gw_framed g")
    case True
    have r: "build_inputs g = Inr (blocks.enc_all ?ds)"
      using b assms(3) by (intro build_inputs_framed u True) auto
    have "length (concat (map (\<lambda>(i, d). frame_block i d) (enumerate k ds))) = length ds * (in_b + FRAME_OVERHEAD)"
      if "\<forall>d \<in> set ds. length d = in_b" for k ds
      using that by (induction ds arbitrary: k) (simp_all add: len_simps)
    then have "length (blocks.enc_all ?ds) = length (gw_io g) * (in_b + FRAME_OVERHEAD)"
      using b by (simp add: blocks.enc_all_def)
    moreover have "scan (blocks.enc_all ?ds) = enumerate 0 ?ds"
      using b assms(3,4) by (intro blocks.dec_enc_all) auto
    ultimately show ?thesis
      using r True b assms(2) fold_word_pairs [of ?ds "[]"]
      by (simp add: client_vals_def cl_walk.walk_scan uniform_frame_sizes(2) [OF assms(1)])
  next
    case False
    have r: "build_inputs g = Inr (concat ?ds)"
      using u False by (intro build_inputs_flat)
    have "map (flat_val in_b (concat ?ds)) [0 ..< length (gw_io g)] = map (word_pair \<circ> io_inp) (gw_io g)"
      using flat_val_concat [OF b assms(2)] by (intro nth_equalityI) simp_all
    then show ?thesis
      using r False length_concat_uniform [OF b]
      by (simp add: client_vals_def uniform_frame_sizes(2) [OF assms(1)])
  qed
qed

section \<open>Receiving the reply\<close>

lemma client_recv_stream:
  assumes "steady es" and "length buf \<le> n" and "n \<le> length buf + length (stream es)"
  shows "\<exists>es'. client_recv n buf es = (Got (buf @ take (n - length buf) (stream es)), es')
    \<and> steady es' \<and> stream es' = drop (n - length buf) (stream es)"
  using assms
proof (induction "n - length buf" arbitrary: buf es rule: less_induct)
  case less
  show ?case
  proof (cases "length buf = n")
    case True
    with less.prems show ?thesis by (simp add: client_recv.simps)
  next
    case False
    with less.prems have k: "0 < n - length buf" and ne: "stream es \<noteq> []" by auto
    obtain d es1 where d: "sock_recv (n - length buf) es = (R_data d, es1)" "steady es1"
      "stream es = d @ stream es1" "d \<noteq> []" "length d \<le> n - length buf"
      using sock_recv_steady [OF less.prems(1) k ne] by blast
    have "\<exists>es'. client_recv n (buf @ d) es1 =
        (Got ((buf @ d) @ take (n - length (buf @ d)) (stream es1)), es')
        \<and> steady es' \<and> stream es' = drop (n - length (buf @ d)) (stream es1)"
      using d less.prems k by (intro less.hyps) (auto simp flip: length_greater_0_conv)
    moreover have "client_recv n buf es = client_recv n (buf @ d) es1"
      using d(1) k by (simp add: client_recv.simps [of n buf])
    ultimately show ?thesis
      using d(3,5) by simp
  qed
qed

text \<open>One pass of the client over TCP and the pass of the gateway that answers it.\<close>

lemma gateway_answers:
  assumes "uniform out_b in_b g" and "4 \<le> out_b" "out_b < 65536" "4 \<le> in_b" "in_b < 65536"
    and "length ps = length (gw_io g)" and "0 < length ps" "length ps \<le> 256"
    and "steady (c_rx c)" and "client_frame (gw_framed g) out_b ps = Inr (stream (c_rx c))" and "c_send_ok c = []"
  shows "\<exists>g' c' reply. tcp_iter (out_frame_size g) (in_frame_size g) t g c = (Go, g', c')
    \<and> c_sent c' = c_sent c @ [reply] \<and> int (length reply) = in_frame_size g
    \<and> client_vals (gw_framed g) (length ps) in_b reply = map (word_pair \<circ> io_inp) (gw_io g)
    \<and> map io_out (gw_io g') = map (panel_slot out_b) ps \<and> map io_inp (gw_io g') = map io_inp (gw_io g)"
proof -
  note u = uniform_sizes [OF assms(1)]
  let ?f = "stream (c_rx c)"
  let ?ios = "map2 (\<lambda>io d. io\<lparr>io_out := d\<rparr>) (gw_io g) (map (panel_slot out_b) ps)"
  have "uniform out_b in_b (mon_rx t ?f g)"
    using assms(1) by (simp add: uniform_def)
  from client_frame_applied [OF this, of ps] assms
  have f: "int (length ?f) = out_frame_size g"
    and app: "apply_outputs ?f (mon_rx t ?f g) = (None, (mon_rx t ?f g)\<lparr>gw_io := ?ios\<rparr>)"
    by auto
  then have sf: "serve_frame t ?f g = (mon_rx t ?f g)\<lparr>gw_io := ?ios\<rparr>"
    by (simp add: serve_frame_def)
  have pos: "0 < out_frame_size g" "0 < in_frame_size g"
    using assms uniform_frame_sizes [OF assms(1)] by auto
  then have ne: "?f \<noteq> []"
    using f by auto
  have fit: "inputs_fit g"
    using u(4) assms(5) by (auto simp: inputs_fit_def in_set_conv_nth)
  obtain es' reply where it: "build_inputs (serve_frame t ?f g) = Inr reply"
    "tcp_iter (out_frame_size g) (in_frame_size g) t g c =
      (Go, mon_tx reply (serve_frame t ?f g), c\<lparr>c_rx := es', c_sent := c_sent c @ [reply]\<rparr>)"
    using tcp_iter_frame [OF u(1) fit f ne pos(2) assms(9) _ assms(11), of "[]" t] by auto
  have outs: "map io_out ?ios = map (panel_slot out_b) ps" and inps: "map io_inp ?ios = map io_inp (gw_io g)"
    using assms(6) by (auto intro!: nth_equalityI)
  have "build_inputs (serve_frame t ?f g) = build_inputs g"
    by (rule build_inputs_cong) (use inps in \<open>simp_all add: sf\<close>)
  then show ?thesis
    using it client_vals_reply [OF assms(1,4,5)] assms(6,8) outs inps
    by (auto simp: sf)
qed

lemma client_accepts:
  assumes "client_frame (pc_framed pc) (pc_out_b pc) (cl_panels cl) = Inr f"
    and "steady (c_rx c)" and "stream (c_rx c) = reply" and "length reply = poll_inp_size pc" and "c_send_ok c = []"
  shows "\<exists>cl' c'. poll_iter TCP pc rtt cl c = (Go, cl', c') \<and> c_sent c' = c_sent c @ [f]
    \<and> cl_panels cl' = cl_panels cl \<and> cl_posted cl' = cl_posted cl @ [client_vals (pc_framed pc) (pc_n pc) (pc_in_b pc) reply]"
proof -
  obtain es' where "client_recv (poll_inp_size pc) [] (c_rx c) = (Got reply, es')"
    using client_recv_stream [OF assms(2), of "[]" "poll_inp_size pc"] assms(3,4) by auto
  then show ?thesis
    using assms(1,5)
    by (simp add: poll_iter_def poll_msg_def conn_send_def recv_reply_def track_rtt_def Let_def)
qed

lemma recv_reply_stm:
  assumes "steady es" and "stream es = be32 (int (length p)) @ p @ rest" and "length p \<le> 1000000"
  shows "\<exists>es'. recv_reply STM n es = (Got p, es') \<and> stream es' = rest"
proof -
  obtain es1 where es1: "client_recv 4 [] es = (Got (be32 (int (length p))), es1)" "steady es1" "stream es1 = p @ rest"
    using client_recv_stream [OF assms(1), of "[]" 4] assms(2) by (auto simp: len_simps)
  obtain es2 where es2: "client_recv (length p) [] es1 = (Got p, es2)" "stream es2 = rest"
    using client_recv_stream [OF es1(2), of "[]" "length p"] es1(3) by auto
  have "unpack_I (be32 (int (length p))) 0 = Inr (int (length p))"
    using unpack_I_be32 [of "int (length p)" "[]"] assms(3) by simp
  then show ?thesis
    using es1 es2 by (simp add: recv_reply_def)
qed

end
