(* ===== verification/Pn_Ctrl.thy ===== *)
theory Pn_Ctrl
  imports Config Py_Str "HOL-Library.List_Lexorder" "HOL-Library.Char_ord"
begin

text \<open>
  The state of \<open>ProfinetCtrl\<close> (\<open>profinet_gateway_py/profinet_ctrl.py\<close>): the
  devices and their runtime objects, adapters and their healing, starting and stopping,
  cyclic IO split over the rack, queries and statistics.  The objects of the
  \<open>profinet\<close> package are outside the sources: the cyclic controller is a type
  parameter with the operations of \<open>cyc_ops\<close>, connections and alarm listeners are
  handles.
\<close>

section \<open>State\<close>

text \<open>Counters of the package's cyclic controller; \<open>None\<close> is a missing attribute.\<close>

record cyc_stats =
  cs_frames_sent :: "int option"
  cs_frames_received :: "int option"
  cs_frames_missed :: "int option"
  cs_frames_invalid :: "int option"
  cs_last_cycle :: "rat option"
  cs_min_cycle :: "rat option"
  cs_max_cycle :: "rat option"
  cs_max_jitter :: "rat option"
  cs_timeouts :: "rat option"
  cs_cycle_count :: "int option"
  cs_cycle_sum :: "rat option"

record 'c cyc_ops =
  set_output_data :: "int \<Rightarrow> int \<Rightarrow> bytes \<Rightarrow> 'c \<Rightarrow> py_error + 'c"
  get_input_data :: "int \<Rightarrow> int \<Rightarrow> 'c \<Rightarrow> py_error + bytes option"
  cyc_stats_of :: "'c \<Rightarrow> cyc_stats option"
  cyc_is_running :: "'c \<Rightarrow> bool option"

record scan_result =
  sr_name_of_station :: string
  sr_ip_str :: string
  sr_mac :: bytes
  sr_netmask :: string
  sr_gateway :: string
  sr_vendor_name :: string
  sr_vendor_id :: int
  sr_device_id :: int

record stats =
  st_frames_sent :: int
  st_frames_received :: int
  st_missed_cycles :: int
  st_watchdog_timeouts :: int
  st_cycle_counter :: int
  st_connected :: int
  st_cyclic_running :: int
  st_frames_invalid :: int
  st_last_cycle_us :: int
  st_min_cycle_us :: int
  st_max_cycle_us :: int
  st_avg_cycle_us :: rat
  st_max_jitter_us :: int
  st_consecutive_timeouts :: int

definition default_stats :: stats where
  "default_stats = \<lparr>st_frames_sent = 0, st_frames_received = 0, st_missed_cycles = 0,
     st_watchdog_timeouts = 0, st_cycle_counter = 0, st_connected = 0, st_cyclic_running = 0,
     st_frames_invalid = 0, st_last_cycle_us = 0, st_min_cycle_us = 0, st_max_cycle_us = 0,
     st_avg_cycle_us = 0, st_max_jitter_us = 0, st_consecutive_timeouts = 0\<rparr>"

type_synonym rack_slot = "int \<times> int \<times> int \<times> int"

record 'c dev_state =
  ds_config :: device_config
  ds_connected :: bool
  ds_zsw1 :: int
  ds_nist :: int
  ds_stw1 :: int
  ds_nsoll :: int
  ds_error :: string
  ds_conn :: "nat option"
  ds_cyclic :: "'c option"
  ds_alarm :: "nat option"
  ds_src_mac :: bytes
  ds_slot :: int
  ds_subslot :: int
  ds_dos :: "rack_slot list"

definition new_dev_state :: "device_config \<Rightarrow> 'c dev_state" where
  "new_dev_state dc = \<lparr>ds_config = dc, ds_connected = False, ds_zsw1 = 0, ds_nist = 0, ds_stw1 = 0,
     ds_nsoll = 0, ds_error = [], ds_conn = None, ds_cyclic = None, ds_alarm = None, ds_src_mac = [],
     ds_slot = dc_slot dc, ds_subslot = dc_subslot dc, ds_dos = []\<rparr>"

datatype pn_event =
    AdapterCorrected string string | AdapterUnknown string
  | BackendStarted string nat | AllStopped
  | WriteError py_error | ReadError py_error

text \<open>What stopping asks of the package's objects, in order.\<close>

datatype 'c stop_call = AlarmStop nat | CyclicStop 'c | ConnClose nat

record 'c pn_ctrl =
  pn_devices :: "'c dev_state list"
  pn_adapter :: string
  pn_ok :: bool
  pn_log :: "pn_event list"
  pn_stops :: "'c stop_call list"

definition pn_say :: "pn_event \<Rightarrow> 'c pn_ctrl \<Rightarrow> 'c pn_ctrl" where
  "pn_say e pn = pn\<lparr>pn_log := pn_log pn @ [e]\<rparr>"

definition pn_init :: "bool \<Rightarrow> 'c pn_ctrl" where
  "pn_init lib_ok = \<lparr>pn_devices = [], pn_adapter = [], pn_ok = lib_ok, pn_log = [], pn_stops = []\<rparr>"

definition pn_get :: "int \<Rightarrow> 'c pn_ctrl \<Rightarrow> 'c dev_state option" where
  "pn_get idx pn =
     (if 0 \<le> idx \<and> idx < int (length (pn_devices pn)) then Some (pn_devices pn ! nat idx) else None)"

text \<open>Writing through the reference that \<open>_get\<close> returned.\<close>

definition pn_put :: "int \<Rightarrow> 'c dev_state \<Rightarrow> 'c pn_ctrl \<Rightarrow> 'c pn_ctrl" where
  "pn_put idx ds pn = pn\<lparr>pn_devices := (pn_devices pn)[nat idx := ds]\<rparr>"

section \<open>Adapters\<close>

text \<open>The pattern \<open>8-4-4-4-12\<close> of hexadecimal digits has a fixed length.\<close>

definition guid_at :: "string \<Rightarrow> bool" where
  "guid_at s \<longleftrightarrow> 36 \<le> length s \<and>
     (\<forall>i \<in> set [0 ..< 36]. if i \<in> {8, 13, 18, 23} then s ! i = CHR ''-'' else hex_digit (s ! i) \<noteq> None)"

fun guid_search :: "string \<Rightarrow> string option" where
  "guid_search [] = None"
| "guid_search (c # cs) = (if guid_at (c # cs) then Some (take 36 (c # cs)) else guid_search cs)"

definition posix_adapters :: "string list option \<Rightarrow> (string \<times> string) list" where
  "posix_adapters listing =
     (case listing of
        None \<Rightarrow> [(''eth0'', ''network interface'')]
      | Some ns \<Rightarrow> map (\<lambda>n. (n, if n = ''lo'' then ''loopback'' else ''network interface'')) (sort ns))"

text \<open>The nodes that \<open>pcap_findalldevs\<close> lists, with their decoded names and
  descriptions (empty for a null pointer); \<open>None\<close> when the library is missing or
  the call fails.\<close>

definition win_adapters :: "(string \<times> string) list option \<Rightarrow> (string \<times> string) list" where
  "win_adapters nodes =
     (case nodes of
        None \<Rightarrow> []
      | Some ns \<Rightarrow>
          concat (map (\<lambda>(name, desc).
            (let desc' = (if contains ''loopback'' (lower name) \<and> desc = []
                          then ''Npcap Loopback Adapter'' else desc)
             in if name \<noteq> [] then [(name, if desc' \<noteq> [] then desc' else ''(no description)'')] else [])) ns))"

definition enumerate_adapters :: "(string \<times> string) list \<Rightarrow> string list" where
  "enumerate_adapters verbose = map fst verbose"

fun first_guid :: "string \<Rightarrow> string list \<Rightarrow> string option" where
  "first_guid guid [] = None"
| "first_guid guid (n # ns) =
     (if map_option upper (guid_search n) = Some guid then Some n else first_guid guid ns)"

definition resolve_adapter :: "string list \<Rightarrow> string \<Rightarrow> string \<times> pn_event list" where
  "resolve_adapter available adapter =
     (if adapter = [] then (adapter, [])
      else if adapter \<in> set available then (adapter, [])
      else
        (case (case guid_search adapter of None \<Rightarrow> None | Some m \<Rightarrow> first_guid (upper m) available) of
           Some name \<Rightarrow> (name, [AdapterCorrected adapter name])
         | None \<Rightarrow> (adapter, [AdapterUnknown adapter])))"

definition macname :: "bool \<Rightarrow> string \<Rightarrow> string" where
  "macname win32 adapter =
     (if win32 then
        (case guid_search adapter of Some m \<Rightarrow> ''{'' @ m @ ''}'' | None \<Rightarrow> adapter)
      else adapter)"

definition mac_bytes_to_str :: "bytes \<Rightarrow> string" where
  "mac_bytes_to_str mac = join '':'' (map hex_byte mac)"

section \<open>Starting and stopping\<close>

definition stop_calls :: "'c dev_state \<Rightarrow> 'c stop_call list" where
  "stop_calls ds =
     (case ds_alarm ds of None \<Rightarrow> [] | Some a \<Rightarrow> [AlarmStop a]) @
     (case ds_cyclic ds of None \<Rightarrow> [] | Some c \<Rightarrow> [CyclicStop c]) @
     (case ds_conn ds of None \<Rightarrow> [] | Some h \<Rightarrow> [ConnClose h])"

text \<open>Each call is made whether or not the one before it raised.\<close>

definition pn_stop :: "'c pn_ctrl \<Rightarrow> 'c pn_ctrl" where
  "pn_stop pn =
     (let devices = pn_devices pn;
          pn1 = pn\<lparr>pn_devices := [], pn_stops := pn_stops pn @ concat (map stop_calls devices)\<rparr>
      in if devices \<noteq> [] then pn_say AllStopped pn1 else pn1)"

definition pn_start :: "string list \<Rightarrow> string \<Rightarrow> device_config list \<Rightarrow> 'c pn_ctrl \<Rightarrow> bool \<times> 'c pn_ctrl" where
  "pn_start available adapter dev_configs pn =
     (if \<not> pn_ok pn then (False, pn)
      else
        (let pn1 = pn_stop pn;
             (a, evs) = resolve_adapter available adapter;
             pn2 = pn1\<lparr>pn_adapter := a, pn_log := pn_log pn1 @ evs,
                       pn_devices := map new_dev_state dev_configs\<rparr>
         in (True, pn_say (BackendStarted a (length dev_configs)) pn2)))"

section \<open>Cyclic IO\<close>

definition io_ready :: "'c dev_state \<Rightarrow> 'c option" where
  "io_ready ds = (if ds_connected ds then ds_cyclic ds else None)"

definition write_outputs :: "'c cyc_ops \<Rightarrow> int \<Rightarrow> int \<Rightarrow> int \<Rightarrow> 'c pn_ctrl \<Rightarrow> 'c pn_ctrl" where
  "write_outputs ops idx stw1 nsoll pn =
     (case pn_get idx pn of None \<Rightarrow> pn
      | Some ds \<Rightarrow>
         (case io_ready ds of None \<Rightarrow> pn
          | Some c \<Rightarrow>
             (let ds1 = ds\<lparr>ds_stw1 := stw1, ds_nsoll := nsoll\<rparr>;
                  out_len = max 4 (dc_output_length (ds_config ds))
              in case pack_H (stw1 AND 0xFFFF) of
                   Inl e \<Rightarrow> pn_say (WriteError e) (pn_put idx ds1 pn)
                 | Inr a \<Rightarrow>
                    (case pack_H (nsoll AND 0xFFFF) of
                       Inl e \<Rightarrow> pn_say (WriteError e) (pn_put idx ds1 pn)
                     | Inr b \<Rightarrow>
                        (let data = a @ b;
                             data = (if out_len > 4 then data @ zeros (nat (out_len - 4)) else data)
                         in case set_output_data ops (ds_slot ds) (ds_subslot ds) data c of
                              Inl e \<Rightarrow> pn_say (WriteError e) (pn_put idx ds1 pn)
                            | Inr c' \<Rightarrow> pn_put idx (ds1\<lparr>ds_cyclic := Some c'\<rparr>) pn)))))"

text \<open>The loop over the rack: an exception ends it with what was written so far.\<close>

fun write_rack :: "'c cyc_ops \<Rightarrow> bytes \<Rightarrow> nat \<Rightarrow> rack_slot list \<Rightarrow> 'c \<Rightarrow> 'c" where
  "write_rack ops data off [] c = c"
| "write_rack ops data off ((slot, subslot, out_len, _) # dos) c =
     (if out_len \<le> 0 then write_rack ops data off dos c
      else
        (let chunk = ljust (nat out_len) (py_slice off (off + nat out_len) data) in
         case set_output_data ops slot subslot chunk c of
           Inl e \<Rightarrow> c
         | Inr c' \<Rightarrow> write_rack ops data (off + nat out_len) dos c'))"

definition write_raw_outputs :: "'c cyc_ops \<Rightarrow> int \<Rightarrow> bytes \<Rightarrow> 'c pn_ctrl \<Rightarrow> 'c pn_ctrl" where
  "write_raw_outputs ops idx data pn =
     (case pn_get idx pn of None \<Rightarrow> pn
      | Some ds \<Rightarrow>
         (case io_ready ds of None \<Rightarrow> pn
          | Some c \<Rightarrow>
             (let c' = (if ds_dos ds = []
                        then (case set_output_data ops (ds_slot ds) (ds_subslot ds) data c of
                                Inl e \<Rightarrow> c | Inr c' \<Rightarrow> c')
                        else write_rack ops data 0 (ds_dos ds) c)
              in pn_put idx (ds\<lparr>ds_cyclic := Some c'\<rparr>) pn)))"

definition read_inputs :: "'c cyc_ops \<Rightarrow> int \<Rightarrow> 'c pn_ctrl \<Rightarrow> (int \<times> int) \<times> 'c pn_ctrl" where
  "read_inputs ops idx pn =
     (case pn_get idx pn of None \<Rightarrow> ((0, 0), pn)
      | Some ds \<Rightarrow>
         (case io_ready ds of None \<Rightarrow> ((ds_zsw1 ds, ds_nist ds), pn)
          | Some c \<Rightarrow>
             (case get_input_data ops (ds_slot ds) (ds_subslot ds) c of
                Inl e \<Rightarrow> ((ds_zsw1 ds, ds_nist ds), pn_say (ReadError e) pn)
              | Inr None \<Rightarrow> ((ds_zsw1 ds, ds_nist ds), pn)
              | Inr (Some data) \<Rightarrow>
                  if length data \<ge> 4 then
                    (let z = val16 (data ! 0) (data ! 1); n = val16 (data ! 2) (data ! 3)
                     in ((z, n), pn_put idx (ds\<lparr>ds_zsw1 := z, ds_nist := n\<rparr>) pn))
                  else ((ds_zsw1 ds, ds_nist ds), pn))))"

text \<open>\<open>None\<close> when a read raises; an empty or missing buffer reads as zeros.\<close>

fun read_rack :: "'c cyc_ops \<Rightarrow> 'c \<Rightarrow> rack_slot list \<Rightarrow> bytes \<Rightarrow> bytes option" where
  "read_rack ops c [] out = Some out"
| "read_rack ops c ((slot, subslot, _, in_len) # dos) out =
     (if in_len \<le> 0 then read_rack ops c dos out
      else
        (case get_input_data ops slot subslot c of
           Inl e \<Rightarrow> None
         | Inr d \<Rightarrow>
             (let data = (case d of None \<Rightarrow> [] | Some x \<Rightarrow> x) in
              read_rack ops c dos (out @ ljust (nat in_len) (take (nat in_len) data)))))"

definition read_raw_inputs :: "'c cyc_ops \<Rightarrow> int \<Rightarrow> nat \<Rightarrow> 'c pn_ctrl \<Rightarrow> bytes" where
  "read_raw_inputs ops idx n pn =
     (case pn_get idx pn of None \<Rightarrow> zeros n
      | Some ds \<Rightarrow>
         (case io_ready ds of None \<Rightarrow> zeros n
          | Some c \<Rightarrow>
             if ds_dos ds = [] then
               (case get_input_data ops (ds_slot ds) (ds_subslot ds) c of
                  Inl e \<Rightarrow> zeros n
                | Inr None \<Rightarrow> zeros n
                | Inr (Some data) \<Rightarrow> if data \<noteq> [] then ljust n (take n data) else zeros n)
             else
               (case read_rack ops c (ds_dos ds) [] of
                  None \<Rightarrow> zeros n
                | Some out \<Rightarrow> ljust n (take n out))))"

section \<open>Queries\<close>

definition is_connected :: "int \<Rightarrow> 'c pn_ctrl \<Rightarrow> bool" where
  "is_connected idx pn = (case pn_get idx pn of None \<Rightarrow> False | Some ds \<Rightarrow> ds_connected ds)"

definition device_count :: "'c pn_ctrl \<Rightarrow> nat" where
  "device_count pn = length (pn_devices pn)"

definition device_state :: "int \<Rightarrow> 'c pn_ctrl \<Rightarrow> 'c dev_state option" where
  "device_state idx pn = pn_get idx pn"

text \<open>\<open>int\<close> of a number truncates towards zero.\<close>

definition trunc :: "rat \<Rightarrow> int" where
  "trunc r = (if r < 0 then \<lceil>r\<rceil> else \<lfloor>r\<rfloor>)"

definition attr0 :: "'a::zero option \<Rightarrow> 'a" where
  "attr0 v = (case v of None \<Rightarrow> 0 | Some x \<Rightarrow> x)"

definition get_stats :: "'c cyc_ops \<Rightarrow> int \<Rightarrow> 'c pn_ctrl \<Rightarrow> stats option" where
  "get_stats ops idx pn =
     (case pn_get idx pn of None \<Rightarrow> None
      | Some ds \<Rightarrow>
         (let st = default_stats\<lparr>st_connected := (if ds_connected ds then 1 else 0)\<rparr> in
          case ds_cyclic ds of None \<Rightarrow> Some st
          | Some c \<Rightarrow>
             (let st1 = st\<lparr>st_cyclic_running := (if cyc_is_running ops c = Some True then 1 else 0)\<rparr> in
              case cyc_stats_of ops c of None \<Rightarrow> Some st1
              | Some cs \<Rightarrow>
                 (let cnt = attr0 (cs_cycle_count cs) in
                  Some (st1\<lparr>st_frames_sent := attr0 (cs_frames_sent cs),
                     st_frames_received := attr0 (cs_frames_received cs),
                     st_missed_cycles := attr0 (cs_frames_missed cs),
                     st_frames_invalid := attr0 (cs_frames_invalid cs),
                     st_cycle_counter := attr0 (cs_frames_sent cs),
                     st_last_cycle_us := trunc (attr0 (cs_last_cycle cs)),
                     st_min_cycle_us := trunc (attr0 (cs_min_cycle cs)),
                     st_max_cycle_us := trunc (attr0 (cs_max_cycle cs)),
                     st_max_jitter_us := trunc (attr0 (cs_max_jitter cs)),
                     st_consecutive_timeouts := trunc (attr0 (cs_timeouts cs)),
                     st_avg_cycle_us := (if cnt \<noteq> 0 then attr0 (cs_cycle_sum cs) / of_int cnt else 0)\<rparr>)))))"

section \<open>Device references\<close>

lemma pn_get_put_same [simp]:
  "pn_get idx pn = Some ds \<Longrightarrow> pn_get idx (pn_put idx ds' pn) = Some ds'"
  by (auto simp: pn_get_def pn_put_def split: if_splits)

lemma pn_get_put_other [simp]:
  "i \<noteq> idx \<Longrightarrow> 0 \<le> idx \<Longrightarrow> pn_get i (pn_put idx ds' pn) = pn_get i pn"
  by (auto simp: pn_get_def pn_put_def nat_eq_iff)

lemma pn_get_nonneg: "pn_get idx pn = Some ds \<Longrightarrow> 0 \<le> idx"
  by (auto simp: pn_get_def split: if_splits)

lemma pn_get_say [simp]: "pn_get i (pn_say e pn) = pn_get i pn"
  by (simp add: pn_get_def pn_say_def)

lemma length_pn_put [simp]: "length (pn_devices (pn_put i ds pn)) = length (pn_devices pn)"
  by (simp add: pn_put_def)

lemma length_pn_say [simp]: "length (pn_devices (pn_say e pn)) = length (pn_devices pn)"
  by (simp add: pn_say_def)

lemma pn_put_get: "pn_get i pn = Some ds \<Longrightarrow> pn_put i ds pn = pn"
  by (auto simp: pn_get_def pn_put_def split: if_splits)

section \<open>The rack as a list of chunks\<close>

text \<open>What an output frame is cut into: one chunk per slot with outputs, in order.\<close>

fun rack_chunks :: "bytes \<Rightarrow> rack_slot list \<Rightarrow> (int \<times> int \<times> bytes) list" where
  "rack_chunks data [] = []"
| "rack_chunks data ((slot, subslot, out_len, _) # dos) =
     (if out_len \<le> 0 then rack_chunks data dos
      else (slot, subslot, ljust (nat out_len) (take (nat out_len) data))
             # rack_chunks (drop (nat out_len) data) dos)"

fun set_outputs_all :: "'c cyc_ops \<Rightarrow> (int \<times> int \<times> bytes) list \<Rightarrow> 'c \<Rightarrow> 'c" where
  "set_outputs_all ops [] c = c"
| "set_outputs_all ops ((s, ss, d) # ws) c =
     (case set_output_data ops s ss d c of Inl _ \<Rightarrow> c | Inr c' \<Rightarrow> set_outputs_all ops ws c')"

lemma write_rack_chunks:
  "write_rack ops data off dos c = set_outputs_all ops (rack_chunks (drop off data) dos) c"
  by (induction ops data off dos c rule: write_rack.induct)
    (auto simp: Let_def py_slice_def add.commute split: sum.splits)

definition rack_out_total :: "rack_slot list \<Rightarrow> nat" where
  "rack_out_total dos = sum_list (map (\<lambda>(_, _, o', _). nat o') dos)"

definition rack_in_total :: "rack_slot list \<Rightarrow> nat" where
  "rack_in_total dos = sum_list (map (\<lambda>(_, _, _, i). nat i) dos)"

lemma rack_chunks_concat:
  "concat (map (\<lambda>(_, _, d). d) (rack_chunks data dos)) = ljust (rack_out_total dos) (take (rack_out_total dos) data)"
proof (induction data dos rule: rack_chunks.induct)
  case (1 data)
  then show ?case by (simp add: rack_out_total_def)
next
  case (2 data slot subslot out_len uu dos)
  show ?case
  proof (cases "out_len \<le> 0")
    case True
    with 2(1) show ?thesis by (simp add: rack_out_total_def)
  next
    case False
    let ?n = "nat out_len" and ?m = "rack_out_total dos"
    have tot: "rack_out_total ((slot, subslot, out_len, uu) # dos) = ?n + ?m"
      by (simp add: rack_out_total_def)
    have "ljust ?n (take ?n data) @ ljust ?m (take ?m (drop ?n data)) = ljust (?n + ?m) (take (?n + ?m) data)"
    proof (cases "?n \<le> length data")
      case True
      then show ?thesis
        by (simp add: ljust_def take_add min_def)
    next
      case False
      then show ?thesis
        by (simp add: ljust_def zeros_append min_def)
    qed
    with 2(2) False tot show ?thesis by simp
  qed
qed

lemma read_rack_length:
  "read_rack ops c dos out = Some r \<Longrightarrow> length r = length out + rack_in_total dos"
  by (induction ops c dos out rule: read_rack.induct)
    (auto simp: rack_in_total_def Let_def split: if_splits sum.splits)

lemma length_read_raw_inputs [simp]: "length (read_raw_inputs ops idx n pn) = n"
  by (auto simp: read_raw_inputs_def split: option.splits sum.splits)

section \<open>Resolving an adapter\<close>

lemma first_guid_in: "first_guid g ns = Some n \<Longrightarrow> n \<in> set ns \<and> map_option upper (guid_search n) = Some g"
  by (induction ns) (auto split: if_splits)

lemma first_guid_None: "first_guid g ns = None \<longleftrightarrow> (\<forall>n \<in> set ns. map_option upper (guid_search n) \<noteq> Some g)"
  by (induction ns) auto

end
