(* ===== verification/Bridge.thy ===== *)
theory Bridge
  imports Gateway Pn_Ctrl
begin

text \<open>
  The bridge \<open>profinet_gateway_py/bridge.py\<close>: its jitter statistics, starting and
  stopping, and one pass of the loop that copies the gateway's output buffers to the
  devices and the devices' inputs back.  What the bridge needs of the gateway is the
  interface \<open>buffer_port\<close>; intervals are exact rationals in milliseconds.
\<close>

section \<open>Jitter statistics and lifecycle\<close>

definition BRIDGE_PERIOD_MS :: rat where "BRIDGE_PERIOD_MS = 1"

datatype br_event = BridgeStarted | BridgeStopped

record bridge =
  br_running :: bool
  br_jit_threshold :: rat
  br_jit_count :: nat
  br_jit_sum :: rat
  br_jit_max :: rat
  br_jit_last :: rat
  br_jit_spikes :: nat
  br_log :: "br_event list"

definition reset_jitter :: "bridge \<Rightarrow> bridge" where
  "reset_jitter b = b\<lparr>br_jit_count := 0, br_jit_sum := 0, br_jit_max := 0, br_jit_last := 0,
                      br_jit_spikes := 0\<rparr>"

definition br_init :: bridge where
  "br_init = reset_jitter \<lparr>br_running = False, br_jit_threshold = 20, br_jit_count = 0,
     br_jit_sum = 0, br_jit_max = 0, br_jit_last = 0, br_jit_spikes = 0, br_log = []\<rparr>"

definition set_jitter_threshold :: "rat \<Rightarrow> bridge \<Rightarrow> bridge" where
  "set_jitter_threshold ms b = b\<lparr>br_jit_threshold := max 1 ms\<rparr>"

record jitter_view =
  jv_count :: nat
  jv_avg_ms :: rat
  jv_max_ms :: rat
  jv_last_ms :: rat
  jv_spikes :: nat
  jv_threshold_ms :: rat

definition get_jitter :: "bridge \<Rightarrow> jitter_view" where
  "get_jitter b =
     \<lparr>jv_count = br_jit_count b,
      jv_avg_ms = (if br_jit_count b \<noteq> 0 then br_jit_sum b / of_nat (br_jit_count b) else 0),
      jv_max_ms = br_jit_max b, jv_last_ms = br_jit_last b, jv_spikes = br_jit_spikes b,
      jv_threshold_ms = br_jit_threshold b\<rparr>"

definition track :: "rat \<Rightarrow> bridge \<Rightarrow> bridge" where
  "track ms b =
     (let b1 = b\<lparr>br_jit_count := br_jit_count b + 1, br_jit_sum := br_jit_sum b + ms, br_jit_last := ms\<rparr>;
          b2 = (if ms > br_jit_max b1 then b1\<lparr>br_jit_max := ms\<rparr> else b1)
      in if ms > br_jit_threshold b2 then b2\<lparr>br_jit_spikes := br_jit_spikes b2 + 1\<rparr> else b2)"

definition br_start :: "bridge \<Rightarrow> bridge" where
  "br_start b = (if br_running b then b else b\<lparr>br_running := True, br_log := br_log b @ [BridgeStarted]\<rparr>)"

definition br_stop :: "bridge \<Rightarrow> bridge" where
  "br_stop b = b\<lparr>br_running := False, br_log := br_log b @ [BridgeStopped]\<rparr>"

section \<open>One pass over the devices\<close>

text \<open>Gateway to drive: the raw frame, and the mirror of its first two words.\<close>

definition forward_outputs :: "'c cyc_ops \<Rightarrow> nat \<Rightarrow> gateway \<Rightarrow> 'c pn_ctrl \<Rightarrow> 'c pn_ctrl" where
  "forward_outputs ops i gw pn =
     (case device_state (int i) pn of None \<Rightarrow> pn
      | Some ds \<Rightarrow>
         (let out_data = get_outputs gw i in
          if total_output_length (ds_config ds) > 0 \<and> out_data \<noteq> [] then
            (let pn1 = write_raw_outputs ops (int i) out_data pn in
             case device_state (int i) pn1 of None \<Rightarrow> pn1
             | Some ds1 \<Rightarrow>
                if length out_data \<ge> 4
                then pn_put (int i) (ds1\<lparr>ds_stw1 := val16 (out_data ! 0) (out_data ! 1),
                                         ds_nsoll := val16 (out_data ! 2) (out_data ! 3)\<rparr>) pn1
                else pn1)
          else pn))"

text \<open>Drive to gateway: the concatenated rack frame, and the mirror.\<close>

definition backward_inputs :: "'c cyc_ops \<Rightarrow> nat \<Rightarrow> gateway \<Rightarrow> 'c pn_ctrl \<Rightarrow> gateway \<times> 'c pn_ctrl" where
  "backward_inputs ops i gw pn =
     (case device_state (int i) pn of None \<Rightarrow> (gw, pn)
      | Some ds \<Rightarrow>
         (let in_total = total_input_length (ds_config ds) in
          if in_total > 0 then
            (let inp = read_raw_inputs ops (int i) (nat in_total) pn;
                 gw1 = set_inputs i inp gw
             in if length inp \<ge> 4
                then (gw1, pn_put (int i) (ds\<lparr>ds_zsw1 := val16 (inp ! 0) (inp ! 1),
                                              ds_nist := val16 (inp ! 2) (inp ! 3)\<rparr>) pn)
                else (gw1, pn))
          else (gw, pn)))"

definition bridge_device :: "'c cyc_ops \<Rightarrow> nat \<Rightarrow> gateway \<times> 'c pn_ctrl \<Rightarrow> gateway \<times> 'c pn_ctrl" where
  "bridge_device ops i s =
     (case s of (gw, pn) \<Rightarrow>
        if \<not> is_connected (int i) pn then (gw, pn)
        else backward_inputs ops i gw (forward_outputs ops i gw pn))"

definition bridge_pass :: "'c cyc_ops \<Rightarrow> gateway \<times> 'c pn_ctrl \<Rightarrow> gateway \<times> 'c pn_ctrl" where
  "bridge_pass ops s = fold (bridge_device ops) [0 ..< device_count (snd s)] s"

text \<open>The loop: the intervals are what the clock shows between passes.\<close>

fun bridge_run :: "'c cyc_ops \<Rightarrow> rat list \<Rightarrow> bridge \<Rightarrow> gateway \<times> 'c pn_ctrl \<Rightarrow> bridge \<times> gateway \<times> 'c pn_ctrl" where
  "bridge_run ops [] b s = (b, s)"
| "bridge_run ops (ms # mss) b s =
     (if br_running b then bridge_run ops mss (track ms b) (bridge_pass ops s) else (b, s))"

section \<open>What the bridge needs of a buffer store\<close>

locale buffer_port =
  fixes get_out :: "'g \<Rightarrow> nat \<Rightarrow> bytes" and get_in :: "'g \<Rightarrow> nat \<Rightarrow> bytes"
    and put_in :: "nat \<Rightarrow> bytes \<Rightarrow> 'g \<Rightarrow> 'g"
  assumes out_put_in: "get_out (put_in i d g) j = get_out g j"
    and in_put_in: "get_in (put_in i d g) j =
      (if i = j then take (length (get_in g j)) d @ drop (length d) (get_in g j) else get_in g j)"
begin

lemma in_put_in_exact: "length d = length (get_in g i) \<Longrightarrow> get_in (put_in i d g) i = d"
  by (simp add: in_put_in)

lemma length_in_put_in: "length (get_in (put_in i d g) j) = length (get_in g j)"
  by (auto simp: in_put_in min_def)

lemma in_put_in_other: "i \<noteq> j \<Longrightarrow> get_in (put_in i d g) j = get_in g j"
  by (simp add: in_put_in)

text \<open>New inputs for the first \<open>n\<close> devices, each of the size of its buffer.\<close>

lemma in_fold:
  "(\<And>i. i < n \<Longrightarrow> length (f i) = length (get_in g i)) \<Longrightarrow>
   get_in (fold (\<lambda>i. put_in i (f i)) [0 ..< n] g) j = (if j < n then f j else get_in g j)"
proof (induction n arbitrary: j)
  case (Suc n)
  then have "get_in (fold (\<lambda>i. put_in i (f i)) [0 ..< n] g) k = (if k < n then f k else get_in g k)" for k
    by simp
  with Suc.prems [of n] show ?case by (cases "j = n") (auto simp: in_put_in_exact in_put_in_other)
qed simp

lemma out_fold: "get_out (fold (\<lambda>i. put_in i (f i)) is g) j = get_out g j"
  by (induction "is" arbitrary: g) (simp_all add: out_put_in)

end

interpretation gw_port: buffer_port get_outputs get_inputs set_inputs
  by unfold_locales
    (auto simp: get_outputs_def get_inputs_def set_inputs_def slice_set_def Let_def nth_list_update min_def)

section \<open>One device\<close>

text \<open>What one device sees of a pass: its output frame goes out, its inputs come in.\<close>

definition device_outputs :: "'c cyc_ops \<Rightarrow> bytes \<Rightarrow> 'c dev_state \<Rightarrow> 'c dev_state" where
  "device_outputs ops d ds =
     (if total_output_length (ds_config ds) > 0 \<and> d \<noteq> [] then
        (let ds1 = ds\<lparr>ds_cyclic := map_option
               (if ds_dos ds = [] then set_outputs_all ops [(ds_slot ds, ds_subslot ds, d)]
                else set_outputs_all ops (rack_chunks d (ds_dos ds))) (ds_cyclic ds)\<rparr>
         in if length d \<ge> 4
            then ds1\<lparr>ds_stw1 := val16 (d ! 0) (d ! 1), ds_nsoll := val16 (d ! 2) (d ! 3)\<rparr> else ds1)
      else ds)"

definition device_mirror :: "bytes \<Rightarrow> 'c dev_state \<Rightarrow> 'c dev_state" where
  "device_mirror inp ds =
     (if length inp \<ge> 4
      then ds\<lparr>ds_zsw1 := val16 (inp ! 0) (inp ! 1), ds_nist := val16 (inp ! 2) (inp ! 3)\<rparr> else ds)"

lemma write_raw_outputs_connected:
  assumes "pn_get i pn = Some ds" and "ds_connected ds"
  shows "pn_get i (write_raw_outputs ops i d pn) = Some (ds\<lparr>ds_cyclic := map_option
      (if ds_dos ds = [] then set_outputs_all ops [(ds_slot ds, ds_subslot ds, d)]
       else set_outputs_all ops (rack_chunks d (ds_dos ds))) (ds_cyclic ds)\<rparr>)"
proof (cases "ds_cyclic ds")
  case None
  then show ?thesis
    using assms by (cases ds) (simp add: write_raw_outputs_def io_ready_def)
next
  case (Some c)
  then show ?thesis
    using assms by (auto simp: write_raw_outputs_def io_ready_def write_rack_chunks split: sum.splits)
qed

lemma write_raw_outputs_other:
  "j \<noteq> i \<Longrightarrow> pn_get j (write_raw_outputs ops i d pn) = pn_get j pn"
  by (auto simp: write_raw_outputs_def dest: pn_get_nonneg split: option.splits)

lemma device_count_write_raw [simp]:
  "length (pn_devices (write_raw_outputs ops i d pn)) = length (pn_devices pn)"
  by (auto simp: write_raw_outputs_def split: option.splits)

lemma forward_outputs_same:
  assumes "pn_get (int i) pn = Some ds" and "ds_connected ds"
  shows "pn_get (int i) (forward_outputs ops i gw pn) = Some (device_outputs ops (get_outputs gw i) ds)"
proof (cases "total_output_length (ds_config ds) > 0 \<and> get_outputs gw i \<noteq> []")
  case True
  then show ?thesis
    using write_raw_outputs_connected [OF assms, of ops "get_outputs gw i"] assms
    by (simp add: forward_outputs_def device_state_def device_outputs_def Let_def)
next
  case False
  then have "forward_outputs ops i gw pn = pn" "device_outputs ops (get_outputs gw i) ds = ds"
    using assms by (auto simp: forward_outputs_def device_state_def device_outputs_def Let_def)
  then show ?thesis
    using assms by simp
qed

lemma forward_outputs_other:
  "j \<noteq> int i \<Longrightarrow> pn_get j (forward_outputs ops i gw pn) = pn_get j pn"
  by (auto simp: forward_outputs_def Let_def device_state_def write_raw_outputs_other split: option.splits)

lemma forward_outputs_count [simp]:
  "length (pn_devices (forward_outputs ops i gw pn)) = length (pn_devices pn)"
  by (auto simp: forward_outputs_def Let_def split: option.splits)

lemma device_outputs_config [simp]:
  "ds_config (device_outputs ops d ds) = ds_config ds" "ds_connected (device_outputs ops d ds) = ds_connected ds"
  by (simp_all add: device_outputs_def Let_def)

text \<open>The inputs the bridge reads for a device.\<close>

definition device_inputs :: "'c cyc_ops \<Rightarrow> int \<Rightarrow> 'c pn_ctrl \<Rightarrow> bytes option" where
  "device_inputs ops i pn =
     (case pn_get i pn of None \<Rightarrow> None
      | Some ds \<Rightarrow> if total_input_length (ds_config ds) > 0
                   then Some (read_raw_inputs ops i (nat (total_input_length (ds_config ds))) pn) else None)"

definition set_inputs_opt :: "nat \<Rightarrow> bytes option \<Rightarrow> gateway \<Rightarrow> gateway" where
  "set_inputs_opt i d g = (case d of None \<Rightarrow> g | Some d \<Rightarrow> set_inputs i d g)"

lemma backward_inputs_result:
  assumes "pn_get (int i) pn = Some ds"
  shows "fst (backward_inputs ops i gw pn) = set_inputs_opt i (device_inputs ops (int i) pn) gw"
    and "pn_get (int i) (snd (backward_inputs ops i gw pn)) =
      Some (case device_inputs ops (int i) pn of None \<Rightarrow> ds | Some inp \<Rightarrow> device_mirror inp ds)"
    and "j \<noteq> int i \<Longrightarrow> pn_get j (snd (backward_inputs ops i gw pn)) = pn_get j pn"
    and "length (pn_devices (snd (backward_inputs ops i gw pn))) = length (pn_devices pn)"
  using assms
  by (simp_all add: backward_inputs_def device_state_def device_inputs_def set_inputs_opt_def device_mirror_def Let_def)

text \<open>A device's inputs depend on its own state only.\<close>

definition inputs_of :: "'c cyc_ops \<Rightarrow> 'c dev_state \<Rightarrow> bytes option" where
  "inputs_of ops ds = device_inputs ops 0 \<lparr>pn_devices = [ds], pn_adapter = [], pn_ok = True, pn_log = [], pn_stops = []\<rparr>"

lemma device_inputs_of: "pn_get i pn = Some ds \<Longrightarrow> device_inputs ops i pn = inputs_of ops ds"
proof -
  have "pn_get 0 \<lparr>pn_devices = [ds], pn_adapter = [], pn_ok = True, pn_log = [], pn_stops = []\<rparr> = Some ds"
    by (simp add: pn_get_def)
  then show "pn_get i pn = Some ds \<Longrightarrow> ?thesis"
    by (simp add: inputs_of_def device_inputs_def read_raw_inputs_def)
qed

text \<open>The state of a device after a pass in which the gateway holds \<open>d\<close> for it.\<close>

definition device_after :: "'c cyc_ops \<Rightarrow> bytes \<Rightarrow> 'c dev_state \<Rightarrow> 'c dev_state" where
  "device_after ops d ds =
     (if ds_connected ds then
        (let ds1 = device_outputs ops d ds
         in case inputs_of ops ds1 of None \<Rightarrow> ds1 | Some inp \<Rightarrow> device_mirror inp ds1)
      else ds)"

definition inputs_after :: "'c cyc_ops \<Rightarrow> bytes \<Rightarrow> 'c dev_state \<Rightarrow> bytes option" where
  "inputs_after ops d ds = (if ds_connected ds then inputs_of ops (device_outputs ops d ds) else None)"

lemma bridge_device_result:
  fixes ops :: "'c cyc_ops" and gw :: gateway and pn :: "'c pn_ctrl"
  assumes "pn_get (int i) pn = Some ds"
  defines "r \<equiv> bridge_device ops i (gw, pn)"
  shows "fst r = set_inputs_opt i (inputs_after ops (get_outputs gw i) ds) gw"
    and "pn_get (int i) (snd r) = Some (device_after ops (get_outputs gw i) ds)"
    and "j \<noteq> int i \<Longrightarrow> pn_get j (snd r) = pn_get j pn"
    and "length (pn_devices (snd r)) = length (pn_devices pn)"
proof -
  have conn: "is_connected (int i) pn = ds_connected ds"
    using assms by (simp add: is_connected_def)
  have "fst r = set_inputs_opt i (inputs_after ops (get_outputs gw i) ds) gw
    \<and> pn_get (int i) (snd r) = Some (device_after ops (get_outputs gw i) ds)
    \<and> (j \<noteq> int i \<longrightarrow> pn_get j (snd r) = pn_get j pn)
    \<and> length (pn_devices (snd r)) = length (pn_devices pn)"
  proof (cases "ds_connected ds")
    case False
    then show ?thesis
      using assms conn by (simp add: bridge_device_def inputs_after_def device_after_def set_inputs_opt_def)
  next
    case True
    note f = forward_outputs_same [OF assms(1) True, of ops gw]
    show ?thesis
      using True conn device_inputs_of [OF f, of ops]
      by (simp add: r_def bridge_device_def inputs_after_def device_after_def forward_outputs_other
        backward_inputs_result [OF f] Let_def)
  qed
  then show "fst r = set_inputs_opt i (inputs_after ops (get_outputs gw i) ds) gw"
    and "pn_get (int i) (snd r) = Some (device_after ops (get_outputs gw i) ds)"
    and "j \<noteq> int i \<Longrightarrow> pn_get j (snd r) = pn_get j pn"
    and "length (pn_devices (snd r)) = length (pn_devices pn)"
    by auto
qed

lemma outputs_set_inputs_opt [simp]: "get_outputs (set_inputs_opt i d g) j = get_outputs g j"
  by (simp add: set_inputs_opt_def gw_port.out_put_in split: option.splits)

lemma sized_set_inputs_opt [simp]: "gw_sized (set_inputs_opt i d g) = gw_sized g"
  by (simp add: set_inputs_opt_def split: option.splits)

lemma inputs_set_inputs_opt_other [simp]: "i \<noteq> j \<Longrightarrow> get_inputs (set_inputs_opt i d g) j = get_inputs g j"
  by (simp add: set_inputs_opt_def gw_port.in_put_in_other split: option.splits)

text \<open>The pass is what each device sees of it, on its own.\<close>

lemma bridge_fold:
  fixes ops :: "'c cyc_ops" and gw :: gateway and pn :: "'c pn_ctrl"
  assumes "n \<le> device_count pn"
  defines "r \<equiv> fold (bridge_device ops) [0 ..< n] (gw, pn)"
  shows "device_count (snd r) = device_count pn"
    and "get_outputs (fst r) i = get_outputs gw i"
    and "gw_sized (fst r) = gw_sized gw"
    and "pn_get (int i) pn = Some ds \<Longrightarrow> pn_get (int i) (snd r) =
      Some (if i < n then device_after ops (get_outputs gw i) ds else ds)"
    and "pn_get (int i) pn = Some ds \<Longrightarrow> get_inputs (fst r) i =
      (if i < n then get_inputs (set_inputs_opt i (inputs_after ops (get_outputs gw i) ds) gw) i
       else get_inputs gw i)"
proof -
  have "device_count (snd (fold (bridge_device ops) [0 ..< n] (gw, pn))) = device_count pn
    \<and> (\<forall>i. get_outputs (fst (fold (bridge_device ops) [0 ..< n] (gw, pn))) i = get_outputs gw i)
    \<and> gw_sized (fst (fold (bridge_device ops) [0 ..< n] (gw, pn))) = gw_sized gw
    \<and> (\<forall>i ds. pn_get (int i) pn = Some ds \<longrightarrow>
        pn_get (int i) (snd (fold (bridge_device ops) [0 ..< n] (gw, pn))) =
          Some (if i < n then device_after ops (get_outputs gw i) ds else ds)
      \<and> get_inputs (fst (fold (bridge_device ops) [0 ..< n] (gw, pn))) i =
          (if i < n then get_inputs (set_inputs_opt i (inputs_after ops (get_outputs gw i) ds) gw) i
           else get_inputs gw i))"
    using assms(1)
  proof (induction n)
    case 0
    then show ?case by simp
  next
    case (Suc n)
    obtain gw1 pn1 where s: "fold (bridge_device ops) [0 ..< n] (gw, pn) = (gw1, pn1)"
      by (cases "fold (bridge_device ops) [0 ..< n] (gw, pn)")
    have n: "n < length (pn_devices pn)"
      using Suc.prems by (simp add: device_count_def)
    then obtain dsn where dsn: "pn_get (int n) pn = Some dsn"
      by (simp add: pn_get_def)
    note IH = Suc.IH [unfolded s fst_conv snd_conv]
    have dsn1: "pn_get (int n) pn1 = Some dsn"
      using IH Suc.prems dsn by auto
    note step = bridge_device_result [OF dsn1]
    have ins: "get_inputs (set_inputs_opt n d gw1) n = get_inputs (set_inputs_opt n d gw) n" for d
      using IH Suc.prems dsn by (auto simp: set_inputs_opt_def gw_port.in_put_in split: option.splits)
    have outs: "get_outputs gw1 i = get_outputs gw i" for i
      using IH Suc.prems by auto
    show ?case
      using IH Suc.prems dsn
      by (auto simp: s device_count_def outs ins less_Suc_eq step)
  qed
  then show "device_count (snd r) = device_count pn"
    and "get_outputs (fst r) i = get_outputs gw i"
    and "gw_sized (fst r) = gw_sized gw"
    and "pn_get (int i) pn = Some ds \<Longrightarrow> pn_get (int i) (snd r) =
      Some (if i < n then device_after ops (get_outputs gw i) ds else ds)"
    and "pn_get (int i) pn = Some ds \<Longrightarrow> get_inputs (fst r) i =
      (if i < n then get_inputs (set_inputs_opt i (inputs_after ops (get_outputs gw i) ds) gw) i
       else get_inputs gw i)"
    by (auto simp: r_def)
qed

end
