(* ===== verification/System.thy ===== *)
theory System
  imports Client Bridge
begin

text \<open>
  The services together, as \<open>profinet_gateway_py/main.py\<close> starts them: the gateway,
  the bridge and the controller share the device configurations, and their threads run
  interleaved.  One step is one body of one loop (each holds the gateway's lock where it
  touches the buffers), or one call of the window.
\<close>

section \<open>Starting the services\<close>

record 'c sys =
  s_gw :: gateway
  s_pn :: "'c pn_ctrl"
  s_br :: bridge

definition start_services :: "string list \<Rightarrow> app_config \<Rightarrow> 'c sys \<Rightarrow> py_error option \<times> 'c sys" where
  "start_services available cfg s =
     (let gc = ac_gateway cfg in
      case gw_configure (gc_protocol gc) (gc_port gc) (gc_bind gc) (ac_devices cfg) (gc_framed gc)
             (gc_watchdog_ms gc) (gc_tcp_stream gc) (s_gw s) of
        (Some e, gw) \<Rightarrow> (Some e, s\<lparr>s_gw := gw\<rparr>)
      | (None, gw) \<Rightarrow>
          (let s1 = s\<lparr>s_gw := gw_start gw, s_br := br_start (s_br s)\<rparr>
           in (None, if ac_devices cfg \<noteq> []
                     then s1\<lparr>s_pn := snd (pn_start available (ac_adapter cfg) (ac_devices cfg) (s_pn s1))\<rparr>
                     else s1)))"

definition stop_services :: "'c sys \<Rightarrow> 'c sys" where
  "stop_services s = s\<lparr>s_br := br_stop (s_br s), s_gw := gw_stop (s_gw s), s_pn := pn_stop (s_pn s)\<rparr>"

definition on_restart :: "string list \<Rightarrow> app_config \<Rightarrow> 'c sys \<Rightarrow> py_error option \<times> 'c sys" where
  "on_restart available cfg s = start_services available cfg (stop_services s)"

text \<open>Before the services start, \<open>main\<close> heals a stale adapter name and saves the configuration
  once; a save that fails is only logged.\<close>

definition heal_config :: "string list \<Rightarrow> bool \<Rightarrow> app_config \<Rightarrow> files \<Rightarrow> app_config \<times> files" where
  "heal_config available save_ok cfg fs =
     (if ac_adapter cfg = [] then (cfg, fs)
      else
        (let healed = fst (resolve_adapter available (ac_adapter cfg)); cfg1 = cfg\<lparr>ac_adapter := healed\<rparr>
         in if healed \<noteq> ac_adapter cfg then (cfg1, if save_ok then save_config cfg1 fs else fs) else (cfg, fs)))"

section \<open>Steps\<close>

text \<open>Each network rule takes any connection script, so it covers any peer.  In
  \<open>link\<close> a device connects, drops or receives data: its runtime fields change, its
  configuration does not.\<close>

inductive sys_step :: "'c cyc_ops \<Rightarrow> 'c sys \<Rightarrow> 'c sys \<Rightarrow> bool" for ops :: "'c cyc_ops" where
  tcp: "gw_protocol (s_gw s) \<noteq> ''UDP'' \<Longrightarrow> gw_protocol (s_gw s) \<noteq> ''STM'' \<Longrightarrow> \<not> gw_tcp_stream (s_gw s) \<Longrightarrow>
    gw_running (s_gw s) \<Longrightarrow>
    tcp_iter (out_frame_size (s_gw s)) (in_frame_size (s_gw s)) t (s_gw s) c = (r, gw', c') \<Longrightarrow>
    sys_step ops s (s\<lparr>s_gw := gw'\<rparr>)"
| stream: "gw_protocol (s_gw s) \<noteq> ''UDP'' \<Longrightarrow> gw_protocol (s_gw s) \<noteq> ''STM'' \<Longrightarrow> gw_tcp_stream (s_gw s) \<Longrightarrow>
    gw_running (s_gw s) \<Longrightarrow> stream_rx (out_frame_size (s_gw s)) t (s_gw s) c = (r, gw', c') \<Longrightarrow>
    sys_step ops s (s\<lparr>s_gw := gw'\<rparr>)"
| stm: "gw_protocol (s_gw s) = ''STM'' \<Longrightarrow> gw_running (s_gw s) \<Longrightarrow>
    stm_rx t (s_gw s) c = (r, gw', c') \<Longrightarrow> sys_step ops s (s\<lparr>s_gw := gw'\<rparr>)"
| tx: "gw_running (s_gw s) \<Longrightarrow> wrap \<in> {Inr, stm_wrap} \<Longrightarrow>
    tx_pass (in_frame_size (s_gw s)) wrap (s_gw s) c = (r, gw', c') \<Longrightarrow> sys_step ops s (s\<lparr>s_gw := gw'\<rparr>)"
| udp: "gw_protocol (s_gw s) = ''UDP'' \<Longrightarrow> gw_running (s_gw s) \<Longrightarrow>
    udp_iter (out_frame_size (s_gw s)) d addr t ok (s_gw s) = (r, gw', sent) \<Longrightarrow>
    sys_step ops s (s\<lparr>s_gw := gw'\<rparr>)"
| watchdog: "gw_running (s_gw s) \<Longrightarrow> sys_step ops s (s\<lparr>s_gw := watchdog_pass t (s_gw s)\<rparr>)"
| bridge: "br_running (s_br s) \<Longrightarrow> bridge_pass ops (s_gw s, s_pn s) = (gw', pn') \<Longrightarrow>
    sys_step ops s (s\<lparr>s_gw := gw', s_pn := pn', s_br := track ms (s_br s)\<rparr>)"
| force: "sys_step ops s (s\<lparr>s_gw := set_outputs i d (s_gw s)\<rparr>)"
| link: "pn_get i (s_pn s) = Some ds \<Longrightarrow> ds_config ds' = ds_config ds \<Longrightarrow>
    sys_step ops s (s\<lparr>s_pn := pn_put i ds' (s_pn s)\<rparr>)"
| stop: "sys_step ops s (stop_services s)"

inductive_cases sys_stepE: "sys_step ops s s'"

inductive sys_reach :: "'c cyc_ops \<Rightarrow> 'c sys \<Rightarrow> 'c sys \<Rightarrow> bool" for ops :: "'c cyc_ops" and s0 :: "'c sys" where
  start: "sys_reach ops s0 s0"
| step: "sys_reach ops s0 s \<Longrightarrow> sys_step ops s s' \<Longrightarrow> sys_reach ops s0 s'"

section \<open>The invariant of a running system\<close>

definition payloads_fit :: "device_config list \<Rightarrow> bool" where
  "payloads_fit dcs \<longleftrightarrow> (\<forall>dc \<in> set dcs. total_input_length dc < 65536)"

definition watchdog_ok :: "gateway \<Rightarrow> bool" where
  "watchdog_ok g \<longleftrightarrow> (gw_watchdog_tripped g \<longrightarrow> gw_watchdog_ms g > 0 \<and> gw_last_rx_t g > 0)"

text \<open>\<open>exact\<close> says that the gateway is not the flat STM server, the one configuration in
  which a frame may leave shorter buffers.\<close>

definition sys_inv :: "device_config list \<Rightarrow> bool \<Rightarrow> 'c sys \<Rightarrow> bool" where
  "sys_inv dcs exact s \<longleftrightarrow> gw_ok (s_gw s) \<and> gw_device_configs (s_gw s) = dcs
     \<and> exact = (gw_framed (s_gw s) \<or> gw_protocol (s_gw s) \<noteq> ''STM'') \<and> (exact \<longrightarrow> gw_sized (s_gw s))
     \<and> (pn_devices (s_pn s) = [] \<or> map ds_config (pn_devices (s_pn s)) = dcs)"

lemma inputs_fit_sized: "gw_sized g \<Longrightarrow> payloads_fit (gw_device_configs g) \<Longrightarrow> inputs_fit g"
proof -
  assume sized: "gw_sized g" and fit: "payloads_fit (gw_device_configs g)"
  note l = gw_sized_lengths [OF sized]
  have "length (io_inp (gw_io g ! i)) < 65536" if i: "i < length (gw_io g)" for i
  proof -
    have "int (length (io_inp (gw_io g ! i))) < 65536"
      using l(1) l(3) [of i] fit i by (auto simp: payloads_fit_def)
    then show ?thesis by simp
  qed
  then show ?thesis
    by (auto simp: inputs_fit_def in_set_conv_nth)
qed

lemma inputs_fit_sizes: "io_sizes (gw_io g') = io_sizes (gw_io g) \<Longrightarrow> inputs_fit g' = inputs_fit g"
proof -
  assume "io_sizes (gw_io g') = io_sizes (gw_io g)"
  then have "map snd (io_sizes (gw_io g')) = map snd (io_sizes (gw_io g))"
    by simp
  then have "map (\<lambda>io. length (io_inp io)) (gw_io g') = map (\<lambda>io. length (io_inp io)) (gw_io g)"
    by (simp add: io_sizes_def comp_def)
  then show ?thesis
    unfolding inputs_fit_def by (metis (mono_tags, lifting) image_iff list.set_map)
qed

lemma inputs_fit_ops [simp]:
  "inputs_fit (watchdog_pass t g) = inputs_fit g" "inputs_fit (set_outputs i d g) = inputs_fit g"
  "inputs_fit (set_inputs i d g) = inputs_fit g"
  by (rule inputs_fit_sizes;
      simp add: gw_defs io_sizes_update slice_set_prefix; simp add: io_sizes_def comp_def)+

lemma set_inputs_opt_same [simp]:
  "gw_device_configs (set_inputs_opt i d g) = gw_device_configs g"
  "gw_protocol (set_inputs_opt i d g) = gw_protocol g" "gw_framed (set_inputs_opt i d g) = gw_framed g"
  by (simp_all add: set_inputs_opt_def set_inputs_def Let_def split: option.splits)

lemma set_inputs_same [simp]:
  "gw_device_configs (set_inputs i d g) = gw_device_configs g"
  "gw_protocol (set_inputs i d g) = gw_protocol g" "gw_framed (set_inputs i d g) = gw_framed g"
  by (simp_all add: set_inputs_def Let_def)

lemma bridge_pass_shape:
  assumes "bridge_pass ops (gw, pn) = (gw', pn')"
  shows "gw_device_configs gw' = gw_device_configs gw" and "gw_protocol gw' = gw_protocol gw"
    and "gw_framed gw' = gw_framed gw" and "gw_sized gw' = gw_sized gw" and "gw_ok gw' = gw_ok gw"
    and "map ds_config (pn_devices pn') = map ds_config (pn_devices pn)"
proof -
  have dev: "gw_device_configs (fst r) = gw_device_configs g \<and> gw_protocol (fst r) = gw_protocol g
      \<and> gw_framed (fst r) = gw_framed g \<and> gw_ok (fst r) = gw_ok g"
    if "r = bridge_device ops i (g, p)" for r i g and p :: "'a pn_ctrl"
    using that
    by (cases "pn_get (int i) (forward_outputs ops i g p)")
      (auto simp: bridge_device_def backward_inputs_def device_state_def gw_ok_def Let_def)
  have "gw_device_configs (fst (fold (bridge_device ops) is s)) = gw_device_configs (fst s)
      \<and> gw_protocol (fst (fold (bridge_device ops) is s)) = gw_protocol (fst s)
      \<and> gw_framed (fst (fold (bridge_device ops) is s)) = gw_framed (fst s)
      \<and> gw_ok (fst (fold (bridge_device ops) is s)) = gw_ok (fst s)" for "is" and s :: "gateway \<times> 'a pn_ctrl"
  proof (induction "is" arbitrary: s)
    case Nil
    then show ?case by simp
  next
    case (Cons i "is")
    show ?case
      using Cons.IH [of "bridge_device ops i s"] dev [of "bridge_device ops i s" i "fst s" "snd s"] by simp
  qed
  from this [of "[0 ..< device_count pn]" "(gw, pn)"]
  show "gw_device_configs gw' = gw_device_configs gw" and "gw_protocol gw' = gw_protocol gw"
    and "gw_framed gw' = gw_framed gw" and "gw_ok gw' = gw_ok gw"
    using assms by (simp_all add: bridge_pass_def)
  note f = bridge_fold [where ops = ops and pn = pn and gw = gw and n = "device_count pn", OF order_refl]
  from f(3) show "gw_sized gw' = gw_sized gw"
    using assms by (simp add: bridge_pass_def)
  have cfg: "ds_config (device_after ops d ds) = ds_config ds" for d ds
    by (simp add: device_after_def Let_def device_mirror_def split: option.splits)
  show "map ds_config (pn_devices pn') = map ds_config (pn_devices pn)"
  proof (rule nth_equalityI)
    have len: "length (pn_devices pn') = length (pn_devices pn)"
      using f(1) assms by (simp add: bridge_pass_def device_count_def)
    then show "length (map ds_config (pn_devices pn')) = length (map ds_config (pn_devices pn))" by simp
    fix i
    assume "i < length (map ds_config (pn_devices pn'))"
    then have "pn_get (int i) pn = Some (pn_devices pn ! i)" "pn_get (int i) pn' = Some (pn_devices pn' ! i)"
      using len by (simp_all add: pn_get_def)
    with f(4) have "pn_devices pn' ! i = device_after ops (get_outputs gw i) (pn_devices pn ! i)
        \<or> pn_devices pn' ! i = pn_devices pn ! i"
      using assms by (auto simp: bridge_pass_def split: if_splits)
    then show "map ds_config (pn_devices pn') ! i = map ds_config (pn_devices pn) ! i"
      using \<open>i < length (map ds_config (pn_devices pn'))\<close> len cfg by auto
  qed
qed

lemma sys_inv_gw:
  assumes "sys_inv dcs exact s" and "good_step keep (s_gw s) (r, gw', x)"
    and "exact \<Longrightarrow> keep"
  shows "sys_inv dcs exact (s\<lparr>s_gw := gw'\<rparr>)"
  using assms by (auto simp: sys_inv_def good_step_def same_shape_def)

lemma sys_inv_step: "sys_step ops s s' \<Longrightarrow> sys_inv dcs exact s \<Longrightarrow> sys_inv dcs exact s'"
proof (induction rule: sys_step.induct)
  case (tcp s t c r gw' c')
  then have "good_step True (s_gw s) (r, gw', c')"
    using tcp_iter_good [of "s_gw s" "in_frame_size (s_gw s)" t c] by (simp add: sys_inv_def)
  with tcp.prems show ?case by (rule sys_inv_gw) simp
next
  case (stream s t c r gw' c')
  then have "good_step True (s_gw s) (r, gw', c')"
    using stream_rx_good [of "s_gw s" t c] by (simp add: sys_inv_def)
  with stream.prems show ?case by (rule sys_inv_gw) simp
next
  case (stm s t c r gw' c')
  then have "good_step (gw_framed (s_gw s)) (s_gw s) (r, gw', c')"
    using stm_rx_good [of "s_gw s" t c] by (simp add: sys_inv_def)
  with stm.prems show ?case by (rule sys_inv_gw) (use stm in \<open>simp add: sys_inv_def\<close>)
next
  case (tx s wrap c r gw' c')
  then have "gw' = s_gw s \<or> (\<exists>f. gw' = mon_tx f (s_gw s))"
    by (auto simp: tx_pass_def send_inputs_def split: if_splits sum.splits prod.splits bool.splits)
  moreover have "gw_protocol (mon_tx f (s_gw s)) = gw_protocol (s_gw s)" for f
    by (simp add: mon_tx_def Let_def)
  ultimately show ?case
    using tx.prems by (auto simp: sys_inv_def)
next
  case (udp s d addr t ok r gw' sent)
  then have "good_step True (s_gw s) (r, gw', sent)"
    using udp_iter_good [of "s_gw s" d addr t ok] by (simp add: sys_inv_def)
  with udp.prems show ?case by (rule sys_inv_gw) simp
next
  case (watchdog s t)
  have "gw_device_configs (watchdog_pass t (s_gw s)) = gw_device_configs (s_gw s)"
    "gw_protocol (watchdog_pass t (s_gw s)) = gw_protocol (s_gw s)"
    "gw_framed (watchdog_pass t (s_gw s)) = gw_framed (s_gw s)"
    by (simp_all add: watchdog_pass_def Let_def zero_outputs_def gw_say_def)
  with watchdog.prems show ?case
    by (simp add: sys_inv_def gw_ok_def)
next
  case (bridge s gw' pn' ms)
  note shape = bridge_pass_shape [OF bridge.hyps(2)]
  have "pn_devices pn' = [] \<longleftrightarrow> pn_devices (s_pn s) = []"
    using shape(6) by (metis map_is_Nil_conv)
  with shape bridge.prems show ?case
    by (auto simp: sys_inv_def)
next
  case (force s i d)
  have "gw_device_configs (set_outputs i d (s_gw s)) = gw_device_configs (s_gw s)"
    "gw_protocol (set_outputs i d (s_gw s)) = gw_protocol (s_gw s)"
    "gw_framed (set_outputs i d (s_gw s)) = gw_framed (s_gw s)"
    by (simp_all add: set_outputs_def Let_def)
  with force.prems show ?case
    by (simp add: sys_inv_def gw_ok_def)
next
  case (link i s ds ds')
  then have "map ds_config (pn_devices (pn_put i ds' (s_pn s))) = map ds_config (pn_devices (s_pn s))"
    by (auto simp: pn_put_def pn_get_def split: if_splits intro!: map_update_same)
  moreover from this have "pn_devices (pn_put i ds' (s_pn s)) = [] \<longleftrightarrow> pn_devices (s_pn s) = []"
    by (metis map_is_Nil_conv)
  ultimately show ?case
    using link.prems by (auto simp: sys_inv_def)
next
  case (stop s)
  then show ?case
    by (auto simp: sys_inv_def stop_services_def gw_stop_def gw_say_def pn_stop_def pn_say_def Let_def
        gw_ok_def gw_sized_def gw_bounded_def inputs_fit_def)
qed

lemma sys_inv_reach: "sys_reach ops s0 s \<Longrightarrow> sys_inv dcs exact s0 \<Longrightarrow> sys_inv dcs exact s"
  by (induction rule: sys_reach.induct) (auto dest: sys_inv_step)

lemma start_services_inv:
  assumes "start_services available cfg s = (None, s')" and "payloads_fit (ac_devices cfg)"
    and "pn_ok (s_pn s)" and "pn_devices (s_pn s) = []"
  shows "sys_inv (ac_devices cfg)
      (gc_framed (ac_gateway cfg) \<or> upper (gc_protocol (ac_gateway cfg)) \<noteq> ''STM'') s'"
proof -
  let ?gc = "ac_gateway cfg"
  obtain gw where gw: "gw_configure (gc_protocol ?gc) (gc_port ?gc) (gc_bind ?gc) (ac_devices cfg) (gc_framed ?gc)
      (gc_watchdog_ms ?gc) (gc_tcp_stream ?gc) (s_gw s) = (None, gw)"
    using assms(1) by (auto simp: start_services_def Let_def split: prod.splits option.splits)
  have sized: "gw_sized gw" "gw_device_configs gw = ac_devices cfg"
    using gw_configure_sized [OF gw] by auto
  have shape: "gw_protocol gw = upper (gc_protocol ?gc)" "gw_framed gw = gc_framed ?gc"
    using gw by (auto simp: gw_configure_def Let_def split: sum.splits)
  have start: "gw_sized (gw_start g) = gw_sized g" "gw_device_configs (gw_start g) = gw_device_configs g"
    "gw_protocol (gw_start g) = gw_protocol g" "gw_framed (gw_start g) = gw_framed g" for g
    by (simp_all add: gw_start_def gw_say_def Let_def gw_sized_def)
  have s': "s_gw s' = gw_start gw"
    using assms(1) gw by (auto simp: start_services_def Let_def split: if_splits)
  have "gw_ok (s_gw s')"
    using sized assms(2) by (simp add: gw_ok_def s' start inputs_fit_sized gw_sized_bounded)
  moreover have "pn_devices (s_pn s') = [] \<or> map ds_config (pn_devices (s_pn s')) = ac_devices cfg"
    using assms(1,3,4) gw
    by (auto simp: start_services_def Let_def pn_start_def pn_say_def new_dev_state_def comp_def
        split: if_splits prod.splits)
  ultimately show ?thesis
    using sized shape by (auto simp: sys_inv_def s' start)
qed

section \<open>A silent client stops the drives\<close>

lemma get_outputs_watchdog:
  assumes "silent t g" and "i < length (gw_io g)"
  shows "get_outputs (watchdog_pass t g) i = zeros (length (io_out (gw_io g ! i)))"
  using assms by (simp add: get_outputs_def watchdog_pass_def silent_def zero_outputs_def gw_say_def Let_def)

lemma ljust_zeros_min [simp]: "ljust n (zeros (min n m)) = zeros n"
  by (simp add: ljust_def zeros_append min_def)

lemma device_after_outputs:
  "ds_connected ds \<Longrightarrow> ds_cyclic (device_after ops d ds) = ds_cyclic (device_outputs ops d ds)
   \<and> ds_stw1 (device_after ops d ds) = ds_stw1 (device_outputs ops d ds)
   \<and> ds_nsoll (device_after ops d ds) = ds_nsoll (device_outputs ops d ds)"
  by (simp add: device_after_def device_mirror_def Let_def split: option.splits)

definition zero_writes :: "nat \<Rightarrow> 'c dev_state \<Rightarrow> (int \<times> int \<times> bytes) list" where
  "zero_writes n ds = (if ds_dos ds = [] then [(ds_slot ds, ds_subslot ds, zeros n)]
                       else rack_chunks (zeros n) (ds_dos ds))"

lemma zero_writes_zero:
  "concat (map (\<lambda>(_, _, d). d) (zero_writes n ds)) = zeros (if ds_dos ds = [] then n else rack_out_total (ds_dos ds))"
  by (simp add: zero_writes_def rack_chunks_concat)

lemma rack_chunks_slots:
  "map (\<lambda>(slot, subslot, _). (slot, subslot)) (rack_chunks d dos) =
   map (\<lambda>(slot, subslot, _). (slot, subslot)) (filter (\<lambda>(_, _, n, _). 0 < n) dos)"
  by (induction d dos rule: rack_chunks.induct) auto

lemma zero_writes_slots:
  "map (\<lambda>(slot, subslot, _). (slot, subslot)) (zero_writes n ds) =
   (if ds_dos ds = [] then [(ds_slot ds, ds_subslot ds)]
    else map (\<lambda>(slot, subslot, _). (slot, subslot)) (filter (\<lambda>(_, _, n, _). 0 < n) (ds_dos ds)))"
  by (simp add: zero_writes_def rack_chunks_slots)

lemma bridge_after_watchdog:
  fixes ops :: "'c cyc_ops"
  assumes "silent t gw" and "gw_sized gw" and "pn_get (int i) pn = Some ds" and "ds_connected ds"
    and "ds_cyclic ds = Some c" and "i < length (gw_device_configs gw)"
    and "ds_config ds = gw_device_configs gw ! i" and "4 \<le> total_output_length (ds_config ds)"
  shows "\<exists>ds'. pn_get (int i) (snd (bridge_pass ops (watchdog_pass t gw, pn))) = Some ds' \<and>
    ds_cyclic ds' = Some (set_outputs_all ops (zero_writes (nat (total_output_length (ds_config ds))) ds) c) \<and>
    ds_stw1 ds' = 0 \<and> ds_nsoll ds' = 0"
proof -
  let ?n = "nat (total_output_length (ds_config ds))"
  note l = gw_sized_lengths [OF assms(2)]
  have out: "get_outputs (watchdog_pass t gw) i = zeros ?n"
    using get_outputs_watchdog [OF assms(1)] l(1) assms(6,7)
    by (simp flip: l(2) [OF assms(6)])
  have i: "i < device_count pn"
    using assms(3) by (auto simp: pn_get_def device_count_def split: if_splits)
  have "pn_get (int i) (snd (bridge_pass ops (watchdog_pass t gw, pn))) = Some (device_after ops (zeros ?n) ds)"
    using bridge_fold(4) [where n = "device_count pn", OF order_refl assms(3), of ops "watchdog_pass t gw"] i out
    by (simp add: bridge_pass_def)
  moreover have "zeros ?n \<noteq> []" "zeros ?n ! 0 = 0" "zeros ?n ! 1 = 0" "zeros ?n ! 2 = 0" "zeros ?n ! 3 = 0" "4 \<le> ?n"
    using assms(8) by (auto simp: zeros_def)
  ultimately show ?thesis
    using device_after_outputs [OF assms(4), of ops "zeros ?n"] assms(5,8)
    by (simp add: device_outputs_def zero_writes_def Let_def val16_def)
qed

end
