(* ===== verification/Pn_Layout.thy ===== *)
theory Pn_Layout
  imports Prelude Py_Str Config "HOL-Library.Multiset"
begin

text \<open>
  The cyclic frame layout of \<open>profinet_gateway_py/profinet_ctrl.py\<close>: the cyclic
  presets and their environment overrides, the placement of data, provider and consumer
  status bytes in both frames, the cyclic configuration built from it, the IOCR block of
  the Connect request, and the consumer status bytes of the output frame.
\<close>

section \<open>Packing several values\<close>

text \<open>\<open>struct.pack(">HH...")\<close>.\<close>

fun pack_Hs :: "int list \<Rightarrow> py_error + bytes" where
  "pack_Hs [] = Inr []"
| "pack_Hs (v # vs) = bindE (pack_H v) (\<lambda>a. bindE (pack_Hs vs) (\<lambda>b. Inr (a @ b)))"

section \<open>Constants, environment and presets\<close>

definition SEND_CLOCK_FACTOR :: int where "SEND_CLOCK_FACTOR = 32"
definition CYCLE_MS :: int where "CYCLE_MS = 16"
definition WATCHDOG_FACTOR :: int where "WATCHDOG_FACTOR = 3"
definition DRIVE_MODULE_IDENT :: int where "DRIVE_MODULE_IDENT = 0x300100C4"
definition DRIVE_TELEGRAM_IDENT :: int where "DRIVE_TELEGRAM_IDENT = 0x400003E6"
definition INCLUDE_EMPTY_SUBMOD :: int where "INCLUDE_EMPTY_SUBMOD = 1"
definition ALARM_CR_PROPERTIES :: int where "ALARM_CR_PROPERTIES = 0"
definition CYCLIC_VLAN_TCI :: int where "CYCLIC_VLAN_TCI = 0xC000"

type_synonym env = "string \<Rightarrow> string option"

text \<open>A variable that holds separators only has no first token: the index raises.\<close>

definition envint :: "env \<Rightarrow> string \<Rightarrow> int \<Rightarrow> py_error + int" where
  "envint env name def =
     (case env name of
        None \<Rightarrow> Inr def
      | Some v \<Rightarrow>
          if strip v = [] then Inr def
          else
            (case split_ws (replace_c (CHR '';'') (CHR '' '') (strip v)) of
               [] \<Rightarrow> Inl IndexError
             | tok # _ \<Rightarrow> (case parse_auto tok of Some i \<Rightarrow> Inr i | None \<Rightarrow> Inr def)))"

record cyc_profile =
  cp_mode :: string
  cp_rtclass :: int
  cp_iocr_fid_in :: int
  cp_iocr_fid_out :: int
  cp_cyc_fid_in :: int
  cp_cyc_fid_out :: int
  cp_vlan :: int

definition cyclic_profile :: "env \<Rightarrow> cyc_profile" where
  "cyclic_profile env =
     (let v = (case env ''PN_CYCLIC_MODE'' of None \<Rightarrow> [] | Some s \<Rightarrow> s);
          mode = lower (strip (if v = [] then ''rtc2'' else v))
      in if mode \<in> {''rtc1'', ''rt1'', ''1'', ''class1'', ''rtclass1''}
         then \<lparr>cp_mode = ''rtc1'', cp_rtclass = 1, cp_iocr_fid_in = 0xC000, cp_iocr_fid_out = 0xC000,
               cp_cyc_fid_in = 0xC000, cp_cyc_fid_out = 0xC000, cp_vlan = 1\<rparr>
         else \<lparr>cp_mode = ''rtc2'', cp_rtclass = 2, cp_iocr_fid_in = 0x8000, cp_iocr_fid_out = 0xFFFF,
               cp_cyc_fid_in = 0x8000, cp_cyc_fid_out = 0x8000, cp_vlan = 1\<rparr>)"

section \<open>Frame layout\<close>

record io_slot =
  is_slot :: int
  is_subslot :: int
  is_input_length :: int
  is_output_length :: int
  is_module_ident :: int
  is_submodule_ident :: int

type_synonym data_obj = "int \<times> int \<times> int \<times> int"
type_synonym stat_obj = "int \<times> int \<times> int"

text \<open>The loops over the slots, each from its offset to the offset it ends at.\<close>

fun place_inputs :: "int \<Rightarrow> io_slot list \<Rightarrow> data_obj list \<times> int" where
  "place_inputs off [] = ([], off)"
| "place_inputs off (s # ss) =
     (case place_inputs (off + is_input_length s + 1) ss of
        (objs, e) \<Rightarrow> ((is_slot s, is_subslot s, off, is_input_length s) # objs, e))"

fun place_iocs :: "int \<Rightarrow> io_slot list \<Rightarrow> stat_obj list \<times> int" where
  "place_iocs off [] = ([], off)"
| "place_iocs off (s # ss) =
     (if is_output_length s > 0
      then (case place_iocs (off + 1) ss of (iocs, e) \<Rightarrow> ((is_slot s, is_subslot s, off) # iocs, e))
      else place_iocs off ss)"

fun place_outputs :: "int \<Rightarrow> io_slot list \<Rightarrow> data_obj list \<times> stat_obj list \<times> int" where
  "place_outputs off [] = ([], [], off)"
| "place_outputs off (s # ss) =
     (if is_output_length s > 0
      then (case place_outputs (off + is_output_length s + 1) ss of
              (objs, iocs, e) \<Rightarrow> ((is_slot s, is_subslot s, off, is_output_length s) # objs, iocs, e))
      else (case place_outputs (off + 1) ss of
              (objs, iocs, e) \<Rightarrow> (objs, (is_slot s, is_subslot s, off) # iocs, e)))"

record layout =
  ly_in_objs :: "data_obj list"
  ly_in_iocs :: "stat_obj list"
  ly_in_len :: int
  ly_out_objs :: "data_obj list"
  ly_out_iocs :: "stat_obj list"
  ly_out_len :: int

definition iocr_layout :: "io_slot list \<Rightarrow> layout" where
  "iocr_layout slots =
     (case place_inputs 0 slots of (in_objs, off1) \<Rightarrow>
      case place_iocs off1 slots of (in_iocs, off2) \<Rightarrow>
      case place_outputs 0 slots of (out_objs, iocs1, off3) \<Rightarrow>
      case place_iocs off3 slots of (iocs2, off4) \<Rightarrow>
        \<lparr>ly_in_objs = in_objs, ly_in_iocs = in_iocs, ly_in_len = max 40 off2,
         ly_out_objs = out_objs, ly_out_iocs = iocs1 @ iocs2, ly_out_len = max 40 off4\<rparr>)"

section \<open>The cyclic configuration\<close>

record io_data_object =
  od_slot :: int
  od_subslot :: int
  od_frame_offset :: int
  od_data_length :: int
  od_iops_offset :: int
  od_iocs_offset :: int

record iocr_config =
  ic_type :: int
  ic_reference :: int
  ic_frame_id :: int
  ic_send_clock_factor :: int
  ic_reduction_ratio :: int
  ic_phase :: int
  ic_watchdog_factor :: int
  ic_data_length :: int
  ic_objects :: "io_data_object list"

definition data_object :: "data_obj \<Rightarrow> io_data_object" where
  "data_object p = (case p of (sl, ss, off, dl) \<Rightarrow>
     \<lparr>od_slot = sl, od_subslot = ss, od_frame_offset = off, od_data_length = dl,
      od_iops_offset = off + dl, od_iocs_offset = 0\<rparr>)"

definition status_object :: "stat_obj \<Rightarrow> io_data_object" where
  "status_object p = (case p of (sl, ss, off) \<Rightarrow>
     \<lparr>od_slot = sl, od_subslot = ss, od_frame_offset = 0, od_data_length = 0,
      od_iops_offset = 0, od_iocs_offset = off\<rparr>)"

definition mk_cfg :: "int \<Rightarrow> int \<Rightarrow> int \<Rightarrow> data_obj list \<Rightarrow> stat_obj list \<Rightarrow> int \<Rightarrow> iocr_config" where
  "mk_cfg iocr_type ref frame_id objs iocs dlen =
     \<lparr>ic_type = iocr_type, ic_reference = ref, ic_frame_id = frame_id,
      ic_send_clock_factor = SEND_CLOCK_FACTOR, ic_reduction_ratio = CYCLE_MS, ic_phase = 1,
      ic_watchdog_factor = WATCHDOG_FACTOR, ic_data_length = dlen,
      ic_objects = map data_object objs @ map status_object iocs\<rparr>"

definition build_iocr_configs :: "env \<Rightarrow> io_slot list \<Rightarrow> py_error + (iocr_config \<times> iocr_config)" where
  "build_iocr_configs env slots =
     (let ly = iocr_layout slots; prof = cyclic_profile env in
      bindE (envint env ''PN_CYCLIC_FRAMEID_IN'' (cp_cyc_fid_in prof)) (\<lambda>fid_in.
      bindE (envint env ''PN_CYCLIC_FRAMEID_OUT'' (cp_cyc_fid_out prof)) (\<lambda>fid_out.
        Inr (mk_cfg 1 1 fid_in (ly_in_objs ly) [] (ly_in_len ly),
             mk_cfg 2 2 fid_out (ly_out_objs ly) (ly_out_iocs ly) (ly_out_len ly)))))"

section \<open>The IOCR block\<close>

record iocr_setup =
  su_slots :: "io_slot list"
  su_send_clock_factor :: int
  su_reduction_ratio :: int
  su_watchdog_factor :: int
  su_data_hold_factor :: int

text \<open>What the patch reads from the environment when it is installed.\<close>

record iocr_patch =
  ip_drive_api :: int
  ip_rtclass :: int
  ip_fid_in :: int
  ip_fid_out :: int

definition read_iocr_patch :: "env \<Rightarrow> py_error + iocr_patch" where
  "read_iocr_patch env =
     (let prof = cyclic_profile env in
      bindE (envint env ''PN_DRIVE_API'' 0x00003A00) (\<lambda>drive_api.
      bindE (envint env ''PN_IOCR_RTCLASS'' (cp_rtclass prof)) (\<lambda>rtclass.
      bindE (envint env ''PN_IOCR_FRAMEID_IN'' (cp_iocr_fid_in prof)) (\<lambda>fid_in.
      bindE (envint env ''PN_IOCR_FRAMEID_OUT'' (cp_iocr_fid_out prof)) (\<lambda>fid_out.
        Inr \<lparr>ip_drive_api = drive_api, ip_rtclass = rtclass, ip_fid_in = fid_in, ip_fid_out = fid_out\<rparr>)))))"

definition api_of :: "iocr_patch \<Rightarrow> int \<Rightarrow> int" where
  "api_of ip slot = (if slot = 0 then 0 else ip_drive_api ip)"

text \<open>The dictionary by API: \<open>setdefault(api, ([], []))\<close>, then append.\<close>

type_synonym groups = "(int \<times> stat_obj list \<times> stat_obj list) list"

fun add_data :: "int \<Rightarrow> stat_obj \<Rightarrow> groups \<Rightarrow> groups" where
  "add_data api x [] = [(api, [x], [])]"
| "add_data api x ((a, od, ic) # gs) = (if a = api then (a, od @ [x], ic) # gs else (a, od, ic) # add_data api x gs)"

fun add_stat :: "int \<Rightarrow> stat_obj \<Rightarrow> groups \<Rightarrow> groups" where
  "add_stat api x [] = [(api, [], [x])]"
| "add_stat api x ((a, od, ic) # gs) = (if a = api then (a, od, ic @ [x]) # gs else (a, od, ic) # add_stat api x gs)"

definition group_by_api :: "iocr_patch \<Rightarrow> data_obj list \<Rightarrow> stat_obj list \<Rightarrow> groups" where
  "group_by_api ip objs iocs =
     (let g1 = foldl (\<lambda>g (sl, ss, off, dl). add_data (api_of ip sl) (sl, ss, off) g) [] objs
      in foldl (\<lambda>g (sl, ss, off). add_stat (api_of ip sl) (sl, ss, off) g) g1 iocs)"

fun pack_entries :: "stat_obj list \<Rightarrow> py_error + bytes" where
  "pack_entries [] = Inr []"
| "pack_entries ((sl, ss, off) # es) =
     bindE (pack_Hs [sl, ss, off]) (\<lambda>a. bindE (pack_entries es) (\<lambda>b. Inr (a @ b)))"

definition pack_group :: "int \<times> stat_obj list \<times> stat_obj list \<Rightarrow> py_error + bytes" where
  "pack_group g = (case g of (api, od, ic) \<Rightarrow>
     bindE (pack_I api) (\<lambda>a.
     bindE (pack_H (int (length od))) (\<lambda>n.
     bindE (pack_entries od) (\<lambda>ods.
     bindE (pack_H (int (length ic))) (\<lambda>m.
     bindE (pack_entries ic) (\<lambda>ics. Inr (a @ n @ ods @ m @ ics)))))))"

fun pack_groups :: "groups \<Rightarrow> py_error + bytes" where
  "pack_groups [] = Inr []"
| "pack_groups (g # gs) = bindE (pack_group g) (\<lambda>a. bindE (pack_groups gs) (\<lambda>b. Inr (a @ b)))"

definition iocr_header :: "iocr_patch \<Rightarrow> int \<Rightarrow> int \<Rightarrow> int \<Rightarrow> int \<Rightarrow> iocr_setup \<Rightarrow> nat \<Rightarrow> py_error + bytes" where
  "iocr_header ip iocr_type ref dlen fid setup napis =
     bindE (pack_Hs [iocr_type, ref, 0x8892]) (\<lambda>a.
     bindE (pack_I (ip_rtclass ip AND 0xFFFFFFFF)) (\<lambda>b.
     bindE (pack_Hs [dlen, fid, su_send_clock_factor setup, su_reduction_ratio setup, 1, 0]) (\<lambda>c.
     bindE (pack_I 0xFFFFFFFF) (\<lambda>d.
     bindE (pack_Hs [su_watchdog_factor setup, su_data_hold_factor setup, 0xC000]) (\<lambda>e.
     bindE (pack_H (int napis)) (\<lambda>f. Inr (a @ b @ c @ d @ e @ zeros 6 @ f)))))))"

definition build_iocr_block :: "iocr_patch \<Rightarrow> int \<Rightarrow> iocr_setup \<Rightarrow> py_error + bytes" where
  "build_iocr_block ip iocr_type setup =
     (let ly = iocr_layout (su_slots setup);
          (objs, iocs, dlen, ref, fid) =
            (if iocr_type = 1 then (ly_in_objs ly, ly_in_iocs ly, ly_in_len ly, 0x1000, ip_fid_in ip)
             else (ly_out_objs ly, ly_out_iocs ly, ly_out_len ly, 0x2000, ip_fid_out ip));
          grouped = sort_key fst (group_by_api ip objs iocs)
      in bindE (pack_groups grouped) (\<lambda>apisec.
         bindE (iocr_header ip iocr_type ref dlen fid setup (length grouped)) (\<lambda>hdr.
           (let body = hdr @ apisec in
            bindE (pack_Hs [0x0102, int (length body) + 2]) (\<lambda>h. Inr (h @ [1, 0] @ body))))))"

section \<open>Consumer status bytes\<close>

record out_builder =
  ob_objects :: "io_data_object list"
  ob_buffer :: bytes
  ob_dirty :: bool

definition buf_put :: "int \<Rightarrow> byte \<Rightarrow> bytes \<Rightarrow> py_error + bytes" where
  "buf_put i v buf =
     (let n = int (length buf); j = (if i < 0 then i + n else i)
      in if 0 \<le> j \<and> j < n then Inr (buf[nat j := v]) else Inl IndexError)"

text \<open>The first object of the sub-slot decides.\<close>

fun set_iocs_in :: "int \<Rightarrow> int \<Rightarrow> byte \<Rightarrow> io_data_object list \<Rightarrow> out_builder \<Rightarrow> py_error option \<times> out_builder" where
  "set_iocs_in slot subslot status [] b = (None, b)"
| "set_iocs_in slot subslot status (obj # objs) b =
     (if od_slot obj = slot \<and> od_subslot obj = subslot then
        (if od_data_length obj = 0 then
           (case buf_put (od_iocs_offset obj) status (ob_buffer b) of
              Inl e \<Rightarrow> (Some e, b)
            | Inr buf \<Rightarrow> (None, b\<lparr>ob_buffer := buf, ob_dirty := True\<rparr>))
         else (None, b))
      else set_iocs_in slot subslot status objs b)"

definition set_iocs :: "int \<Rightarrow> int \<Rightarrow> byte \<Rightarrow> out_builder \<Rightarrow> py_error option \<times> out_builder" where
  "set_iocs slot subslot status b = set_iocs_in slot subslot status (ob_objects b) b"

fun put_all_iocs :: "byte \<Rightarrow> io_data_object list \<Rightarrow> bytes \<Rightarrow> py_error option \<times> bytes" where
  "put_all_iocs status [] buf = (None, buf)"
| "put_all_iocs status (obj # objs) buf =
     (if od_data_length obj = 0 then
        (case buf_put (od_iocs_offset obj) status buf of
           Inl e \<Rightarrow> (Some e, buf)
         | Inr buf' \<Rightarrow> put_all_iocs status objs buf')
      else put_all_iocs status objs buf)"

definition set_all_iocs :: "byte \<Rightarrow> out_builder \<Rightarrow> py_error option \<times> out_builder" where
  "set_all_iocs status b =
     (case put_all_iocs status (ob_objects b) (ob_buffer b) of
        (Some e, buf) \<Rightarrow> (Some e, b\<lparr>ob_buffer := buf\<rparr>)
      | (None, buf) \<Rightarrow> (None, b\<lparr>ob_buffer := buf, ob_dirty := True\<rparr>))"

section \<open>The layout partitions the frame\<close>

definition data_span :: "data_obj \<Rightarrow> int list" where
  "data_span p = (case p of (_, _, off, dl) \<Rightarrow> [off..off + dl])"

definition stat_pos :: "stat_obj \<Rightarrow> int" where
  "stat_pos p = (case p of (_, _, off) \<Rightarrow> off)"

definition lengths_nonneg :: "io_slot list \<Rightarrow> bool" where
  "lengths_nonneg slots \<longleftrightarrow> (\<forall>s \<in> set slots. 0 \<le> is_input_length s \<and> 0 \<le> is_output_length s)"

lemma upto_join: "i \<le> j + 1 \<Longrightarrow> j \<le> k \<Longrightarrow> [i..j] @ [j + 1..k] = [i..k]"
  using upto_split2 [of i j k] by (cases "i = j + 1") auto

lemma place_inputs_span:
  "lengths_nonneg slots \<Longrightarrow> place_inputs off slots = (objs, e) \<Longrightarrow>
   concat (map data_span objs) = [off..e - 1] \<and> off \<le> e"
proof (induction slots arbitrary: off objs e)
  case Nil
  then show ?case by simp
next
  case (Cons s ss)
  obtain os where os: "place_inputs (off + is_input_length s + 1) ss = (os, e)"
    and objs: "objs = (is_slot s, is_subslot s, off, is_input_length s) # os"
    using Cons.prems(2) by (auto split: prod.splits)
  have "0 \<le> is_input_length s" "lengths_nonneg ss"
    using Cons.prems(1) by (simp_all add: lengths_nonneg_def)
  with Cons.IH [OF _ os] show ?case
    using upto_join [of off "off + is_input_length s" "e - 1"] by (auto simp: objs data_span_def add.assoc)
qed

lemma place_iocs_pos: "place_iocs off slots = (iocs, e) \<Longrightarrow> map stat_pos iocs = [off..e - 1] \<and> off \<le> e"
proof (induction slots arbitrary: off iocs e)
  case Nil
  then show ?case by simp
next
  case (Cons s ss)
  show ?case
  proof (cases "is_output_length s > 0")
    case False
    with Cons show ?thesis by simp
  next
    case True
    then obtain os where os: "place_iocs (off + 1) ss = (os, e)" "iocs = (is_slot s, is_subslot s, off) # os"
      using Cons.prems by (auto split: prod.splits)
    with Cons.IH [OF os(1)] show ?thesis
      using upto_rec1 [of off "e - 1"] by (auto simp: stat_pos_def)
  qed
qed

lemma place_outputs_positions:
  "lengths_nonneg slots \<Longrightarrow> place_outputs off slots = (objs, iocs, e) \<Longrightarrow>
   mset (concat (map data_span objs) @ map stat_pos iocs) = mset [off..e - 1] \<and> off \<le> e"
proof (induction slots arbitrary: off objs iocs e)
  case Nil
  then show ?case by simp
next
  case (Cons s ss)
  have nonneg: "0 \<le> is_output_length s" "lengths_nonneg ss"
    using Cons.prems(1) by (simp_all add: lengths_nonneg_def)
  show ?case
  proof (cases "is_output_length s > 0")
    case True
    then obtain os where os: "place_outputs (off + is_output_length s + 1) ss = (os, iocs, e)"
      "objs = (is_slot s, is_subslot s, off, is_output_length s) # os"
      using Cons.prems(2) by (auto split: prod.splits)
    note IH = Cons.IH [OF nonneg(2) os(1)]
    have "[off..e - 1] = [off..off + is_output_length s] @ [off + is_output_length s + 1..e - 1]"
      using upto_join [of off "off + is_output_length s" "e - 1"] IH nonneg(1) by simp
    with IH nonneg(1) show ?thesis
      by (simp add: os(2) data_span_def)
  next
    case False
    then obtain os where os: "place_outputs (off + 1) ss = (objs, os, e)"
      "iocs = (is_slot s, is_subslot s, off) # os"
      using Cons.prems(2) by (auto split: prod.splits)
    note IH = Cons.IH [OF nonneg(2) os(1)]
    then have "[off..e - 1] = off # [off + 1..e - 1]"
      by (intro upto_rec1) simp
    with IH show ?thesis
      by (simp add: os(2) stat_pos_def)
  qed
qed

lemma place_inputs_objs:
  "place_inputs off slots = (objs, e) \<Longrightarrow> map (\<lambda>(sl, ss, _, dl). (sl, ss, dl)) objs =
   map (\<lambda>s. (is_slot s, is_subslot s, is_input_length s)) slots"
  by (induction slots arbitrary: off objs e) (auto split: prod.splits)

lemma place_outputs_objs:
  "place_outputs off slots = (objs, iocs, e) \<Longrightarrow> map (\<lambda>(sl, ss, _, dl). (sl, ss, dl)) objs =
   map (\<lambda>s. (is_slot s, is_subslot s, is_output_length s)) (filter (\<lambda>s. is_output_length s > 0) slots)"
  by (induction slots arbitrary: off objs iocs e) (auto split: prod.splits if_splits)

lemma iocr_layout_inputs:
  assumes "lengths_nonneg slots"
  shows "\<exists>e \<ge> 0. concat (map data_span (ly_in_objs (iocr_layout slots))) @ map stat_pos (ly_in_iocs (iocr_layout slots))
     = [0..e - 1] \<and> ly_in_len (iocr_layout slots) = max 40 e"
proof -
  obtain objs e1 where o: "place_inputs 0 slots = (objs, e1)" by force
  obtain iocs e2 where i: "place_iocs e1 slots = (iocs, e2)" by force
  have "[0..e1 - 1] @ [e1..e2 - 1] = [0..e2 - 1]"
    using place_inputs_span [OF assms o] place_iocs_pos [OF i] upto_join [of 0 "e1 - 1" "e2 - 1"]
    by (cases "e1 = e2") auto
  then show ?thesis
    using place_inputs_span [OF assms o] place_iocs_pos [OF i] o i
    by (intro exI [of _ e2]) (simp add: iocr_layout_def split: prod.splits)
qed

lemma iocr_layout_outputs:
  assumes "lengths_nonneg slots"
  shows "\<exists>e \<ge> 0. mset (concat (map data_span (ly_out_objs (iocr_layout slots))) @ map stat_pos (ly_out_iocs (iocr_layout slots)))
     = mset [0..e - 1] \<and> ly_out_len (iocr_layout slots) = max 40 e"
proof -
  obtain objs iocs1 e1 where o: "place_outputs 0 slots = (objs, iocs1, e1)"
    by (metis prod_cases3)
  obtain iocs2 e2 where i: "place_iocs e1 slots = (iocs2, e2)" by force
  have "[0..e1 - 1] @ [e1..e2 - 1] = [0..e2 - 1]"
    using place_outputs_positions [OF assms o] place_iocs_pos [OF i] upto_join [of 0 "e1 - 1" "e2 - 1"]
    by (cases "e1 = e2") auto
  then have "mset [0..e2 - 1] = mset [0..e1 - 1] + mset [e1..e2 - 1]"
    by (metis mset_append)
  moreover have "image_mset stat_pos (mset iocs2) = mset [e1..e2 - 1]"
    using place_iocs_pos [OF i] by (metis mset_map)
  ultimately show ?thesis
    using place_outputs_positions [OF assms o] place_iocs_pos [OF i] o i
    by (intro exI [of _ e2]) (simp add: iocr_layout_def split: prod.splits flip: add.assoc)
qed

lemma iocr_layout_objs:
  "map (\<lambda>(sl, ss, _, dl). (sl, ss, dl)) (ly_in_objs (iocr_layout slots)) =
     map (\<lambda>s. (is_slot s, is_subslot s, is_input_length s)) slots"
  "map (\<lambda>(sl, ss, _, dl). (sl, ss, dl)) (ly_out_objs (iocr_layout slots)) =
     map (\<lambda>s. (is_slot s, is_subslot s, is_output_length s)) (filter (\<lambda>s. is_output_length s > 0) slots)"
  by (simp_all add: iocr_layout_def place_inputs_objs place_outputs_objs split: prod.splits)

section \<open>Every consumer status, and no data byte\<close>

definition iocs_at :: "io_data_object list \<Rightarrow> int \<Rightarrow> bool" where
  "iocs_at objs p \<longleftrightarrow> (\<exists>obj \<in> set objs. od_data_length obj = 0 \<and> od_iocs_offset obj = p)"

lemma buf_put_in: "0 \<le> i \<Longrightarrow> i < int (length buf) \<Longrightarrow> buf_put i v buf = Inr (buf[nat i := v])"
  by (simp add: buf_put_def)

lemma put_all_iocs_ok:
  assumes "\<forall>obj \<in> set objs. od_data_length obj = 0 \<longrightarrow> 0 \<le> od_iocs_offset obj \<and> od_iocs_offset obj < int (length buf)"
  shows "\<exists>buf'. put_all_iocs status objs buf = (None, buf') \<and> length buf' = length buf
    \<and> (\<forall>p < length buf. buf' ! p = (if iocs_at objs (int p) then status else buf ! p))"
  using assms
proof (induction objs arbitrary: buf)
  case Nil
  then show ?case by (simp add: iocs_at_def)
next
  case (Cons obj objs)
  show ?case
  proof (cases "od_data_length obj = 0")
    case False
    with Cons show ?thesis by (simp add: iocs_at_def)
  next
    case True
    let ?buf = "buf[nat (od_iocs_offset obj) := status]"
    have put: "buf_put (od_iocs_offset obj) status buf = Inr ?buf"
      using Cons.prems True by (intro buf_put_in) auto
    obtain buf' where "put_all_iocs status objs ?buf = (None, buf')" "length buf' = length ?buf"
      "\<forall>p < length ?buf. buf' ! p = (if iocs_at objs (int p) then status else ?buf ! p)"
      using Cons.IH [of ?buf] Cons.prems by auto
    with put True Cons.prems show ?thesis
      by (auto simp: iocs_at_def nth_list_update)
  qed
qed

lemma iocs_at_cfg:
  assumes "\<forall>(_, _, _, dl) \<in> set objs. 0 < dl"
  shows "iocs_at (ic_objects (mk_cfg t r f objs iocs len)) p \<longleftrightarrow> p \<in> set (map stat_pos iocs)"
proof -
  have "od_data_length (data_object x) \<noteq> 0" if "x \<in> set objs" for x
  proof -
    obtain sl ss off dl where x: "x = (sl, ss, off, dl)" by (metis prod_cases4)
    have "0 < dl"
      using assms that unfolding x by blast
    then show ?thesis
      by (simp add: x data_object_def)
  qed
  moreover have "od_data_length (status_object x) = 0" "od_iocs_offset (status_object x) = stat_pos x" for x
    by (cases x; simp add: status_object_def stat_pos_def)+
  ultimately show ?thesis
    by (simp add: iocs_at_def mk_cfg_def bex_Un) blast
qed

lemma out_objs_positive: "\<forall>(_, _, _, dl) \<in> set (ly_out_objs (iocr_layout slots)). 0 < dl"
proof -
  have "0 < dl" if "(sl, ss, off, dl) \<in> set (ly_out_objs (iocr_layout slots))" for sl ss off dl
  proof -
    let ?f = "\<lambda>(sl, ss, off, dl). (sl, ss, dl)"
    have "?f (sl, ss, off, dl) \<in> set (map ?f (ly_out_objs (iocr_layout slots)))"
      unfolding set_map using that by (rule imageI)
    then show ?thesis
      unfolding iocr_layout_objs by auto
  qed
  then show ?thesis by blast
qed

section \<open>Reading an IOCR block back\<close>

text \<open>A decoder for the block as PROFINET lays it out.\<close>

fun get16 :: "bytes \<Rightarrow> (int \<times> bytes) option" where
  "get16 (a # b # r) = Some (val16 a b, r)"
| "get16 _ = None"

fun get32 :: "bytes \<Rightarrow> (int \<times> bytes) option" where
  "get32 (a # b # c # d # r) = Some (val32 a b c d, r)"
| "get32 _ = None"

fun get_many :: "(bytes \<Rightarrow> ('a \<times> bytes) option) \<Rightarrow> nat \<Rightarrow> bytes \<Rightarrow> ('a list \<times> bytes) option" where
  "get_many f 0 bs = Some ([], bs)"
| "get_many f (Suc n) bs =
     (case f bs of None \<Rightarrow> None
      | Some (x, r) \<Rightarrow> (case get_many f n r of None \<Rightarrow> None | Some (xs, r') \<Rightarrow> Some (x # xs, r')))"

definition get_entry :: "bytes \<Rightarrow> (stat_obj \<times> bytes) option" where
  "get_entry bs = (case get_many get16 3 bs of
     Some ([sl, ss, off], r) \<Rightarrow> Some ((sl, ss, off), r) | _ \<Rightarrow> None)"

definition get_counted :: "bytes \<Rightarrow> (stat_obj list \<times> bytes) option" where
  "get_counted bs = (case get16 bs of None \<Rightarrow> None | Some (n, r) \<Rightarrow> get_many get_entry (nat n) r)"

definition get_group :: "bytes \<Rightarrow> ((int \<times> stat_obj list \<times> stat_obj list) \<times> bytes) option" where
  "get_group bs =
     (case get32 bs of None \<Rightarrow> None | Some (api, r) \<Rightarrow>
       (case get_counted r of None \<Rightarrow> None | Some (od, r2) \<Rightarrow>
         (case get_counted r2 of None \<Rightarrow> None | Some (ic, r3) \<Rightarrow> Some ((api, od, ic), r3))))"

record iocr_view =
  iv_type :: int
  iv_reference :: int
  iv_properties :: int
  iv_data_length :: int
  iv_frame_id :: int
  iv_timing :: "int list"
  iv_groups :: groups

definition parse_iocr :: "bytes \<Rightarrow> iocr_view option" where
  "parse_iocr bs =
     (case get_many get16 3 bs of
        Some ([bt, blen, ver], r) \<Rightarrow>
          if bt \<noteq> 0x0102 \<or> ver \<noteq> 0x0100 \<or> blen \<noteq> int (length r) + 2 then None else
          (case get_many get16 3 r of Some ([ty, ref, lt], r) \<Rightarrow>
           if lt \<noteq> 0x8892 then None else
           (case get32 r of Some (props, r) \<Rightarrow>
            (case get_many get16 6 r of Some ([dlen, fid, sc, rr, ph, seq], r) \<Rightarrow>
             (case get32 r of Some (fso, r) \<Rightarrow>
              (case get_many get16 3 r of Some ([wd, dh, tag], r) \<Rightarrow>
               (case get_many get16 4 r of Some ([m1, m2, m3, n], r) \<Rightarrow>
                (case get_many get_group (nat n) r of Some (gs, []) \<Rightarrow>
                   Some \<lparr>iv_type = ty, iv_reference = ref, iv_properties = props, iv_data_length = dlen,
                     iv_frame_id = fid, iv_timing = [sc, rr, wd, dh], iv_groups = gs\<rparr>
                 | _ \<Rightarrow> None) | _ \<Rightarrow> None) | _ \<Rightarrow> None) | _ \<Rightarrow> None) | _ \<Rightarrow> None) | _ \<Rightarrow> None) | _ \<Rightarrow> None)
      | _ \<Rightarrow> None)"

lemma get16_be16: "0 \<le> v \<Longrightarrow> v < 65536 \<Longrightarrow> get16 (be16 v @ r) = Some (v, r)"
  by (simp add: be16_def bytes_simps)

lemma get16_pack: "pack_H v = Inr a \<Longrightarrow> get16 (a @ r) = Some (v, r)"
  by (auto simp: pack_H_def get16_be16 split: if_splits)

lemma get32_pack: "pack_I v = Inr a \<Longrightarrow> get32 (a @ r) = Some (v, r)"
  by (auto simp: pack_I_def be32_def be16_def bytes_simps split: if_splits)

lemma get_many_pack_Hs: "pack_Hs vs = Inr a \<Longrightarrow> get_many get16 (length vs) (a @ r) = Some (vs, r)"
  by (induction vs arbitrary: a) (auto simp: bindE_Inr get16_pack)

lemma get_many_3: "pack_Hs [x, y, z] = Inr a \<Longrightarrow> get_many get16 3 (a @ r) = Some ([x, y, z], r)"
  using get_many_pack_Hs [of "[x, y, z]" a r] by (simp add: numeral_3_eq_3)

lemma get_many_entries: "pack_entries es = Inr a \<Longrightarrow> get_many get_entry (length es) (a @ r) = Some (es, r)"
proof (induction es arbitrary: a)
  case Nil
  then show ?case by simp
next
  case (Cons e es)
  obtain sl ss off where e: "e = (sl, ss, off)" by (metis prod_cases3)
  with Cons.prems obtain x y where "pack_Hs [sl, ss, off] = Inr x" "pack_entries es = Inr y" "a = x @ y"
    by (auto simp: bindE_Inr simp del: pack_Hs.simps)
  with Cons.IH [of y] show ?case
    by (simp add: e get_entry_def get_many_3)
qed

lemma get_counted_pack:
  "pack_H (int (length es)) = Inr n \<Longrightarrow> pack_entries es = Inr a \<Longrightarrow> get_counted (n @ a @ r) = Some (es, r)"
  by (simp add: get_counted_def get16_pack get_many_entries)

lemma get_group_pack: "pack_group g = Inr a \<Longrightarrow> get_group (a @ r) = Some (g, r)"
  by (cases g) (auto simp: pack_group_def bindE_Inr get_group_def get32_pack get_counted_pack)

lemma get_many_groups: "pack_groups gs = Inr a \<Longrightarrow> get_many get_group (length gs) (a @ r) = Some (gs, r)"
  by (induction gs arbitrary: a) (auto simp: bindE_Inr get_group_pack)

lemma pack_H_length: "pack_H v = Inr a \<Longrightarrow> length a = 2"
  by (auto simp: pack_H_def split: if_splits)

lemma pack_I_length: "pack_I v = Inr a \<Longrightarrow> length a = 4"
  by (auto simp: pack_I_def split: if_splits)

lemma pack_Hs_length: "pack_Hs vs = Inr a \<Longrightarrow> length a = 2 * length vs"
  by (induction vs arbitrary: a) (auto simp: bindE_Inr dest: pack_H_length)

lemma pack_H_value: "pack_H v = Inr a \<Longrightarrow> a = be16 v \<and> 0 \<le> v \<and> v < 65536"
  by (auto simp: pack_H_def split: if_splits)

text \<open>What the Connect request says of a direction.\<close>

definition iocr_view_of :: "iocr_patch \<Rightarrow> int \<Rightarrow> iocr_setup \<Rightarrow> iocr_view" where
  "iocr_view_of ip iocr_type setup =
     (let ly = iocr_layout (su_slots setup) in
      \<lparr>iv_type = iocr_type,
       iv_reference = (if iocr_type = 1 then 0x1000 else 0x2000),
       iv_properties = ip_rtclass ip AND 0xFFFFFFFF,
       iv_data_length = (if iocr_type = 1 then ly_in_len ly else ly_out_len ly),
       iv_frame_id = (if iocr_type = 1 then ip_fid_in ip else ip_fid_out ip),
       iv_timing = [su_send_clock_factor setup, su_reduction_ratio setup, su_watchdog_factor setup, su_data_hold_factor setup],
       iv_groups = sort_key fst (if iocr_type = 1 then group_by_api ip (ly_in_objs ly) (ly_in_iocs ly)
                                 else group_by_api ip (ly_out_objs ly) (ly_out_iocs ly))\<rparr>)"

lemma get_many_6: "pack_Hs [a1, a2, a3, a4, a5, a6] = Inr a \<Longrightarrow> get_many get16 6 (a @ r) = Some ([a1, a2, a3, a4, a5, a6], r)"
  using get_many_pack_Hs [of "[a1, a2, a3, a4, a5, a6]" a r] by (simp add: numeral_eq_Suc)

lemma get_many_4_tail: "pack_H n = Inr f \<Longrightarrow> get_many get16 4 (zeros 6 @ f @ r) = Some ([0, 0, 0, n], r)"
  by (simp add: numeral_eq_Suc zeros_Suc get16_pack val16_def)

lemma get_many_3_frame: "pack_Hs [a1, a2] = Inr h \<Longrightarrow> get_many get16 3 (h @ [1, 0] @ body) = Some ([a1, a2, 0x0100], body)"
  using get_many_pack_Hs [of "[a1, a2]" h "[1, 0] @ body"]
  by (auto simp: numeral_eq_Suc bindE_Inr get16_pack val16_def split: option.splits)

lemma parse_build_iocr:
  assumes "build_iocr_block ip t setup = Inr bs"
  shows "parse_iocr bs = Some (iocr_view_of ip t setup)"
proof -
  let ?v = "iocr_view_of ip t setup"
  let ?gs = "iv_groups ?v"
  obtain apisec hdr h where parts: "pack_groups ?gs = Inr apisec"
    "iocr_header ip t (iv_reference ?v) (iv_data_length ?v) (iv_frame_id ?v) setup (length ?gs) = Inr hdr"
    "pack_Hs [0x0102, int (length (hdr @ apisec)) + 2] = Inr h" "bs = h @ [1, 0] @ hdr @ apisec"
    using assms by (auto simp: build_iocr_block_def iocr_view_of_def Let_def bindE_Inr simp del: pack_Hs.simps split: if_splits)
  obtain a b c d e f where hdr: "pack_Hs [t, iv_reference ?v, 0x8892] = Inr a"
    "pack_I (iv_properties ?v) = Inr b"
    "pack_Hs [iv_data_length ?v, iv_frame_id ?v, su_send_clock_factor setup, su_reduction_ratio setup, 1, 0] = Inr c"
    "pack_I 0xFFFFFFFF = Inr d" "pack_Hs [su_watchdog_factor setup, su_data_hold_factor setup, 0xC000] = Inr e"
    "pack_H (int (length ?gs)) = Inr f" "hdr = a @ b @ c @ d @ e @ zeros 6 @ f"
    using parts(2) by (auto simp: iocr_header_def bindE_Inr iocr_view_of_def Let_def simp del: pack_Hs.simps)
  have "parse_iocr bs = Some \<lparr>iv_type = t, iv_reference = iv_reference ?v, iv_properties = iv_properties ?v,
      iv_data_length = iv_data_length ?v, iv_frame_id = iv_frame_id ?v,
      iv_timing = [su_send_clock_factor setup, su_reduction_ratio setup, su_watchdog_factor setup, su_data_hold_factor setup],
      iv_groups = ?gs\<rparr>"
    unfolding parse_iocr_def parts(4) get_many_3_frame [OF parts(3)]
    using get_many_groups [OF parts(1), of "[]"]
    by (simp add: hdr(7) get_many_3 [OF hdr(1)] get32_pack [OF hdr(2)] get_many_6 [OF hdr(3)]
        get32_pack [OF hdr(4)] get_many_3 [OF hdr(5)] get_many_4_tail [OF hdr(6)])
  then show ?thesis
    by (simp add: iocr_view_of_def Let_def)
qed

section \<open>Grouping by API\<close>

lemma keys_add_data: "map fst (add_data a x g) = (if a \<in> set (map fst g) then map fst g else map fst g @ [a])"
  by (induction a x g rule: add_data.induct) auto

lemma keys_add_stat: "map fst (add_stat a x g) = (if a \<in> set (map fst g) then map fst g else map fst g @ [a])"
  by (induction a x g rule: add_stat.induct) auto

definition group_of :: "groups \<Rightarrow> int \<Rightarrow> stat_obj list \<times> stat_obj list" where
  "group_of g a = (case map_of g a of None \<Rightarrow> ([], []) | Some p \<Rightarrow> p)"

lemma group_of_add_data: "group_of (add_data a x g) b = (if a = b then (fst (group_of g b) @ [x], snd (group_of g b)) else group_of g b)"
  by (induction a x g rule: add_data.induct) (auto simp: group_of_def split: option.splits)

lemma group_of_add_stat: "group_of (add_stat a x g) b = (if a = b then (fst (group_of g b), snd (group_of g b) @ [x]) else group_of g b)"
  by (induction a x g rule: add_stat.induct) (auto simp: group_of_def split: option.splits)

lemma distinct_add: "distinct (map fst g) \<Longrightarrow> distinct (map fst (add_data a x g))"
  "distinct (map fst g) \<Longrightarrow> distinct (map fst (add_stat a x g))"
  by (simp_all only: keys_add_data keys_add_stat) auto

lemma group_by_api_distinct: "distinct (map fst (group_by_api ip objs iocs))"
proof -
  have 1: "distinct (map fst g) \<Longrightarrow> distinct (map fst (foldl (\<lambda>g (sl, ss, off, dl). add_data (api_of ip sl) (sl, ss, off) g) g objs))" for g
    by (induction objs arbitrary: g) (auto simp: distinct_add split: prod.splits)
  have 2: "distinct (map fst g) \<Longrightarrow> distinct (map fst (foldl (\<lambda>g (sl, ss, off). add_stat (api_of ip sl) (sl, ss, off) g) g iocs))" for g
    by (induction iocs arbitrary: g) (auto simp: distinct_add split: prod.splits)
  show ?thesis
    using 1 [of "[]"] 2 by (simp add: group_by_api_def Let_def)
qed

lemma group_of_group_by_api:
  "group_of (group_by_api ip objs iocs) a =
     (map (\<lambda>(sl, ss, off, dl). (sl, ss, off)) (filter (\<lambda>(sl, _). api_of ip sl = a) objs),
      filter (\<lambda>(sl, _). api_of ip sl = a) iocs)"
proof -
  have 1: "group_of (foldl (\<lambda>g (sl, ss, off, dl). add_data (api_of ip sl) (sl, ss, off) g) g objs) a =
      (fst (group_of g a) @ map (\<lambda>(sl, ss, off, dl). (sl, ss, off)) (filter (\<lambda>(sl, _). api_of ip sl = a) objs),
       snd (group_of g a))" for g
    by (induction objs arbitrary: g) (auto simp: group_of_add_data split: prod.splits)
  have 2: "group_of (foldl (\<lambda>g (sl, ss, off). add_stat (api_of ip sl) (sl, ss, off) g) g iocs) a =
      (fst (group_of g a), snd (group_of g a) @ filter (\<lambda>(sl, _). api_of ip sl = a) iocs)" for g
    by (induction iocs arbitrary: g) (auto simp: group_of_add_stat split: prod.splits)
  show ?thesis
    unfolding group_by_api_def Let_def 2 1 by (simp add: group_of_def)
qed

lemma group_of_sort: "distinct (map fst g) \<Longrightarrow> group_of (sort_key fst g) a = group_of g a"
proof -
  assume d: "distinct (map fst g)"
  have "distinct (map fst (sort_key fst g))"
    using d by (metis distinct_map distinct_sort set_sort)
  then have "map_of (sort_key fst g) = map_of g"
    using d by (intro map_of_eqI) (auto simp: map_of_eq_Some_iff)
  then show ?thesis
    by (simp add: group_of_def)
qed

section \<open>Properties\<close>

text \<open>C11: In both directions the layout covers the frame from its first byte without gap or
  overlap: each byte up to the end is a data byte, a provider status or a consumer status of
  exactly one sub-module, the frame is long enough, and no sub-module's length changes.\<close>

theorem iocr_layout_partition:
  assumes "lengths_nonneg slots" and "ly = iocr_layout slots"
  shows "\<exists>ein eout. concat (map data_span (ly_in_objs ly)) @ map stat_pos (ly_in_iocs ly) = [0..ein - 1]
    \<and> ly_in_len ly = max 40 ein
    \<and> mset (concat (map data_span (ly_out_objs ly)) @ map stat_pos (ly_out_iocs ly)) = mset [0..eout - 1]
    \<and> ly_out_len ly = max 40 eout
    \<and> map (\<lambda>(sl, ss, _, dl). (sl, ss, dl)) (ly_in_objs ly) = map (\<lambda>s. (is_slot s, is_subslot s, is_input_length s)) slots
    \<and> map (\<lambda>(sl, ss, _, dl). (sl, ss, dl)) (ly_out_objs ly) =
        map (\<lambda>s. (is_slot s, is_subslot s, is_output_length s)) (filter (\<lambda>s. is_output_length s > 0) slots)"
  using iocr_layout_inputs [OF assms(1)] iocr_layout_outputs [OF assms(1)] iocr_layout_objs [of slots] assms(2)
  by blast

definition demo_slots :: "io_slot list" where
  "demo_slots = [
     \<lparr>is_slot = 0, is_subslot = 1, is_input_length = 0, is_output_length = 0, is_module_ident = 1, is_submodule_ident = 1\<rparr>,
     \<lparr>is_slot = 1, is_subslot = 1, is_input_length = 0, is_output_length = 0, is_module_ident = 2, is_submodule_ident = 2\<rparr>,
     \<lparr>is_slot = 1, is_subslot = 3, is_input_length = 4, is_output_length = 4, is_module_ident = 2, is_submodule_ident = 3\<rparr>]"

lemma iocr_layout_partition_witness:
  "\<exists>ein. concat (map data_span [(0, 1, 0, 0), (1, 1, 1, 0), (1, 3, 2, 4)]) @ [7] = [0..ein - (1 :: int)]"
  using iocr_layout_partition [of demo_slots "iocr_layout demo_slots"]
  by (simp add: lengths_nonneg_def demo_slots_def iocr_layout_def stat_pos_def) blast

text \<open>C12: The IOCR block that replaces the package's own reads back, as PROFINET lays the block
  out, to what the controller will use: type, length, frame identifier and timing; its API
  groups are in ascending order, without repetition, each with its sub-modules at the offsets of
  the layout, slot 0 under API 0 and every other slot under the drive's API.\<close>

theorem iocr_block_roundtrip:
  assumes "build_iocr_block ip t setup = Inr bs" and "ly = iocr_layout (su_slots setup)"
    and "(objs, iocs, n) = (if t = 1 then (ly_in_objs ly, ly_in_iocs ly, ly_in_len ly)
                            else (ly_out_objs ly, ly_out_iocs ly, ly_out_len ly))"
  shows "\<exists>v. parse_iocr bs = Some v \<and> iv_type v = t \<and> iv_data_length v = n
    \<and> iv_frame_id v = (if t = 1 then ip_fid_in ip else ip_fid_out ip)
    \<and> iv_timing v = [su_send_clock_factor setup, su_reduction_ratio setup, su_watchdog_factor setup, su_data_hold_factor setup]
    \<and> sorted (map fst (iv_groups v)) \<and> distinct (map fst (iv_groups v))
    \<and> (\<forall>a. group_of (iv_groups v) a =
         (map (\<lambda>(sl, ss, off, dl). (sl, ss, off)) (filter (\<lambda>(sl, _). api_of ip sl = a) objs),
          filter (\<lambda>(sl, _). api_of ip sl = a) iocs))"
proof -
  let ?v = "iocr_view_of ip t setup"
  have g: "iv_groups ?v = sort_key fst (group_by_api ip objs iocs)"
    using assms(2,3) by (auto simp: iocr_view_of_def Let_def split: if_splits)
  then have "distinct (map fst (iv_groups ?v))"
    using group_by_api_distinct [of ip objs iocs] by (metis distinct_map distinct_sort set_sort)
  moreover have "sorted (map fst (iv_groups ?v))"
    by (simp add: g)
  ultimately show ?thesis
    using parse_build_iocr [OF assms(1)] assms(2,3)
    by (auto simp: g group_of_sort [OF group_by_api_distinct] group_of_group_by_api)
      (auto simp: iocr_view_of_def Let_def split: if_splits)
qed

definition demo_patch :: iocr_patch where
  "demo_patch = \<lparr>ip_drive_api = 0x3A00, ip_rtclass = 2, ip_fid_in = 0x8000, ip_fid_out = 0xFFFF\<rparr>"

definition demo_setup :: iocr_setup where
  "demo_setup = \<lparr>su_slots = demo_slots, su_send_clock_factor = 32, su_reduction_ratio = 16,
     su_watchdog_factor = 3, su_data_hold_factor = 3\<rparr>"

lemma demo_block: "\<exists>bs. build_iocr_block demo_patch 1 demo_setup = Inr bs"
  by (simp add: build_iocr_block_def iocr_header_def pack_group_def demo_patch_def demo_setup_def demo_slots_def
      iocr_layout_def group_by_api_def api_of_def pack_H_def pack_I_def Let_def)

lemma iocr_block_roundtrip_witness:
  "\<exists>bs v. build_iocr_block demo_patch 1 demo_setup = Inr bs \<and> parse_iocr bs = Some v \<and> iv_data_length v = 40"
proof -
  obtain bs where bs: "build_iocr_block demo_patch 1 demo_setup = Inr bs"
    using demo_block by blast
  have "ly_in_len (iocr_layout (su_slots demo_setup)) = 40"
    by (simp add: demo_setup_def demo_slots_def iocr_layout_def)
  with iocr_block_roundtrip [OF bs refl] bs show ?thesis
    by auto
qed

text \<open>Marking all consumers good before the first cycle sets every consumer status byte of
  the output frame, the one at offset 0 included, and no other byte: no process data changes.\<close>

theorem all_consumers_good:
  assumes "lengths_nonneg slots" and "build_iocr_configs env slots = Inr (in_cfg, out_cfg)"
    and "ob_objects b = ic_objects out_cfg" and "int (length (ob_buffer b)) = ic_data_length out_cfg"
  shows "\<exists>buf. set_all_iocs st b = (None, b\<lparr>ob_buffer := buf, ob_dirty := True\<rparr>)
    \<and> length buf = length (ob_buffer b)
    \<and> (\<forall>p < length buf. buf ! p =
         (if int p \<in> set (map stat_pos (ly_out_iocs (iocr_layout slots))) then st else ob_buffer b ! p))
    \<and> (\<forall>x \<in> set (ly_out_objs (iocr_layout slots)). \<forall>p \<in> set (data_span x). buf ! nat p = ob_buffer b ! nat p)"
proof -
  let ?ly = "iocr_layout slots"
  obtain fid where cfg: "out_cfg = mk_cfg 2 2 fid (ly_out_objs ?ly) (ly_out_iocs ?ly) (ly_out_len ?ly)"
    using assms(2) by (auto simp: build_iocr_configs_def Let_def bindE_Inr)
  have len: "int (length (ob_buffer b)) = ly_out_len ?ly"
    using assms(4) by (simp add: cfg mk_cfg_def)
  obtain e where e: "mset (concat (map data_span (ly_out_objs ?ly)) @ map stat_pos (ly_out_iocs ?ly)) = mset [0..e - 1]"
    "ly_out_len ?ly = max 40 e"
    using iocr_layout_outputs [OF assms(1)] by blast
  have inside: "set (concat (map data_span (ly_out_objs ?ly))) \<union> set (map stat_pos (ly_out_iocs ?ly)) = {0..e - 1}"
    using arg_cong [OF e(1), of set_mset] by simp
  have "distinct (concat (map data_span (ly_out_objs ?ly)) @ map stat_pos (ly_out_iocs ?ly))"
    using e(1) by (metis distinct_upto mset_eq_imp_distinct_iff)
  then have disjoint: "set (concat (map data_span (ly_out_objs ?ly))) \<inter> set (map stat_pos (ly_out_iocs ?ly)) = {}"
    by simp
  note at = iocs_at_cfg [OF out_objs_positive, where iocs = "ly_out_iocs ?ly" and t = 2 and r = 2 and f = fid and len = "ly_out_len ?ly"]
  have "\<forall>obj \<in> set (ob_objects b). od_data_length obj = 0 \<longrightarrow> 0 \<le> od_iocs_offset obj \<and> od_iocs_offset obj < int (length (ob_buffer b))"
  proof (intro ballI impI)
    fix obj
    assume "obj \<in> set (ob_objects b)" "od_data_length obj = 0"
    then have "iocs_at (ic_objects out_cfg) (od_iocs_offset obj)"
      using assms(3) by (auto simp: iocs_at_def)
    then have "od_iocs_offset obj \<in> {0..e - 1}"
      using at inside unfolding cfg by blast
    then show "0 \<le> od_iocs_offset obj \<and> od_iocs_offset obj < int (length (ob_buffer b))"
      using len e(2) by (simp add: less_max_iff_disj)
  qed
  from put_all_iocs_ok [OF this, of st] obtain buf where buf: "put_all_iocs st (ob_objects b) (ob_buffer b) = (None, buf)"
    "length buf = length (ob_buffer b)"
    "\<forall>p < length (ob_buffer b). buf ! p = (if iocs_at (ob_objects b) (int p) then st else ob_buffer b ! p)"
    by blast
  then have nth: "\<forall>p < length buf. buf ! p = (if int p \<in> set (map stat_pos (ly_out_iocs ?ly)) then st else ob_buffer b ! p)"
    using at by (simp add: assms(3) cfg)
  have "buf ! nat p = ob_buffer b ! nat p" if "x \<in> set (ly_out_objs ?ly)" "p \<in> set (data_span x)" for x p
  proof -
    have p: "p \<in> set (concat (map data_span (ly_out_objs ?ly)))"
      using that by auto
    then have "p \<in> {0..e - 1}" "p \<notin> set (map stat_pos (ly_out_iocs ?ly))"
      using inside disjoint by blast+
    moreover from this have "nat p < length buf" "int (nat p) = p"
      using len e(2) buf(2) by auto
    ultimately show ?thesis
      using nth by metis
  qed
  with buf(1,2) nth show ?thesis
    by (auto simp: set_all_iocs_def simp del: set_map)
qed

definition demo_out_cfg :: iocr_config where
  "demo_out_cfg = mk_cfg 2 2 0x8000 (ly_out_objs (iocr_layout demo_slots)) (ly_out_iocs (iocr_layout demo_slots))
     (ly_out_len (iocr_layout demo_slots))"

definition demo_builder :: out_builder where
  "demo_builder = \<lparr>ob_objects = ic_objects demo_out_cfg, ob_buffer = zeros 40, ob_dirty = False\<rparr>"

lemma all_consumers_good_witness:
  "\<exists>buf. set_all_iocs 0x80 demo_builder = (None, demo_builder\<lparr>ob_buffer := buf, ob_dirty := True\<rparr>) \<and> buf ! 0 = 0x80"
proof -
  have cfg: "build_iocr_configs (\<lambda>_. None) demo_slots = Inr (mk_cfg 1 1 0x8000 (ly_in_objs (iocr_layout demo_slots)) []
      (ly_in_len (iocr_layout demo_slots)), demo_out_cfg)"
    by (simp add: build_iocr_configs_def envint_def cyclic_profile_def demo_out_cfg_def Let_def strip_def
        is_space_def ord_c_def lower_def lower_c_def)
  have "lengths_nonneg demo_slots" "ob_objects demo_builder = ic_objects demo_out_cfg"
    "int (length (ob_buffer demo_builder)) = ic_data_length demo_out_cfg"
    by (simp_all add: lengths_nonneg_def demo_builder_def demo_out_cfg_def mk_cfg_def demo_slots_def iocr_layout_def)
  from all_consumers_good [OF this(1) cfg this(2,3), of "0x80"] obtain buf where
    "set_all_iocs 0x80 demo_builder = (None, demo_builder\<lparr>ob_buffer := buf, ob_dirty := True\<rparr>)"
    "length buf = length (ob_buffer demo_builder)"
    "\<forall>p < length buf. buf ! p =
       (if int p \<in> set (map stat_pos (ly_out_iocs (iocr_layout demo_slots))) then 0x80 else ob_buffer demo_builder ! p)"
    by blast
  moreover have "int 0 \<in> set (map stat_pos (ly_out_iocs (iocr_layout demo_slots)))" "0 < length (ob_buffer demo_builder)"
    by (simp_all add: demo_slots_def iocr_layout_def stat_pos_def demo_builder_def)
  ultimately show ?thesis by metis
qed

text \<open>An integer read from the environment never raises once the value has a character that
  is neither a separator nor white space, and gives the default for an unset or blank
  variable, and for a first token that is not a number.\<close>

theorem envint_total:
  assumes "\<forall>v. env name = Some v \<longrightarrow> (\<exists>c \<in> set v. \<not> is_space c \<and> c \<noteq> CHR '';'') \<or> strip v = []"
  shows "envint env name d = Inr (case env name of None \<Rightarrow> d
    | Some v \<Rightarrow> (case split_ws (replace_c (CHR '';'') (CHR '' '') (strip v)) of [] \<Rightarrow> d
                | tok # _ \<Rightarrow> (case parse_auto tok of Some i \<Rightarrow> i | None \<Rightarrow> d)))"
proof (cases "env name")
  case None
  then show ?thesis by (simp add: envint_def)
next
  case (Some v)
  show ?thesis
  proof (cases "strip v = []")
    case True
    then show ?thesis using Some by (simp add: envint_def replace_c_def split_ws_def)
  next
    case False
    then obtain c where c: "c \<in> set v" "\<not> is_space c" "c \<noteq> CHR '';''"
      using assms Some by blast
    from c(1,2) have "c \<in> set (strip v)"
      by (rule in_set_strip)
    then have "c \<in> set (replace_c (CHR '';'') (CHR '' '') (strip v))"
      using c(3) by (force simp: replace_c_def)
    then have "split_ws (replace_c (CHR '';'') (CHR '' '') (strip v)) \<noteq> []"
      using c(2) unfolding split_ws_def by (intro words_from_nonempty) blast
    with Some False show ?thesis
      by (auto simp: envint_def split: list.splits option.splits)
  qed
qed

lemma envint_total_witness: "envint (\<lambda>_. Some ''0x1F; PN_X=1'') ''PN_WATCHDOG'' 3 = Inr 31"
  using envint_total [of "\<lambda>_. Some ''0x1F; PN_X=1''" "''PN_WATCHDOG''" 3]
  by (simp add: is_space_def ord_c_def strip_def replace_c_def split_ws_def parse_auto_def signed_val_def
      auto_val_def after_prefix_def literal_val_def hex_digit_def Let_def)

end
