(* ===== verification/Pn_Patch.thy ===== *)
theory Pn_Patch
  imports Pn_Layout
begin

text \<open>
  What \<open>profinet_gateway_py/profinet_ctrl.py\<close> changes in the \<open>profinet\<close>
  package at run time, and how it reads a refusal: the AR start-up mode, one block per
  module in the expected sub-modules, 802.1Q tags on cyclic and alarm frames, the order of
  the AlarmCR block, the capture of RPC messages and the decoding of a reject.  The
  functions of the package that a patch wraps are arguments.
\<close>

section \<open>Names and tables\<close>

definition NCA_REJECT :: "(int \<times> string) list" where
  "NCA_REJECT = [
     (0x1C010001, ''nca_s_comm_failure''),
     (0x1C010002, ''nca_s_op_rng_error (unknown operation number)''),
     (0x1C010003, ''nca_s_unk_if (unknown interface UUID)''),
     (0x1C010006, ''nca_s_wrong_boot_time''),
     (0x1C010009, ''nca_s_you_crashed''),
     (0x1C01000B, ''nca_s_proto_error''),
     (0x1C01000C, ''nca_s_who_are_you_failed''),
     (0x1C010013, ''nca_s_out_args_too_big''),
     (0x1C010014, ''nca_s_server_too_busy''),
     (0x1C010015, ''nca_s_manager_not_entered''),
     (0x1C01001B, ''nca_s_wrong_kind_of_bindings'')]"

definition PNIO_BLOCK :: "(int \<times> string) list" where
  "PNIO_BLOCK = [(0x01, ''ARBlockReq''), (0x02, ''IOCRBlockReq''), (0x03, ''AlarmCRBlockReq''),
     (0x04, ''ExpectedSubmoduleBlockReq''), (0x05, ''PrmServerBlockReq''), (0x06, ''MCRBlockReq'')]"

definition PNIO_ERRCODE :: "(int \<times> string) list" where
  "PNIO_ERRCODE = [(0xDB, ''IODConnectRes''), (0xDA, ''IODReleaseRes''), (0xDE, ''IODWriteRes''),
     (0xDF, ''IODReadRes''), (0xCF, ''RTA error'')]"

definition IOCR_FIELDS :: "(int \<times> string) list" where
  "IOCR_FIELDS = [(1, ''BlockType''), (2, ''BlockLength''), (3, ''BlockVersion''), (4, ''IOCRType''),
     (5, ''IOCRReference''), (6, ''LT''), (7, ''IOCRProperties (RTClass)''), (8, ''DataLength''),
     (9, ''FrameID''), (10, ''SendClockFactor''), (11, ''ReductionRatio''), (12, ''Phase''),
     (13, ''Sequence''), (14, ''FrameSendOffset''), (15, ''WatchdogFactor''), (16, ''DataHoldFactor''),
     (17, ''IOCRTagHeader''), (18, ''NumberOfAPIs'')]"

section \<open>The state of the patches\<close>

text \<open>The module globals and class attributes that the patches set; \<open>lp_ethertype\<close>
  are the bytes that the package writes where the ethertype of a frame belongs.\<close>

record lib_patch =
  lp_ar_startup :: bool
  lp_iocr :: "iocr_patch option"
  lp_exp_api :: "int option"
  lp_vlan_rx :: bool
  lp_ethertype :: bytes
  lp_iocs0 :: bool
  lp_alarm_vlan :: bool
  lp_alarm_ethertype :: bytes

definition ETHERTYPE_PN :: bytes where "ETHERTYPE_PN = [0x88, 0x92]"

definition unpatched :: lib_patch where
  "unpatched = \<lparr>lp_ar_startup = False, lp_iocr = None, lp_exp_api = None, lp_vlan_rx = False,
     lp_ethertype = ETHERTYPE_PN, lp_iocs0 = False, lp_alarm_vlan = False, lp_alarm_ethertype = ETHERTYPE_PN\<rparr>"

definition patch_ar_startup :: "env \<Rightarrow> lib_patch \<Rightarrow> lib_patch" where
  "patch_ar_startup env lp =
     (if lp_ar_startup lp then lp
      else if lower (case env ''PN_AR_STARTUP'' of None \<Rightarrow> ''advanced'' | Some v \<Rightarrow> v) = ''legacy'' then lp
      else lp\<lparr>lp_ar_startup := True\<rparr>)"

definition patch_iocr :: "env \<Rightarrow> lib_patch \<Rightarrow> lib_patch" where
  "patch_iocr env lp =
     (if lp_iocr lp \<noteq> None then lp
      else (case read_iocr_patch env of Inl e \<Rightarrow> lp | Inr ip \<Rightarrow> lp\<lparr>lp_iocr := Some ip\<rparr>))"

definition patch_expected_submodule :: "env \<Rightarrow> lib_patch \<Rightarrow> lib_patch" where
  "patch_expected_submodule env lp =
     (if lp_exp_api lp \<noteq> None then lp
      else (case envint env ''PN_DRIVE_API'' 0x00003A00 of Inl e \<Rightarrow> lp | Inr a \<Rightarrow> lp\<lparr>lp_exp_api := Some a\<rparr>))"

definition tag_bytes :: "int \<Rightarrow> py_error + bytes" where
  "tag_bytes tci = bindE (pack_H tci) (\<lambda>t. Inr ([0x81, 0x00] @ t @ [0x88, 0x92]))"

definition patch_cyclic_vlan :: "env \<Rightarrow> lib_patch \<Rightarrow> lib_patch" where
  "patch_cyclic_vlan env lp =
     (case bindE (envint env ''PN_CYCLIC_VLAN_TCI'' CYCLIC_VLAN_TCI) (\<lambda>tci.
           bindE (envint env ''PN_CYCLIC_VLAN'' (cp_vlan (cyclic_profile env))) (\<lambda>on.
             if on = 0 then Inr (lp\<lparr>lp_vlan_rx := True\<rparr>)
             else bindE (tag_bytes tci) (\<lambda>t. Inr (lp\<lparr>lp_ethertype := t, lp_vlan_rx := True\<rparr>)))) of
        Inl e \<Rightarrow> lp
      | Inr lp' \<Rightarrow> lp')"

definition patch_cyclic_iocs :: "lib_patch \<Rightarrow> lib_patch" where
  "patch_cyclic_iocs lp = (if lp_iocs0 lp then lp else lp\<lparr>lp_iocs0 := True\<rparr>)"

definition patch_alarm_listener_vlan :: "int \<Rightarrow> lib_patch \<Rightarrow> lib_patch" where
  "patch_alarm_listener_vlan tci lp =
     (if lp_alarm_vlan lp then lp
      else (case tag_bytes tci of Inl e \<Rightarrow> lp | Inr t \<Rightarrow> lp\<lparr>lp_alarm_ethertype := t, lp_alarm_vlan := True\<rparr>))"

definition patch_all :: "env \<Rightarrow> lib_patch \<Rightarrow> lib_patch" where
  "patch_all env lp =
     patch_cyclic_iocs (patch_cyclic_vlan env (patch_expected_submodule env (patch_iocr env (patch_ar_startup env lp))))"

section \<open>AR start-up\<close>

datatype ar_arg = A_int int | A_other

text \<open>The wrapper of the AR block request: positional arguments, and the keyword
  \<open>ar_properties\<close> when it is given.\<close>

definition ar_wrapped :: "ar_arg list \<times> int option \<Rightarrow> ar_arg list \<times> int option" where
  "ar_wrapped ak =
     (case ak of (a, k) \<Rightarrow>
       (let (a1, k1) =
              (if length a > 6 \<and> a ! 6 \<noteq> A_other
               then (a[6 := (case a ! 6 of A_int v \<Rightarrow> A_int (v OR 0x40000000) | A_other \<Rightarrow> A_other)], k)
               else (a, map_option (\<lambda>v. v OR 0x40000000) k));
            a2 = (if length a1 > 7 \<and> a1 ! 7 \<noteq> A_other then a1[7 := A_int 0xC8] else a1)
        in (a2, k1)))"

section \<open>Expected sub-modules\<close>

definition submodule_api :: "int \<Rightarrow> int \<Rightarrow> int \<Rightarrow> int" where
  "submodule_api drive_api slot api = (if slot \<noteq> 0 then drive_api else api)"

text \<open>\<open>to_bytes\<close> of the block object: one block per entry; the entries are put back
  whether or not a block raises.\<close>

fun blocks_each :: "('m list \<Rightarrow> py_error + bytes) \<Rightarrow> 'm list \<Rightarrow> py_error + bytes" where
  "blocks_each orig [] = Inr []"
| "blocks_each orig (e # es) = bindE (orig [e]) (\<lambda>a. bindE (blocks_each orig es) (\<lambda>b. Inr (a @ b)))"

definition patched_to_bytes :: "('m list \<Rightarrow> py_error + bytes) \<Rightarrow> 'm list \<Rightarrow> (py_error + bytes) \<times> 'm list" where
  "patched_to_bytes orig apis =
     (if length apis \<le> 1 then (orig apis, apis) else (blocks_each orig apis, apis))"

section \<open>802.1Q tags\<close>

definition rx_untag :: "bytes \<Rightarrow> bytes" where
  "rx_untag data =
     (if length data \<ge> 18 \<and> data ! 12 = 0x81 \<and> data ! 13 = 0x00 then take 12 data @ drop 16 data else data)"

text \<open>The alarm frame handler.  The header parser and the constants of the package are
  parameters; the result is the alarm that is processed: priority, data, source.\<close>

record alarm_lib =
  al_parse :: "bytes \<Rightarrow> py_error + (int \<times> bytes \<times> int)"
  al_ethertype :: int
  al_high :: int
  al_low :: int

definition l2_untag :: "alarm_lib \<Rightarrow> bytes \<Rightarrow> bytes \<Rightarrow> py_error + (bool \<times> bytes \<times> bytes) option" where
  "l2_untag al device_mac raw =
     (let data = rx_untag raw in
      if length data < 16 then Inr None
      else bindE (al_parse al (take 16 data)) (\<lambda>(ethertype, src, fid).
        if ethertype \<noteq> al_ethertype al then Inr None
        else if src \<noteq> device_mac then Inr None
        else if fid = al_high al then Inr (Some (True, drop 16 data, src))
        else if fid = al_low al then Inr (Some (False, drop 16 data, src))
        else Inr None))"

section \<open>The AlarmCR block\<close>

record alarm_cr =
  ac_maxdata :: int
  ac_rtatf :: int
  ac_rtar :: int
  ac_ref :: int
  ac_transport :: int
  ac_priority :: int

definition read_alarm_cr :: "env \<Rightarrow> py_error + alarm_cr" where
  "read_alarm_cr env =
     bindE (envint env ''PN_ALARM_PROPS'' ALARM_CR_PROPERTIES) (\<lambda>props.
     bindE (envint env ''PN_ALARM_MAXDATA'' 200) (\<lambda>maxdata.
     bindE (envint env ''PN_ALARM_RTATF'' 1) (\<lambda>rtatf.
     bindE (envint env ''PN_ALARM_RTAR'' 3) (\<lambda>rtar.
     bindE (envint env ''PN_ALARM_REF'' 0) (\<lambda>alarm_ref.
       Inr \<lparr>ac_maxdata = maxdata, ac_rtatf = rtatf, ac_rtar = rtar, ac_ref = alarm_ref,
            ac_transport = drop_bit 1 props AND 1, ac_priority = props AND 1\<rparr>)))))"

text \<open>The builder of the AlarmCR keeps its block and returns nothing; the builder of the
  expected sub-modules appends what was kept.\<close>

definition deferred_alarm ::
  "(int \<Rightarrow> int \<Rightarrow> py_error + bytes) \<Rightarrow> alarm_cr \<Rightarrow> bytes option \<Rightarrow> (py_error + bytes) \<times> bytes option" where
  "deferred_alarm orig_alarm ac kept =
     (case orig_alarm (ac_transport ac) (ac_priority ac) of
        Inl e \<Rightarrow> (Inl e, kept)
      | Inr b \<Rightarrow> (Inr [], Some b))"

definition exp_then_alarm :: "('s \<Rightarrow> py_error + bytes) \<Rightarrow> bytes option \<Rightarrow> 's \<Rightarrow> py_error + bytes" where
  "exp_then_alarm orig_exp kept setup =
     bindE (orig_exp setup) (\<lambda>data. Inr (data @ (case kept of None \<Rightarrow> [] | Some b \<Rightarrow> b)))"

section \<open>Capturing RPC messages\<close>

record logger =
  lg_level :: int
  lg_handlers :: "nat list"

record capture =
  cap_handler :: nat
  cap_old_level :: int
  cap_msgs :: "string list"

definition LOG_DEBUG :: int where "LOG_DEBUG = 10"

definition rpc_capture_begin :: "nat \<Rightarrow> logger \<Rightarrow> capture \<times> logger" where
  "rpc_capture_begin h lg =
     (\<lparr>cap_handler = h, cap_old_level = lg_level lg, cap_msgs = []\<rparr>,
      lg\<lparr>lg_level := LOG_DEBUG, lg_handlers := lg_handlers lg @ [h]\<rparr>)"

definition rpc_capture_end :: "capture \<Rightarrow> logger \<Rightarrow> logger" where
  "rpc_capture_end cap lg =
     lg\<lparr>lg_handlers := removeAll (cap_handler cap) (lg_handlers lg), lg_level := cap_old_level cap\<rparr>"

fun last_with :: "string \<Rightarrow> string list \<Rightarrow> string option \<Rightarrow> string option" where
  "last_with p [] acc = acc"
| "last_with p (m # ms) acc = last_with p ms (if starts_with m p then Some m else acc)"

fun drop_dots :: "string \<Rightarrow> string" where
  "drop_dots (a # b # c # s) =
     (if a = CHR ''.'' \<and> b = CHR ''.'' \<and> c = CHR ''.'' then drop_dots s else a # drop_dots (b # c # s))"
| "drop_dots s = s"

section \<open>Reading a refusal\<close>

datatype rj_event =
    Refused string int string int string
  | RtClassHint
  | StatusBytes int bytes
  | RejectStatus int "string option"
  | UnkIfHint
  | RequestBytes string
  | DeviceBytes string
  | NoResponse

text \<open>\<open>bytes.fromhex\<close>: pairs of digits, white space between the pairs.\<close>

definition hex_gap :: "char \<Rightarrow> bool" where
  "hex_gap c \<longleftrightarrow> ord_c c = 32 \<or> (9 \<le> ord_c c \<and> ord_c c \<le> 13)"

fun from_hex :: "string \<Rightarrow> bytes option" where
  "from_hex [] = Some []"
| "from_hex [c] = (if hex_gap c then Some [] else None)"
| "from_hex (c # d # s) =
     (if hex_gap c then from_hex (d # s)
      else (case hex_digit c of None \<Rightarrow> None
            | Some x \<Rightarrow> (case hex_digit d of None \<Rightarrow> None
                        | Some y \<Rightarrow> map_option ((#) (word_of_nat (16 * x + y))) (from_hex s))))"

definition hex2 :: "int \<Rightarrow> string" where
  "hex2 v = ''0x'' @ hex_fmt 2 (nat v)"

definition reject_code :: "bytes \<Rightarrow> int" where
  "reject_code b =
     (let le = val32 (b ! 83) (b ! 82) (b ! 81) (b ! 80); be = val32 (b ! 80) (b ! 81) (b ! 82) (b ! 83)
      in if map_of NCA_REJECT le \<noteq> None then le else if map_of NCA_REJECT be \<noteq> None then be else le)"

definition decode_reject :: "string \<Rightarrow> rj_event list" where
  "decode_reject hexpart =
     (case from_hex (filter (\<lambda>c. c \<noteq> CHR '' '') hexpart) of
        None \<Rightarrow> []
      | Some b \<Rightarrow>
          if length b < 2 then []
          else
            (let ptype = uint (b ! 1);
                 ec2 = uint (b ! 80); ec1 = uint (b ! 81); ed = uint (b ! 82); ec = uint (b ! 83)
             in if ptype = 2 \<and> length b \<ge> 84 \<and> ed \<in> {0x80, 0x81} \<and> map_of PNIO_ERRCODE ec \<noteq> None then
                  (let blk = (case map_of PNIO_BLOCK ec1 of Some s \<Rightarrow> s | None \<Rightarrow> hex2 ec1);
                       fld = (case (if ec1 = 2 then map_of IOCR_FIELDS ec2 else None) of
                                Some s \<Rightarrow> s | None \<Rightarrow> ''field '' @ dec_digits (nat ec2))
                   in Refused (the (map_of PNIO_ERRCODE ec)) ec1 blk ec2 fld
                      # (if ec1 = 2 \<and> ec2 = 7 then [RtClassHint] else []))
                else if ptype \<noteq> 6 then
                  (if length b \<ge> 84 then [StatusBytes ptype (take 4 (drop 80 b))] else [])
                else if length b \<ge> 84 then
                  RejectStatus (reject_code b) (map_of NCA_REJECT (reject_code b))
                  # (if reject_code b = 0x1C010003 then [UnkIfHint] else [])
                else []))"

definition rpc_capture_report :: "capture \<Rightarrow> rj_event list" where
  "rpc_capture_report cap =
     (let req = last_with ''RPC request ('' (cap_msgs cap) None;
          resp = last_with ''RPC response raw'' (cap_msgs cap) None
      in (case req of None \<Rightarrow> [] | Some m \<Rightarrow> [RequestBytes (strip (split1_last '': '' m))]) @
         (case resp of None \<Rightarrow> [NoResponse]
          | Some m \<Rightarrow> (let hexpart = strip (drop_dots (split1_last '': '' m))
                      in DeviceBytes hexpart # decode_reject hexpart)))"

section \<open>Lemmas\<close>

lemma patch_idem [simp]:
  "patch_ar_startup env (patch_ar_startup env lp) = patch_ar_startup env lp"
  "patch_iocr env (patch_iocr env lp) = patch_iocr env lp"
  "patch_expected_submodule env (patch_expected_submodule env lp) = patch_expected_submodule env lp"
  "patch_cyclic_iocs (patch_cyclic_iocs lp) = patch_cyclic_iocs lp"
  "patch_alarm_listener_vlan tci (patch_alarm_listener_vlan tci lp) = patch_alarm_listener_vlan tci lp"
  by (auto simp: patch_ar_startup_def patch_iocr_def patch_expected_submodule_def patch_cyclic_iocs_def
      patch_alarm_listener_vlan_def split: sum.splits)

lemma hex_char_space [simp]:
  assumes "n < 16"
  shows "hex_char n \<noteq> CHR '' ''" and "\<not> hex_gap (hex_char n)"
proof -
  have "ord_c (CHR '' '') = 32"
    by (simp add: ord_c_def)
  moreover have "ord_c (hex_char n) \<noteq> 32" "13 < ord_c (hex_char n)"
    using assms by (auto simp: ord_c_hex_char)
  ultimately have n: "ord_c (CHR '' '') = 32" "ord_c (hex_char n) \<noteq> 32" "13 < ord_c (hex_char n)"
    by auto
  then show "hex_char n \<noteq> CHR '' ''"
    by metis
  show "\<not> hex_gap (hex_char n)"
    using n by (simp add: hex_gap_def)
qed

lemma byte_div16 [simp]: "unat (b :: byte) div 16 < 16"
  using unat_byte [of b] by linarith

lemma from_hex_bytes [simp]: "from_hex (concat (map hex_byte b)) = Some b"
proof (induction b)
  case Nil
  then show ?case by simp
next
  case (Cons x b)
  have "(word_of_nat (16 * (unat x div 16) + unat x mod 16) :: byte) = x"
    by simp
  with Cons show ?case
    by (simp add: hex_byte_def)
qed

lemma filter_hex_bytes [simp]: "filter (\<lambda>c. c \<noteq> CHR '' '') (concat (map hex_byte b)) = concat (map hex_byte b)"
  by (induction b) (simp_all add: hex_byte_def)

lemma rx_untag_tagged:
  assumes "length dst = 6" and "length src = 6"
  shows "rx_untag (dst @ src @ [0x81, 0x00, a, b] @ rest) =
    (if length rest < 2 then dst @ src @ [0x81, 0x00, a, b] @ rest else dst @ src @ rest)"
  using assms by (auto simp: rx_untag_def nth_append)

lemma rx_untag_plain:
  assumes "length dst = 6" and "length src = 6"
  shows "rx_untag (dst @ src @ [0x88, 0x92] @ rest) = dst @ src @ [0x88, 0x92] @ rest"
  using assms by (simp add: rx_untag_def nth_append)

text \<open>No status is known in both byte orders: the low octet of a known one is never the high
  octet of another.\<close>

lemma reject_known:
  "map_of NCA_REJECT v = Some s \<Longrightarrow> v div 0x1000000 = 0x1C \<and> v mod 0x100 \<noteq> 0x1C"
  by (auto simp: NCA_REJECT_def split: if_splits)

lemma val32_ends: "val32 p q r s div 0x1000000 = uint p" "val32 p q r s mod 0x100 = uint s"
proof -
  have b: "0 \<le> uint x" "uint x < 256" for x :: byte
    using uint_lt2p [of x] by simp_all
  have "uint q * 65536 + uint r * 256 + uint s < 0x1000000"
    using b [of q] b [of r] b [of s] by linarith
  then show "val32 p q r s div 0x1000000 = uint p"
    by (intro int_div_pos_eq [where r = "uint q * 65536 + uint r * 256 + uint s"])
      (simp_all add: val32_def val16_def)
  show "val32 p q r s mod 0x100 = uint s"
    by (rule int_mod_pos_eq [where q = "uint p * 65536 + uint q * 256 + uint r"])
      (use b [of s] in \<open>simp_all add: val32_def val16_def\<close>)
qed

lemma reject_one_order: "map_of NCA_REJECT (val32 p q r s) = None \<or> map_of NCA_REJECT (val32 s r q p) = None"
  using reject_known [of "val32 p q r s"] reject_known [of "val32 s r q p"] val32_ends [of p q r s] val32_ends [of s r q p]
  by fastforce

section \<open>Properties\<close>

lemma tag_bytes_Inr: "tag_bytes tci = Inr t \<Longrightarrow> \<exists>a b. t = [0x81, 0x00, a, b, 0x88, 0x92]"
  by (auto simp: tag_bytes_def bindE_Inr pack_H_def be16_def split: if_splits)

definition ethertype_ok :: "bytes \<Rightarrow> bool" where
  "ethertype_ok t \<longleftrightarrow> t = ETHERTYPE_PN \<or> (\<exists>a b. t = [0x81, 0x00, a, b, 0x88, 0x92])"

lemma patch_all_ethertype: "ethertype_ok (lp_ethertype lp) \<Longrightarrow> ethertype_ok (lp_ethertype (patch_all env lp))"
proof -
  assume ok: "ethertype_ok (lp_ethertype lp)"
  have "ethertype_ok (lp_ethertype (patch_cyclic_vlan env lp1))" if "ethertype_ok (lp_ethertype lp1)" for lp1
    using that by (auto simp: patch_cyclic_vlan_def bindE_Inr ethertype_ok_def dest!: tag_bytes_Inr split: sum.splits if_splits)
  then show ?thesis
    using ok by (simp add: patch_all_def patch_cyclic_iocs_def patch_expected_submodule_def patch_iocr_def
        patch_ar_startup_def split: sum.splits)
qed

text \<open>Whatever the environment asks for, a frame sent with the ethertype bytes the patches
  install is read back by the patched receive path as the plain PROFINET frame, tag removed and
  payload intact; an untagged frame is left alone.\<close>

theorem cyclic_vlan_transparent:
  assumes "length dst = 6" and "length src = 6" and "lp = patch_all env unpatched"
  shows "rx_untag (dst @ src @ lp_ethertype lp @ payload) = dst @ src @ ETHERTYPE_PN @ payload
    \<and> rx_untag (dst @ src @ ETHERTYPE_PN @ payload) = dst @ src @ ETHERTYPE_PN @ payload"
proof -
  have "ethertype_ok (lp_ethertype lp)"
    unfolding assms(3) by (rule patch_all_ethertype) (simp add: ethertype_ok_def unpatched_def)
  then show ?thesis
    using rx_untag_tagged [OF assms(1,2), of _ _ "[0x88, 0x92] @ payload"] rx_untag_plain [OF assms(1,2), of payload]
    by (auto simp: ethertype_ok_def ETHERTYPE_PN_def)
qed

lemma cyclic_vlan_transparent_witness:
  "rx_untag ([1, 2, 3, 4, 5, 6] @ [7, 8, 9, 10, 11, 12] @ lp_ethertype (patch_all (\<lambda>_. None) unpatched) @ [0x80, 0x00])
   = [1, 2, 3, 4, 5, 6] @ [7, 8, 9, 10, 11, 12] @ [0x88, 0x92, 0x80, 0x00]"
  using cyclic_vlan_transparent [of "[1, 2, 3, 4, 5, 6]" "[7, 8, 9, 10, 11, 12]" _ "\<lambda>_. None" "[0x80, 0x00]"]
  by (simp add: ETHERTYPE_PN_def)

text \<open>The expected sub-modules are sent as one block per module, in order, each what the
  package builds for that module alone, with the object's entries as they were afterwards even
  when a block raises; and the AlarmCR block comes after all of them, whatever builders the
  package has.\<close>

theorem connect_block_order:
  assumes "\<And>m. orig [m] = Inr (blk m)" and "orig_alarm (ac_transport ac) (ac_priority ac) = Inr alarm"
    and "1 < length apis"
  shows "patched_to_bytes orig apis = (Inr (concat (map blk apis)), apis)
    \<and> deferred_alarm orig_alarm ac kept = (Inr [], Some alarm)
    \<and> exp_then_alarm (\<lambda>_. fst (patched_to_bytes orig apis)) (snd (deferred_alarm orig_alarm ac kept)) setup
        = Inr (concat (map blk apis) @ alarm)"
proof -
  have "blocks_each orig ms = Inr (concat (map blk ms))" for ms
    by (induction ms) (simp_all add: assms(1))
  then have "patched_to_bytes orig apis = (Inr (concat (map blk apis)), apis)"
    using assms(3) by (simp add: patched_to_bytes_def)
  then show ?thesis
    by (simp add: deferred_alarm_def exp_then_alarm_def assms(2))
qed

lemma connect_block_order_witness:
  "patched_to_bytes (\<lambda>ms. Inr (concat (map (\<lambda>m. [m, m]) ms))) [1, 2] = (Inr [1, 1, 2, 2], [1, 2])"
  using connect_block_order [of "\<lambda>ms. Inr (concat (map (\<lambda>m. [m, m]) ms))" "\<lambda>m. [m, m]" "\<lambda>_ _. Inr []" 
      "\<lparr>ac_maxdata = 200, ac_rtatf = 1, ac_rtar = 3, ac_ref = 0, ac_transport = 0, ac_priority = 0\<rparr>" "[]" "[1, 2]" None "()"]
  by simp

text \<open>C14: A refusal that carries a PNIO status of the Connect family is always decoded: the
  error class, the block and, for an IOCR block, the field it names, each by name when it is
  known and by number otherwise.  A connectionless reject is decoded to the status in the byte
  order in which it is a known one, with its name; a status that is known in neither order is
  reported in little-endian order without a name; and the unknown interface, and only it, gets
  the hint.\<close>

theorem refusal_decoded:
  assumes "84 \<le> length b"
  defines "le \<equiv> val32 (b ! 83) (b ! 82) (b ! 81) (b ! 80)" and "be \<equiv> val32 (b ! 80) (b ! 81) (b ! 82) (b ! 83)"
  shows "(uint (b ! 1) = 2 \<and> uint (b ! 82) \<in> {0x80, 0x81} \<and> map_of PNIO_ERRCODE (uint (b ! 83)) = Some cls
      \<longrightarrow> (\<exists>blk fld more_events. decode_reject (concat (map hex_byte b)) =
             Refused cls (uint (b ! 81)) blk (uint (b ! 80)) fld # more_events
           \<and> blk = (case map_of PNIO_BLOCK (uint (b ! 81)) of Some s \<Rightarrow> s | None \<Rightarrow> hex2 (uint (b ! 81)))
           \<and> (\<forall>s. uint (b ! 81) = 2 \<and> map_of IOCR_FIELDS (uint (b ! 80)) = Some s \<longrightarrow> fld = s)
           \<and> (uint (b ! 81) \<noteq> 2 \<or> map_of IOCR_FIELDS (uint (b ! 80)) = None \<longrightarrow>
                fld = ''field '' @ dec_digits (unat (b ! 80)))))
    \<and> (uint (b ! 1) = 6 \<longrightarrow> (\<exists>code name more_events. decode_reject (concat (map hex_byte b)) =
             RejectStatus code name # more_events
           \<and> (\<forall>s. map_of NCA_REJECT le = Some s \<longrightarrow> code = le \<and> name = Some s)
           \<and> (\<forall>s. map_of NCA_REJECT be = Some s \<longrightarrow> code = be \<and> name = Some s)
           \<and> (map_of NCA_REJECT le = None \<and> map_of NCA_REJECT be = None \<longrightarrow> code = le \<and> name = None)
           \<and> more_events = (if code = 0x1C010003 then [UnkIfHint] else [])))"
proof -
  have one: "map_of NCA_REJECT le = None \<or> map_of NCA_REJECT be = None"
    unfolding le_def be_def by (rule reject_one_order)
  have code: "reject_code b = (if map_of NCA_REJECT le \<noteq> None then le
      else if map_of NCA_REJECT be \<noteq> None then be else le)"
    by (simp add: reject_code_def le_def be_def)
  have "uint (b ! 1) = 6 \<Longrightarrow> decode_reject (concat (map hex_byte b)) =
      RejectStatus (reject_code b) (map_of NCA_REJECT (reject_code b))
      # (if reject_code b = 0x1C010003 then [UnkIfHint] else [])"
    using assms(1) by (simp add: decode_reject_def Let_def)
  then show ?thesis
    using assms(1) one unfolding code
    by (auto simp: decode_reject_def Let_def nat_uint_eq split: option.splits)
qed

lemma refusal_decoded_witness:
  "(\<exists>evs. decode_reject (concat (map hex_byte ([4, 2] @ zeros 78 @ [7, 2, 0x81, 0xDB]))) =
     Refused ''IODConnectRes'' 2 ''IOCRBlockReq'' 7 ''IOCRProperties (RTClass)'' # evs)
   \<and> decode_reject (concat (map hex_byte ([4, 6] @ zeros 78 @ [3, 0, 1, 0x1C]))) =
     [RejectStatus 0x1C010003 (Some ''nca_s_unk_if (unknown interface UUID)''), UnkIfHint]"
proof -
  let ?b = "[4, 2] @ zeros 78 @ [7, 2, 0x81, 0xDB] :: bytes"
  have n: "?b ! 1 = 2" "?b ! 80 = 7" "?b ! 81 = 2" "?b ! 82 = 0x81" "?b ! 83 = 0xDB"
    by (simp_all add: nth_append)
  have fl: "84 \<le> length ?b" "uint (?b ! 1) = 2 \<and> uint (?b ! 82) \<in> {0x80, 0x81}
      \<and> map_of PNIO_ERRCODE (uint (?b ! 83)) = Some ''IODConnectRes''"
    unfolding n by (simp_all add: PNIO_ERRCODE_def)
  from refusal_decoded [OF fl(1), THEN conjunct1, THEN mp, OF fl(2)]
  have "\<exists>evs. decode_reject (concat (map hex_byte ?b)) =
     Refused ''IODConnectRes'' 2 ''IOCRBlockReq'' 7 ''IOCRProperties (RTClass)'' # evs"
    unfolding n by (auto simp: PNIO_BLOCK_def IOCR_FIELDS_def)
  moreover
  let ?c = "[4, 6] @ zeros 78 @ [3, 0, 1, 0x1C] :: bytes"
  have m: "?c ! 1 = 6" "?c ! 80 = 3" "?c ! 81 = 0" "?c ! 82 = 1" "?c ! 83 = 0x1C"
    by (simp_all add: nth_append)
  have "84 \<le> length ?c" by simp
  from refusal_decoded [OF this]
  have "decode_reject (concat (map hex_byte ?c)) =
     [RejectStatus 0x1C010003 (Some ''nca_s_unk_if (unknown interface UUID)''), UnkIfHint]"
    unfolding m by (auto simp: val32_def val16_def NCA_REJECT_def)
  ultimately show ?thesis by simp
qed

text \<open>A patched alarm listener treats a tagged alarm frame exactly as the same frame without
  its tag, and the RPC capture leaves the logger as it found it.\<close>

theorem alarm_tag_transparent:
  assumes "length dst = 6" and "length src = 6"
  shows "l2_untag al mac (dst @ src @ [0x81, 0x00, a, b] @ ETHERTYPE_PN @ payload) =
      l2_untag al mac (dst @ src @ ETHERTYPE_PN @ payload)
    \<and> (h \<notin> set (lg_handlers lg) \<longrightarrow> rpc_capture_end (fst (rpc_capture_begin h lg)) (snd (rpc_capture_begin h lg)) = lg)"
  using rx_untag_tagged [OF assms, of a b "ETHERTYPE_PN @ payload"] rx_untag_plain [OF assms, of payload]
  by (simp add: l2_untag_def Let_def ETHERTYPE_PN_def rpc_capture_begin_def rpc_capture_end_def)

definition demo_alarm_lib :: alarm_lib where
  "demo_alarm_lib = \<lparr>al_parse = (\<lambda>h. Inr (val16 (h ! 12) (h ! 13), take 6 (drop 6 h), val16 (h ! 14) (h ! 15))),
     al_ethertype = 0x8892, al_high = 0xFC01, al_low = 0xFE01\<rparr>"

lemma alarm_tag_transparent_witness:
  "l2_untag demo_alarm_lib [7, 7, 7, 7, 7, 7]
     ([1, 1, 1, 1, 1, 1] @ [7, 7, 7, 7, 7, 7] @ [0x81, 0x00, 0xC0, 0] @ ETHERTYPE_PN @ [0xFC, 1, 5])
   = Inr (Some (True, [5], [7, 7, 7, 7, 7, 7]))"
  using alarm_tag_transparent [of "[1, 1, 1, 1, 1, 1]" "[7, 7, 7, 7, 7, 7]" demo_alarm_lib "[7, 7, 7, 7, 7, 7]" "0xC0" 0 "[0xFC, 1, 5]"]
  by (simp add: demo_alarm_lib_def l2_untag_def rx_untag_def ETHERTYPE_PN_def val16_def Let_def)

end
