(* ===== verification/Pn_Slots.thy ===== *)
theory Pn_Slots
  imports Pn_Ctrl Pn_Layout
begin

text \<open>
  The expected sub-modules of a Connect request
  (\<open>_build_expected_slots\<close> and \<open>_dap_head_slots\<close> of
  \<open>profinet_gateway_py/profinet_ctrl.py\<close>): the topology from the device's GSDML
  file, and the fallback when the file cannot drive it.  The GSDML reader of the
  \<open>profinet\<close> package is a parameter.
\<close>

section \<open>The package's view of a GSDML file\<close>

record gsd_module =
  gm_ident :: int
  gm_allowed :: "(string \<times> int list) list option"

record gsd_device =
  gd_daps :: "string list"
  gd_modules :: "(string \<times> gsd_module) list"
  gd_submodules :: "(string \<times> int) list"
  gd_build_io_slots :: "(int \<times> string) list \<Rightarrow> (int \<times> (int \<times> string) list) list \<Rightarrow> string option \<Rightarrow> py_error + io_slot list"

record gsd_lib =
  gl_exists :: "string \<Rightarrow> bool"
  gl_load :: "string \<Rightarrow> py_error + gsd_device"

section \<open>Building the slots\<close>

definition pick_dap :: "gsd_device \<Rightarrow> string \<Rightarrow> string option" where
  "pick_dap gd dap = (if dap = [] then None else if dap \<in> set (gd_daps gd) then Some dap else None)"

text \<open>A later entry with the same ident wins.\<close>

definition id_by_ident :: "(string \<times> int) list \<Rightarrow> int \<Rightarrow> string option" where
  "id_by_ident xs ident = map_of (rev (map (\<lambda>(i, n). (n, i)) xs)) ident"

definition sub_assignment :: "env \<Rightarrow> gsd_device \<Rightarrow> string \<Rightarrow> string \<Rightarrow> py_error + (int \<times> string) list" where
  "sub_assignment env gd mid tel =
     bindE (envint env ''PN_INCLUDE_EMPTY'' INCLUDE_EMPTY_SUBMOD) (\<lambda>on.
       if on \<noteq> 0 then
         (let allowed = (case map_of (gd_modules gd) mid of None \<Rightarrow> []
                         | Some m \<Rightarrow> (case gm_allowed m of None \<Rightarrow> [] | Some a \<Rightarrow> a))
          in case map_of allowed ''IDS_EMPTY'' of
               Some subs \<Rightarrow> if 2 \<in> set subs then Inr [(3, tel), (2, ''IDS_EMPTY'')] else Inr [(3, tel)]
             | None \<Rightarrow> Inr [(3, tel)])
       else Inr [(3, tel)])"

type_synonym assignment = "(int \<times> string) list \<times> (int \<times> (int \<times> string) list) list \<times> rack_slot list"

fun assign_slots :: "env \<Rightarrow> gsd_device \<Rightarrow> int \<Rightarrow> drive_object list \<Rightarrow> py_error + assignment" where
  "assign_slots env gd slot [] = Inr ([], [], [])"
| "assign_slots env gd slot (d # ds) =
     bindE (envint env ''PN_DRIVE_MODULE'' DRIVE_MODULE_IDENT) (\<lambda>m_ident.
     bindE (envint env ''PN_DRIVE_TELEGRAM'' DRIVE_TELEGRAM_IDENT) (\<lambda>t_ident.
       (case id_by_ident (map (\<lambda>(i, m). (i, gm_ident m)) (gd_modules gd)) m_ident of
          None \<Rightarrow> Inl (RuntimeError ''module/telegram not found in GSDML'')
        | Some mid \<Rightarrow>
           (case id_by_ident (gd_submodules gd) t_ident of
              None \<Rightarrow> Inl (RuntimeError ''module/telegram not found in GSDML'')
            | Some tel \<Rightarrow>
               bindE (sub_assignment env gd mid tel) (\<lambda>sa.
               bindE (assign_slots env gd (slot + 1) ds) (\<lambda>(sl, su, dm).
                 Inr ((slot, mid) # sl, (slot, sa) # su,
                      (slot, 3, do_output_length d, do_input_length d) # dm)))))))"

definition slots_from_gsdml :: "env \<Rightarrow> gsd_lib \<Rightarrow> device_config \<Rightarrow> py_error + (io_slot list \<times> rack_slot list)" where
  "slots_from_gsdml env lib dc =
     (if dc_gsdml_path dc = [] \<or> \<not> gl_exists lib (dc_gsdml_path dc)
      then Inl (RuntimeError ''no GSDML file on record'')
      else
        bindE (gl_load lib (dc_gsdml_path dc)) (\<lambda>gd.
        bindE (assign_slots env gd 1 (effective_drive_objects dc)) (\<lambda>(sl, su, dm).
        bindE (gd_build_io_slots gd sl su (pick_dap gd (dc_dap_id dc))) (\<lambda>slots. Inr (slots, dm)))))"

definition dap_head_slots :: "gsd_lib \<Rightarrow> device_config \<Rightarrow> io_slot list" where
  "dap_head_slots lib dc =
     (if dc_gsdml_path dc = [] \<or> \<not> gl_exists lib (dc_gsdml_path dc) then []
      else
        (case bindE (gl_load lib (dc_gsdml_path dc)) (\<lambda>gd.
                bindE (gd_build_io_slots gd [] [] (pick_dap gd (dc_dap_id dc))) (\<lambda>slots.
                  Inr (filter (\<lambda>s. is_slot s = 0) slots))) of
           Inl e \<Rightarrow> [] | Inr ss \<Rightarrow> ss))"

definition do_slot_of :: "drive_object \<Rightarrow> io_slot" where
  "do_slot_of d = \<lparr>is_slot = do_slot d, is_subslot = do_subslot d, is_input_length = do_input_length d,
     is_output_length = do_output_length d, is_module_ident = do_module_ident d,
     is_submodule_ident = do_submodule_ident d\<rparr>"

definition build_expected_slots :: "env \<Rightarrow> gsd_lib \<Rightarrow> device_config \<Rightarrow> io_slot list \<times> rack_slot list" where
  "build_expected_slots env lib dc =
     (case slots_from_gsdml env lib dc of
        Inr r \<Rightarrow> r
      | Inl e \<Rightarrow>
         (dap_head_slots lib dc @ map do_slot_of (effective_drive_objects dc),
          map (\<lambda>d. (do_slot d, do_subslot d, do_output_length d, do_input_length d)) (effective_drive_objects dc)))"

section \<open>The process data map follows the rack\<close>

text \<open>The telegram is always asked for in sub-slot 3.\<close>

definition has_telegram :: "int \<times> (int \<times> string) list \<Rightarrow> bool" where
  "has_telegram p \<longleftrightarrow> 3 \<in> fst ` set (snd p)"

lemma sub_assignment_telegram: "sub_assignment env gd mid tel = Inr sa \<Longrightarrow> has_telegram (slot, sa)"
  by (auto simp: sub_assignment_def has_telegram_def bindE_Inr Let_def split: if_splits option.splits)

lemma assign_slots_map:
  "assign_slots env gd slot ds = Inr (sl, su, dm) \<Longrightarrow>
   dm = map2 (\<lambda>i d. (slot + int i, 3, do_output_length d, do_input_length d)) [0 ..< length ds] ds
   \<and> map fst sl = map fst dm \<and> map fst su = map fst dm \<and> (\<forall>p \<in> set su. has_telegram p)"
proof (induction ds arbitrary: slot sl su dm)
  case Nil
  then show ?case by simp
next
  case (Cons d ds)
  obtain sl' su' dm' mid sa where r: "assign_slots env gd (slot + 1) ds = Inr (sl', su', dm')"
    "sl = (slot, mid) # sl'" "su = (slot, sa) # su'" "has_telegram (slot, sa)" "dm = (slot, 3, do_output_length d, do_input_length d) # dm'"
  proof -
    obtain mi ti where i: "envint env ''PN_DRIVE_MODULE'' DRIVE_MODULE_IDENT = Inr mi"
      "envint env ''PN_DRIVE_TELEGRAM'' DRIVE_TELEGRAM_IDENT = Inr ti"
      using Cons.prems by (fastforce simp: bindE_def split: sum.split_asm)
    then show thesis
      using Cons.prems that sub_assignment_telegram [of env gd _ _ _ slot]
      by (cases "id_by_ident (map (\<lambda>(i, m). (i, gm_ident m)) (gd_modules gd)) mi";
          cases "id_by_ident (gd_submodules gd) ti") (auto simp: bindE_Inr)
  qed
  have "map2 (\<lambda>i d. (slot + 1 + int i, 3, do_output_length d, do_input_length d)) [0 ..< length ds] ds
      = map2 (\<lambda>i d. (slot + int i, 3, do_output_length d, do_input_length d)) [Suc 0 ..< Suc (length ds)] ds"
    by (rule nth_equalityI) (simp_all del: upt_Suc)
  with Cons.IH [OF r(1)] show ?case
    by (simp add: r(2-5) upt_conv_Cons del: upt_Suc)
qed

text \<open>The entry of the map for each drive object: by position when the topology comes from the
  description file, by the slots on record in the fallback.\<close>

definition telegram_entry :: "nat \<Rightarrow> drive_object \<Rightarrow> rack_slot" where
  "telegram_entry k d = (int k + 1, 3, do_output_length d, do_input_length d)"

definition recorded_entry :: "drive_object \<Rightarrow> rack_slot" where
  "recorded_entry d = (do_slot d, do_subslot d, do_output_length d, do_input_length d)"

definition slot_entry :: "io_slot \<Rightarrow> rack_slot" where
  "slot_entry s = (is_slot s, is_subslot s, is_output_length s, is_input_length s)"

lemma build_expected_slots_topology:
  assumes "slots_from_gsdml env lib dc = Inr r"
  shows "snd (build_expected_slots env lib dc) =
      map2 telegram_entry [0 ..< length (effective_drive_objects dc)] (effective_drive_objects dc)"
    and "\<exists>gd sl su. gl_load lib (dc_gsdml_path dc) = Inr gd
      \<and> gd_build_io_slots gd sl su (pick_dap gd (dc_dap_id dc)) = Inr (fst (build_expected_slots env lib dc))
      \<and> map fst sl = map fst (snd (build_expected_slots env lib dc))
      \<and> map fst su = map fst (snd (build_expected_slots env lib dc)) \<and> (\<forall>p \<in> set su. has_telegram p)"
proof -
  obtain gd sl su where g: "gl_load lib (dc_gsdml_path dc) = Inr gd"
    "assign_slots env gd 1 (effective_drive_objects dc) = Inr (sl, su, snd r)"
    "gd_build_io_slots gd sl su (pick_dap gd (dc_dap_id dc)) = Inr (fst r)"
    using assms by (auto simp: slots_from_gsdml_def bindE_Inr split: if_splits)
  have b: "build_expected_slots env lib dc = r"
    using assms by (simp add: build_expected_slots_def)
  note m = assign_slots_map [OF g(2)]
  show "snd (build_expected_slots env lib dc) =
      map2 telegram_entry [0 ..< length (effective_drive_objects dc)] (effective_drive_objects dc)"
    unfolding b using m by (simp add: telegram_entry_def add.commute)
  show "\<exists>gd sl su. gl_load lib (dc_gsdml_path dc) = Inr gd
      \<and> gd_build_io_slots gd sl su (pick_dap gd (dc_dap_id dc)) = Inr (fst (build_expected_slots env lib dc))
      \<and> map fst sl = map fst (snd (build_expected_slots env lib dc))
      \<and> map fst su = map fst (snd (build_expected_slots env lib dc)) \<and> (\<forall>p \<in> set su. has_telegram p)"
    unfolding b using g m by blast
qed

lemma build_expected_slots_fallback:
  assumes "slots_from_gsdml env lib dc = Inl e"
  shows "snd (build_expected_slots env lib dc) = map recorded_entry (effective_drive_objects dc)"
    and "map slot_entry (fst (build_expected_slots env lib dc)) =
      map slot_entry (dap_head_slots lib dc) @ map recorded_entry (effective_drive_objects dc)"
  using assms
  by (simp_all add: build_expected_slots_def recorded_entry_def slot_entry_def do_slot_of_def comp_def)

lemma build_expected_slots_map:
  "map (\<lambda>(_, _, o', i). (o', i)) (snd (build_expected_slots env lib dc)) =
   map (\<lambda>d. (do_output_length d, do_input_length d)) (effective_drive_objects dc)"
  by (cases "slots_from_gsdml env lib dc")
    (auto simp: build_expected_slots_fallback build_expected_slots_topology recorded_entry_def
      telegram_entry_def comp_def intro!: nth_equalityI)

lemma sum_list_nat: "\<forall>x \<in> set xs. 0 \<le> f x \<Longrightarrow> int (sum_list (map (\<lambda>x. nat (f x)) xs)) = sum_list (map f xs)"
  by (induction xs) auto

section \<open>Properties\<close>

text \<open>C13: The process data map has one entry per drive object of the rack, in order, with its
  lengths.  With the topology of the description file, the drive objects are numbered 1, 2 and
  so on, and each entry is the sub-slot 3 in which the package was asked to place the telegram
  of that slot; in the fallback each entry has the slot and sub-slot on record, and the slots
  sent end with exactly those entries.  So the map is never empty, and an output image of the
  configured size is cut into chunks that put together are the image itself.\<close>

theorem process_data_map:
  assumes "\<forall>d \<in> set (effective_drive_objects dc). 0 \<le> do_output_length d"
    and "int (length data) = total_output_length dc" and "(slots, dos) = build_expected_slots env lib dc"
  shows "(case slots_from_gsdml env lib dc of
       Inr _ \<Rightarrow> dos = map2 (\<lambda>k d. (int k + 1, 3, do_output_length d, do_input_length d))
                          [0 ..< length (effective_drive_objects dc)] (effective_drive_objects dc)
         \<and> (\<exists>gd sl su. gl_load lib (dc_gsdml_path dc) = Inr gd
             \<and> gd_build_io_slots gd sl su (pick_dap gd (dc_dap_id dc)) = Inr slots
             \<and> map fst sl = map fst dos \<and> map fst su = map fst dos \<and> (\<forall>(_, sa) \<in> set su. 3 \<in> fst ` set sa))
     | Inl _ \<Rightarrow> dos = map (\<lambda>d. (do_slot d, do_subslot d, do_output_length d, do_input_length d)) (effective_drive_objects dc)
         \<and> map (\<lambda>s. (is_slot s, is_subslot s, is_output_length s, is_input_length s)) slots =
           map (\<lambda>s. (is_slot s, is_subslot s, is_output_length s, is_input_length s)) (dap_head_slots lib dc) @ dos)
    \<and> dos \<noteq> [] \<and> concat (map (\<lambda>(_, _, d). d) (rack_chunks data dos)) = data"
proof -
  have r: "slots = fst (build_expected_slots env lib dc)" "dos = snd (build_expected_slots env lib dc)"
    by (simp_all flip: assms(3))
  have m: "map (\<lambda>(_, _, o', i). (o', i)) dos = map (\<lambda>d. (do_output_length d, do_input_length d)) (effective_drive_objects dc)"
    unfolding r by (rule build_expected_slots_map)
  have "map (\<lambda>(_, _, o', i). nat o') dos = map (nat \<circ> fst) (map (\<lambda>(_, _, o', i). (o', i)) dos)"
    by (simp add: comp_def case_prod_beta)
  also have "\<dots> = map (\<lambda>d. nat (do_output_length d)) (effective_drive_objects dc)"
    unfolding m by (simp add: comp_def)
  finally have "int (rack_out_total dos) = int (sum_list (map (\<lambda>d. nat (do_output_length d)) (effective_drive_objects dc)))"
    by (simp add: rack_out_total_def)
  also have "\<dots> = sum_list (map do_output_length (effective_drive_objects dc))"
    by (rule sum_list_nat) (rule assms(1))
  finally have "concat (map (\<lambda>(_, _, d). d) (rack_chunks data dos)) = data"
    using assms(2) by (simp add: total_output_length_def rack_chunks_concat)
  moreover have "dos \<noteq> []"
    using m effective_nonempty [of dc] by (metis map_is_Nil_conv)
  ultimately show ?thesis
    using build_expected_slots_topology [of env lib dc] build_expected_slots_fallback [of env lib dc]
    by (simp add: r telegram_entry_def [abs_def] recorded_entry_def [abs_def] slot_entry_def [abs_def]
        has_telegram_def case_prod_beta split: sum.split)
qed

definition demo_rack :: device_config where
  "demo_rack = default_device_config\<lparr>dc_gsdml_path := ''d.xml'',
     dc_drive_objects := [default_drive_object, default_drive_object\<lparr>do_slot := 2\<rparr>]\<rparr>"

text \<open>A description whose second module and telegram are the drive's, and which takes only those.\<close>

definition topology_lib :: gsd_lib where
  "topology_lib = \<lparr>gl_exists = \<lambda>p. p = ''d.xml'', gl_load = \<lambda>_. Inr
     \<lparr>gd_daps = [], gd_modules = [(''X'', \<lparr>gm_ident = 7, gm_allowed = None\<rparr>),
        (''M'', \<lparr>gm_ident = DRIVE_MODULE_IDENT, gm_allowed = None\<rparr>)],
      gd_submodules = [(''U'', 9), (''T'', DRIVE_TELEGRAM_IDENT)],
      gd_build_io_slots = \<lambda>sl su _.
        if sl = [(1, ''M''), (2, ''M'')] \<and> su = [(1, [(3, ''T'')]), (2, [(3, ''T'')])] then Inr [] else Inl KeyError\<rparr>\<rparr>"

lemma demo_topology:
  "slots_from_gsdml (\<lambda>_. None) topology_lib demo_rack = Inr ([], [(1, 3, 4, 4), (2, 3, 4, 4)])"
  by (simp add: topology_lib_def demo_rack_def effective_drive_objects_def default_drive_object_def slots_from_gsdml_def
      default_device_config_def bindE_def envint_def id_by_ident_def sub_assignment_def pick_dap_def
      DRIVE_MODULE_IDENT_def DRIVE_TELEGRAM_IDENT_def INCLUDE_EMPTY_SUBMOD_def)

lemma process_data_map_witness:
  "snd (build_expected_slots (\<lambda>_. None) \<lparr>gl_exists = \<lambda>_. False, gl_load = \<lambda>_. Inl KeyError\<rparr> demo_rack)
     = [(1, 1, 4, 4), (2, 1, 4, 4)]
   \<and> concat (map (\<lambda>(_, _, d). d) (rack_chunks [1, 2, 3, 4, 5, 6, 7, 8]
     (snd (build_expected_slots (\<lambda>_. None) \<lparr>gl_exists = \<lambda>_. False, gl_load = \<lambda>_. Inl KeyError\<rparr> demo_rack))))
   = [1, 2, 3, 4, 5, 6, 7, 8]
   \<and> snd (build_expected_slots (\<lambda>_. None) topology_lib demo_rack) = [(1, 3, 4, 4), (2, 3, 4, 4)]"
  using process_data_map [of demo_rack "[1, 2, 3, 4, 5, 6, 7, 8]" _ _ "\<lambda>_. None"
      "\<lparr>gl_exists = \<lambda>_. False, gl_load = \<lambda>_. Inl KeyError\<rparr>", OF _ _ prod.collapse]
    process_data_map [of demo_rack "[1, 2, 3, 4, 5, 6, 7, 8]" _ _ "\<lambda>_. None" topology_lib, OF _ _ prod.collapse]
    demo_topology
  by (simp add: demo_rack_def effective_drive_objects_def total_output_length_def default_drive_object_def
      slots_from_gsdml_def default_device_config_def)

end
