(* ===== verification/Actions.thy ===== *)
theory Actions
  imports Prelude
begin

text \<open>
  Code with side effects as functions of an explicit state: what runs returns or raises, and the
  handlers of Python, \<open>try\<close>, \<open>except\<close> and \<open>finally\<close>, are combinators.  A small Hoare
  logic for them has one postcondition for the normal return and one for an exception.
\<close>

type_synonym ('s, 'a) action = "'s \<Rightarrow> (py_error + 'a) \<times> 's"

section \<open>Combinators\<close>

definition retA :: "'a \<Rightarrow> ('s, 'a) action" where "retA x st = (Inr x, st)"

definition raiseA :: "py_error \<Rightarrow> ('s, 'a) action" where "raiseA e st = (Inl e, st)"

definition bindA :: "('s, 'a) action \<Rightarrow> ('a \<Rightarrow> ('s, 'b) action) \<Rightarrow> ('s, 'b) action" where
  "bindA m f st = (case m st of (Inl e, st1) \<Rightarrow> (Inl e, st1) | (Inr x, st1) \<Rightarrow> f x st1)"

definition seqA :: "('s, 'a) action \<Rightarrow> ('s, 'b) action \<Rightarrow> ('s, 'b) action" where
  "seqA m n = bindA m (\<lambda>_. n)"

text \<open>\<open>try: m except Exception as e: h e\<close>, and \<open>try: m finally: f\<close>.\<close>

definition tryA :: "('s, 'a) action \<Rightarrow> (py_error \<Rightarrow> ('s, 'a) action) \<Rightarrow> ('s, 'a) action" where
  "tryA m h st = (case m st of (Inl e, st1) \<Rightarrow> h e st1 | (Inr x, st1) \<Rightarrow> (Inr x, st1))"

definition finallyA :: "('s, 'a) action \<Rightarrow> ('s, unit) action \<Rightarrow> ('s, 'a) action" where
  "finallyA m f st = (case m st of (r, st1) \<Rightarrow>
     (case f st1 of (Inl e, st2) \<Rightarrow> (Inl e, st2) | (Inr _, st2) \<Rightarrow> (r, st2)))"

definition modA :: "('s \<Rightarrow> 's) \<Rightarrow> ('s, unit) action" where "modA f st = (Inr (), f st)"

definition liftA :: "py_error + 'a \<Rightarrow> ('s, 'a) action" where "liftA r st = (r, st)"

text \<open>\<open>try: m except Exception: pass\<close>.\<close>

definition quietA :: "('s, unit) action \<Rightarrow> ('s, unit) action" where
  "quietA m = tryA m (\<lambda>_. retA ())"

definition whenA :: "bool \<Rightarrow> ('s, unit) action \<Rightarrow> ('s, unit) action" where
  "whenA b m = (if b then m else retA ())"

section \<open>Rules for the combinators\<close>

text \<open>From a state with \<open>P\<close>: a normal result satisfies \<open>Q\<close>, an exception leaves
  \<open>E\<close>.\<close>

definition hoareA :: "('s \<Rightarrow> bool) \<Rightarrow> ('s, 'a) action \<Rightarrow> ('a \<Rightarrow> 's \<Rightarrow> bool) \<Rightarrow> ('s \<Rightarrow> bool) \<Rightarrow> bool" where
  "hoareA P m Q E \<longleftrightarrow> (\<forall>st. P st \<longrightarrow> (case m st of (Inl e, st') \<Rightarrow> E st' | (Inr x, st') \<Rightarrow> Q x st'))"

definition keeps :: "('s \<Rightarrow> bool) \<Rightarrow> ('s, 'a) action \<Rightarrow> bool" where
  "keeps P m \<longleftrightarrow> hoareA P m (\<lambda>_. P) P"

lemma hoare_conseq:
  "hoareA P' m Q' E' \<Longrightarrow> (\<And>st. P st \<Longrightarrow> P' st) \<Longrightarrow> (\<And>x st. Q' x st \<Longrightarrow> Q x st) \<Longrightarrow> (\<And>st. E' st \<Longrightarrow> E st) \<Longrightarrow>
   hoareA P m Q E"
  by (fastforce simp: hoareA_def split: prod.splits sum.splits)

lemma hoare_ret: "(\<And>st. P st \<Longrightarrow> Q x st) \<Longrightarrow> hoareA P (retA x) Q E"
  by (simp add: hoareA_def retA_def)

lemma hoare_raise: "(\<And>st. P st \<Longrightarrow> E st) \<Longrightarrow> hoareA P (raiseA e) Q E"
  by (simp add: hoareA_def raiseA_def)

lemma hoare_bind:
  "hoareA P m R E \<Longrightarrow> (\<And>x. hoareA (R x) (f x) Q E) \<Longrightarrow> hoareA P (bindA m f) Q E"
  by (fastforce simp: hoareA_def bindA_def split: prod.splits sum.splits)

lemma hoare_seq: "hoareA P m (\<lambda>_. R) E \<Longrightarrow> hoareA R n Q E \<Longrightarrow> hoareA P (seqA m n) Q E"
  unfolding seqA_def by (rule hoare_bind)

lemma hoare_try: "hoareA P m Q R \<Longrightarrow> (\<And>e. hoareA R (h e) Q E) \<Longrightarrow> hoareA P (tryA m h) Q E"
  by (fastforce simp: hoareA_def tryA_def split: prod.splits sum.splits)

lemma hoare_quiet: "hoareA P m (\<lambda>_. Q) Q \<Longrightarrow> hoareA P (quietA m) (\<lambda>_. Q) E"
  by (fastforce simp: hoareA_def tryA_def quietA_def retA_def split: prod.splits sum.splits)

lemma hoare_finally:
  "hoareA P m R RE \<Longrightarrow> (\<And>x. hoareA (R x) f (\<lambda>_. Q x) E) \<Longrightarrow> hoareA RE f (\<lambda>_. E) E \<Longrightarrow> hoareA P (finallyA m f) Q E"
  by (fastforce simp: hoareA_def finallyA_def split: prod.splits sum.splits)

lemma hoare_mod: "(\<And>st. P st \<Longrightarrow> Q () (f st)) \<Longrightarrow> hoareA P (modA f) Q E"
  by (simp add: hoareA_def modA_def)

named_theorems keeps_rules "actions that keep a predicate"

lemma keeps_bind [keeps_rules]: "keeps P m \<Longrightarrow> (\<And>x. keeps P (f x)) \<Longrightarrow> keeps P (bindA m f)"
  unfolding keeps_def by (rule hoare_bind)

lemma keeps_seq [keeps_rules]: "keeps P m \<Longrightarrow> keeps P n \<Longrightarrow> keeps P (seqA m n)"
  unfolding keeps_def by (rule hoare_seq)

lemma keeps_try [keeps_rules]: "keeps P m \<Longrightarrow> (\<And>e. keeps P (h e)) \<Longrightarrow> keeps P (tryA m h)"
  unfolding keeps_def by (rule hoare_try)

lemma keeps_quiet [keeps_rules]: "keeps P m \<Longrightarrow> keeps P (quietA m)"
  unfolding keeps_def by (rule hoare_quiet)

lemma keeps_ret [keeps_rules]: "keeps P (retA x)"
  unfolding keeps_def by (rule hoare_ret)

lemma keeps_raise [keeps_rules]: "keeps P (raiseA e)"
  unfolding keeps_def by (rule hoare_raise)

lemma keeps_lift [keeps_rules]: "keeps P (liftA r)"
  by (simp add: keeps_def hoareA_def liftA_def split: sum.splits)

lemma keeps_when [keeps_rules]: "keeps P m \<Longrightarrow> keeps P (whenA b m)"
  by (simp add: whenA_def keeps_ret)

lemma keeps_mod: "(\<And>st. P st \<Longrightarrow> P (f st)) \<Longrightarrow> keeps P (modA f)"
  unfolding keeps_def by (rule hoare_mod)

section \<open>Resources\<close>

text \<open>What was opened and not closed, by the calls that were made: an opening counts when it
  returned, a closing always.\<close>

fun net :: "('call \<Rightarrow> bool) \<Rightarrow> ('call \<Rightarrow> bool) \<Rightarrow> ('call \<times> bool) list \<Rightarrow> int" where
  "net op cl [] = 0"
| "net op cl ((c, ok) # h) = (if op c \<and> ok then 1 else 0) - (if cl c then 1 else 0) + net op cl h"

lemma net_append [simp]: "net op cl (h @ h') = net op cl h + net op cl h'"
  by (induction op cl h rule: net.induct) auto

end
