(* ===== verification/Pn_Connect.thy ===== *)
theory Pn_Connect
  imports Pn_Slots Pn_Patch Actions
begin

text \<open>
  Connecting a device: \<open>configure_device\<close> of
  \<open>profinet_gateway_py/profinet_ctrl.py\<close>.  The calls into the \<open>profinet\<close>
  package are recorded in the order they are made, each with whether it returned; what a call
  returns or raises is given by a world that may depend on all the calls before it.  The
  handlers of the source, \<open>try\<close>, \<open>except\<close> and \<open>finally\<close>, are combinators over
  the state.
\<close>

section \<open>Calls\<close>

datatype lib_call =
    GetMac string | OpenSocket string | CloseSocket
  | SetName bytes string string | SetIp bytes string string string string
  | StationInfo bytes string
  | NewConn | SetInstance nat | WrapAlarm alarm_cr | Connect bytes iocr_setup | CloseConn
  | StrToMac string
  | NewAlarm "int option" | StopAlarm nat
  | NewController iocr_config iocr_config | AllIocs | StartController | StopController
  | PrmEnd | AppReady

record station_info =
  si_ip :: string
  si_mac :: string

record connect_result =
  cr_has_cyclic :: bool
  cr_input_frame_id :: int
  cr_output_frame_id :: int

type_synonym hist = "(lib_call \<times> bool) list"

record 'c world =
  w_unit :: "hist \<Rightarrow> lib_call \<Rightarrow> py_error + unit"
  w_mac :: "hist \<Rightarrow> lib_call \<Rightarrow> py_error + bytes"
  w_info :: "hist \<Rightarrow> lib_call \<Rightarrow> py_error + station_info"
  w_handle :: "hist \<Rightarrow> lib_call \<Rightarrow> py_error + nat"
  w_connect :: "hist \<Rightarrow> lib_call \<Rightarrow> py_error + connect_result option"
  w_ctrl :: "hist \<Rightarrow> lib_call \<Rightarrow> py_error + 'c"
  w_msgs :: "hist \<Rightarrow> string list"

datatype cn_event =
    NoStationName string | CyclicMode string | RetryInstance0 | ConnectedInstance nat
  | NoCyclicAr | AlarmListenerOff | AlarmListenerStarted | CyclicRunning string
  | ConnectFailed py_error | Report "rj_event list" | Hint

text \<open>The state: the calls so far, the device, the patches of the package, and the local
  variables \<open>conn\<close> and \<open>ctrl\<close>.\<close>

record 'c cst =
  ct_calls :: hist
  ct_ds :: "'c dev_state"
  ct_patch :: lib_patch
  ct_conn :: "nat option"
  ct_ctrl :: "'c option"
  ct_log :: "cn_event list"

type_synonym ('c, 'a) act = "('c cst, 'a) action"

definition callA :: "(hist \<Rightarrow> lib_call \<Rightarrow> py_error + 'a) \<Rightarrow> lib_call \<Rightarrow> ('c, 'a) act" where
  "callA w c st = (case w (ct_calls st) c of
     Inl e \<Rightarrow> (Inl e, st\<lparr>ct_calls := ct_calls st @ [(c, False)]\<rparr>)
   | Inr x \<Rightarrow> (Inr x, st\<lparr>ct_calls := ct_calls st @ [(c, True)]\<rparr>))"

definition sayA :: "cn_event \<Rightarrow> ('c, unit) act" where
  "sayA e = modA (\<lambda>st. st\<lparr>ct_log := ct_log st @ [e]\<rparr>)"

definition dsA :: "('c dev_state \<Rightarrow> 'c dev_state) \<Rightarrow> ('c, unit) act" where
  "dsA f = modA (\<lambda>st. st\<lparr>ct_ds := f (ct_ds st)\<rparr>)"

section \<open>DCP: name, address and resolution\<close>

definition dcp_phase :: "'c world \<Rightarrow> string \<Rightarrow> bytes \<Rightarrow> device_config \<Rightarrow> ('c, station_info) act" where
  "dcp_phase w adapter src dc =
     seqA (callA (w_unit w) (OpenSocket adapter))
      (finallyA
        (seqA (whenA (dc_mac dc \<noteq> [])
                 (seqA (whenA (dc_station_name dc \<noteq> [])
                          (callA (w_unit w) (SetName src (lower (dc_mac dc)) (dc_station_name dc))))
                       (whenA (dc_ip dc \<noteq> [])
                          (callA (w_unit w) (SetIp src (lower (dc_mac dc)) (dc_ip dc) (dc_subnet dc) (dc_gateway dc))))))
              (callA (w_info w) (StationInfo src (dc_station_name dc))))
        (callA (w_unit w) CloseSocket))"

section \<open>The Connect request, with its retry\<close>

definition iocr_setup_of :: "env \<Rightarrow> io_slot list \<Rightarrow> py_error + iocr_setup" where
  "iocr_setup_of env slots =
     bindE (envint env ''PN_SEND_CLOCK'' SEND_CLOCK_FACTOR) (\<lambda>sc.
     bindE (envint env ''PN_REDUCTION'' CYCLE_MS) (\<lambda>rr.
     bindE (envint env ''PN_WATCHDOG'' WATCHDOG_FACTOR) (\<lambda>wd.
       Inr \<lparr>su_slots = slots, su_send_clock_factor = sc, su_reduction_ratio = rr,
            su_watchdog_factor = wd, su_data_hold_factor = wd\<rparr>)))"

text \<open>\<open>_patch_alarm_cr\<close> swallows what it raises.\<close>

definition patch_alarm_cr :: "env \<Rightarrow> 'c world \<Rightarrow> ('c, unit) act" where
  "patch_alarm_cr env w =
     quietA (bindA (liftA (read_alarm_cr env)) (\<lambda>ac. callA (w_unit w) (WrapAlarm ac)))"

definition retryable :: "py_error \<Rightarrow> bool" where
  "retryable e \<longleftrightarrow> contains ''unk_if'' (lower (exn_text e)) \<or> contains ''reject'' (lower (exn_text e))"

definition close_conn :: "'c world \<Rightarrow> ('c, unit) act" where
  "close_conn w st = (case ct_conn st of
     None \<Rightarrow> (Inl AttributeError, st) | Some _ \<Rightarrow> callA (w_unit w) CloseConn st)"

definition try_instance :: "env \<Rightarrow> 'c world \<Rightarrow> bytes \<Rightarrow> iocr_setup \<Rightarrow> nat \<Rightarrow> ('c, connect_result option) act" where
  "try_instance env w src setup inst =
     tryA
      (bindA (callA (w_handle w) NewConn) (\<lambda>h.
       seqA (modA (\<lambda>st. st\<lparr>ct_conn := Some h\<rparr>))
       (seqA (whenA (inst \<noteq> 1) (callA (w_unit w) (SetInstance inst)))
       (seqA (patch_alarm_cr env w)
       (bindA (callA (w_connect w) (Connect src setup)) (\<lambda>r.
        seqA (whenA (inst \<noteq> 1) (sayA (ConnectedInstance inst))) (retA r)))))))
      (\<lambda>e. seqA (quietA (close_conn w)) (seqA (modA (\<lambda>st. st\<lparr>ct_conn := None\<rparr>)) (raiseA e)))"

definition connect_loop :: "env \<Rightarrow> 'c world \<Rightarrow> bytes \<Rightarrow> iocr_setup \<Rightarrow> ('c, connect_result option) act" where
  "connect_loop env w src setup =
     tryA (try_instance env w src setup 1)
      (\<lambda>e. if retryable e then seqA (sayA RetryInstance0) (try_instance env w src setup 0) else raiseA e)"

section \<open>Alarm listener\<close>

definition start_alarm_listener :: "env \<Rightarrow> 'c world \<Rightarrow> ('c, nat option) act" where
  "start_alarm_listener env w =
     bindA (liftA (envint env ''PN_ALARM_LISTENER'' 1)) (\<lambda>on.
       if on = 0 then seqA (sayA AlarmListenerOff) (retA None)
       else
         tryA
          (bindA (liftA (envint env ''PN_CYCLIC_VLAN_TCI'' CYCLIC_VLAN_TCI)) (\<lambda>tci.
           bindA (liftA (envint env ''PN_CYCLIC_VLAN'' (cp_vlan (cyclic_profile env)))) (\<lambda>vlan.
           seqA (whenA (vlan \<noteq> 0) (modA (\<lambda>st. st\<lparr>ct_patch := patch_alarm_listener_vlan tci (ct_patch st)\<rparr>)))
           (bindA (callA (w_handle w) (NewAlarm (case read_alarm_cr env of Inl _ \<Rightarrow> None | Inr ac \<Rightarrow> Some (ac_ref ac)))) (\<lambda>a.
            seqA (sayA AlarmListenerStarted) (retA (Some a)))))))
          (\<lambda>e. retA None))"

section \<open>The whole connection\<close>

definition start_cyclic :: "env \<Rightarrow> 'c world \<Rightarrow> io_slot list \<Rightarrow> station_info \<Rightarrow> device_config \<Rightarrow> ('c, bool) act" where
  "start_cyclic env w io_slots info dc =
     bindA (callA (w_mac w) (StrToMac (si_mac info))) (\<lambda>_.
     bindA (start_alarm_listener env w) (\<lambda>al.
     seqA (dsA (\<lambda>ds. ds\<lparr>ds_alarm := al\<rparr>))
     (bindA (liftA (build_iocr_configs env io_slots)) (\<lambda>(in_cfg, out_cfg).
     bindA (callA (w_mac w) (StrToMac (si_mac info))) (\<lambda>_.
     bindA (callA (w_ctrl w) (NewController in_cfg out_cfg)) (\<lambda>c0.
     seqA (modA (\<lambda>st. st\<lparr>ct_ctrl := Some c0\<rparr>))
     (seqA (callA (w_unit w) AllIocs)
     (bindA (callA (w_ctrl w) StartController) (\<lambda>c.
     seqA (modA (\<lambda>st. st\<lparr>ct_ctrl := Some c\<rparr>))
     (seqA (callA (w_unit w) PrmEnd)
     (seqA (callA (w_unit w) AppReady)
     (seqA (modA (\<lambda>st. st\<lparr>ct_ds := (ct_ds st)\<lparr>ds_conn := ct_conn st, ds_cyclic := ct_ctrl st,
                                 ds_connected := True, ds_error := []\<rparr>\<rparr>))
     (seqA (sayA (CyclicRunning (dc_station_name dc))) (retA True))))))))))))))"

definition configure_body :: "env \<Rightarrow> 'c world \<Rightarrow> gsd_lib \<Rightarrow> string \<Rightarrow> string \<Rightarrow> device_config \<Rightarrow> ('c, bool) act" where
  "configure_body env w lib macadapter adapter dc =
     bindA (callA (w_mac w) (GetMac macadapter)) (\<lambda>src.
     seqA (dsA (\<lambda>ds. ds\<lparr>ds_src_mac := src\<rparr>))
     (bindA (dcp_phase w adapter src dc) (\<lambda>info.
      (let (io_slots, do_map) = build_expected_slots env lib dc in
       seqA (dsA (\<lambda>ds. ds\<lparr>ds_dos := do_map\<rparr>))
       (seqA (case do_map of
                [] \<Rightarrow> raiseA IndexError
              | (slot, subslot, _) # _ \<Rightarrow> dsA (\<lambda>ds. ds\<lparr>ds_slot := slot, ds_subslot := subslot\<rparr>))
       (bindA (liftA (iocr_setup_of env io_slots)) (\<lambda>setup.
        bindA (connect_loop env w src setup) (\<lambda>result.
         (case result of
            Some r \<Rightarrow>
              if cr_has_cyclic r then start_cyclic env w io_slots info dc
              else seqA (dsA (\<lambda>ds. ds\<lparr>ds_error := ''no cyclic AR'', ds_connected := False\<rparr>))
                    (seqA (close_conn w) (seqA (sayA NoCyclicAr) (retA False)))
          | None \<Rightarrow> seqA (dsA (\<lambda>ds. ds\<lparr>ds_error := ''no cyclic AR'', ds_connected := False\<rparr>))
                    (seqA (close_conn w) (seqA (sayA NoCyclicAr) (retA False))))))))))))"

definition refused_text :: "py_error \<Rightarrow> bool" where
  "refused_text e \<longleftrightarrow> contains ''reject'' (lower (exn_text e)) \<or> contains ''fault'' (lower (exn_text e))"

text \<open>Half-open resources are cleaned up, each whether or not the one before it raised.\<close>

definition cleanup :: "'c world \<Rightarrow> ('c, unit) act" where
  "cleanup w =
     seqA (quietA (\<lambda>st. case ds_alarm (ct_ds st) of None \<Rightarrow> (Inr (), st) | Some a \<Rightarrow> callA (w_unit w) (StopAlarm a) st))
     (seqA (quietA (\<lambda>st. case ct_ctrl st of None \<Rightarrow> (Inr (), st) | Some _ \<Rightarrow> callA (w_unit w) StopController st))
           (quietA (\<lambda>st. case ct_conn st of None \<Rightarrow> (Inr (), st) | Some _ \<Rightarrow> callA (w_unit w) CloseConn st)))"

definition on_failure :: "'c world \<Rightarrow> py_error \<Rightarrow> ('c, bool) act" where
  "on_failure w e =
     seqA (dsA (\<lambda>ds. ds\<lparr>ds_connected := False, ds_error := exn_text e\<rparr>))
     (seqA (sayA (ConnectFailed e))
     (seqA (whenA (refused_text e)
             (\<lambda>st. seqA (sayA (Report (rpc_capture_report
                \<lparr>cap_handler = 0, cap_old_level = 0, cap_msgs = w_msgs w (ct_calls st)\<rparr>))) (sayA Hint) st))
     (seqA (cleanup w) (retA False))))"

definition connect_device :: "env \<Rightarrow> 'c world \<Rightarrow> gsd_lib \<Rightarrow> string \<Rightarrow> string \<Rightarrow> device_config \<Rightarrow> ('c, bool) act" where
  "connect_device env w lib macadapter adapter dc =
     seqA (sayA (CyclicMode (upper (cp_mode (cyclic_profile env)))))
     (seqA (modA (\<lambda>st. st\<lparr>ct_patch := patch_all env (ct_patch st)\<rparr>))
           (tryA (configure_body env w lib macadapter adapter dc) (on_failure w)))"

record 'c outcome_of =
  oc_result :: bool
  oc_ctrl :: "'c pn_ctrl"
  oc_patch :: lib_patch
  oc_calls :: hist
  oc_log :: "cn_event list"

definition NO_NAME :: string where "NO_NAME = ''no station name '' @ [char_of (0xE2 :: nat), char_of (0x80 :: nat), char_of (0x94 :: nat)] @ '' configure it''"

definition configure_device ::
  "env \<Rightarrow> 'c world \<Rightarrow> gsd_lib \<Rightarrow> bool \<Rightarrow> int \<Rightarrow> 'c pn_ctrl \<Rightarrow> lib_patch \<Rightarrow> 'c outcome_of" where
  "configure_device env w lib win32 idx pn lp =
     (case pn_get idx pn of
        None \<Rightarrow> \<lparr>oc_result = False, oc_ctrl = pn, oc_patch = lp, oc_calls = [], oc_log = []\<rparr>
      | Some ds \<Rightarrow>
         (let dc = ds_config ds in
          if dc_station_name dc = [] then
            \<lparr>oc_result = False, oc_ctrl = pn_put idx (ds\<lparr>ds_connected := False, ds_error := NO_NAME\<rparr>) pn,
             oc_patch = lp, oc_calls = [], oc_log = [NoStationName (dc_ip dc)]\<rparr>
          else
            (case connect_device env w lib (macname win32 (pn_adapter pn)) (pn_adapter pn) dc
                    \<lparr>ct_calls = [], ct_ds = ds, ct_patch = lp, ct_conn = None, ct_ctrl = None, ct_log = []\<rparr> of
               (r, st) \<Rightarrow> \<lparr>oc_result = (r = Inr True), oc_ctrl = pn_put idx (ct_ds st) pn, oc_patch = ct_patch st,
                          oc_calls = ct_calls st, oc_log = ct_log st\<rparr>)))"

section \<open>Rules for the calls\<close>

lemma hoare_call:
  "(\<And>st x. P st \<Longrightarrow> Q x (st\<lparr>ct_calls := ct_calls st @ [(c, True)]\<rparr>)) \<Longrightarrow>
   (\<And>st. P st \<Longrightarrow> E (st\<lparr>ct_calls := ct_calls st @ [(c, False)]\<rparr>)) \<Longrightarrow> hoareA P (callA w c) Q E"
  by (auto simp: hoareA_def callA_def split: sum.splits)

lemma keeps_call:
  "(\<And>st b. P st \<Longrightarrow> P (st\<lparr>ct_calls := ct_calls st @ [(c, b)]\<rparr>)) \<Longrightarrow> keeps P (callA w c)"
  unfolding keeps_def by (rule hoare_call) auto

section \<open>Resources\<close>

fun is_open_socket :: "lib_call \<Rightarrow> bool" where
  "is_open_socket (OpenSocket _) = True" | "is_open_socket _ = False"

fun is_new_controller :: "lib_call \<Rightarrow> bool" where
  "is_new_controller (NewController _ _) = True" | "is_new_controller _ = False"

definition open_socks :: "hist \<Rightarrow> int" where
  "open_socks h = net is_open_socket (\<lambda>c. c = CloseSocket) h"

definition open_conns :: "hist \<Rightarrow> int" where
  "open_conns h = net (\<lambda>c. c = NewConn) (\<lambda>c. c = CloseConn) h"

definition open_ctrls :: "hist \<Rightarrow> int" where
  "open_ctrls h = net is_new_controller (\<lambda>c. c = StopController) h"

lemmas open_defs = open_socks_def open_conns_def open_ctrls_def

definition held :: "int \<Rightarrow> 'c cst \<Rightarrow> bool" where
  "held n st \<longleftrightarrow> open_socks (ct_calls st) = n
     \<and> open_conns (ct_calls st) \<le> (if ct_conn st = None then 0 else 1)
     \<and> open_ctrls (ct_calls st) \<le> (if ct_ctrl st = None then 0 else 1)"

definition fresh :: "'c cst \<Rightarrow> bool" where
  "fresh st \<longleftrightarrow> held 0 st \<and> ct_conn st = None \<and> ct_ctrl st = None"

definition neutral :: "lib_call \<Rightarrow> bool" where
  "neutral c \<longleftrightarrow> \<not> is_open_socket c \<and> c \<noteq> CloseSocket \<and> c \<noteq> NewConn \<and> c \<noteq> CloseConn
     \<and> \<not> is_new_controller c \<and> c \<noteq> StopController"

lemma open_neutral:
  "neutral c \<Longrightarrow> open_socks (h @ [(c, b)]) = open_socks h"
  "neutral c \<Longrightarrow> open_conns (h @ [(c, b)]) = open_conns h"
  "neutral c \<Longrightarrow> open_ctrls (h @ [(c, b)]) = open_ctrls h"
  by (simp_all add: open_defs neutral_def)

lemma keeps_neutral:
  assumes "neutral c"
  shows "keeps (held n) (callA w c)" and "keeps fresh (callA w c)"
    and "keeps (\<lambda>st. held n st \<and> ct_conn st = None) (callA w c)"
    and "keeps (\<lambda>st. held n st \<and> ct_conn st = None \<and> ct_ctrl st = None) (callA w c)"
  using assms by (auto intro!: keeps_call simp: held_def fresh_def open_neutral)

lemma neutral_simps [simp]:
  "neutral (GetMac a)" "neutral (SetName s m n)" "neutral (SetIp s m ip j k)" "neutral (StationInfo s n)"
  "neutral (SetInstance i)" "neutral (WrapAlarm ac)" "neutral (Connect s u)" "neutral (StrToMac m)"
  "neutral (NewAlarm r)" "neutral (StopAlarm al)" "neutral AllIocs" "neutral StartController"
  "neutral PrmEnd" "neutral AppReady"
  by (simp_all add: neutral_def)

text \<open>Changes of the state that leave the resources alone.\<close>

lemma held_ds [simp]: "held n (st\<lparr>ct_ds := d\<rparr>) = held n st" "fresh (st\<lparr>ct_ds := d\<rparr>) = fresh st"
  "held n (st\<lparr>ct_log := l\<rparr>) = held n st" "fresh (st\<lparr>ct_log := l\<rparr>) = fresh st"
  "held n (st\<lparr>ct_patch := p\<rparr>) = held n st" "fresh (st\<lparr>ct_patch := p\<rparr>) = fresh st"
  by (simp_all add: held_def fresh_def)

lemma keeps_say [keeps_rules]: "keeps (held n) (sayA e)" "keeps fresh (sayA e)"
  "keeps (\<lambda>st. held n st \<and> ct_conn st = None) (sayA e)"
  unfolding sayA_def by (rule keeps_mod; simp)+

lemma keeps_ds [keeps_rules]: "keeps (held n) (dsA f)" "keeps fresh (dsA f)"
  unfolding dsA_def by (rule keeps_mod; simp)+

lemma keeps_patch [keeps_rules]: "keeps (held n) (modA (\<lambda>st. st\<lparr>ct_patch := f st\<rparr>))"
  by (rule keeps_mod) simp

lemma hoare_keeps: "keeps P m \<Longrightarrow> hoareA P m (\<lambda>_. P) P"
  by (simp add: keeps_def)

section \<open>Each phase\<close>

lemma dcp_phase_fresh: "keeps fresh (dcp_phase w adapter src dc)"
proof -
  let ?P = "\<lambda>st. held 1 st \<and> ct_conn st = None \<and> ct_ctrl st = None"
  have "keeps ?P (seqA (whenA (dc_mac dc \<noteq> [])
                 (seqA (whenA (dc_station_name dc \<noteq> [])
                          (callA (w_unit w) (SetName src (lower (dc_mac dc)) (dc_station_name dc))))
                       (whenA (dc_ip dc \<noteq> [])
                          (callA (w_unit w) (SetIp src (lower (dc_mac dc)) (dc_ip dc) (dc_subnet dc) (dc_gateway dc))))))
              (callA (w_info w) (StationInfo src (dc_station_name dc))))"
    by (intro keeps_rules keeps_neutral(4)) simp_all
  moreover have "hoareA ?P (callA (w_unit w) CloseSocket) (\<lambda>_. fresh) fresh"
    by (rule hoare_call) (auto simp: held_def fresh_def open_defs)
  moreover have "hoareA fresh (callA (w_unit w) (OpenSocket adapter)) (\<lambda>_. ?P) fresh"
    by (rule hoare_call) (auto simp: held_def fresh_def open_defs)
  ultimately show ?thesis
    unfolding keeps_def dcp_phase_def by (blast intro: hoare_seq hoare_finally)
qed

lemma close_conn_held: "hoareA (held 0) (close_conn w)
   (\<lambda>_ st. held 0 st \<and> open_conns (ct_calls st) \<le> 0) (\<lambda>st. held 0 st \<and> open_conns (ct_calls st) \<le> 0)"
  by (auto simp: hoareA_def close_conn_def callA_def held_def open_defs split: option.splits sum.splits)

lemma try_instance_held:
  "hoareA fresh (try_instance env w src setup inst) (\<lambda>_ st. held 0 st \<and> ct_conn st \<noteq> None \<and> ct_ctrl st = None) fresh"
proof -
  let ?C = "\<lambda>st. held 0 st \<and> ct_ctrl st = None"
  let ?D = "\<lambda>st. held 0 st \<and> ct_conn st \<noteq> None \<and> ct_ctrl st = None"
  have neutralD: "keeps ?D (callA f c)" if "neutral c" for f :: "hist \<Rightarrow> lib_call \<Rightarrow> py_error + 'x" and c
    using that by (auto intro!: keeps_call simp: held_def open_neutral)
  have alarm: "keeps ?D (patch_alarm_cr env w)"
    unfolding patch_alarm_cr_def by (intro keeps_rules neutralD) simp
  have say: "keeps ?D (sayA e)" for e
    unfolding sayA_def by (rule keeps_mod) simp
  have "hoareA fresh (callA (w_handle w) NewConn)
      (\<lambda>_ st. open_socks (ct_calls st) = 0 \<and> open_conns (ct_calls st) \<le> 1 \<and> open_ctrls (ct_calls st) \<le> 0 \<and> ct_ctrl st = None) ?C"
    by (rule hoare_call) (auto simp: held_def fresh_def open_defs)
  moreover have "hoareA (\<lambda>st. open_socks (ct_calls st) = 0 \<and> open_conns (ct_calls st) \<le> 1 \<and> open_ctrls (ct_calls st) \<le> 0 \<and> ct_ctrl st = None)
      (modA (\<lambda>st. st\<lparr>ct_conn := Some h\<rparr>)) (\<lambda>_. ?D) ?C" for h
    by (rule hoare_mod) (simp add: held_def)
  moreover have "hoareA ?D (seqA (whenA (inst \<noteq> 1) (callA (w_unit w) (SetInstance inst)))
       (seqA (patch_alarm_cr env w)
       (bindA (callA (w_connect w) (Connect src setup)) (\<lambda>r.
        seqA (whenA (inst \<noteq> 1) (sayA (ConnectedInstance inst))) (retA r))))) (\<lambda>_. ?D) ?C"
    by (rule hoare_conseq [OF hoare_keeps [where P = "?D"]])
      (intro keeps_rules neutralD alarm say neutral_simps, simp_all)
  ultimately have body: "hoareA fresh (bindA (callA (w_handle w) NewConn) (\<lambda>h.
       seqA (modA (\<lambda>st. st\<lparr>ct_conn := Some h\<rparr>))
       (seqA (whenA (inst \<noteq> 1) (callA (w_unit w) (SetInstance inst)))
       (seqA (patch_alarm_cr env w)
       (bindA (callA (w_connect w) (Connect src setup)) (\<lambda>r.
        seqA (whenA (inst \<noteq> 1) (sayA (ConnectedInstance inst))) (retA r))))))) (\<lambda>_. ?D) ?C"
    by (blast intro: hoare_bind hoare_seq)
  have "hoareA ?C (quietA (close_conn w)) (\<lambda>_ st. ?C st \<and> open_conns (ct_calls st) \<le> 0) fresh"
    by (rule hoare_quiet)
      (auto simp: hoareA_def close_conn_def callA_def held_def open_defs split: option.splits sum.splits)
  moreover have "hoareA (\<lambda>st. ?C st \<and> open_conns (ct_calls st) \<le> 0) (modA (\<lambda>st. st\<lparr>ct_conn := None\<rparr>)) (\<lambda>_. fresh) fresh"
    by (rule hoare_mod) (auto simp: held_def fresh_def)
  ultimately have handler: "hoareA ?C (seqA (quietA (close_conn w)) (seqA (modA (\<lambda>st. st\<lparr>ct_conn := None\<rparr>)) (raiseA e))) (\<lambda>_. ?D) fresh" for e
    by (blast intro: hoare_seq hoare_raise)
  show ?thesis
    unfolding try_instance_def by (rule hoare_try [OF body handler])
qed

lemma connect_loop_held:
  "hoareA fresh (connect_loop env w src setup) (\<lambda>_ st. held 0 st \<and> ct_conn st \<noteq> None \<and> ct_ctrl st = None) fresh"
proof -
  have "hoareA fresh (seqA (sayA RetryInstance0) (try_instance env w src setup 0))
      (\<lambda>_ st. held 0 st \<and> ct_conn st \<noteq> None \<and> ct_ctrl st = None) fresh"
    by (rule hoare_seq [OF hoare_keeps [OF keeps_say(2)] try_instance_held])
  then have "hoareA fresh (if retryable e then seqA (sayA RetryInstance0) (try_instance env w src setup 0) else raiseA e)
      (\<lambda>_ st. held 0 st \<and> ct_conn st \<noteq> None \<and> ct_ctrl st = None) fresh" for e
    by (simp add: hoare_raise)
  then show ?thesis
    unfolding connect_loop_def by (rule hoare_try [OF try_instance_held])
qed

text \<open>A connection that is up: the cyclic exchange runs before the AR start-up is completed.\<close>

definition going :: "'c cst \<Rightarrow> bool" where
  "going st \<longleftrightarrow> held 0 st \<and> ct_conn st \<noteq> None"

definition tail_calls :: "lib_call list \<Rightarrow> 'c cst \<Rightarrow> bool" where
  "tail_calls cs st \<longleftrightarrow> (\<exists>pre in_cfg out_cfg. ct_calls st = pre @ (NewController in_cfg out_cfg, True) # map (\<lambda>c. (c, True)) cs)"

definition connected_state :: "'c cst \<Rightarrow> bool" where
  "connected_state st \<longleftrightarrow> held 0 st \<and> tail_calls [AllIocs, StartController, PrmEnd, AppReady] st
     \<and> ds_connected (ct_ds st) \<and> ds_error (ct_ds st) = [] \<and> ds_conn (ct_ds st) \<noteq> None \<and> ds_cyclic (ct_ds st) \<noteq> None"

lemma keeps_going: "neutral c \<Longrightarrow> keeps going (callA w c)" "keeps going (sayA e)" "keeps going (dsA f)"
  "keeps going (modA (\<lambda>st. st\<lparr>ct_patch := p st\<rparr>))"
  unfolding sayA_def dsA_def
  by (auto intro!: keeps_call keeps_mod simp: going_def held_def open_neutral)

lemma start_alarm_going: "keeps going (start_alarm_listener env w)"
proof -
  have "keeps going (tryA
      (bindA (liftA (envint env ''PN_CYCLIC_VLAN_TCI'' CYCLIC_VLAN_TCI)) (\<lambda>tci.
       bindA (liftA (envint env ''PN_CYCLIC_VLAN'' (cp_vlan (cyclic_profile env)))) (\<lambda>vlan.
       seqA (whenA (vlan \<noteq> 0) (modA (\<lambda>st. st\<lparr>ct_patch := patch_alarm_listener_vlan tci (ct_patch st)\<rparr>)))
       (bindA (callA (w_handle w) (NewAlarm (case read_alarm_cr env of Inl _ \<Rightarrow> None | Inr ac \<Rightarrow> Some (ac_ref ac)))) (\<lambda>a.
        seqA (sayA AlarmListenerStarted) (retA (Some a)))))))
      (\<lambda>e. retA None))"
    by (intro keeps_rules keeps_going neutral_simps)
  moreover have "keeps going (seqA (sayA AlarmListenerOff) (retA None))"
    by (intro keeps_rules keeps_going)
  ultimately show ?thesis
    unfolding start_alarm_listener_def by (intro keeps_bind keeps_lift) (simp only: split: if_split, blast)
qed

lemma tail_call: "tail_calls cs st \<Longrightarrow> tail_calls (cs @ [c]) (st\<lparr>ct_calls := ct_calls st @ [(c, True)]\<rparr>)"
  by (auto simp: tail_calls_def)

definition running :: "lib_call list \<Rightarrow> 'c cst \<Rightarrow> bool" where
  "running cs st \<longleftrightarrow> going st \<and> ct_ctrl st \<noteq> None \<and> tail_calls cs st"

lemma hoare_running:
  "neutral c \<Longrightarrow> hoareA (running cs) (callA w c) (\<lambda>_. running (cs @ [c])) (held 0)"
  by (rule hoare_call) (auto simp: running_def going_def held_def open_neutral tail_call)

lemma running_set_ctrl: "hoareA (running cs) (modA (\<lambda>st. st\<lparr>ct_ctrl := Some c\<rparr>)) (\<lambda>_. running cs) E"
  by (rule hoare_mod) (auto simp: running_def going_def held_def tail_calls_def)

lemma start_cyclic_held:
  "hoareA (\<lambda>st. held 0 st \<and> ct_conn st \<noteq> None \<and> ct_ctrl st = None) (start_cyclic env w slots info dc)
     (\<lambda>b st. b \<and> connected_state st) (held 0)"
proof -
  let ?G = "\<lambda>st. going st \<and> ct_ctrl st = None"
  have keepG: "hoareA ?G m (\<lambda>_. ?G) (held 0)" if "keeps going m" "keeps (\<lambda>st. ct_ctrl st = None) m"
    for m :: "('c, 'x) act"
    using that by (fastforce simp: keeps_def hoareA_def going_def split: prod.splits sum.splits)
  have none: "keeps (\<lambda>st. ct_ctrl st = None) (callA f c)" for f :: "hist \<Rightarrow> lib_call \<Rightarrow> py_error + 'x" and c
    by (rule keeps_call) simp
  have none2: "keeps (\<lambda>st. ct_ctrl st = None) (sayA e)" "keeps (\<lambda>st. ct_ctrl st = None) (dsA f)"
    "keeps (\<lambda>st. ct_ctrl st = None) (modA (\<lambda>st. st\<lparr>ct_patch := p st\<rparr>))" for e f p
    unfolding sayA_def dsA_def by (rule keeps_mod; simp)+
  have alarm: "keeps (\<lambda>st. ct_ctrl st = None) (start_alarm_listener env w)"
    unfolding start_alarm_listener_def
    by (intro keeps_bind keeps_lift) (auto intro!: keeps_rules none none2)
  have new: "hoareA ?G (callA (w_ctrl w) (NewController i out))
      (\<lambda>_ st. open_socks (ct_calls st) = 0 \<and> open_conns (ct_calls st) \<le> 1 \<and> open_ctrls (ct_calls st) \<le> 1
        \<and> ct_conn st \<noteq> None \<and> tail_calls [] st) (held 0)" for i out
    by (rule hoare_call) (auto simp: going_def held_def open_defs tail_calls_def)
  have set: "hoareA (\<lambda>st. open_socks (ct_calls st) = 0 \<and> open_conns (ct_calls st) \<le> 1 \<and> open_ctrls (ct_calls st) \<le> 1
        \<and> ct_conn st \<noteq> None \<and> tail_calls [] st) (modA (\<lambda>st. st\<lparr>ct_ctrl := Some c\<rparr>)) (\<lambda>_. running []) (held 0)" for c
    by (rule hoare_mod) (auto simp: running_def going_def held_def tail_calls_def)
  have finish: "hoareA (running [AllIocs, StartController, PrmEnd, AppReady])
      (modA (\<lambda>st. st\<lparr>ct_ds := (ct_ds st)\<lparr>ds_conn := ct_conn st, ds_cyclic := ct_ctrl st,
                                 ds_connected := True, ds_error := []\<rparr>\<rparr>)) (\<lambda>_. connected_state) (held 0)"
    by (rule hoare_mod) (simp add: running_def going_def connected_state_def tail_calls_def)
  have say: "hoareA connected_state (sayA e) (\<lambda>_. connected_state) (held 0)" for e
    unfolding sayA_def by (rule hoare_mod) (simp add: connected_state_def tail_calls_def)
  have up: "hoareA (running []) (seqA (callA (w_unit w) AllIocs)
     (bindA (callA (w_ctrl w) StartController) (\<lambda>c.
     seqA (modA (\<lambda>st. st\<lparr>ct_ctrl := Some c\<rparr>))
     (seqA (callA (w_unit w) PrmEnd)
     (seqA (callA (w_unit w) AppReady)
     (seqA (modA (\<lambda>st. st\<lparr>ct_ds := (ct_ds st)\<lparr>ds_conn := ct_conn st, ds_cyclic := ct_ctrl st,
                                 ds_connected := True, ds_error := []\<rparr>\<rparr>))
     (seqA (sayA (CyclicRunning (dc_station_name dc))) (retA True)))))))) (\<lambda>b st. b \<and> connected_state st) (held 0)"
    by (rule hoare_seq [OF hoare_running], simp, rule hoare_bind [OF hoare_running], simp,
        rule hoare_seq [OF running_set_ctrl], rule hoare_seq [OF hoare_running], simp,
        rule hoare_seq [OF hoare_running], simp, simp, rule hoare_seq [OF finish], rule hoare_seq [OF say],
        rule hoare_ret, simp)
  show ?thesis
    unfolding start_cyclic_def
    apply (rule hoare_conseq [where P' = ?G and Q' = "\<lambda>b st. b \<and> connected_state st" and E' = "held 0"])
       apply (rule hoare_bind [OF keepG [OF keeps_going(1) none]], simp)
       apply (rule hoare_bind [OF keepG [OF start_alarm_going alarm]])
       apply (rule hoare_seq [OF keepG [OF keeps_going(3) none2(2)]])
       apply (rule hoare_bind [OF keepG [OF keeps_lift keeps_lift]])
       apply (simp only: split: prod.split, intro allI impI)
       apply (rule hoare_bind [OF keepG [OF keeps_going(1) none]], simp)
       apply (rule hoare_bind [OF new])
       apply (rule hoare_seq [OF set])
       apply (rule up)
      apply (simp_all add: going_def)
    done
qed

text \<open>Nothing that was opened stays open.\<close>

definition released :: "'c cst \<Rightarrow> bool" where
  "released st \<longleftrightarrow> open_socks (ct_calls st) = 0 \<and> open_conns (ct_calls st) \<le> 0 \<and> open_ctrls (ct_calls st) \<le> 0
     \<and> \<not> ds_connected (ct_ds st)"

definition settled :: "bool \<Rightarrow> 'c cst \<Rightarrow> bool" where
  "settled b st \<longleftrightarrow> (if b then connected_state st else released st)"

lemma no_cyclic_held:
  "hoareA (\<lambda>st. held 0 st \<and> ct_conn st \<noteq> None \<and> ct_ctrl st = None)
     (seqA (dsA (\<lambda>ds. ds\<lparr>ds_error := s, ds_connected := False\<rparr>)) (seqA (close_conn w) (seqA (sayA NoCyclicAr) (retA False))))
     settled (held 0)"
proof -
  have "hoareA (\<lambda>st. held 0 st \<and> ct_conn st \<noteq> None \<and> ct_ctrl st = None) (dsA (\<lambda>ds. ds\<lparr>ds_error := s, ds_connected := False\<rparr>))
      (\<lambda>_ st. held 0 st \<and> ct_ctrl st = None \<and> \<not> ds_connected (ct_ds st)) (held 0)"
    unfolding dsA_def by (rule hoare_mod) simp
  moreover have "hoareA (\<lambda>st. held 0 st \<and> ct_ctrl st = None \<and> \<not> ds_connected (ct_ds st)) (close_conn w) (\<lambda>_. released) (held 0)"
    by (auto simp: hoareA_def close_conn_def callA_def held_def open_defs released_def split: option.splits sum.splits)
  moreover have "hoareA released (sayA e) (\<lambda>_. released) (held 0)" for e
    unfolding sayA_def by (rule hoare_mod) (simp add: released_def)
  moreover have "hoareA released (retA False) settled (held 0)"
    by (rule hoare_ret) (simp add: settled_def)
  ultimately show ?thesis
    by (blast intro: hoare_seq)
qed

lemma configure_body_settled:
  "hoareA fresh (configure_body env w lib ma adapter dc) settled (held 0)"
proof -
  have weaken: "hoareA fresh m (\<lambda>_. fresh) (held 0)" if "keeps fresh m" for m :: "('c, 'x) act"
    by (rule hoare_conseq [OF hoare_keeps [OF that]]) (simp_all add: fresh_def)
  have loop: "hoareA fresh (connect_loop env w src ios) (\<lambda>_ st. held 0 st \<and> ct_conn st \<noteq> None \<and> ct_ctrl st = None) (held 0)" for src ios
    by (rule hoare_conseq [OF connect_loop_held]) (simp_all add: fresh_def)
  have cyc: "hoareA (\<lambda>st. held 0 st \<and> ct_conn st \<noteq> None \<and> ct_ctrl st = None) (start_cyclic env w slots info dc) settled (held 0)" for slots info
    by (rule hoare_conseq [OF start_cyclic_held]) (simp_all add: settled_def)
  have dos: "keeps fresh (case do_map of [] \<Rightarrow> raiseA IndexError
      | (slot, subslot, _) # _ \<Rightarrow> dsA (\<lambda>ds. ds\<lparr>ds_slot := slot, ds_subslot := subslot\<rparr>))" for do_map :: "rack_slot list"
    by (auto intro!: keeps_rules split: list.split prod.split)
  have result: "hoareA (\<lambda>st. held 0 st \<and> ct_conn st \<noteq> None \<and> ct_ctrl st = None)
      (case r of
            Some r \<Rightarrow>
              if cr_has_cyclic r then start_cyclic env w slots info dc
              else seqA (dsA (\<lambda>ds. ds\<lparr>ds_error := ''no cyclic AR'', ds_connected := False\<rparr>))
                    (seqA (close_conn w) (seqA (sayA NoCyclicAr) (retA False)))
          | None \<Rightarrow> seqA (dsA (\<lambda>ds. ds\<lparr>ds_error := ''no cyclic AR'', ds_connected := False\<rparr>))
                    (seqA (close_conn w) (seqA (sayA NoCyclicAr) (retA False)))) settled (held 0)" for r slots info
    by (cases r) (auto simp only: option.case split: if_split intro!: cyc no_cyclic_held)
  show ?thesis
    unfolding configure_body_def
    apply (rule hoare_bind [OF weaken [OF keeps_neutral(2)]], simp)
    apply (rule hoare_seq [OF weaken [OF keeps_ds(2)]])
    apply (rule hoare_bind [OF weaken [OF dcp_phase_fresh]])
    apply (simp only: Let_def split: prod.split, intro allI impI)
    apply (rule hoare_seq [OF weaken [OF keeps_ds(2)]])
    apply (rule hoare_seq [OF weaken [OF dos]])
    apply (rule hoare_bind [OF weaken [OF keeps_lift]])
    apply (rule hoare_bind [OF loop])
    apply (rule result)
    done
qed

lemma on_failure_settled: "hoareA (held 0) (on_failure w e) settled (\<lambda>_. False)"
proof -
  let ?P = "\<lambda>st. held 0 st \<and> \<not> ds_connected (ct_ds st)"
  have "hoareA (held 0) (dsA (\<lambda>ds. ds\<lparr>ds_connected := False, ds_error := t\<rparr>)) (\<lambda>_. ?P) (\<lambda>_. False)" for t
    unfolding dsA_def by (rule hoare_mod) simp
  moreover have say: "hoareA ?P (sayA ev) (\<lambda>_. ?P) (\<lambda>_. False)" for ev
    unfolding sayA_def by (rule hoare_mod) simp
  moreover have "hoareA ?P (whenA b (\<lambda>st. seqA (sayA (r st)) (sayA Hint) st)) (\<lambda>_. ?P) (\<lambda>_. False)" for b r
    by (simp add: whenA_def retA_def hoareA_def seqA_def bindA_def sayA_def modA_def)
  moreover have "hoareA ?P (cleanup w) (\<lambda>_. released) (\<lambda>_. False)"
  proof -
    have 1: "hoareA ?P (quietA (\<lambda>st. case ds_alarm (ct_ds st) of None \<Rightarrow> (Inr (), st) | Some a \<Rightarrow> callA (w_unit w) (StopAlarm a) st)) (\<lambda>_. ?P) E" for E
      by (rule hoare_quiet) (auto simp: hoareA_def callA_def held_def open_neutral split: option.splits sum.splits)
    have 2: "hoareA ?P (quietA (\<lambda>st. case ct_ctrl st of None \<Rightarrow> (Inr (), st) | Some _ \<Rightarrow> callA (w_unit w) StopController st))
        (\<lambda>_ st. ?P st \<and> open_ctrls (ct_calls st) \<le> 0) E" for E
      by (rule hoare_quiet) (auto simp: hoareA_def callA_def held_def open_defs split: option.splits sum.splits)
    have 3: "hoareA (\<lambda>st. ?P st \<and> open_ctrls (ct_calls st) \<le> 0)
        (quietA (\<lambda>st. case ct_conn st of None \<Rightarrow> (Inr (), st) | Some _ \<Rightarrow> callA (w_unit w) CloseConn st)) (\<lambda>_. released) E" for E
      by (rule hoare_quiet) (auto simp: hoareA_def callA_def held_def open_defs released_def split: option.splits sum.splits)
    show ?thesis
      unfolding cleanup_def by (rule hoare_seq [OF 1 hoare_seq [OF 2 3]])
  qed
  moreover have "hoareA released (retA False) settled (\<lambda>_. False)"
    by (rule hoare_ret) (simp add: settled_def)
  ultimately show ?thesis
    unfolding on_failure_def
    by - (rule hoare_seq, assumption | rule hoare_seq | assumption | fast)+
qed

lemma connect_device_settled: "hoareA fresh (connect_device env w lib ma adapter dc) settled (\<lambda>_. False)"
proof -
  have "hoareA fresh (sayA v) (\<lambda>_. fresh) (\<lambda>_. False)" for v
    unfolding sayA_def by (rule hoare_mod) simp
  moreover have "hoareA fresh (modA (\<lambda>st. st\<lparr>ct_patch := f (ct_patch st)\<rparr>)) (\<lambda>_. fresh) (\<lambda>_. False)" for f
    by (rule hoare_mod) simp
  moreover have "hoareA fresh (tryA (configure_body env w lib ma adapter dc) (on_failure w)) settled (\<lambda>_. False)"
    by (rule hoare_try [OF configure_body_settled on_failure_settled])
  ultimately show ?thesis
    unfolding connect_device_def by (intro hoare_seq)
qed

section \<open>Properties\<close>

text \<open>C10: Connecting a device always ends, with no exception, in one of two ways.  It is
  connected, with its connection and its cyclic controller, and the last calls were: build the
  controller, mark the consumers good, start the cyclic exchange, and only then PrmEnd and
  ApplicationReady.  Or it is not connected, and every socket, connection and controller that was
  opened, the ones of a refused first attempt included, has been closed, whatever any call did.\<close>

theorem configure_device_settles:
  assumes "pn_get idx pn = Some ds" and "dc_station_name (ds_config ds) \<noteq> []"
    and "r = configure_device env w lib win32 idx pn lp"
  shows "\<exists>ds'. pn_get idx (oc_ctrl r) = Some ds' \<and> ds_connected ds' = oc_result r
    \<and> open_socks (oc_calls r) = 0
    \<and> (if oc_result r
        then ds_conn ds' \<noteq> None \<and> ds_cyclic ds' \<noteq> None \<and> ds_error ds' = []
          \<and> (\<exists>pre in_cfg out_cfg. map fst (oc_calls r) = pre @
               [NewController in_cfg out_cfg, AllIocs, StartController, PrmEnd, AppReady])
        else open_conns (oc_calls r) \<le> 0 \<and> open_ctrls (oc_calls r) \<le> 0)"
proof -
  let ?st0 = "\<lparr>ct_calls = [], ct_ds = ds, ct_patch = lp, ct_conn = None, ct_ctrl = None, ct_log = []\<rparr>"
  obtain res st where run: "connect_device env w lib (macname win32 (pn_adapter pn)) (pn_adapter pn) (ds_config ds) ?st0 = (res, st)"
    by force
  have "fresh ?st0"
    by (simp add: fresh_def held_def open_defs)
  then have "case connect_device env w lib (macname win32 (pn_adapter pn)) (pn_adapter pn) (ds_config ds) ?st0 of
      (Inl e, st') \<Rightarrow> False | (Inr b, st') \<Rightarrow> settled b st'"
    by (rule connect_device_settled [unfolded hoareA_def, rule_format])
  then obtain b where b: "res = Inr b" "settled b st"
    by (cases res) (simp_all add: run)
  have r: "oc_result r = b" "oc_ctrl r = pn_put idx (ct_ds st) pn" "oc_calls r = ct_calls st"
    using assms run b(1) by (simp_all add: configure_device_def Let_def)
  have "\<exists>pre in_cfg out_cfg. map fst (ct_calls st) = pre @ [NewController in_cfg out_cfg, AllIocs, StartController, PrmEnd, AppReady]"
    if tail: "tail_calls [AllIocs, StartController, PrmEnd, AppReady] st"
  proof -
    obtain pre i out where "ct_calls st = pre @ (NewController i out, True) # map (\<lambda>c. (c, True)) [AllIocs, StartController, PrmEnd, AppReady]"
      using tail unfolding tail_calls_def by blast
    then have "map fst (ct_calls st) = map fst pre @ [NewController i out, AllIocs, StartController, PrmEnd, AppReady]"
      by simp
    then show ?thesis by blast
  qed
  then show ?thesis
    using b(2) assms(1) by (auto simp: r settled_def connected_state_def released_def held_def split: if_splits)
qed

definition demo_world :: "nat \<Rightarrow> unit world" where
  "demo_world n = \<lparr>w_unit = (\<lambda>h c. Inr ()), w_mac = (\<lambda>h c. Inr (zeros 6)),
     w_info = (\<lambda>h c. Inr \<lparr>si_ip = ''192.168.1.50'', si_mac = ''00:01:02:03:04:05''\<rparr>),
     w_handle = (\<lambda>h c. Inr 7),
     w_connect = (\<lambda>h c. if length (filter (\<lambda>(c, _). c = NewConn) h) \<le> n then Inl (LibError ''nca_s_unk_if: rejected'')
                        else Inr (Some \<lparr>cr_has_cyclic = True, cr_input_frame_id = 0, cr_output_frame_id = 0\<rparr>)),
     w_ctrl = (\<lambda>h c. Inr ()), w_msgs = (\<lambda>h. [])\<rparr>"

definition demo_pn :: "unit pn_ctrl" where
  "demo_pn = (pn_init True)\<lparr>pn_devices := [new_dev_state (default_device_config\<lparr>dc_station_name := ''drive''\<rparr>)]\<rparr>"

definition demo_lib :: gsd_lib where
  "demo_lib = \<lparr>gl_exists = (\<lambda>_. False), gl_load = (\<lambda>_. Inl KeyError)\<rparr>"

lemma configure_device_settles_witness:
  "open_socks (oc_calls (configure_device (\<lambda>_. None) (demo_world 1) demo_lib False 0 demo_pn unpatched)) = 0"
  using configure_device_settles [of 0 demo_pn _ _ "\<lambda>_. None" "demo_world 1" demo_lib False unpatched, OF _ _ refl]
  by (fastforce simp: demo_pn_def pn_get_def new_dev_state_def default_device_config_def)

end
