(* ===== verification/Sim_Wire.thy ===== *)
theory Sim_Wire
  imports Prelude Py_Str
begin

text \<open>
  The byte helpers of the device simulator, \<open>simulator/vfd_sim.py\<close>: reads and writes of
  16 and 32 bit values in a \<open>bytearray\<close>, the cursor \<open>rp\<close> with which the responses are
  written, and the decoding of a station name.  The lemmas show that writing behind a cursor
  into a zeroed buffer appends.
\<close>

section \<open>Reading and writing at an offset\<close>

definition u16be :: "bytes \<Rightarrow> nat \<Rightarrow> py_error + int" where
  "u16be b off = (if off + 1 < length b then Inr (val16 (b ! off) (b ! (off + 1))) else Inl IndexError)"

definition u16le :: "bytes \<Rightarrow> nat \<Rightarrow> py_error + int" where
  "u16le b off = (if off + 1 < length b then Inr (val16 (b ! (off + 1)) (b ! off)) else Inl IndexError)"

definition put8 :: "bytes \<Rightarrow> nat \<Rightarrow> byte \<Rightarrow> py_error + bytes" where
  "put8 b off v = (if off < length b then Inr (b[off := v]) else Inl IndexError)"

definition put_u16be :: "bytes \<Rightarrow> nat \<Rightarrow> int \<Rightarrow> py_error + bytes" where
  "put_u16be b off v = bindE (put8 b off (word_of_int (v div 256))) (\<lambda>b. put8 b (off + 1) (word_of_int v))"

definition put_u16le :: "bytes \<Rightarrow> nat \<Rightarrow> int \<Rightarrow> py_error + bytes" where
  "put_u16le b off v = bindE (put8 b off (word_of_int v)) (\<lambda>b. put8 b (off + 1) (word_of_int (v div 256)))"

definition put_u32be :: "bytes \<Rightarrow> nat \<Rightarrow> int \<Rightarrow> py_error + bytes" where
  "put_u32be b off v =
     bindE (put8 b off (word_of_int (v div 16777216))) (\<lambda>b.
     bindE (put8 b (off + 1) (word_of_int (v div 65536))) (\<lambda>b.
     bindE (put8 b (off + 2) (word_of_int (v div 256))) (\<lambda>b.
       put8 b (off + 3) (word_of_int v))))"

section \<open>Writing behind a cursor\<close>

text \<open>The statements \<open>r[rp:rp+n] = v; rp += n\<close>, \<open>r[rp] = v; rp += 1\<close>,
  \<open>put_u16be(r, rp, v); rp += 2\<close>, \<open>put_u32be(r, rp, v); rp += 4\<close> and \<open>rp += n\<close>.\<close>

datatype item = Slice nat bytes | Byte byte | U16 int | U32 int | Skip nat

type_synonym cursor = "bytes \<times> nat"

fun put_item :: "item \<Rightarrow> cursor \<Rightarrow> py_error + cursor" where
  "put_item (Slice n v) (b, p) = Inr (slice_set p (p + n) v b, p + n)"
| "put_item (Byte v) (b, p) = bindE (put8 b p v) (\<lambda>b. Inr (b, p + 1))"
| "put_item (U16 v) (b, p) = bindE (put_u16be b p v) (\<lambda>b. Inr (b, p + 2))"
| "put_item (U32 v) (b, p) = bindE (put_u32be b p v) (\<lambda>b. Inr (b, p + 4))"
| "put_item (Skip n) (b, p) = Inr (b, p + n)"

fun put_items :: "item list \<Rightarrow> cursor \<Rightarrow> py_error + cursor" where
  "put_items [] c = Inr c"
| "put_items (i # is) c = bindE (put_item i c) (put_items is)"

text \<open>A block whose length field, two bytes behind its start, is filled in afterwards with
  what follows the field.\<close>

definition put_block_items :: "int \<Rightarrow> item list \<Rightarrow> cursor \<Rightarrow> py_error + cursor" where
  "put_block_items ty is c =
     bindE (put_items (U16 ty # Skip 2 # is) c) (\<lambda>(b, p).
       bindE (put_u16be b (snd c + 2) (int p - int (snd c) - 4)) (\<lambda>b. Inr (b, p)))"

fun item_bytes :: "item \<Rightarrow> bytes" where
  "item_bytes (Slice n v) = v"
| "item_bytes (Byte v) = [v]"
| "item_bytes (U16 v) = be16 v"
| "item_bytes (U32 v) = be32 v"
| "item_bytes (Skip n) = zeros n"

fun item_ok :: "item \<Rightarrow> bool" where
  "item_ok (Slice n v) \<longleftrightarrow> length v = n"
| "item_ok _ \<longleftrightarrow> True"

definition items_bytes :: "item list \<Rightarrow> bytes" where
  "items_bytes is = concat (map item_bytes is)"

definition block_bytes :: "int \<Rightarrow> item list \<Rightarrow> bytes" where
  "block_bytes ty is = be16 ty @ be16 (int (length (items_bytes is))) @ items_bytes is"

lemma items_bytes_simps [simp]:
  "items_bytes [] = []" "items_bytes (i # is) = item_bytes i @ items_bytes is"
  by (simp_all add: items_bytes_def)

lemma put8_mid: "off = length xs \<Longrightarrow> put8 (xs @ y # ys) off v = Inr (xs @ v # ys)"
  by (simp add: put8_def)

lemma put_u16be_mid: "off = length xs \<Longrightarrow> put_u16be (xs @ a # b # ys) off v = Inr (xs @ be16 v @ ys)"
  using put8_mid [of "Suc (length xs)" "xs @ [word_of_int (v div 256)]" b ys "word_of_int v"]
  by (simp add: put_u16be_def put8_mid be16_def)

lemma be32_bytes:
  "be32 v = [word_of_int (v div 16777216), word_of_int (v div 65536), word_of_int (v div 256), word_of_int v]"
  using zdiv_zmult2_eq [of 256 v 65536] by (simp add: be32_def be16_def)

lemma put_u32be_mid:
  "off = length xs \<Longrightarrow> put_u32be (xs @ a # b # c # d # ys) off v = Inr (xs @ be32 v @ ys)"
  using put8_mid [of "length xs + 1" "xs @ [word_of_int (v div 16777216)]" b "c # d # ys" "word_of_int (v div 65536)"]
    put8_mid [of "length xs + 2" "xs @ [word_of_int (v div 16777216), word_of_int (v div 65536)]" c "d # ys" "word_of_int (v div 256)"]
    put8_mid [of "length xs + 3" "xs @ [word_of_int (v div 16777216), word_of_int (v div 65536), word_of_int (v div 256)]" d ys "word_of_int v"]
  by (simp add: put_u32be_def put8_mid be32_bytes)

text \<open>Behind a prefix, the buffer of \<open>k\<close> zeros is filled from the left.\<close>

lemma put_item_append:
  assumes "item_ok i" and "length (item_bytes i) \<le> k"
  shows "put_item i (xs @ zeros k, length xs) =
    Inr ((xs @ item_bytes i) @ zeros (k - length (item_bytes i)), length (xs @ item_bytes i))"
proof (cases i)
  case (Slice n v)
  then show ?thesis using assms by (simp add: slice_set_def)
next
  case (Byte v)
  then obtain k' where "k = Suc k'" using assms by (cases k) auto
  then show ?thesis using Byte by (simp add: zeros_Suc put8_mid)
next
  case (U16 v)
  then have "k = Suc (Suc (k - 2))" using assms by simp
  then obtain k' where "k = Suc (Suc k')" by blast
  then show ?thesis using U16 by (simp add: zeros_Suc put_u16be_mid)
next
  case (U32 v)
  then have "k = Suc (Suc (Suc (Suc (k - 4))))" using assms by simp
  then obtain k' where "k = Suc (Suc (Suc (Suc k')))" by blast
  then show ?thesis using U32 by (simp add: zeros_Suc put_u32be_mid)
next
  case (Skip n)
  then show ?thesis using assms by (simp add: zeros_append)
qed

lemma put_items_append:
  "list_all item_ok is \<Longrightarrow> length (items_bytes is) \<le> k \<Longrightarrow>
   put_items is (xs @ zeros k, length xs) =
     Inr ((xs @ items_bytes is) @ zeros (k - length (items_bytes is)), length (xs @ items_bytes is))"
proof (induction "is" arbitrary: xs k)
  case (Cons i ns)
  have "put_item i (xs @ zeros k, length xs) =
      Inr ((xs @ item_bytes i) @ zeros (k - length (item_bytes i)), length (xs @ item_bytes i))"
    using Cons.prems by (intro put_item_append) simp_all
  moreover have "put_items ns ((xs @ item_bytes i) @ zeros (k - length (item_bytes i)), length (xs @ item_bytes i)) =
      Inr (((xs @ item_bytes i) @ items_bytes ns) @ zeros (k - length (item_bytes i) - length (items_bytes ns)),
           length ((xs @ item_bytes i) @ items_bytes ns))"
    using Cons.prems by (intro Cons.IH) simp_all
  ultimately show ?case
    by simp
qed simp

lemma length_block_bytes [simp, len_simps]: "length (block_bytes ty is) = 4 + length (items_bytes is)"
  by (simp add: block_bytes_def)

lemma put_block_items_append:
  assumes "list_all item_ok is" and "length (block_bytes ty is) \<le> k"
  shows "put_block_items ty is (xs @ zeros k, length xs) =
    Inr ((xs @ block_bytes ty is) @ zeros (k - length (block_bytes ty is)), length (xs @ block_bytes ty is))"
proof -
  let ?k = "k - (4 + length (items_bytes is))"
  have k: "k - Suc (Suc (Suc (Suc (length (items_bytes is))))) = ?k" by simp
  have items: "put_items (U16 ty # Skip 2 # is) (xs @ zeros k, length xs) =
      Inr ((xs @ be16 ty) @ 0 # 0 # items_bytes is @ zeros ?k, length xs + (4 + length (items_bytes is)))"
    using put_items_append [of "U16 ty # Skip 2 # is" k xs] assms by (simp add: numeral_2_eq_2 zeros_Suc k del: put_items.simps)
  have "put_u16be ((xs @ be16 ty) @ 0 # 0 # items_bytes is @ zeros ?k) (length xs + 2) v =
      Inr ((xs @ be16 ty) @ be16 v @ items_bytes is @ zeros ?k)" for v
    by (rule put_u16be_mid) simp
  then show ?thesis
    unfolding put_block_items_def items by (simp add: block_bytes_def k)
qed

section \<open>Decoding a station name\<close>

text \<open>\<open>bytes.decode(errors="replace")\<close>: well-formed UTF-8 is kept, and every maximal
  ill-formed part becomes U+FFFD.  Names are kept as their UTF-8 bytes.\<close>

definition in_range :: "int \<Rightarrow> int \<Rightarrow> byte \<Rightarrow> bool" where
  "in_range lo hi b \<longleftrightarrow> lo \<le> uint b \<and> uint b \<le> hi"

definition second_range :: "byte \<Rightarrow> int \<times> int" where
  "second_range b =
     (let v = uint b in
      if v = 0xE0 then (0xA0, 0xBF) else if v = 0xED then (0x80, 0x9F)
      else if v = 0xF0 then (0x90, 0xBF) else if v = 0xF4 then (0x80, 0x8F) else (0x80, 0xBF))"

definition tail_count :: "byte \<Rightarrow> nat" where
  "tail_count b =
     (if in_range 0xC2 0xDF b then 1 else if in_range 0xE0 0xEF b then 2
      else if in_range 0xF0 0xF4 b then 3 else 0)"

text \<open>The continuation bytes that follow a lead byte, as far as they are valid.\<close>

definition tail_ok :: "byte \<Rightarrow> bytes \<Rightarrow> nat" where
  "tail_ok b rest =
     (case take (tail_count b) rest of
        [] \<Rightarrow> 0
      | c # cs \<Rightarrow> if in_range (fst (second_range b)) (snd (second_range b)) c
                  then 1 + length (takeWhile (in_range 0x80 0xBF) cs) else 0)"

definition REPLACEMENT :: bytes where "REPLACEMENT = [0xEF, 0xBF, 0xBD]"

function utf8_replace :: "bytes \<Rightarrow> bytes" where
  "utf8_replace [] = []"
| "utf8_replace (b # rest) =
     (if uint b < 0x80 then b # utf8_replace rest
      else if tail_count b > 0 \<and> tail_ok b rest = tail_count b
      then b # take (tail_count b) rest @ utf8_replace (drop (tail_count b) rest)
      else REPLACEMENT @ utf8_replace (drop (tail_ok b rest) rest))"
  by pat_completeness auto

termination by (relation "measure length") auto

lemma utf8_replace_ascii: "\<forall>b \<in> set xs. uint b < 128 \<Longrightarrow> utf8_replace xs = xs"
  by (induction xs) simp_all

end
