(* ===== verification/Sim.thy ===== *)
theory Sim
  imports Sim_Wire
begin

text \<open>
  The device simulator of \<open>simulator/vfd_sim.py\<close>: its state, the drive behind it, the
  DCP server and the reception and transmission of cyclic frames.  What a step sends or
  starts is a list of actions next to the new state; an exception that leaves the handler
  is kept beside the state it leaves behind.
\<close>

section \<open>State\<close>

definition FID_DCP_IDENTIFY :: int where "FID_DCP_IDENTIFY = 0xFEFE"
definition FID_DCP_SET :: int where "FID_DCP_SET = 0xFEFD"
definition RPC_OFF_PAYLOAD :: nat where "RPC_OFF_PAYLOAD = 40"

definition PN_OBJ_UUID :: bytes where
  "PN_OBJ_UUID = [0x00, 0x00, 0xa0, 0xde, 0x97, 0x6c, 0xd1, 0x11, 0x82, 0x71, 0x00, 0xa0, 0x24, 0x42, 0xdf, 0x7d]"

datatype dev_phase = Idle | Listening | Connected | Cyclic

type_synonym addr = "string \<times> nat"

record sim =
  sm_mac :: bytes
  sm_name :: bytes
  sm_vendor :: int
  sm_device :: int
  sm_ip :: bytes
  sm_subnet :: bytes
  sm_gateway :: bytes
  sm_auto :: bool
  sm_stw1 :: int
  sm_nsoll :: int
  sm_zsw1 :: int
  sm_nist :: int
  sm_ar_uuid :: bytes
  sm_session_key :: int
  sm_ctrl_mac :: bytes
  sm_out_fid :: int
  sm_in_fid :: int
  sm_ref_out :: int
  sm_ref_in :: int
  sm_clock :: int
  sm_data_length :: int
  sm_phase :: dev_phase
  sm_ctrl_addr :: "addr option"
  sm_cyclic_started :: bool
  sm_ccid :: int
  sm_rx :: int
  sm_tx :: int

datatype sim_act = PcapSend bytes | RpcSend bytes addr | SpawnCyclic

type_synonym sim_res = "py_error option \<times> sim \<times> sim_act list"

text \<open>\<open>bytes(int(x, 16) for x in mac.split(":"))\<close> and
  \<open>struct.pack("BBBB", *ip_parts)\<close>.\<close>

fun mac_octets :: "string list \<Rightarrow> py_error + bytes" where
  "mac_octets [] = Inr []"
| "mac_octets (x # xs) =
     (case parse_hex x of
        None \<Rightarrow> Inl ValueError
      | Some v \<Rightarrow> if 0 \<le> v \<and> v < 256 then bindE (mac_octets xs) (\<lambda>bs. Inr (word_of_int v # bs)) else Inl ValueError)"

fun ip_parts :: "string list \<Rightarrow> py_error + int list" where
  "ip_parts [] = Inr []"
| "ip_parts (x # xs) =
     (case parse_dec x of None \<Rightarrow> Inl ValueError | Some v \<Rightarrow> bindE (ip_parts xs) (\<lambda>vs. Inr (v # vs)))"

definition pack_BBBB :: "int list \<Rightarrow> py_error + bytes" where
  "pack_BBBB vs = (if length vs = 4 \<and> list_all (\<lambda>v. 0 \<le> v \<and> v < 256) vs
     then Inr (map word_of_int vs) else Inl StructError)"

definition sim_init :: "bytes \<Rightarrow> string \<Rightarrow> string \<Rightarrow> bool \<Rightarrow> py_error + sim" where
  "sim_init name ip mac auto_sim =
     bindE (mac_octets (split_on (CHR '':'') mac)) (\<lambda>m.
     bindE (ip_parts (split_on (CHR ''.'') ip)) (\<lambda>parts.
     bindE (pack_BBBB parts) (\<lambda>i.
       Inr \<lparr>sm_mac = m, sm_name = name, sm_vendor = 0x002A, sm_device = 0x0001,
            sm_ip = i, sm_subnet = [255, 255, 255, 0], sm_gateway = [192, 168, 1, 1],
            sm_auto = auto_sim, sm_stw1 = 0, sm_nsoll = 0, sm_zsw1 = 0x0F21, sm_nist = 0,
            sm_ar_uuid = zeros 16, sm_session_key = 0, sm_ctrl_mac = zeros 6,
            sm_out_fid = 0, sm_in_fid = 0, sm_ref_out = 0, sm_ref_in = 0,
            sm_clock = 128, sm_data_length = 4, sm_phase = Listening, sm_ctrl_addr = None,
            sm_cyclic_started = False, sm_ccid = 0x10000000, sm_rx = 0, sm_tx = 0\<rparr>)))"

text \<open>The line on the console, once a second; names of states are padded to nine characters.\<close>

fun STATE_NAME :: "dev_phase \<Rightarrow> string" where
  "STATE_NAME Idle = ''IDLE''" | "STATE_NAME Listening = ''LISTENING''"
| "STATE_NAME Connected = ''CONNECTED''" | "STATE_NAME Cyclic = ''CYCLIC''"

definition status_line :: "sim \<Rightarrow> string" where
  "status_line s =
     (let name = STATE_NAME (sm_phase s); hex = (\<lambda>v. ''0x'' @ hex_fmt 4 (nat v))
      in ''state='' @ name @ replicate (9 - length name) (CHR '' '') @ '' STW1='' @ hex (sm_stw1 s) @ '' NSOLL='' @ hex (sm_nsoll s)
         @ '' | ZSW1='' @ hex (sm_zsw1 s) @ '' NIST='' @ hex (sm_nist s)
         @ '' | rx='' @ dec_int (sm_rx s) @ '' tx='' @ dec_int (sm_tx s))"

section \<open>The drive\<close>

definition compute_profidrive :: "sim \<Rightarrow> sim" where
  "compute_profidrive s =
     (let on = sm_stw1 s AND 0x0001 \<noteq> 0; en = sm_stw1 s AND 0x0008 \<noteq> 0; sp = sm_stw1 s AND 0x0040 \<noteq> 0
      in if on \<and> en \<and> sp then s\<lparr>sm_zsw1 := 0x0F37, sm_nist := sm_nsoll s\<rparr>
         else if on then s\<lparr>sm_zsw1 := 0x0F31, sm_nist := 0\<rparr>
         else s\<lparr>sm_zsw1 := 0x0F21, sm_nist := 0\<rparr>)"

section \<open>DCP\<close>

definition identify_items :: "sim \<Rightarrow> bytes \<Rightarrow> item list" where
  "identify_items s req =
     [Slice 6 (py_slice 6 12 req), Slice 6 (sm_mac s), Byte 0x88, Byte 0x92, Byte 0xFE, Byte 0xFF,
      Byte 0x05, Byte 0x01, Slice 4 (py_slice 18 22 req), Byte 0, Byte 0, Skip 2]"

definition identify_blocks :: "sim \<Rightarrow> item list" where
  "identify_blocks s =
     (let name = sm_name s; nl = length name in
      [Byte 0x02, Byte 0x02, U16 (int nl + 2), Byte 0, Byte 0, Slice nl name]
      @ (if odd nl then [Byte 0] else [])
      @ [Byte 0x01, Byte 0x02, U16 14, Byte 0, Byte 0, Slice 4 (sm_ip s), Slice 4 (sm_subnet s), Slice 4 (sm_gateway s),
         Byte 0x02, Byte 0x07, U16 6, Byte 0, Byte 0, U16 (sm_vendor s), U16 (sm_device s)])"

definition dcp_identify_frame :: "sim \<Rightarrow> bytes \<Rightarrow> py_error + bytes" where
  "dcp_identify_frame s req =
     bindE (put_items (identify_items s req) (zeros 512, 0)) (\<lambda>(f, start).
     bindE (put_items (identify_blocks s) (f, start)) (\<lambda>(f, pos).
     bindE (put_u16be f (start - 2) (int (pos - start))) (\<lambda>f.
       Inr (take (max pos 60) f))))"

definition dcp_identify_response :: "sim \<Rightarrow> bytes \<Rightarrow> sim_res" where
  "dcp_identify_response s req =
     (case dcp_identify_frame s req of
        Inl e \<Rightarrow> (Some e, s, [])
      | Inr f \<Rightarrow> (None, s\<lparr>sm_tx := sm_tx s + 1\<rparr>, [PcapSend f]))"

text \<open>The loop over the filter blocks: whether the request selects this device.\<close>

function dcp_selects :: "bytes \<Rightarrow> bytes \<Rightarrow> nat \<Rightarrow> nat \<Rightarrow> bool \<Rightarrow> py_error + bool" where
  "dcp_selects buf name stop pos respond =
     (if pos + 4 \<le> stop \<and> stop \<le> length buf then
        (let opt = buf ! pos; sub = buf ! (pos + 1) in
         case u16be buf (pos + 2) of
           Inl e \<Rightarrow> Inl e
         | Inr bl \<Rightarrow>
            (let blk_len = nat bl; pos' = pos + 4 in
             if opt = 0xFF \<and> sub = 0xFF then Inr True
             else
               (let nl = (if blk_len > 2 then blk_len - 2 else 0); off = pos' + 2;
                    respond' = (respond \<or> (opt = 0x02 \<and> sub = 0x02
                      \<and> (off + nl \<le> stop \<and> py_slice off (off + nl) buf = name \<or> name = [])))
                in dcp_selects buf name stop (pos' + blk_len + blk_len mod 2) respond')))
      else Inr respond)"
  by pat_completeness auto

termination by (relation "measure (\<lambda>(buf, name, stop, pos, respond). stop - pos)") auto

declare dcp_selects.simps [simp del]

definition dcp_handle_identify :: "sim \<Rightarrow> bytes \<Rightarrow> sim_res" where
  "dcp_handle_identify s buf =
     (let n = length buf in
      if n < 26 then (None, s, [])
      else if buf ! 14 \<noteq> 0x05 \<or> buf ! 15 \<noteq> 0x00 then (None, s, [])
      else
        (case bindE (u16be buf 22) (\<lambda>data_len. dcp_selects buf (sm_name s) (min (26 + nat data_len) n) 26 False) of
           Inl e \<Rightarrow> (Some e, s, [])
         | Inr respond \<Rightarrow> if respond then dcp_identify_response s buf else (None, s, [])))"

text \<open>One block of a Set request.  Reporting the address reads its four octets.\<close>

definition dcp_set_block :: "sim \<Rightarrow> bytes \<Rightarrow> nat \<Rightarrow> byte \<Rightarrow> byte \<Rightarrow> nat \<Rightarrow> py_error option \<times> sim" where
  "dcp_set_block s buf pos opt sub blk_len =
     (if opt = 0x01 \<and> sub = 0x02 \<and> blk_len \<ge> 14 then
        (let s' = s\<lparr>sm_ip := py_slice (pos + 2) (pos + 6) buf,
                    sm_subnet := py_slice (pos + 6) (pos + 10) buf,
                    sm_gateway := py_slice (pos + 10) (pos + 14) buf\<rparr>
         in (if length (sm_ip s') < 4 then Some IndexError else None, s'))
      else if opt = 0x02 \<and> sub = 0x02 \<and> blk_len \<ge> 2 then
        (let nl = min (blk_len - 2) 239
         in (None, s\<lparr>sm_name := utf8_replace (py_slice (pos + 2) (pos + 2 + nl) buf)\<rparr>))
      else (None, s))"

function dcp_set_blocks :: "bytes \<Rightarrow> nat \<Rightarrow> nat \<Rightarrow> sim \<Rightarrow> py_error option \<times> sim" where
  "dcp_set_blocks buf stop pos s =
     (if pos + 4 \<le> stop \<and> stop \<le> length buf then
        (case u16be buf (pos + 2) of
           Inl e \<Rightarrow> (Some e, s)
         | Inr bl \<Rightarrow>
            (let blk_len = nat bl; pos' = pos + 4 in
             case dcp_set_block s buf pos' (buf ! pos) (buf ! (pos + 1)) blk_len of
               (Some e, s') \<Rightarrow> (Some e, s')
             | (None, s') \<Rightarrow> dcp_set_blocks buf stop (pos' + blk_len + blk_len mod 2) s'))
      else (None, s))"
  by pat_completeness auto

termination by (relation "measure (\<lambda>(buf, stop, pos, s). stop - pos)") auto

declare dcp_set_blocks.simps [simp del]

definition dcp_set_reply :: "sim \<Rightarrow> bytes \<Rightarrow> py_error + bytes" where
  "dcp_set_reply s buf =
     bindE (put_items [Slice 6 (py_slice 6 12 buf), Slice 6 (sm_mac s), Byte 0x88, Byte 0x92, Byte 0xFE, Byte 0xFC,
                       Byte 0x04, Byte 0x01, Slice 4 (py_slice 18 22 buf), Skip 2, Byte 0x00, Byte 0x04,
                       Byte 0xFF, Byte 0xFF, Byte 0x00, Byte 0x03] (zeros 60, 0)) (\<lambda>(r, _). Inr r)"

definition dcp_handle_set :: "sim \<Rightarrow> bytes \<Rightarrow> sim_res" where
  "dcp_handle_set s buf =
     (let n = length buf in
      if n < 26 then (None, s, [])
      else if take 6 buf \<noteq> sm_mac s then (None, s, [])
      else if buf ! 14 \<noteq> 0x04 \<or> buf ! 15 \<noteq> 0x00 then (None, s, [])
      else
        (case u16be buf 22 of
           Inl e \<Rightarrow> (Some e, s, [])
         | Inr data_len \<Rightarrow>
            (case dcp_set_blocks buf (min (26 + nat data_len) n) 26 s of
               (Some e, s') \<Rightarrow> (Some e, s', [])
             | (None, s') \<Rightarrow>
                (case dcp_set_reply s' buf of
                   Inl e \<Rightarrow> (Some e, s', [])
                 | Inr r \<Rightarrow> (None, s'\<lparr>sm_tx := sm_tx s' + 1\<rparr>, [PcapSend r])))))"

section \<open>Cyclic frames\<close>

definition cyclic_rx :: "sim \<Rightarrow> bytes \<Rightarrow> sim" where
  "cyclic_rx s buf =
     (if length buf < 22 then s
      else if (buf ! 16) AND 0x80 = 0 then s
      else
        (let s1 = s\<lparr>sm_stw1 := val16 (buf ! 18) (buf ! 17), sm_nsoll := val16 (buf ! 20) (buf ! 19)\<rparr>;
             s2 = (if sm_auto s1 then compute_profidrive s1 else s1)
         in s2\<lparr>sm_rx := sm_rx s2 + 1\<rparr>))"

text \<open>One turn of the packet thread on what the capture returned.\<close>

definition pkt_step :: "sim \<Rightarrow> bytes option \<Rightarrow> sim_res" where
  "pkt_step s ev =
     (case ev of
        None \<Rightarrow> (None, s, [])
      | Some buf \<Rightarrow>
         if length buf < 16 then (None, s, [])
         else if buf ! 12 \<noteq> 0x88 \<or> buf ! 13 \<noteq> 0x92 then (None, s, [])
         else
           (case u16be buf 14 of
              Inl e \<Rightarrow> (Some e, s, [])
            | Inr fid \<Rightarrow>
               if fid = FID_DCP_IDENTIFY then dcp_handle_identify s buf
               else if fid = FID_DCP_SET then dcp_handle_set s buf
               else if sm_phase s = Cyclic \<and> fid = sm_out_fid s then (None, cyclic_rx s buf, [])
               else (None, s, [])))"

fun pkt_thread :: "sim \<Rightarrow> bytes option list \<Rightarrow> sim_res" where
  "pkt_thread s [] = (None, s, [])"
| "pkt_thread s (ev # evs) =
     (case pkt_step s ev of
        (Some e, s', acts) \<Rightarrow> (Some e, s', acts)
      | (None, s', acts) \<Rightarrow> (case pkt_thread s' evs of (e, s2, acts2) \<Rightarrow> (e, s2, acts @ acts2)))"

text \<open>The period in nanoseconds, and one turn of the cyclic thread: the cycle counter and
  the time of the next frame are its own.\<close>

definition cyclic_period :: "sim \<Rightarrow> int" where
  "cyclic_period s = max (sm_clock s * 31250) 1000000"

definition cyclic_frame :: "sim \<Rightarrow> int \<Rightarrow> py_error + bytes" where
  "cyclic_frame s cc =
     bindE (put_items [Slice 6 (sm_ctrl_mac s), Slice 6 (sm_mac s), Byte 0x88, Byte 0x92,
        Byte (word_of_int (sm_in_fid s div 256)), Byte (word_of_int (sm_in_fid s)), Byte 0x80,
        Byte (word_of_int (sm_zsw1 s)), Byte (word_of_int (sm_zsw1 s div 256)),
        Byte (word_of_int (sm_nist s)), Byte (word_of_int (sm_nist s div 256)), Byte 0x80,
        Byte (word_of_int (cc div 256)), Byte (word_of_int cc), Byte 0x35, Byte 0x00] (zeros 60, 0)) (\<lambda>(f, _). Inr f)"

definition cyclic_turn :: "int \<Rightarrow> int \<Rightarrow> sim \<Rightarrow> int \<times> int \<Rightarrow> sim_res \<times> int \<times> int" where
  "cyclic_turn period now s ct =
     (case ct of (cc, nxt) \<Rightarrow>
       if now < nxt then ((None, s, []), cc, nxt)
       else
         (case cyclic_frame s cc of
            Inl e \<Rightarrow> ((Some e, s, []), cc, nxt + period)
          | Inr f \<Rightarrow> ((None, s\<lparr>sm_tx := sm_tx s + 1\<rparr>, [PcapSend f]), (cc + 1) AND 0xFFFF, nxt + period)))"

end
