(* ===== verification/Sim_Rpc.thy ===== *)
theory Sim_Rpc
  imports Sim
begin

text \<open>
  The RPC server of \<open>simulator/vfd_sim.py\<close>: the Connect, Write, DControl and Release
  handlers with the responses they send, the loop over the datagrams of its socket, and the
  simulator as a whole, as steps of its threads in any order.
\<close>

section \<open>Responses\<close>

definition rpc_hdr :: "bytes \<Rightarrow> bytes \<Rightarrow> int \<Rightarrow> byte \<Rightarrow> py_error + bytes" where
  "rpc_hdr out callid opnum pkt_type =
     bindE (put_items (replicate 24 (Byte 0)) (out, 0)) (\<lambda>(b, _).
     bindE (put8 b 0 4) (\<lambda>b. bindE (put8 b 2 pkt_type) (\<lambda>b.
     bindE (put8 b 3 0x22) (\<lambda>b. bindE (put8 b 4 0x10) (\<lambda>b.
       put_u16le (slice_set 12 16 callid b) 22 opnum)))))"

text \<open>A response: header, object UUID, status, what the handler writes, and the length of it
  all in the header.\<close>

definition rpc_response :: "nat \<Rightarrow> bytes \<Rightarrow> int \<Rightarrow> (cursor \<Rightarrow> py_error + cursor) \<Rightarrow> py_error + bytes" where
  "rpc_response cap buf opnum body =
     bindE (rpc_hdr (zeros cap) (py_slice 12 16 buf) opnum 2) (\<lambda>r.
     bindE (put_items [Slice 16 PN_OBJ_UUID, Slice 4 (zeros 4)] (r, 24)) (\<lambda>c.
     bindE (body c) (\<lambda>(r, rp).
     bindE (put8 r 8 (of_nat rp)) (\<lambda>r.
     bindE (put8 r 9 (of_nat (rp div 256))) (\<lambda>r.
       Inr (take rp r))))))"

definition ar_items :: "sim \<Rightarrow> item list" where
  "ar_items s = [Byte 1, Byte 0, U16 0x0006, Slice 16 (sm_ar_uuid s), U16 (sm_session_key s),
     Slice 6 (sm_mac s), U16 0x8894, U16 0]"

definition iocr_items :: "int \<Rightarrow> int \<Rightarrow> int \<Rightarrow> item list" where
  "iocr_items ty ref fid = [Byte 1, Byte 0, U16 ty, U16 ref, U16 fid]"

definition connect_blocks :: "sim \<Rightarrow> (int \<times> item list) list" where
  "connect_blocks s =
     [(0x8101, ar_items s),
      (0x8102, iocr_items 0x0001 (sm_ref_out s) (sm_out_fid s)),
      (0x8102, iocr_items 0x0002 (sm_ref_in s) (sm_in_fid s)),
      (0x8103, [Byte 1, Byte 0, U16 0x0001, U16 0x0001, U16 200]),
      (0x8104, [Byte 1, Byte 0, U16 1, U32 0, U16 0])]"

fun put_blocks :: "(int \<times> item list) list \<Rightarrow> cursor \<Rightarrow> py_error + cursor" where
  "put_blocks [] c = Inr c"
| "put_blocks ((ty, is) # bs) c = bindE (put_block_items ty is c) (put_blocks bs)"

definition connect_response :: "sim \<Rightarrow> bytes \<Rightarrow> py_error + bytes" where
  "connect_response s buf = rpc_response 512 buf 0 (put_blocks (connect_blocks s))"

section \<open>Connect\<close>

definition connect_reset :: "sim \<Rightarrow> sim" where
  "connect_reset s = s\<lparr>sm_ar_uuid := zeros 16, sm_session_key := 0, sm_out_fid := 0, sm_in_fid := 0,
     sm_ref_out := 0, sm_ref_in := 0, sm_clock := 128, sm_data_length := 4\<rparr>"

text \<open>One block of the request, its body (version included) at \<open>ds\<close>.\<close>

definition connect_block :: "bytes \<Rightarrow> nat \<Rightarrow> int \<Rightarrow> nat \<Rightarrow> sim \<Rightarrow> py_error + sim" where
  "connect_block payload ds blk_type blk_len s =
     (if blk_type = 0x0101 \<and> blk_len \<ge> 28 then
        bindE (u16be payload (ds + 20)) (\<lambda>key.
          Inr (s\<lparr>sm_ar_uuid := py_slice (ds + 4) (ds + 20) payload, sm_session_key := key,
                 sm_ctrl_mac := py_slice (ds + 22) (ds + 28) payload\<rparr>))
      else if blk_type = 0x0102 \<and> blk_len \<ge> 16 then
        bindE (u16be payload (ds + 2)) (\<lambda>iocr_type.
        bindE (u16be payload (ds + 4)) (\<lambda>iocr_ref.
        bindE (u16be payload (ds + 12)) (\<lambda>data_len.
        bindE (u16be payload (ds + 14)) (\<lambda>frame_id.
        bindE (u16be payload (ds + 16)) (\<lambda>clock_f.
          Inr (if iocr_type = 1 then
                 s\<lparr>sm_out_fid := frame_id, sm_ref_out := iocr_ref, sm_data_length := data_len,
                   sm_clock := (if clock_f = 0 then 128 else clock_f)\<rparr>
               else if iocr_type = 2 then s\<lparr>sm_in_fid := frame_id, sm_ref_in := iocr_ref\<rparr>
               else s))))))
      else Inr s)"

function connect_scan :: "bytes \<Rightarrow> nat \<Rightarrow> sim \<Rightarrow> py_error + sim" where
  "connect_scan payload pos s =
     (if pos + 6 \<le> length payload then
        bindE (u16be payload pos) (\<lambda>blk_type.
        bindE (u16be payload (pos + 2)) (\<lambda>bl.
          (let blk_len = nat bl; be = pos + 6 + blk_len in
           if blk_len = 0 then Inr s
           else if be > length payload then Inr s
           else bindE (connect_block payload (pos + 4) blk_type blk_len s) (connect_scan payload be))))
      else Inr s)"
  by pat_completeness auto

termination by (relation "measure (\<lambda>(payload, pos, s). length payload - pos)") auto

declare connect_scan.simps [simp del]

definition rpc_connect :: "sim \<Rightarrow> bytes \<Rightarrow> addr \<Rightarrow> sim_res" where
  "rpc_connect s buf frm =
     (let payload = drop RPC_OFF_PAYLOAD buf in
      if length payload < 4 then (None, s, [])
      else
        (case connect_scan payload 0 (connect_reset s) of
           Inl e \<Rightarrow> (Some e, s, [])
         | Inr s1 \<Rightarrow>
            (case connect_response s1 buf of
               Inl e \<Rightarrow> (Some e, s1, [])
             | Inr r \<Rightarrow> (None, s1\<lparr>sm_ctrl_addr := Some frm, sm_phase := Connected\<rparr>, [RpcSend r frm]))))"

section \<open>Write, DControl, Release\<close>

definition rpc_write :: "sim \<Rightarrow> bytes \<Rightarrow> addr \<Rightarrow> sim_res" where
  "rpc_write s buf frm =
     (case rpc_response 128 buf 5 (put_items [U16 0x8008, U16 0x003C, Skip 60]) of
        Inl e \<Rightarrow> (Some e, s, [])
      | Inr r \<Rightarrow> (None, s, [RpcSend r frm]))"

definition control_items :: "sim \<Rightarrow> int \<Rightarrow> int \<Rightarrow> item list" where
  "control_items s ty cmd = [U16 ty, U16 28, Byte 1, Byte 0, Byte 0, Byte 0, Slice 16 (sm_ar_uuid s),
     U16 (sm_session_key s), Byte 0, Byte 0, U16 cmd, U16 0]"

definition ccontrol_request :: "sim \<Rightarrow> py_error + bytes" where
  "ccontrol_request s =
     bindE (rpc_hdr (zeros (RPC_OFF_PAYLOAD + 24)) (rev (be32 (sm_ccid s))) 3 0) (\<lambda>cc.
     bindE (put_items [Slice 16 (sm_ar_uuid s), U16 (sm_session_key s), U16 0x0000, U16 0x0004, U16 0x0000]
              (cc, RPC_OFF_PAYLOAD)) (\<lambda>(cc, cp).
     bindE (put8 cc 8 (of_nat cp)) (\<lambda>cc.
     bindE (put8 cc 9 (of_nat (cp div 256))) (\<lambda>cc. Inr (take cp cc)))))"

text \<open>ApplicationReady also starts the cyclic thread, unless one is marked started, and sends
  a CControl request to the address of the last Connect; without one, \<open>sendto\<close>
  raises.\<close>

definition rpc_dcontrol :: "sim \<Rightarrow> bytes \<Rightarrow> addr \<Rightarrow> sim_res" where
  "rpc_dcontrol s buf frm =
     (if length buf < RPC_OFF_PAYLOAD + 22 then (None, s, [])
      else
        (case u16be (drop RPC_OFF_PAYLOAD buf) 20 of
           Inl e \<Rightarrow> (Some e, s, [])
         | Inr cmd \<Rightarrow>
            (let ready = cmd AND 0x0004 \<noteq> 0;
                 spawn = (if ready \<and> \<not> sm_cyclic_started s then [SpawnCyclic] else []);
                 s1 = (if ready then s\<lparr>sm_phase := Cyclic, sm_cyclic_started := True\<rparr> else s)
             in case rpc_response 256 buf 2 (put_items (control_items s1 0x8110 cmd)) of
                  Inl e \<Rightarrow> (Some e, s1, spawn)
                | Inr r \<Rightarrow>
                   if \<not> ready then (None, s1, spawn @ [RpcSend r frm])
                   else
                     (let s2 = s1\<lparr>sm_ccid := (sm_ccid s1 + 1) AND 0xFFFFFFFF\<rparr>
                      in case (ccontrol_request s2, sm_ctrl_addr s2) of
                           (Inl e, _) \<Rightarrow> (Some e, s2, spawn @ [RpcSend r frm])
                         | (Inr cc, None) \<Rightarrow> (Some TypeError, s2, spawn @ [RpcSend r frm])
                         | (Inr cc, Some a) \<Rightarrow> (None, s2, spawn @ [RpcSend r frm, RpcSend cc a])))))"

definition rpc_release :: "sim \<Rightarrow> bytes \<Rightarrow> addr \<Rightarrow> sim_res" where
  "rpc_release s buf frm =
     (let s1 = s\<lparr>sm_cyclic_started := False, sm_phase := Listening\<rparr>
      in case rpc_response 128 buf 1 (put_items (control_items s1 0x8111 0x0010)) of
           Inl e \<Rightarrow> (Some e, s1, [])
         | Inr r \<Rightarrow> (None, s1, [RpcSend r frm]))"

section \<open>The server loop\<close>

datatype rpc_ev = RpcTimeout | RpcBroken | RpcData bytes addr

definition rpc_dispatch :: "sim \<Rightarrow> bytes \<Rightarrow> addr \<Rightarrow> sim_res" where
  "rpc_dispatch s buf frm =
     (if length buf < 24 then (None, s, [])
      else
        (case u16le buf 22 of
           Inl e \<Rightarrow> (Some e, s, [])
         | Inr opnum \<Rightarrow>
            if opnum = 0 then rpc_connect s buf frm
            else if opnum = 1 then rpc_release s buf frm
            else if opnum = 2 then rpc_dcontrol s buf frm
            else if opnum = 5 then rpc_write s buf frm
            else (None, s, [])))"

text \<open>A timeout goes on, an error of the socket leaves the loop, an exception of a handler
  ends the thread.\<close>

fun rpc_thread :: "sim \<Rightarrow> rpc_ev list \<Rightarrow> sim_res" where
  "rpc_thread s [] = (None, s, [])"
| "rpc_thread s (RpcTimeout # evs) = rpc_thread s evs"
| "rpc_thread s (RpcBroken # evs) = (None, s, [])"
| "rpc_thread s (RpcData buf frm # evs) =
     (case rpc_dispatch s buf frm of
        (Some e, s', acts) \<Rightarrow> (Some e, s', acts)
      | (None, s', acts) \<Rightarrow> (case rpc_thread s' evs of (e, s2, acts2) \<Rightarrow> (e, s2, acts @ acts2)))"

section \<open>Header and response in closed form\<close>

definition hdr_bytes :: "bytes \<Rightarrow> int \<Rightarrow> byte \<Rightarrow> nat \<Rightarrow> bytes" where
  "hdr_bytes callid opnum pt len =
     [4, 0, pt, 0x22, 0x10, 0, 0, 0, of_nat len, of_nat (len div 256), 0, 0] @ callid @ zeros 6 @ le16 opnum"

lemma zeros_24: "zeros 24 = [0,0,0,0,0,0,0,0,0,0,0,0,0,0,0,0,0,0,0,0,0,0,0,0]"
  by (simp add: zeros_def eval_nat_numeral)

lemma zeros_6: "zeros 6 = [0,0,0,0,0,0]"
  by (simp add: zeros_def eval_nat_numeral)

lemma rpc_hdr_bytes:
  assumes "length callid = 4"
  shows "rpc_hdr (zeros (24 + k)) callid opnum pt = Inr (hdr_bytes callid opnum pt 0 @ zeros k)"
proof -
  obtain a b c d where callid: "callid = [a, b, c, d]"
    using assms by (auto simp: numeral_eq_Suc length_Suc_conv)
  have "items_bytes (replicate n (Byte 0)) = zeros n" for n
    by (induction n) (simp_all add: zeros_Suc)
  moreover have "list_all item_ok (replicate n (Byte 0))" for n
    by (induction n) simp_all
  ultimately have "put_items (replicate 24 (Byte 0)) (zeros (24 + k), 0) = Inr (zeros 24 @ zeros k, 24)"
    using put_items_append [of "replicate 24 (Byte 0)" "24 + k" "[]"] by simp
  then show ?thesis
    by (simp add: rpc_hdr_def zeros_24 put8_def put_u16le_def slice_set_def hdr_bytes_def callid le16_def zeros_6)
qed

text \<open>What writes its bytes behind the cursor, whatever stands before it.\<close>

definition appends :: "(cursor \<Rightarrow> py_error + cursor) \<Rightarrow> bytes \<Rightarrow> bool" where
  "appends f bs \<longleftrightarrow> (\<forall>xs k. length bs \<le> k \<longrightarrow>
     f (xs @ zeros k, length xs) = Inr ((xs @ bs) @ zeros (k - length bs), length (xs @ bs)))"

lemma appendsD:
  "appends f bs \<Longrightarrow> length bs \<le> k \<Longrightarrow> n = length xs \<Longrightarrow>
   f (xs @ zeros k, n) = Inr ((xs @ bs) @ zeros (k - length bs), length (xs @ bs))"
  by (simp add: appends_def)

lemma appends_items: "list_all item_ok is \<Longrightarrow> appends (put_items is) (items_bytes is)"
  unfolding appends_def using put_items_append by blast

lemma appends_block: "list_all item_ok is \<Longrightarrow> appends (put_block_items ty is) (block_bytes ty is)"
  unfolding appends_def using put_block_items_append by blast

lemma appends_nil: "appends Inr []"
  by (simp add: appends_def)

lemma appends_bind:
  assumes "appends f as" and "appends g bs"
  shows "appends (\<lambda>c. bindE (f c) g) (as @ bs)"
  unfolding appends_def
proof (intro allI impI)
  fix xs :: bytes and k
  assume k: "length (as @ bs) \<le> k"
  then have "f (xs @ zeros k, length xs) = Inr ((xs @ as) @ zeros (k - length as), length (xs @ as))"
    using assms(1) by (intro appendsD) auto
  moreover have "g ((xs @ as) @ zeros (k - length as), length (xs @ as)) =
      Inr (((xs @ as) @ bs) @ zeros (k - length as - length bs), length ((xs @ as) @ bs))"
    using assms(2) k by (intro appendsD) auto
  ultimately show "bindE (f (xs @ zeros k, length xs)) g =
      Inr ((xs @ as @ bs) @ zeros (k - length (as @ bs)), length (xs @ as @ bs))"
    by simp
qed

lemma appends_blocks:
  "list_all (\<lambda>(ty, is). list_all item_ok is) bs \<Longrightarrow>
   appends (put_blocks bs) (concat (map (\<lambda>(ty, is). block_bytes ty is) bs))"
proof (induction bs)
  case Nil
  then show ?case using appends_nil by (simp add: appends_def)
next
  case (Cons b bs)
  obtain ty "is" where b: "b = (ty, is)" by force
  have "appends (\<lambda>c. bindE (put_block_items ty is c) (put_blocks bs))
      (block_bytes ty is @ concat (map (\<lambda>(ty, is). block_bytes ty is) bs))"
    using Cons by (intro appends_bind appends_block) (simp_all add: b)
  then show ?case by (simp add: b appends_def)
qed

lemma length_hdr_bytes [simp]: "length callid = 4 \<Longrightarrow> length (hdr_bytes callid opnum pt n) = 24"
  by (simp add: hdr_bytes_def)

lemma put8_8: "put8 (a # b # c # d # e # f # g # h # i # zs) 8 v = Inr (a # b # c # d # e # f # g # h # v # zs)"
  using put8_mid [of 8 "[a, b, c, d, e, f, g, h]"] by simp

lemma put8_9: "put8 (a # b # c # d # e # f # g # h # i # j # zs) 9 v = Inr (a # b # c # d # e # f # g # h # i # v # zs)"
  using put8_mid [of 9 "[a, b, c, d, e, f, g, h, i]"] by simp

lemma hdr_length_field:
  "bindE (put8 (hdr_bytes callid opnum pt 0 @ ys) 8 (of_nat n)) (\<lambda>r. put8 r 9 (of_nat (n div 256))) =
     Inr (hdr_bytes callid opnum pt n @ ys)"
  unfolding hdr_bytes_def append_assoc append_Cons append_Nil put8_8 bindE_simps put8_9 by simp

lemma length_PN_OBJ_UUID [simp]: "length PN_OBJ_UUID = 16"
  by (simp add: PN_OBJ_UUID_def)

text \<open>Every response is its header, with the true length of the whole, the object UUID, a
  zero status and the body.\<close>

lemma rpc_response_bytes:
  assumes "16 \<le> length buf" and "appends body bs" and "44 + length bs \<le> cap"
  shows "rpc_response cap buf opnum body =
    Inr (hdr_bytes (py_slice 12 16 buf) opnum 2 (44 + length bs) @ PN_OBJ_UUID @ zeros 4 @ bs)"
proof -
  let ?id = "py_slice 12 16 buf"
  have id: "length ?id = 4" using assms(1) by (simp add: length_py_slice)
  have hdr: "rpc_hdr (zeros cap) ?id opnum 2 = Inr (hdr_bytes ?id opnum 2 0 @ zeros (cap - 24))"
    using rpc_hdr_bytes [OF id, of "cap - 24"] assms(3) by simp
  have 20: "appends (put_items [Slice 16 PN_OBJ_UUID, Slice 4 (zeros 4)]) (PN_OBJ_UUID @ zeros 4)"
    using appends_items [of "[Slice 16 PN_OBJ_UUID, Slice 4 (zeros 4)]"] by simp
  have uuid: "put_items [Slice 16 PN_OBJ_UUID, Slice 4 (zeros 4)] (hdr_bytes ?id opnum 2 0 @ zeros (cap - 24), 24) =
      Inr ((hdr_bytes ?id opnum 2 0 @ PN_OBJ_UUID @ zeros 4) @ zeros (cap - 44), 44)"
    by (subst appendsD [OF 20]) (use assms(3) id in \<open>simp_all del: put_items.simps\<close>)
  have body: "body ((hdr_bytes ?id opnum 2 0 @ PN_OBJ_UUID @ zeros 4) @ zeros (cap - 44), 44) =
      Inr (((hdr_bytes ?id opnum 2 0 @ PN_OBJ_UUID @ zeros 4) @ bs) @ zeros (cap - 44 - length bs), 44 + length bs)"
    by (subst appendsD [OF assms(2)]) (use assms(3) id in simp_all)
  have "rpc_response cap buf opnum body =
      bindE (bindE (put8 (hdr_bytes ?id opnum 2 0 @ PN_OBJ_UUID @ zeros 4 @ bs @ zeros (cap - 44 - length bs)) 8 (of_nat (44 + length bs)))
        (\<lambda>r. put8 r 9 (of_nat ((44 + length bs) div 256)))) (\<lambda>r. Inr (take (44 + length bs) r))"
    unfolding rpc_response_def hdr bindE_simps uuid body prod.case
    by (simp add: bindE_def split: sum.split)
  also have "\<dots> = Inr (hdr_bytes ?id opnum 2 (44 + length bs) @ PN_OBJ_UUID @ zeros 4 @ bs)"
    unfolding hdr_length_field using id by simp
  finally show ?thesis .
qed

end
