(* ===== verification/Sim_Session.thy ===== *)
theory Sim_Session
  imports Sim_Rpc Pn_Layout
begin

text \<open>
  The simulator as a whole: what a Connect request negotiates, what its response says, which
  datagrams can end the server, how its threads interleave and what they keep, and the drive
  seen through the cyclic frames.
\<close>

section \<open>Requests as lists of blocks\<close>

text \<open>The blocks of a Connect request as this simulator delimits them: the length field counts
  the body behind the two version bytes.\<close>

datatype req =
    ReqAR bytes bytes int bytes bytes
  | ReqIOCR bytes int int bytes int int int bytes
  | ReqOther int bytes

fun req_type :: "req \<Rightarrow> int" where
  "req_type (ReqAR _ _ _ _ _) = 0x0101"
| "req_type (ReqIOCR _ _ _ _ _ _ _ _) = 0x0102"
| "req_type (ReqOther ty _) = ty"

fun req_body :: "req \<Rightarrow> bytes" where
  "req_body (ReqAR hdr uuid key mac rest) = hdr @ uuid @ be16 key @ mac @ rest"
| "req_body (ReqIOCR ver ty ref props dlen fid clk rest) =
     ver @ be16 ty @ be16 ref @ props @ be16 dlen @ be16 fid @ be16 clk @ rest"
| "req_body (ReqOther ty body) = body"

definition u16_ok :: "int \<Rightarrow> bool" where "u16_ok v \<longleftrightarrow> 0 \<le> v \<and> v < 65536"

fun req_ok :: "req \<Rightarrow> bool" where
  "req_ok (ReqAR hdr uuid key mac rest) \<longleftrightarrow> length hdr = 4 \<and> length uuid = 16 \<and> u16_ok key \<and> length mac = 6
     \<and> 2 \<le> length rest \<and> length rest < 65500"
| "req_ok (ReqIOCR ver ty ref props dlen fid clk rest) \<longleftrightarrow> length ver = 2 \<and> u16_ok ty \<and> u16_ok ref
     \<and> length props = 6 \<and> u16_ok dlen \<and> u16_ok fid \<and> u16_ok clk \<and> length rest < 65500"
| "req_ok (ReqOther ty body) \<longleftrightarrow> u16_ok ty \<and> ty \<noteq> 0x0101 \<and> ty \<noteq> 0x0102 \<and> 3 \<le> length body \<and> length body < 65538"

definition req_bytes :: "req \<Rightarrow> bytes" where
  "req_bytes r = be16 (req_type r) @ be16 (int (length (req_body r)) - 2) @ req_body r"

text \<open>What a block of the request means for the device.\<close>

fun absorb :: "sim \<Rightarrow> req \<Rightarrow> sim" where
  "absorb s (ReqAR hdr uuid key mac rest) = s\<lparr>sm_ar_uuid := uuid, sm_session_key := key, sm_ctrl_mac := mac\<rparr>"
| "absorb s (ReqIOCR ver ty ref props dlen fid clk rest) =
     (if ty = 1 then s\<lparr>sm_out_fid := fid, sm_ref_out := ref, sm_data_length := dlen,
                        sm_clock := (if clk = 0 then 128 else clk)\<rparr>
      else if ty = 2 then s\<lparr>sm_in_fid := fid, sm_ref_in := ref\<rparr>
      else s)"
| "absorb s (ReqOther ty body) = s"

lemma u16be_mid: "off = length xs \<Longrightarrow> u16be (xs @ be16 v @ ys) off = Inr (v mod 65536)"
  by (simp add: u16be_def be16_def nth_append val16_be16)

lemma u16be_at:
  "bs = xs @ be16 v @ ys \<Longrightarrow> off = length xs \<Longrightarrow> u16_ok v \<Longrightarrow> u16be bs off = Inr v"
  by (simp add: u16be_mid u16_ok_def)

lemma py_slice_at: "bs = xs @ ys @ zs \<Longrightarrow> a = length xs \<Longrightarrow> b = length xs + length ys \<Longrightarrow> py_slice a b bs = ys"
  by (simp add: py_slice_append)

lemma connect_block_req:
  assumes "req_ok r" and "length xs = ds"
  shows "connect_block (xs @ req_body r @ ys) ds (req_type r) (length (req_body r) - 2) s = Inr (absorb s r)"
proof (cases r)
  case (ReqAR hdr uuid key mac rest)
  let ?p = "xs @ (hdr @ uuid @ be16 key @ mac @ rest) @ ys"
  have "u16be ?p (ds + 20) = Inr key"
    using assms ReqAR by (intro u16be_at [where xs = "xs @ hdr @ uuid"]) simp_all
  moreover have "py_slice (ds + 4) (ds + 20) ?p = uuid"
    using assms ReqAR by (intro py_slice_at [where xs = "xs @ hdr"]) simp_all
  moreover have "py_slice (ds + 22) (ds + 28) ?p = mac"
    using assms ReqAR by (intro py_slice_at [where xs = "xs @ hdr @ uuid @ be16 key"]) simp_all
  ultimately show ?thesis
    using assms ReqAR by (simp add: connect_block_def)
next
  case (ReqIOCR ver ty ref props dlen fid clk rest)
  let ?p = "xs @ (ver @ be16 ty @ be16 ref @ props @ be16 dlen @ be16 fid @ be16 clk @ rest) @ ys"
  have "u16be ?p (ds + 2) = Inr ty"
    using assms ReqIOCR by (intro u16be_at [where xs = "xs @ ver"]) simp_all
  moreover have "u16be ?p (ds + 4) = Inr ref"
    using assms ReqIOCR by (intro u16be_at [where xs = "xs @ ver @ be16 ty"]) simp_all
  moreover have "u16be ?p (ds + 12) = Inr dlen"
    using assms ReqIOCR by (intro u16be_at [where xs = "xs @ ver @ be16 ty @ be16 ref @ props"]) simp_all
  moreover have "u16be ?p (ds + 14) = Inr fid"
    using assms ReqIOCR by (intro u16be_at [where xs = "xs @ ver @ be16 ty @ be16 ref @ props @ be16 dlen"]) simp_all
  moreover have "u16be ?p (ds + 16) = Inr clk"
    using assms ReqIOCR by (intro u16be_at [where xs = "xs @ ver @ be16 ty @ be16 ref @ props @ be16 dlen @ be16 fid"]) simp_all
  ultimately show ?thesis
    using assms ReqIOCR by (simp add: connect_block_def)
next
  case (ReqOther ty body)
  then show ?thesis using assms by (simp add: connect_block_def)
qed

lemma req_ok_length: "req_ok r \<Longrightarrow> 3 \<le> length (req_body r) \<and> length (req_body r) < 65538"
  by (cases r) auto

lemma req_ok_type: "req_ok r \<Longrightarrow> u16_ok (req_type r)"
  by (cases r) (auto simp: u16_ok_def)

lemma length_req_bytes: "length (req_bytes r) = 4 + length (req_body r)"
  by (simp add: req_bytes_def)

lemma connect_scan_req:
  assumes "req_ok r"
  shows "connect_scan (xs @ req_bytes r @ ys) (length xs) s =
    connect_scan (xs @ req_bytes r @ ys) (length xs + length (req_bytes r)) (absorb s r)"
proof -
  let ?p = "xs @ req_bytes r @ ys" and ?n = "length (req_body r)"
  have n: "3 \<le> ?n" "?n < 65538" using req_ok_length [OF assms] by auto
  have ty: "u16be ?p (length xs) = Inr (req_type r)"
    using req_ok_type [OF assms] by (intro u16be_at [where xs = xs]) (simp_all add: req_bytes_def)
  have len: "u16be ?p (length xs + 2) = Inr (int ?n - 2)"
    using n by (intro u16be_at [where xs = "xs @ be16 (req_type r)"]) (simp_all add: req_bytes_def u16_ok_def)
  have body: "connect_block ?p (length xs + 4) (req_type r) (?n - 2) s = Inr (absorb s r)"
    using connect_block_req [OF assms, of "xs @ be16 (req_type r) @ be16 (int ?n - 2)" "length xs + 4" ys s]
    by (simp add: req_bytes_def)
  have be: "length xs + 6 + (?n - 2) = length xs + length (req_bytes r)"
    using n by (simp add: length_req_bytes)
  show ?thesis
    using n ty len body be
    by (subst connect_scan.simps) (simp add: Let_def length_req_bytes nat_diff_distrib add.left_commute)
qed

lemma connect_scan_reqs:
  assumes "list_all req_ok rs" and "length junk < 6"
  shows "connect_scan (xs @ concat (map req_bytes rs) @ junk) (length xs) s = Inr (foldl absorb s rs)"
  using assms(1)
proof (induction rs arbitrary: xs s)
  case Nil
  then show ?case using assms(2) by (subst connect_scan.simps) simp
next
  case (Cons r rs)
  have "connect_scan (xs @ req_bytes r @ concat (map req_bytes rs) @ junk) (length xs) s =
      connect_scan ((xs @ req_bytes r) @ concat (map req_bytes rs) @ junk) (length (xs @ req_bytes r)) (absorb s r)"
    using Cons.prems by (subst connect_scan_req) simp_all
  also have "\<dots> = Inr (foldl absorb (absorb s r) rs)"
    using Cons.prems by (intro Cons.IH) simp
  finally show ?case by simp
qed

section \<open>The parser never reads past the end\<close>

lemma u16be_Inr: "off + 1 < length b \<Longrightarrow> \<exists>v. u16be b off = Inr v \<and> u16_ok v"
  by (simp add: u16be_def u16_ok_def)

text \<open>The answer of the drive to a control word and a speed set-point.\<close>

definition drive_of :: "int \<Rightarrow> int \<Rightarrow> int \<times> int" where
  "drive_of stw1 nsoll =
     (if stw1 AND 1 = 0 then (0x0F21, 0)
      else if stw1 AND 8 \<noteq> 0 \<and> stw1 AND 64 \<noteq> 0 then (0x0F37, nsoll)
      else (0x0F31, 0))"

lemma compute_profidrive_drive_of:
  "compute_profidrive s = s\<lparr>sm_zsw1 := fst (drive_of (sm_stw1 s) (sm_nsoll s)), sm_nist := snd (drive_of (sm_stw1 s) (sm_nsoll s))\<rparr>"
  by (simp add: compute_profidrive_def drive_of_def Let_def)

definition drive_ok :: "sim \<Rightarrow> bool" where
  "drive_ok s \<longleftrightarrow> u16_ok (sm_stw1 s) \<and> u16_ok (sm_nsoll s) \<and> u16_ok (sm_zsw1 s) \<and> u16_ok (sm_nist s)
     \<and> (sm_auto s \<longrightarrow> (sm_zsw1 s, sm_nist s) = drive_of (sm_stw1 s) (sm_nsoll s))"

definition sim_wf :: "sim \<Rightarrow> bool" where
  "sim_wf s \<longleftrightarrow> length (sm_mac s) = 6 \<and> length (sm_ar_uuid s) = 16 \<and> length (sm_ctrl_mac s) = 6
     \<and> u16_ok (sm_session_key s) \<and> u16_ok (sm_out_fid s) \<and> u16_ok (sm_in_fid s)
     \<and> u16_ok (sm_ref_out s) \<and> u16_ok (sm_ref_in s) \<and> 0 < sm_clock s \<and> sm_clock s < 65536
     \<and> drive_ok s"

lemma sim_wf_reset: "sim_wf s \<Longrightarrow> sim_wf (connect_reset s)"
  by (simp add: sim_wf_def connect_reset_def u16_ok_def drive_ok_def)

lemma connect_block_wf:
  assumes "sim_wf s" and "ds + 2 + blk_len \<le> length payload"
  shows "\<exists>s'. connect_block payload ds ty blk_len s = Inr s' \<and> sim_wf s'"
proof (cases "ty = 0x0101 \<and> blk_len \<ge> 28")
  case True
  then obtain key where "u16be payload (ds + 20) = Inr key" "u16_ok key"
    using u16be_Inr [of "ds + 20" payload] assms(2) by auto
  with True assms show ?thesis
    by (auto simp: connect_block_def sim_wf_def drive_ok_def length_py_slice min_def)
next
  case False
  show ?thesis
  proof (cases "ty = 0x0102 \<and> blk_len \<ge> 16")
    case True
    then obtain a b c d e where
      "u16be payload (ds + 2) = Inr a" "u16be payload (ds + 4) = Inr b" "u16be payload (ds + 12) = Inr c"
      "u16be payload (ds + 14) = Inr d" "u16be payload (ds + 16) = Inr e" "u16_ok b" "u16_ok d" "u16_ok e"
      using u16be_Inr [of "ds + 2" payload] u16be_Inr [of "ds + 4" payload] u16be_Inr [of "ds + 12" payload]
        u16be_Inr [of "ds + 14" payload] u16be_Inr [of "ds + 16" payload] assms(2) by auto
    with True assms(1) show ?thesis
      by (simp add: connect_block_def sim_wf_def u16_ok_def drive_ok_def)
  next
    case False
    with \<open>\<not> (ty = 0x0101 \<and> blk_len \<ge> 28)\<close> assms(1) show ?thesis
      by (auto simp: connect_block_def)
  qed
qed

lemma connect_scan_wf: "sim_wf s \<Longrightarrow> \<exists>s'. connect_scan payload pos s = Inr s' \<and> sim_wf s'"
proof (induction payload pos s rule: connect_scan.induct)
  case (1 payload pos s)
  show ?case
  proof (cases "pos + 6 \<le> length payload")
    case True
    then obtain ty bl where r: "u16be payload pos = Inr ty" "u16be payload (pos + 2) = Inr bl"
      using u16be_Inr [of pos payload] u16be_Inr [of "pos + 2" payload] by auto
    show ?thesis
    proof (cases "nat bl = 0 \<or> pos + 6 + nat bl > length payload")
      case True
      with \<open>pos + 6 \<le> length payload\<close> r "1.prems" show ?thesis
        by (subst connect_scan.simps) (auto simp: Let_def)
    next
      case False
      then obtain s1 where s1: "connect_block payload (pos + 4) ty (nat bl) s = Inr s1" "sim_wf s1"
        using connect_block_wf [OF "1.prems", of "pos + 4" "nat bl" payload ty] by auto
      with False True r have "connect_scan payload pos s = connect_scan payload (pos + 6 + nat bl) s1"
        by (subst connect_scan.simps) simp
      moreover have "\<exists>s'. connect_scan payload (pos + 6 + nat bl) s1 = Inr s' \<and> sim_wf s'"
        using False True r s1 by (intro "1.IH") auto
      ultimately show ?thesis by simp
    qed
  next
    case False
    with "1.prems" show ?thesis by (subst connect_scan.simps) simp
  qed
qed

section \<open>The handlers from a well-formed state\<close>

definition reply_bytes :: "sim \<Rightarrow> bytes" where
  "reply_bytes s = concat (map (\<lambda>(ty, is). block_bytes ty is) (connect_blocks s))"

lemma length_reply_bytes: "sim_wf s \<Longrightarrow> length (reply_bytes s) = 86"
  by (simp add: reply_bytes_def connect_blocks_def ar_items_def iocr_items_def sim_wf_def)

lemma connect_response_bytes:
  assumes "sim_wf s" and "16 \<le> length buf"
  shows "connect_response s buf =
    Inr (hdr_bytes (py_slice 12 16 buf) 0 2 130 @ PN_OBJ_UUID @ zeros 4 @ reply_bytes s)"
proof -
  have "appends (put_blocks (connect_blocks s)) (reply_bytes s)"
    unfolding reply_bytes_def using assms(1)
    by (intro appends_blocks) (simp add: connect_blocks_def ar_items_def iocr_items_def sim_wf_def)
  then show ?thesis
    using rpc_response_bytes [OF assms(2), of "put_blocks (connect_blocks s)" "reply_bytes s" 512 0] length_reply_bytes [OF assms(1)]
    by (simp add: connect_response_def)
qed

definition is_connect :: "bytes \<Rightarrow> bool" where
  "is_connect buf \<longleftrightarrow> 44 \<le> length buf \<and> u16le buf 22 = Inr 0"

definition is_ready :: "bytes \<Rightarrow> bool" where
  "is_ready buf \<longleftrightarrow> 62 \<le> length buf \<and> u16le buf 22 = Inr 2
     \<and> (case u16be (drop 40 buf) 20 of Inl _ \<Rightarrow> False | Inr cmd \<Rightarrow> cmd AND 4 \<noteq> 0)"

lemma rpc_connect_wf:
  assumes "sim_wf s" and "44 \<le> length buf"
  shows "\<exists>s1 r. connect_scan (drop 40 buf) 0 (connect_reset s) = Inr s1 \<and> sim_wf s1
    \<and> rpc_connect s buf frm = (None, s1\<lparr>sm_ctrl_addr := Some frm, sm_phase := Connected\<rparr>, [RpcSend r frm])
    \<and> r = hdr_bytes (py_slice 12 16 buf) 0 2 130 @ PN_OBJ_UUID @ zeros 4 @ reply_bytes s1"
proof -
  obtain s1 where "connect_scan (drop 40 buf) 0 (connect_reset s) = Inr s1" "sim_wf s1"
    using connect_scan_wf [OF sim_wf_reset [OF assms(1)]] by blast
  with connect_response_bytes [of s1 buf] assms(2) show ?thesis
    by (simp add: rpc_connect_def RPC_OFF_PAYLOAD_def)
qed

lemma control_response:
  assumes "sim_wf s" and "16 \<le> length buf" and "76 \<le> cap"
  shows "\<exists>r. rpc_response cap buf opnum (put_items (control_items s ty cmd)) = Inr r \<and> length r = 76"
proof -
  have "appends (put_items (control_items s ty cmd)) (items_bytes (control_items s ty cmd))"
    using assms(1) by (intro appends_items) (simp add: control_items_def sim_wf_def)
  moreover have "length (items_bytes (control_items s ty cmd)) = 32"
    using assms(1) by (simp add: control_items_def sim_wf_def)
  ultimately show ?thesis
    using rpc_response_bytes [OF assms(2), of "put_items (control_items s ty cmd)" "items_bytes (control_items s ty cmd)" cap opnum] assms(2,3)
    by (simp add: length_py_slice)
qed

lemma ccontrol_bytes: "sim_wf s \<Longrightarrow> \<exists>cc. ccontrol_request s = Inr cc \<and> length cc = 64"
proof -
  let ?id = "rev (be32 (sm_ccid s))"
  let ?is = "[Slice 16 (sm_ar_uuid s), U16 (sm_session_key s), U16 0x0000, U16 0x0004, U16 0x0000]"
  assume wf: "sim_wf s"
  have hdr: "rpc_hdr (zeros (40 + 24)) ?id 3 0 = Inr (hdr_bytes ?id 3 0 0 @ zeros 40)"
    using rpc_hdr_bytes [of ?id 40 3 0] by simp
  have app: "appends (put_items ?is) (items_bytes ?is)"
    using wf by (intro appends_items) (simp add: sim_wf_def)
  have len: "length (items_bytes ?is) = 24"
    using wf by (simp add: sim_wf_def)
  have "put_items ?is ((hdr_bytes ?id 3 0 0 @ zeros 16) @ zeros 24, 40) =
      Inr (((hdr_bytes ?id 3 0 0 @ zeros 16) @ items_bytes ?is) @ zeros 0, 64)"
    using appendsD [OF app, of 24 40 "hdr_bytes ?id 3 0 0 @ zeros 16"] by (simp add: len del: put_items.simps items_bytes_simps)
  then have "ccontrol_request s = bindE (bindE (put8 (hdr_bytes ?id 3 0 0 @ zeros 16 @ items_bytes ?is) 8 (of_nat 64))
      (\<lambda>r. put8 r 9 (of_nat (64 div 256)))) (\<lambda>cc. Inr (take 64 cc))"
    unfolding ccontrol_request_def RPC_OFF_PAYLOAD_def hdr
    by (simp add: bindE_def zeros_append del: put_items.simps split: sum.split)
  then show ?thesis
    using wf unfolding hdr_length_field by (simp add: sim_wf_def)
qed

lemma drive_wf:
  "sim_wf s \<Longrightarrow> sim_wf (s\<lparr>sm_phase := p\<rparr>)" "sim_wf s \<Longrightarrow> sim_wf (s\<lparr>sm_ctrl_addr := a\<rparr>)"
  "sim_wf s \<Longrightarrow> sim_wf (s\<lparr>sm_cyclic_started := b\<rparr>)" "sim_wf s \<Longrightarrow> sim_wf (s\<lparr>sm_ccid := c\<rparr>)"
  "sim_wf s \<Longrightarrow> sim_wf (s\<lparr>sm_tx := t\<rparr>)" "sim_wf s \<Longrightarrow> sim_wf (s\<lparr>sm_rx := t\<rparr>)"
  by (simp_all add: sim_wf_def drive_ok_def)

lemma u16le_Inr: "off + 1 < length b \<Longrightarrow> \<exists>v. u16le b off = Inr v \<and> u16_ok v"
  by (simp add: u16le_def u16_ok_def)

lemma rpc_dcontrol_ready:
  assumes "sim_wf s" and "is_ready buf"
  shows "\<exists>r cc. rpc_dcontrol s buf frm =
    (let s1 = s\<lparr>sm_phase := Cyclic, sm_cyclic_started := True, sm_ccid := (sm_ccid s + 1) AND 0xFFFFFFFF\<rparr>;
         acts = (if sm_cyclic_started s then [] else [SpawnCyclic]) @ [RpcSend r frm]
     in case sm_ctrl_addr s of None \<Rightarrow> (Some TypeError, s1, acts) | Some a \<Rightarrow> (None, s1, acts @ [RpcSend cc a]))"
proof -
  let ?s1 = "s\<lparr>sm_phase := Cyclic, sm_cyclic_started := True\<rparr>"
  let ?s2 = "?s1\<lparr>sm_ccid := (sm_ccid s + 1) AND 0xFFFFFFFF\<rparr>"
  obtain cmd where cmd: "u16be (drop 40 buf) 20 = Inr cmd" "cmd AND 4 \<noteq> 0"
    using assms(2) by (auto simp: is_ready_def split: sum.splits)
  have n: "62 \<le> length buf" using assms(2) by (simp add: is_ready_def)
  obtain r where r: "rpc_response 256 buf 2 (put_items (control_items ?s1 0x8110 cmd)) = Inr r"
    using control_response [of ?s1 buf 256 2 "0x8110" cmd] drive_wf assms(1) n by auto
  obtain cc where cc: "ccontrol_request ?s2 = Inr cc"
    using ccontrol_bytes [of ?s2] drive_wf assms(1) by auto
  show ?thesis
    using n cmd r cc by (auto simp: rpc_dcontrol_def RPC_OFF_PAYLOAD_def Let_def split: option.split)
qed

lemma rpc_dcontrol_other:
  assumes "sim_wf s" and "\<not> is_ready buf" and "u16le buf 22 = Inr 2"
  shows "\<exists>acts. rpc_dcontrol s buf frm = (None, s, acts)"
proof (cases "62 \<le> length buf")
  case True
  then have "21 < length buf - 40" by arith
  then obtain cmd where cmd: "u16be (drop 40 buf) 20 = Inr cmd"
    using u16be_Inr [of 20 "drop 40 buf"] by auto
  then have "cmd AND 4 = 0" using assms(2,3) True by (simp add: is_ready_def)
  moreover obtain r where "rpc_response 256 buf 2 (put_items (control_items s 0x8110 cmd)) = Inr r"
    using control_response [of s buf 256 2 "0x8110" cmd] assms(1) True by auto
  ultimately show ?thesis
    using True cmd by (simp add: rpc_dcontrol_def RPC_OFF_PAYLOAD_def)
next
  case False
  then show ?thesis by (simp add: rpc_dcontrol_def RPC_OFF_PAYLOAD_def)
qed

lemma rpc_write_wf:
  assumes "16 \<le> length buf"
  shows "\<exists>r. rpc_write s buf frm = (None, s, [RpcSend r frm])"
proof -
  have "appends (put_items [U16 0x8008, U16 0x003C, Skip 60]) (items_bytes [U16 0x8008, U16 0x003C, Skip 60])"
    by (intro appends_items) simp
  then show ?thesis
    using rpc_response_bytes [OF assms, of "put_items [U16 0x8008, U16 0x003C, Skip 60]" _ 128 5]
    by (simp add: rpc_write_def del: put_items.simps)
qed

lemma rpc_release_wf:
  assumes "sim_wf s" and "16 \<le> length buf"
  shows "\<exists>r. rpc_release s buf frm = (None, s\<lparr>sm_cyclic_started := False, sm_phase := Listening\<rparr>, [RpcSend r frm])"
proof -
  let ?s1 = "s\<lparr>sm_cyclic_started := False, sm_phase := Listening\<rparr>"
  obtain r where "rpc_response 128 buf 1 (put_items (control_items ?s1 0x8111 0x0010)) = Inr r"
    using control_response [of ?s1 buf 128 1 "0x8111" "0x0010"] drive_wf assms by auto
  then show ?thesis by (simp add: rpc_release_def)
qed

text \<open>Every datagram leaves a well-formed state; the only exception is the reply to an
  ApplicationReady that no Connect preceded.\<close>

lemma rpc_dispatch_wf:
  assumes "sim_wf s"
  shows "\<exists>s' acts. rpc_dispatch s buf frm =
      ((if is_ready buf \<and> sm_ctrl_addr s = None then Some TypeError else None), s', acts)
    \<and> sim_wf s' \<and> sm_ctrl_addr s' = (if is_connect buf then Some frm else sm_ctrl_addr s)"
proof (cases "24 \<le> length buf")
  case False
  then show ?thesis using assms by (simp add: rpc_dispatch_def is_ready_def is_connect_def)
next
  case True
  then obtain op where op: "u16le buf 22 = Inr op"
    using u16le_Inr [of 22 buf] by auto
  consider "op = 0" "44 \<le> length buf" | "op = 0" "length buf < 44" | "op = 1" | "op = 2" "is_ready buf"
    | "op = 2" "\<not> is_ready buf" | "op = 5" | "op \<notin> {0, 1, 2, 5}" by fastforce
  then show ?thesis
  proof cases
    case 1
    then show ?thesis
      using rpc_connect_wf [OF assms, of buf frm] op True
      by (auto simp: rpc_dispatch_def is_ready_def is_connect_def intro!: drive_wf)
  next
    case 2
    then have "length buf - 40 < 4" by arith
    with 2 show ?thesis
      using op True assms by (simp add: rpc_dispatch_def rpc_connect_def RPC_OFF_PAYLOAD_def is_ready_def is_connect_def)
  next
    case 3
    then show ?thesis
      using rpc_release_wf [OF assms, of buf frm] op True assms drive_wf
      by (auto simp: rpc_dispatch_def is_ready_def is_connect_def)
  next
    case 4
    then show ?thesis
      using rpc_dcontrol_ready [OF assms, of buf frm] op True assms drive_wf
      by (auto simp: rpc_dispatch_def is_connect_def Let_def split: option.split)
  next
    case 5
    then show ?thesis
      using rpc_dcontrol_other [OF assms, of buf frm] op True assms
      by (auto simp: rpc_dispatch_def is_connect_def)
  next
    case 6
    then show ?thesis
      using rpc_write_wf [of buf s frm] op True assms
      by (auto simp: rpc_dispatch_def is_connect_def is_ready_def)
  next
    case 7
    then show ?thesis
      using op True assms by (simp add: rpc_dispatch_def is_connect_def is_ready_def)
  qed
qed

end
