(* ===== verification/Sim_System.thy ===== *)
theory Sim_System
  imports Sim_Session
begin

text \<open>
  The simulator as steps of its threads in any order, and its properties: the negotiation and
  its reply, the datagrams that end the server, the DCP server, and the drive behind the cyclic
  frames.
\<close>

section \<open>The packet thread\<close>

lemma val16_hi: "val16 a b div 256 = uint a"
  by (simp add: val16_def)

text \<open>The FrameID and the service that the DCP handlers ask for are read from the same two
  bytes, so a handler never gets past its test.\<close>

lemma dcp_guard:
  assumes "16 \<le> length buf" and "u16be buf 14 = Inr fid" and "fid = FID_DCP_IDENTIFY \<or> fid = FID_DCP_SET"
  shows "buf ! 14 = 0xFE"
proof -
  have "fid = val16 (buf ! 14) (buf ! 15)" using assms(1,2) by (simp add: u16be_def)
  then have "uint (buf ! 14) = 0xFE" using val16_hi [of "buf ! 14" "buf ! 15"] assms(3)
    by (auto simp: FID_DCP_IDENTIFY_def FID_DCP_SET_def)
  then show ?thesis by (metis word_of_int_numeral word_of_int_uint)
qed

lemma dcp_dead:
  assumes "16 \<le> length buf" and "u16be buf 14 = Inr fid"
  shows "fid = FID_DCP_IDENTIFY \<Longrightarrow> dcp_handle_identify s buf = (None, s, [])"
    and "fid = FID_DCP_SET \<Longrightarrow> dcp_handle_set s buf = (None, s, [])"
  using dcp_guard [OF assms] by (simp_all add: dcp_handle_identify_def dcp_handle_set_def Let_def)

lemma pkt_step_cases:
  "pkt_step s ev = (None, s, []) \<or>
   (\<exists>buf. ev = Some buf \<and> sm_phase s = Cyclic \<and> u16be buf 14 = Inr (sm_out_fid s) \<and> pkt_step s ev = (None, cyclic_rx s buf, []))"
proof (cases ev)
  case (Some buf)
  show ?thesis
  proof (cases "16 \<le> length buf")
    case True
    then obtain fid where fid: "u16be buf 14 = Inr fid" using u16be_Inr [of 14 buf] by auto
    with True Some dcp_dead [OF True fid] show ?thesis by (auto simp: pkt_step_def)
  qed (simp add: pkt_step_def Some)
qed (simp add: pkt_step_def)

lemma drive_of_ok: "u16_ok n \<Longrightarrow> u16_ok (fst (drive_of w n)) \<and> u16_ok (snd (drive_of w n))"
  by (simp add: drive_of_def u16_ok_def)

lemma cyclic_rx_wf: "sim_wf s \<Longrightarrow> sim_wf (cyclic_rx s buf)"
  using drive_of_ok [of "val16 (buf ! 20) (buf ! 19)" "val16 (buf ! 18) (buf ! 17)"]
  by (auto simp: cyclic_rx_def sim_wf_def drive_ok_def compute_profidrive_drive_of Let_def u16_ok_def)

lemma pkt_step_wf: "sim_wf s \<Longrightarrow> \<exists>s'. pkt_step s ev = (None, s', []) \<and> sim_wf s'"
  using pkt_step_cases [of s ev] cyclic_rx_wf [of s] by auto

section \<open>The cyclic thread\<close>

lemma cyclic_frame_bytes:
  assumes "sim_wf s"
  shows "cyclic_frame s cc = Inr (sm_ctrl_mac s @ sm_mac s @ [0x88, 0x92] @ be16 (sm_in_fid s) @ [0x80]
     @ le16 (sm_zsw1 s) @ le16 (sm_nist s) @ [0x80] @ be16 cc @ [0x35, 0] @ zeros 34)"
proof -
  let ?is = "[Slice 6 (sm_ctrl_mac s), Slice 6 (sm_mac s), Byte 0x88, Byte 0x92,
        Byte (word_of_int (sm_in_fid s div 256)), Byte (word_of_int (sm_in_fid s)), Byte 0x80,
        Byte (word_of_int (sm_zsw1 s)), Byte (word_of_int (sm_zsw1 s div 256)),
        Byte (word_of_int (sm_nist s)), Byte (word_of_int (sm_nist s div 256)), Byte 0x80,
        Byte (word_of_int (cc div 256)), Byte (word_of_int cc), Byte 0x35, Byte 0x00]"
  have app: "appends (put_items ?is) (items_bytes ?is)"
    using assms by (intro appends_items) (simp add: sim_wf_def)
  have len: "length (items_bytes ?is) = 26"
    using assms by (simp add: sim_wf_def)
  have "put_items ?is (zeros 60, 0) = Inr (items_bytes ?is @ zeros 34, 26)"
    using appendsD [OF app, of 60 0 "[]"] by (simp add: len del: put_items.simps items_bytes_simps)
  then show ?thesis
    unfolding cyclic_frame_def by (simp add: be16_def le16_def del: put_items.simps)
qed

lemma cyclic_turn_wf:
  "sim_wf s \<Longrightarrow> \<exists>s' acts ct'. cyclic_turn p now s ct = ((None, s', acts), ct') \<and> sim_wf s'"
  by (cases ct) (simp add: cyclic_turn_def cyclic_frame_bytes drive_wf)

section \<open>All threads together\<close>

inductive sim_step :: "sim \<Rightarrow> py_error option \<Rightarrow> sim_act list \<Rightarrow> sim \<Rightarrow> bool" where
  Packet: "pkt_step s ev = (e, s', acts) \<Longrightarrow> sim_step s e acts s'"
| Datagram: "rpc_dispatch s buf frm = (e, s', acts) \<Longrightarrow> sim_step s e acts s'"
| Turn: "cyclic_turn (cyclic_period s) now s ct = ((e, s', acts), ct') \<Longrightarrow> sim_step s e acts s'"

inductive_cases sim_stepE: "sim_step s e acts s'"

inductive sim_reach :: "sim \<Rightarrow> bool" where
  Init: "sim_init name ip mac auto_sim = Inr s \<Longrightarrow> length (sm_mac s) = 6 \<Longrightarrow> sim_reach s"
| Step: "sim_reach s \<Longrightarrow> sim_step s e acts s' \<Longrightarrow> sim_reach s'"

lemma sim_init_wf: "sim_init name ip mac auto_sim = Inr s \<Longrightarrow> length (sm_mac s) = 6 \<Longrightarrow> sim_wf s"
  by (auto simp: sim_init_def bindE_Inr sim_wf_def drive_ok_def drive_of_def u16_ok_def)

lemma sim_step_wf: "sim_step s e acts s' \<Longrightarrow> sim_wf s \<Longrightarrow> sim_wf s'"
proof (erule sim_stepE)
  fix buf frm
  assume "rpc_dispatch s buf frm = (e, s', acts)" "sim_wf s"
  then show "sim_wf s'" using rpc_dispatch_wf [of s buf frm] by auto
next
  fix ev
  assume "pkt_step s ev = (e, s', acts)" "sim_wf s"
  then show "sim_wf s'" using pkt_step_wf [of s ev] by auto
next
  fix now ct ct'
  assume "cyclic_turn (cyclic_period s) now s ct = ((e, s', acts), ct')" "sim_wf s"
  then show "sim_wf s'" using cyclic_turn_wf [of s "cyclic_period s" now ct] by auto
qed

lemma sim_reach_wf: "sim_reach s \<Longrightarrow> sim_wf s"
  by (induction rule: sim_reach.induct) (auto intro: sim_init_wf sim_step_wf)

section \<open>A session at a time\<close>

lemma sim_step_error: "sim_wf s \<Longrightarrow> sim_step s (Some e) acts s' \<Longrightarrow> e = TypeError \<and> sm_ctrl_addr s = None"
proof (erule sim_stepE)
  fix buf frm
  assume "rpc_dispatch s buf frm = (Some e, s', acts)" "sim_wf s"
  then show ?thesis using rpc_dispatch_wf [of s buf frm] by (auto split: if_splits)
next
  fix ev
  assume "pkt_step s ev = (Some e, s', acts)" "sim_wf s"
  then show ?thesis using pkt_step_wf [of s ev] by auto
next
  fix now ct ct'
  assume "cyclic_turn (cyclic_period s) now s ct = ((Some e, s', acts), ct')" "sim_wf s"
  then show ?thesis using cyclic_turn_wf [of s "cyclic_period s" now ct] by auto
qed

definition is_release :: "bytes \<Rightarrow> bool" where
  "is_release buf \<longleftrightarrow> 24 \<le> length buf \<and> u16le buf 22 = Inr 1"

definition spawns :: "sim_act list \<Rightarrow> nat" where
  "spawns acts = length (filter (\<lambda>a. a = SpawnCyclic) acts)"

lemma spawns_append [simp]: "spawns (xs @ ys) = spawns xs + spawns ys"
  by (simp add: spawns_def)

lemma connect_block_started:
  "connect_block payload ds ty n s = Inr s' \<Longrightarrow> sm_cyclic_started s' = sm_cyclic_started s"
  unfolding connect_block_def bindE_def by (auto split: if_split_asm sum.split_asm)

lemma connect_scan_started:
  "connect_scan payload pos s = Inr s' \<Longrightarrow> sm_cyclic_started s' = sm_cyclic_started s"
proof (induction payload pos s rule: connect_scan.induct)
  case (1 payload pos s)
  show ?case
  proof (cases "pos + 6 \<le> length payload")
    case False
    with "1.prems" show ?thesis by (subst (asm) connect_scan.simps) simp
  next
    case True
    then obtain ty bl where r: "u16be payload pos = Inr ty" "u16be payload (pos + 2) = Inr bl"
      using "1.prems" by (subst (asm) connect_scan.simps) (auto simp: bindE_Inr)
    then consider "s' = s" | s1 where "connect_block payload (pos + 4) ty (nat bl) s = Inr s1"
        "connect_scan payload (pos + 6 + nat bl) s1 = Inr s'" "nat bl \<noteq> 0" "\<not> pos + 6 + nat bl > length payload"
      using True "1.prems"
      by (subst (asm) connect_scan.simps) (auto simp: bindE_Inr Let_def split: if_splits)
    then show ?thesis
    proof cases
      case 2
      with "1.IH" [OF True refl refl] connect_block_started show ?thesis by auto
    qed simp
  qed
qed

section \<open>Reading a reply\<close>

text \<open>Type, length and body of each block, as PROFINET counts them.\<close>

function tlv :: "bytes \<Rightarrow> (int \<times> bytes) list option" where
  "tlv bs =
     (case bs of
        [] \<Rightarrow> Some []
      | a # b # c # d # r \<Rightarrow>
          (let n = nat (val16 c d) in
           if n \<le> length r then map_option ((#) (val16 a b, take n r)) (tlv (drop n r)) else None)
      | _ \<Rightarrow> None)"
  by pat_completeness auto

termination by (relation "measure length") auto

declare tlv.simps [simp del]

lemma tlv_block:
  assumes "u16_ok ty" and "length (items_bytes is) < 65536"
  shows "tlv (block_bytes ty is @ r) = map_option ((#) (ty, items_bytes is)) (tlv r)"
  using assms
  using val16_be16 [of ty] val16_be16 [of "int (length (items_bytes is))"]
  by (subst tlv.simps) (simp add: block_bytes_def be16_def u16_ok_def)

definition reply_view :: "sim \<Rightarrow> (int \<times> bytes) list" where
  "reply_view s =
     [(0x8101, [1, 0] @ be16 6 @ sm_ar_uuid s @ be16 (sm_session_key s) @ sm_mac s @ be16 0x8894 @ be16 0),
      (0x8102, [1, 0] @ be16 1 @ be16 (sm_ref_out s) @ be16 (sm_out_fid s)),
      (0x8102, [1, 0] @ be16 2 @ be16 (sm_ref_in s) @ be16 (sm_in_fid s)),
      (0x8103, [1, 0] @ be16 1 @ be16 1 @ be16 200),
      (0x8104, [1, 0] @ be16 1 @ be32 0 @ be16 0)]"

lemma tlv_reply: "sim_wf s \<Longrightarrow> tlv (reply_bytes s) = Some (reply_view s)"
proof -
  assume wf: "sim_wf s"
  have nil: "tlv [] = Some []" by (subst tlv.simps) simp
  have all: "list_all (\<lambda>(ty, is). u16_ok ty \<and> length (items_bytes is) < 65536) bs \<Longrightarrow>
      tlv (concat (map (\<lambda>(ty, is). block_bytes ty is) bs)) = Some (map (\<lambda>(ty, is). (ty, items_bytes is)) bs)" for bs
    by (induction bs) (auto simp: nil tlv_block)
  have "list_all (\<lambda>(ty, is). u16_ok ty \<and> length (items_bytes is) < 65536) (connect_blocks s)"
    using wf by (simp add: connect_blocks_def ar_items_def iocr_items_def u16_ok_def sim_wf_def)
  then have "tlv (reply_bytes s) = Some (map (\<lambda>(ty, is). (ty, items_bytes is)) (connect_blocks s))"
    unfolding reply_bytes_def by (rule all)
  also have "map (\<lambda>(ty, is). (ty, items_bytes is)) (connect_blocks s) = reply_view s"
    by (simp add: connect_blocks_def ar_items_def iocr_items_def reply_view_def)
  finally show ?thesis .
qed

section \<open>Properties\<close>

lemma connect_requests:
  assumes "sim_wf s" and "list_all req_ok rs" and "rs \<noteq> []" and "length junk < 6"
    and "length hdr = 40" and "buf = hdr @ concat (map req_bytes rs) @ junk"
  shows "\<exists>r. rpc_connect s buf frm =
    (None, (foldl absorb (connect_reset s) rs)\<lparr>sm_ctrl_addr := Some frm, sm_phase := Connected\<rparr>, [RpcSend r frm])"
proof -
  obtain q rs' where rs: "rs = q # rs'" using assms(3) by (cases rs) auto
  have "44 \<le> length buf" using assms(5,6) by (simp add: rs length_req_bytes)
  moreover have "connect_scan (drop 40 buf) 0 (connect_reset s) = Inr (foldl absorb (connect_reset s) rs)"
    using connect_scan_reqs [OF assms(2,4), of "[]" "connect_reset s"] assms(5,6) by simp
  ultimately show ?thesis
    using rpc_connect_wf [OF assms(1), of buf frm] by auto
qed

text \<open>C16: A Connect request negotiates exactly what its blocks say: from any reachable state, a
  request made of well-formed blocks, in any number and order and followed by less than a
  block header, leaves the AR identifiers, frame identifiers and timing that the blocks give
  one after the other, on top of the defaults; the device is connected to the sender, and the
  one datagram sent back goes to it.\<close>

theorem connect_negotiates:
  assumes "sim_reach s" and "list_all req_ok rs" and "rs \<noteq> []" and "length junk < 6"
    and "length hdr = 40" and "buf = hdr @ concat (map req_bytes rs) @ junk"
  shows "\<exists>r. rpc_connect s buf frm =
    (None, (foldl absorb (connect_reset s) rs)\<lparr>sm_ctrl_addr := Some frm, sm_phase := Connected\<rparr>, [RpcSend r frm])"
  by (rule connect_requests [OF sim_reach_wf [OF assms(1)] assms(2-6)])

definition demo_sim :: sim where
  "demo_sim = (case sim_init (map (\<lambda>c. of_nat (ord_c c)) ''vfd'') ''192.168.1.50'' ''02:00:00:11:22:33'' True of
     Inr s \<Rightarrow> s | Inl _ \<Rightarrow> undefined)"

lemma demo_sim_init:
  "sim_init (map (\<lambda>c. of_nat (ord_c c)) ''vfd'') ''192.168.1.50'' ''02:00:00:11:22:33'' True = Inr demo_sim \<and> length (sm_mac demo_sim) = 6"
  unfolding demo_sim_def by code_simp

lemma demo_sim_reach: "sim_reach demo_sim"
  using demo_sim_init by (blast intro: sim_reach.Init)

definition demo_reqs :: "req list" where
  "demo_reqs = [ReqAR (zeros 4) (zeros 16) 7 [1, 2, 3, 4, 5, 6] (zeros 2),
                ReqIOCR (zeros 2) 1 0x1000 (zeros 6) 40 0x8000 32 [],
                ReqIOCR (zeros 2) 2 0x2000 (zeros 6) 40 0x8001 32 []]"

lemma demo_reqs_ok: "list_all req_ok demo_reqs" "demo_reqs \<noteq> []"
  by (simp_all add: demo_reqs_def u16_ok_def)

lemma connect_negotiates_witness:
  "\<exists>s r. rpc_connect demo_sim (zeros 40 @ concat (map req_bytes demo_reqs)) (''10.0.0.1'', 34964) =
     (None, s, [RpcSend r (''10.0.0.1'', 34964)]) \<and> sm_out_fid s = 0x8000 \<and> sm_in_fid s = 0x8001 \<and> sm_clock s = 32"
  using connect_negotiates [OF demo_sim_reach demo_reqs_ok, of "[]" "zeros 40" _ "(''10.0.0.1'', 34964)", OF _ _ refl]
  by (auto simp: demo_reqs_def)

text \<open>C17: Every Connect that is long enough is answered, in every reachable state: the reply carries the call
  identifier of the request and its own length in the header, and behind it five blocks in
  PROFINET's own encoding, with the AR identifier, the session key, the address and the frame
  identifiers that the device now uses.\<close>

theorem connect_reply_decodes:
  assumes "sim_reach s" and "44 \<le> length buf"
  shows "\<exists>s' r. rpc_connect s buf frm = (None, s', [RpcSend r frm]) \<and> sm_phase s' = Connected
    \<and> py_slice 12 16 r = py_slice 12 16 buf \<and> u16le r 8 = Inr (int (length r))
    \<and> tlv (drop 44 r) = Some (reply_view s')"
proof -
  obtain s1 r where r: "sim_wf s1" "rpc_connect s buf frm = (None, s1\<lparr>sm_ctrl_addr := Some frm, sm_phase := Connected\<rparr>, [RpcSend r frm])"
      "r = hdr_bytes (py_slice 12 16 buf) 0 2 130 @ PN_OBJ_UUID @ zeros 4 @ reply_bytes s1"
    using rpc_connect_wf [OF sim_reach_wf [OF assms(1)] assms(2)] by blast
  have id: "length (py_slice 12 16 buf) = 4" using assms(2) by (simp add: length_py_slice)
  have len: "length r = 130" using r(1,3) id by (simp add: length_reply_bytes)
  have "py_slice 12 16 r = py_slice 12 16 buf"
    unfolding r(3) using id by (simp add: hdr_bytes_def py_slice_def)
  moreover have "u16le r 8 = Inr (int (length r))"
    unfolding len unfolding u16le_def len unfolding r(3) by (simp add: hdr_bytes_def val16_def)
  moreover have "drop 44 r = reply_bytes s1"
    unfolding r(3) using id by simp
  moreover have "tlv (reply_bytes s1) = Some (reply_view s1)"
    by (rule tlv_reply [OF r(1)])
  moreover have "reply_view (s1\<lparr>sm_ctrl_addr := Some frm, sm_phase := Connected\<rparr>) = reply_view s1"
    by (simp add: reply_view_def)
  ultimately show ?thesis
    using r(2) by auto
qed

lemma connect_reply_decodes_witness:
  "\<exists>s' r. rpc_connect demo_sim (zeros 44) (''10.0.0.1'', 34964) = (None, s', [RpcSend r (''10.0.0.1'', 34964)])
    \<and> tlv (drop 44 r) = Some (reply_view s')"
  using connect_reply_decodes [OF demo_sim_reach, of "zeros 44" "(''10.0.0.1'', 34964)"] by auto




definition demo_ready :: bytes where
  "demo_ready = zeros 22 @ [2, 0] @ zeros 36 @ [0, 4]"

lemma demo_ready: "is_ready demo_ready"
  by (simp add: is_ready_def demo_ready_def u16le_def u16be_def val16_def nth_append zeros_def)


text \<open>C20: The DCP server never answers and never assigns: whatever the capture returns, the packet thread
  neither fails nor sends a frame, and the station name and the addresses stay as they were.  The
  FrameID test of the dispatcher and the service test of the handlers read the same two bytes.\<close>

theorem dcp_unanswered:
  "fst (pkt_thread s evs) = None \<and> snd (snd (pkt_thread s evs)) = []
   \<and> sm_name (fst (snd (pkt_thread s evs))) = sm_name s \<and> sm_ip (fst (snd (pkt_thread s evs))) = sm_ip s"
proof (induction evs arbitrary: s)
  case (Cons ev evs)
  have rx: "sm_name (cyclic_rx s buf) = sm_name s" "sm_ip (cyclic_rx s buf) = sm_ip s" for buf
    by (simp_all add: cyclic_rx_def compute_profidrive_drive_of Let_def)
  obtain s' where "pkt_step s ev = (None, s', [])" "sm_name s' = sm_name s" "sm_ip s' = sm_ip s"
    using pkt_step_cases [of s ev] rx by auto
  with Cons.IH [of s'] show ?case
    by (simp split: prod.split)
qed simp

text \<open>C15: The drive behind the cyclic frames: in every reachable state of an automatic simulator in cyclic
  operation, a frame with the negotiated FrameID and a good provider status that carries a control
  word and a set-point in its bytes 17 to 20, low byte first, is answered, at the next turn that
  is due, by a frame of 60 bytes to the controller with the negotiated FrameID, the status word
  and the actual value that the drive gives for exactly those values, and the cycle counter.\<close>

theorem drive_exchange:
  assumes "sim_reach s" and "sm_auto s" and "sm_phase s = Cyclic"
    and "u16_ok stw1" and "u16_ok nsoll" and "fid = sm_out_fid s" and "fid \<noteq> FID_DCP_IDENTIFY" and "fid \<noteq> FID_DCP_SET"
    and "length addrs = 12" and "iops AND 0x80 \<noteq> 0" and "rest \<noteq> []"
    and "buf = addrs @ [0x88, 0x92] @ be16 fid @ [iops] @ le16 stw1 @ le16 nsoll @ rest"
    and "nxt \<le> now"
  shows "\<exists>s' f. pkt_step s (Some buf) = (None, s', [])
    \<and> cyclic_turn period now s' (cc, nxt) = ((None, s'\<lparr>sm_tx := sm_tx s' + 1\<rparr>, [PcapSend f]), (cc + 1) AND 0xFFFF, nxt + period)
    \<and> length f = 60 \<and> take 6 f = sm_ctrl_mac s \<and> u16be f 14 = Inr (sm_in_fid s)
    \<and> u16le f 17 = Inr (fst (drive_of stw1 nsoll)) \<and> u16le f 19 = Inr (snd (drive_of stw1 nsoll))
    \<and> u16be f 22 = Inr (cc mod 65536)"
proof -
  have wf: "sim_wf s" by (rule sim_reach_wf [OF assms(1)])
  let ?w = "drive_of stw1 nsoll"
  let ?s1 = "s\<lparr>sm_stw1 := stw1, sm_nsoll := nsoll, sm_zsw1 := fst ?w, sm_nist := snd ?w, sm_rx := sm_rx s + 1\<rparr>"
  obtain a0 a1 a2 a3 a4 a5 a6 a7 a8 a9 a10 a11 where addrs: "addrs = [a0, a1, a2, a3, a4, a5, a6, a7, a8, a9, a10, a11]"
    using assms(9) by (auto simp: numeral_eq_Suc length_Suc_conv)
  have nth: "buf ! 12 = 0x88" "buf ! 13 = 0x92" "buf ! 16 = iops" "22 \<le> length buf"
    "val16 (buf ! 14) (buf ! 15) = fid" "val16 (buf ! 18) (buf ! 17) = stw1" "val16 (buf ! 20) (buf ! 19) = nsoll"
    using wf assms(4,5,6,11) val16_be16 [of fid] val16_be16 [of stw1] val16_be16 [of nsoll]
    by (simp_all add: assms(12) addrs be16_def le16_def u16_ok_def sim_wf_def Suc_le_eq)
  have rx: "cyclic_rx s buf = ?s1"
    using nth assms(2,10) by (simp add: cyclic_rx_def compute_profidrive_drive_of)
  have step: "pkt_step s (Some buf) = (None, ?s1, [])"
    using nth assms(3,6,7,8) rx by (simp add: pkt_step_def u16be_def)
  have wf1: "sim_wf ?s1"
    using cyclic_rx_wf [OF wf, of buf] by (simp add: rx)
  let ?f = "sm_ctrl_mac s @ sm_mac s @ [0x88, 0x92] @ be16 (sm_in_fid s) @ [0x80]
     @ le16 (fst ?w) @ le16 (snd ?w) @ [0x80] @ be16 cc @ [0x35, 0] @ zeros 34"
  have f: "cyclic_frame ?s1 cc = Inr ?f"
    by (subst cyclic_frame_bytes [OF wf1]) simp
  have len: "length (sm_ctrl_mac s) = 6" "length (sm_mac s) = 6" using wf by (simp_all add: sim_wf_def)
  have ok: "u16_ok (sm_in_fid s)" "u16_ok (fst ?w)" "u16_ok (snd ?w)"
    using wf drive_of_ok [OF assms(5), of stw1] by (simp_all add: sim_wf_def)
  have le: "u16le (xs @ le16 v @ ys) n = Inr v" if "n = length xs" "u16_ok v" for xs v ys n
    using that val16_be16 [of v] by (simp add: u16le_def le16_def nth_append u16_ok_def)
  have "u16be ?f 14 = Inr (sm_in_fid s)"
    using ok by (intro u16be_at [where xs = "sm_ctrl_mac s @ sm_mac s @ [0x88, 0x92]"]) (simp_all add: len)
  moreover have "u16le ?f 17 = Inr (fst ?w)"
    using le [of 17 "sm_ctrl_mac s @ sm_mac s @ [0x88, 0x92] @ be16 (sm_in_fid s) @ [0x80]"] ok by (simp add: len)
  moreover have "u16le ?f 19 = Inr (snd ?w)"
    using le [of 19 "sm_ctrl_mac s @ sm_mac s @ [0x88, 0x92] @ be16 (sm_in_fid s) @ [0x80] @ le16 (fst ?w)"] ok by (simp add: len)
  moreover have "u16be ?f 22 = Inr (cc mod 65536)"
    using u16be_mid [of 22 "sm_ctrl_mac s @ sm_mac s @ [0x88, 0x92] @ be16 (sm_in_fid s) @ [0x80] @ le16 (fst ?w) @ le16 (snd ?w) @ [0x80]"]
    by (simp add: len)
  ultimately show ?thesis
    using step f assms(13) len by (intro exI [of _ ?s1] exI [of _ ?f]) (simp add: cyclic_turn_def)
qed

definition demo_connect :: bytes where
  "demo_connect = zeros 40 @ concat (map req_bytes demo_reqs)"

definition demo_running :: sim where
  "demo_running = (foldl absorb (connect_reset demo_sim) demo_reqs)\<lparr>sm_ctrl_addr := Some (''10.0.0.1'', 34964),
     sm_phase := Cyclic, sm_cyclic_started := True, sm_ccid := (sm_ccid (foldl absorb (connect_reset demo_sim) demo_reqs) + 1) AND 0xFFFFFFFF\<rparr>"

lemma demo_connect: "is_connect demo_connect" "24 \<le> length demo_connect" "u16le demo_connect 22 = Inr 0"
  by (simp_all add: is_connect_def demo_connect_def demo_reqs_def req_bytes_def u16le_def val16_def nth_append zeros_def)

lemma demo_running_reach: "sim_reach demo_running"
proof -
  let ?a = "(''10.0.0.1'', 34964)"
  let ?s1 = "(foldl absorb (connect_reset demo_sim) demo_reqs)\<lparr>sm_ctrl_addr := Some ?a, sm_phase := Connected\<rparr>"
  obtain r where "rpc_connect demo_sim demo_connect ?a = (None, ?s1, [RpcSend r ?a])"
    using connect_requests [OF sim_reach_wf [OF demo_sim_reach] demo_reqs_ok, of "[]" "zeros 40" demo_connect ?a]
    by (auto simp: demo_connect_def)
  then have "rpc_dispatch demo_sim demo_connect ?a = (None, ?s1, [RpcSend r ?a])"
    by (simp add: rpc_dispatch_def demo_connect not_less)
  then have reach: "sim_reach ?s1"
    by (rule sim_reach.Step [OF demo_sim_reach sim_step.Datagram])
  have "24 \<le> length demo_ready" "u16le demo_ready 22 = Inr 2"
    using demo_ready by (auto simp: is_ready_def)
  then have "\<exists>acts. rpc_dispatch ?s1 demo_ready ?a = (None, demo_running, acts)"
    using rpc_dcontrol_ready [OF sim_reach_wf [OF reach] demo_ready, of ?a]
    by (auto simp: rpc_dispatch_def demo_running_def)
  then show ?thesis
    using sim_reach.Step [OF reach sim_step.Datagram] by blast
qed

lemma demo_running_facts:
  "sim_reach demo_running" "sm_auto demo_running" "sm_phase demo_running = Cyclic" "sm_out_fid demo_running = 0x8000"
proof -
  have "sm_auto demo_sim" unfolding demo_sim_def by code_simp
  then show "sm_auto demo_running" "sm_phase demo_running = Cyclic" "sm_out_fid demo_running = 0x8000"
    by (simp_all add: demo_running_def demo_reqs_def connect_reset_def)
qed (rule demo_running_reach)

definition demo_output :: bytes where
  "demo_output = zeros 12 @ [0x88, 0x92] @ be16 0x8000 @ [0x80] @ le16 0x047F @ le16 0x1000 @ [0x80]"

lemma drive_exchange_witness:
  "\<exists>s' f. pkt_step demo_running (Some demo_output) = (None, s', [])
    \<and> cyclic_turn 1000000 5 s' (0, 5) = ((None, s'\<lparr>sm_tx := sm_tx s' + 1\<rparr>, [PcapSend f]), 1, 1000005)
    \<and> u16le f 17 = Inr 0x0F37 \<and> u16le f 19 = Inr 0x1000"
proof -
  have drive: "drive_of 0x047F 0x1000 = (0x0F37, 0x1000)" by (simp add: drive_of_def)
  have inc: "(0 + 1 :: int) AND 0xFFFF = 1" "(5 :: int) + 1000000 = 1000005" by simp_all
  have num: "u16_ok 0x047F" "u16_ok 0x1000" "(0x8000 :: int) \<noteq> FID_DCP_IDENTIFY" "(0x8000 :: int) \<noteq> FID_DCP_SET"
      "(0x80 :: byte) AND 0x80 \<noteq> 0" "length (zeros 12) = 12" "[0x80 :: byte] \<noteq> []" "(5 :: int) \<le> 5"
    by (simp_all add: u16_ok_def FID_DCP_IDENTIFY_def FID_DCP_SET_def)
  show ?thesis
    using drive_exchange [OF demo_running_facts(1-3) num(1,2) demo_running_facts(4) [symmetric] num(3,4,6,5,7) demo_output_def num(8), of 1000000 0]
    unfolding drive inc fst_conv snd_conv by blast
qed

text \<open>C22: The simulator and the Python controller count block lengths differently: an IOCR block as the controller
  builds it, at the end of a Connect request, is never applied, because the simulator takes it to
  end two bytes later than it does.\<close>

theorem controller_iocr_unread:
  assumes "build_iocr_block ip ty setup = Inr blk"
  shows "connect_scan (xs @ blk) (length xs) s = Inr s"
proof -
  obtain hdr apisec h where "blk = h @ [1, 0] @ (hdr @ apisec)" "pack_Hs [0x0102, int (length (hdr @ apisec)) + 2] = Inr h"
    using assms by (auto simp: build_iocr_block_def bindE_Inr Let_def simp del: pack_Hs.simps split: prod.splits if_splits)
  then obtain body where blk: "blk = h @ [1, 0] @ body" "pack_Hs [0x0102, int (length body) + 2] = Inr h"
    by blast
  then have h: "h = be16 0x0102 @ be16 (int (length body) + 2)" and n: "int (length body) + 2 < 65536"
    by (auto simp: bindE_Inr pack_H_def split: if_splits)
  have "u16be (xs @ blk) (length xs) = Inr 0x0102"
    by (intro u16be_at [where xs = xs]) (simp_all add: blk h u16_ok_def)
  moreover have "u16be (xs @ blk) (length xs + 2) = Inr (int (length body) + 2)"
    by (intro u16be_at [where xs = "xs @ be16 0x0102"]) (use n in \<open>simp_all add: blk h u16_ok_def\<close>)
  moreover have "length (xs @ blk) = length xs + 6 + length body"
    by (simp add: blk h)
  moreover have "nat (int (length body) + 2) = length body + 2"
    by simp
  ultimately show ?thesis
    by (subst connect_scan.simps) (simp add: Let_def)
qed

lemma controller_iocr_unread_witness:
  "\<exists>blk. build_iocr_block demo_patch 1 demo_setup = Inr blk \<and> connect_scan (zeros 4 @ blk) 4 demo_sim = Inr demo_sim"
  using demo_block controller_iocr_unread [of demo_patch 1 demo_setup _ "zeros 4" demo_sim] by auto

text \<open>C19: In every reachable state of the simulator, under any interleaving of captured frames, datagrams and cyclic
  turns, the addresses and identifiers have the size that their fields in a frame have, every
  number fits its 16 bits, and with the automatic drive the status word and the actual value are
  those of the last control word and set-point; the only exception that any further step can
  raise is the type error of an ApplicationReady before the first Connect.\<close>

theorem simulator_consistent:
  assumes "sim_reach s"
  shows "length (sm_mac s) = 6 \<and> length (sm_ar_uuid s) = 16 \<and> length (sm_ctrl_mac s) = 6
    \<and> list_all u16_ok [sm_session_key s, sm_out_fid s, sm_in_fid s, sm_ref_out s, sm_ref_in s, sm_stw1 s, sm_nsoll s, sm_zsw1 s, sm_nist s]
    \<and> (sm_auto s \<longrightarrow> (sm_zsw1 s, sm_nist s) = drive_of (sm_stw1 s) (sm_nsoll s))
    \<and> (\<forall>e acts s'. sim_step s (Some e) acts s' \<longrightarrow> e = TypeError \<and> sm_ctrl_addr s = None)"
  using sim_reach_wf [OF assms] sim_step_error [of s] by (auto simp: sim_wf_def drive_ok_def)

lemma simulator_consistent_witness:
  "(sm_zsw1 demo_running, sm_nist demo_running) = drive_of (sm_stw1 demo_running) (sm_nsoll demo_running)"
  using simulator_consistent [OF demo_running_facts(1)] demo_running_facts(2) by blast

end
