(* ===== verification/Gsdml.thy ===== *)
theory Gsdml
  imports Prelude Py_Str
begin

text \<open>
  The GSDML reader of \<open>profinet_gateway_py/gsdml.py\<close>: the element tree, the names, data items,
  variants, identity and picture that are read from it, and the device that is built together
  with what the \<open>profinet\<close> package reads from the same file, which is a parameter.
\<close>

section \<open>Data\<close>

record data_item =
  di_direction :: string
  di_data_type :: string
  di_text :: string

record sub_info =
  si_ident :: int
  si_name :: string
  si_input_length :: int
  si_output_length :: int
  si_data_items :: "data_item list"

record mod_info =
  mi_ident :: int
  mi_name :: string
  mi_submodules :: "sub_info list"

record dap_info =
  dap_id :: string
  dap_name :: string
  dap_module_ident :: int
  dap_dns :: string

record gsdml_device =
  gv_path :: string
  gv_vendor_name :: string
  gv_device_name :: string
  gv_vendor_id :: int
  gv_device_id :: int
  gv_modules :: "mod_info list"
  gv_bitmap :: "bytes option"
  gv_daps :: "dap_info list"
  gv_selected :: string
  gv_head_ident :: int

definition basename :: "string \<Rightarrow> string" where
  "basename p = rev (takeWhile (\<lambda>c. c \<noteq> CHR ''/'') (rev p))"

definition display_name :: "gsdml_device \<Rightarrow> string" where
  "display_name dev = gv_device_name dev @ '' ('' @ basename (gv_path dev) @ '')''"

definition get_dap :: "gsdml_device \<Rightarrow> string \<Rightarrow> dap_info option" where
  "get_dap dev want0 =
     (let want = (if want0 = [] then gv_selected dev else want0) in
      case find (\<lambda>d. dap_id d = want) (gv_daps dev) of
        Some d \<Rightarrow> Some d
      | None \<Rightarrow> (case gv_daps dev of [] \<Rightarrow> None | d # _ \<Rightarrow> Some d))"

definition select_dap :: "string \<Rightarrow> gsdml_device \<Rightarrow> bool \<times> gsdml_device" where
  "select_dap want dev =
     (case find (\<lambda>d. dap_id d = want) (gv_daps dev) of
        Some d \<Rightarrow> (True, dev\<lparr>gv_selected := dap_id d, gv_head_ident := dap_module_ident d\<rparr>)
      | None \<Rightarrow> (False, dev))"

definition dap_display_name :: "gsdml_device \<Rightarrow> string \<Rightarrow> string" where
  "dap_display_name dev want = (case get_dap dev want of Some d \<Rightarrow> dap_name d | None \<Rightarrow> gv_device_name dev)"

definition dap_dns_name :: "gsdml_device \<Rightarrow> string \<Rightarrow> string" where
  "dap_dns_name dev want = (case get_dap dev want of Some d \<Rightarrow> dap_dns d | None \<Rightarrow> [])"

definition get_module :: "gsdml_device \<Rightarrow> int \<Rightarrow> mod_info option" where
  "get_module dev ident = find (\<lambda>m. mi_ident m = ident) (gv_modules dev)"

definition get_submodule :: "gsdml_device \<Rightarrow> int \<Rightarrow> int \<Rightarrow> sub_info option" where
  "get_submodule dev mod_ident sub_ident =
     (case get_module dev mod_ident of
        None \<Rightarrow> None
      | Some m \<Rightarrow> find (\<lambda>s. si_ident s = sub_ident) (mi_submodules m))"

section \<open>The element tree\<close>

datatype xml = Element (el_tag: string) (el_attrs: "(string \<times> string) list") (el_text: "string option") (el_children: "xml list")

definition attr :: "xml \<Rightarrow> string \<Rightarrow> string option" where
  "attr el k = map_of (el_attrs el) k"

definition attr_or :: "xml \<Rightarrow> string \<Rightarrow> string \<Rightarrow> string" where
  "attr_or el k d = (case attr el k of None \<Rightarrow> d | Some v \<Rightarrow> v)"

text \<open>\<open>root.iter()\<close>: the element itself, then its descendants, in document order.\<close>

fun iter_all :: "xml \<Rightarrow> xml list" where
  "iter_all (Element t a x cs) = Element t a x cs # concat (map iter_all cs)"

definition local_tag :: "string \<Rightarrow> string" where
  "local_tag tag = split1_last ''}'' tag"

definition iter_named :: "xml \<Rightarrow> string \<Rightarrow> xml list" where
  "iter_named doc name = filter (\<lambda>el. local_tag (el_tag el) = name) (iter_all doc)"

definition first_named :: "xml \<Rightarrow> string \<Rightarrow> xml option" where
  "first_named doc name = (case iter_named doc name of [] \<Rightarrow> None | el # _ \<Rightarrow> Some el)"

definition to_int :: "string \<Rightarrow> int \<Rightarrow> int" where
  "to_int s def =
     (if s = [] then def
      else (let t = strip s in
            case (if starts_with (lower t) ''0x'' then parse_hex t else parse_dec t) of
              Some v \<Rightarrow> v | None \<Rightarrow> def))"

section \<open>Texts and names\<close>

type_synonym text_map = "string \<Rightarrow> string option"

definition add_text :: "text_map \<Rightarrow> xml \<Rightarrow> text_map" where
  "add_text tmap t =
     (case (attr t ''TextId'', attr t ''Value'') of
        (Some tid, Some val) \<Rightarrow> if tid \<noteq> [] \<and> tmap tid = None then tmap(tid \<mapsto> val) else tmap
      | _ \<Rightarrow> tmap)"

definition build_text_map :: "xml \<Rightarrow> text_map" where
  "build_text_map doc =
     (let scope = (case first_named doc ''PrimaryLanguage'' of Some p \<Rightarrow> p | None \<Rightarrow> doc)
      in foldl add_text (\<lambda>_. None) (iter_named scope ''Text''))"

fun name_of_names :: "text_map \<Rightarrow> xml list \<Rightarrow> string option" where
  "name_of_names tmap [] = None"
| "name_of_names tmap (nm # nms) =
     (case (case attr nm ''TextId'' of Some tid \<Rightarrow> if tid = [] then None else tmap tid | None \<Rightarrow> None) of
        Some t \<Rightarrow> Some t
      | None \<Rightarrow>
         if attr_or nm ''Value'' [] \<noteq> [] then Some (attr_or nm ''Value'' [])
         else (case el_text nm of
                 Some t \<Rightarrow> if strip t \<noteq> [] then Some (strip t) else name_of_names tmap nms
               | None \<Rightarrow> name_of_names tmap nms))"

definition resolve_name :: "text_map \<Rightarrow> xml \<Rightarrow> string" where
  "resolve_name tmap item =
     (case name_of_names tmap (iter_named item ''Name'') of
        Some t \<Rightarrow> t
      | None \<Rightarrow> if attr_or item ''Name'' [] \<noteq> [] then attr_or item ''Name'' []
                else attr_or item ''ID'' [])"

definition data_item_of :: "text_map \<Rightarrow> string \<Rightarrow> xml \<Rightarrow> data_item" where
  "data_item_of tmap dir di =
     (let tid = attr_or di ''TextId'' [] in
      \<lparr>di_direction = dir, di_data_type = attr_or di ''DataType'' [],
       di_text = (if tid = [] then [] else (case tmap tid of Some t \<Rightarrow> t | None \<Rightarrow> tid))\<rparr>)"

definition block_items :: "text_map \<Rightarrow> string \<Rightarrow> xml option \<Rightarrow> data_item list" where
  "block_items tmap dir blk =
     (case blk of None \<Rightarrow> [] | Some b \<Rightarrow> map (data_item_of tmap dir) (iter_named b ''DataItem''))"

definition sub_data_items :: "text_map \<Rightarrow> xml \<Rightarrow> data_item list" where
  "sub_data_items tmap sub =
     (case first_named sub ''IOData'' of
        None \<Rightarrow> []
      | Some io \<Rightarrow> block_items tmap ''INPUT'' (first_named io ''Input'') @ block_items tmap ''OUTPUT'' (first_named io ''Output''))"

definition add_sub_items :: "text_map \<Rightarrow> (string \<Rightarrow> data_item list option) \<Rightarrow> xml \<Rightarrow> (string \<Rightarrow> data_item list option)" where
  "add_sub_items tmap out sub =
     (let sid = attr_or sub ''ID'' []; items = sub_data_items tmap sub
      in if sid = [] \<or> items = [] then out else out(sid \<mapsto> items))"

definition extract_submodule_items :: "xml \<Rightarrow> text_map \<Rightarrow> string \<Rightarrow> data_item list option" where
  "extract_submodule_items doc tmap =
     foldl (add_sub_items tmap) (\<lambda>_. None) (iter_named doc ''SubmoduleItem'' @ iter_named doc ''VirtualSubmoduleItem'')"

section \<open>Files and pictures\<close>

record file_sys =
  fs_exists :: "string \<Rightarrow> bool"
  fs_read :: "string \<Rightarrow> bytes option"
  fs_list :: "string \<Rightarrow> string list option"
  fs_abs :: "string \<Rightarrow> string"

definition path_join :: "string \<Rightarrow> string \<Rightarrow> string" where
  "path_join a b =
     (if starts_with b ''/'' then b
      else if a = [] \<or> List.last a = CHR ''/'' then a @ b else a @ ''/'' @ b)"

definition dirname :: "string \<Rightarrow> string" where
  "dirname p =
     (let head = rev (dropWhile (\<lambda>c. c \<noteq> CHR ''/'') (rev p))
      in if list_all (\<lambda>c. c = CHR ''/'') head then head
         else rev (dropWhile (\<lambda>c. c = CHR ''/'') (rev head)))"

text \<open>\<open>os.path.splitext(name)[0]\<close> of a name without directories: up to the last dot,
  unless only dots stand before it.\<close>

definition split_ext :: "string \<Rightarrow> string" where
  "split_ext p =
     (let stem = rev (drop 1 (dropWhile (\<lambda>c. c \<noteq> CHR ''.'') (rev p)))
      in if CHR ''.'' \<notin> set p \<or> list_all (\<lambda>c. c = CHR ''.'') stem then p else stem)"

definition IMAGE_EXTS :: "string list" where
  "IMAGE_EXTS = [''.bmp'', ''.png'', ''.gif'', ''.jpg'', ''.jpeg'']"

fun try_files :: "file_sys \<Rightarrow> string \<Rightarrow> string list \<Rightarrow> string list \<Rightarrow> bytes option" where
  "try_files fs base listing [] = None"
| "try_files fs base listing (cand # cands) =
     (let p = path_join base cand;
          direct = (if fs_exists fs p then fs_read fs p else None);
          real = map_of (rev (map (\<lambda>fn. (lower fn, fn)) listing)) (lower (basename cand))
      in case direct of
           Some d \<Rightarrow> Some d
         | None \<Rightarrow>
            (case (case real of None \<Rightarrow> None | Some fn \<Rightarrow> if fn = [] then None else fs_read fs (path_join base fn)) of
               Some d \<Rightarrow> Some d
             | None \<Rightarrow> try_files fs base listing cands))"

definition read_graphic_file :: "file_sys \<Rightarrow> string \<Rightarrow> string \<Rightarrow> bytes option" where
  "read_graphic_file fs base gfile =
     (let names = (if CHR ''.'' \<in> set (basename gfile) then [gfile] else map (\<lambda>e. gfile @ e) IMAGE_EXTS);
          listing = (case fs_list fs base of Some l \<Rightarrow> l | None \<Rightarrow> [])
      in try_files fs base listing names)"

text \<open>\<open>base64.b64decode\<close> without validation: characters outside the alphabet are skipped,
  a complete padding ends the data, and an incomplete group at the end raises.\<close>

definition b64_val :: "char \<Rightarrow> nat option" where
  "b64_val c =
     (let n = ord_c c in
      if 65 \<le> n \<and> n \<le> 90 then Some (n - 65)
      else if 97 \<le> n \<and> n \<le> 122 then Some (n - 71)
      else if 48 \<le> n \<and> n \<le> 57 then Some (n + 4)
      else if n = 43 then Some 62 else if n = 47 then Some 63 else None)"

fun b64_loop :: "string \<Rightarrow> nat \<Rightarrow> nat \<Rightarrow> nat \<Rightarrow> py_error + bytes" where
  "b64_loop [] quad pads left = (if quad = 0 then Inr [] else Inl ValueError)"
| "b64_loop (c # cs) quad pads left =
     (if c = CHR ''='' then
        (if quad \<ge> 2 \<and> quad + (pads + 1) \<ge> 4 then Inr []
         else b64_loop cs quad (if quad \<ge> 2 then pads + 1 else pads) left)
      else
        (case b64_val c of
           None \<Rightarrow> b64_loop cs quad pads left
         | Some v \<Rightarrow>
            if quad = 0 then b64_loop cs 1 0 v
            else if quad = 1 then bindE (b64_loop cs 2 0 (v mod 16)) (\<lambda>bs. Inr (of_nat (left * 4 + v div 16) # bs))
            else if quad = 2 then bindE (b64_loop cs 3 0 (v mod 4)) (\<lambda>bs. Inr (of_nat (left * 16 + v div 4) # bs))
            else bindE (b64_loop cs 0 0 0) (\<lambda>bs. Inr (of_nat (left * 64 + v) # bs))))"

definition b64decode :: "string \<Rightarrow> py_error + bytes" where
  "b64decode s = (if list_all (\<lambda>c. ord_c c < 128) s then b64_loop s 0 0 0 else Inl ValueError)"

fun embedded_bitmap :: "xml list \<Rightarrow> bytes option" where
  "embedded_bitmap [] = None"
| "embedded_bitmap (gd # gds) =
     (case el_text gd of
        None \<Rightarrow> embedded_bitmap gds
      | Some t \<Rightarrow> if t = [] then embedded_bitmap gds
                  else (case b64decode (strip t) of Inr bs \<Rightarrow> Some bs | Inl _ \<Rightarrow> embedded_bitmap gds))"

definition graphic_file_name :: "xml \<Rightarrow> string option" where
  "graphic_file_name doc =
     (let target = (case find (\<lambda>r. attr r ''Type'' = Some ''DeviceSymbol'') (iter_named doc ''GraphicItemRef'') of
                      None \<Rightarrow> None | Some r \<Rightarrow> attr r ''GraphicItemTarget'');
          has_file = (\<lambda>gi. attr_or gi ''GraphicFile'' [] \<noteq> []);
          items = iter_named doc ''GraphicItem'';
          chosen = find (\<lambda>gi. target \<noteq> None \<and> target \<noteq> Some [] \<and> attr gi ''ID'' = target \<and> has_file gi) items
      in case chosen of
           Some gi \<Rightarrow> attr gi ''GraphicFile''
         | None \<Rightarrow> (case find has_file items of Some gi \<Rightarrow> attr gi ''GraphicFile'' | None \<Rightarrow> None))"

definition find_bitmap :: "file_sys \<Rightarrow> string \<Rightarrow> xml \<Rightarrow> bytes option" where
  "find_bitmap fs path doc =
     (case embedded_bitmap (iter_named doc ''GraphicData'') of
        Some b \<Rightarrow> Some b
      | None \<Rightarrow>
         (case graphic_file_name doc of
            None \<Rightarrow> None
          | Some gfile \<Rightarrow> read_graphic_file fs (dirname (fs_abs fs path)) gfile))"

section \<open>Names and identity\<close>

record gsd_names =
  gn_id2name :: "string \<Rightarrow> string option"
  gn_vendor_name :: string
  gn_device_name :: string
  gn_vendor_id :: int
  gn_device_id :: int
  gn_bitmap :: "bytes option"
  gn_sub_items :: "string \<Rightarrow> data_item list option"
  gn_daps :: "dap_info list"

definition or_else :: "string \<Rightarrow> string \<Rightarrow> string" where
  "or_else a b = (if a \<noteq> [] then a else b)"

definition dap_of :: "text_map \<Rightarrow> xml \<Rightarrow> dap_info" where
  "dap_of tmap item =
     (let did = attr_or item ''ID'' []; dns = attr_or item ''DNS_CompatibleName'' []
      in \<lparr>dap_id = did, dap_name = or_else (resolve_name tmap item) (or_else dns did),
          dap_module_ident = to_int (attr_or item ''ModuleIdentNumber'' ''0'') 0, dap_dns = dns\<rparr>)"

definition daps_of :: "text_map \<Rightarrow> xml \<Rightarrow> dap_info list" where
  "daps_of tmap doc = map (dap_of tmap) (filter (\<lambda>item. attr_or item ''ID'' [] \<noteq> []) (iter_named doc ''DeviceAccessPointItem''))"

definition add_name :: "text_map \<Rightarrow> (string \<Rightarrow> string option) \<Rightarrow> xml \<Rightarrow> (string \<Rightarrow> string option)" where
  "add_name tmap m item =
     (let iid = attr_or item ''ID'' [] in if iid = [] then m else m(iid \<mapsto> resolve_name tmap item))"

definition id2name_of :: "text_map \<Rightarrow> xml \<Rightarrow> string \<Rightarrow> string option" where
  "id2name_of tmap doc =
     foldl (add_name tmap) (\<lambda>_. None)
       (concat (map (iter_named doc) [''ModuleItem'', ''SubmoduleItem'', ''VirtualSubmoduleItem'', ''DeviceAccessPointItem'']))"

text \<open>Vendor name, vendor and device number.\<close>

definition identity_of :: "xml \<Rightarrow> string \<times> int \<times> int" where
  "identity_of doc =
     (case first_named doc ''DeviceIdentity'' of
        None \<Rightarrow> ([], 0, 0)
      | Some di \<Rightarrow>
         (let vendor = attr_or di ''VendorName'' [];
              vendor' = (case first_named di ''InfoText'' of
                           Some info \<Rightarrow> if vendor = [] then attr_or info ''Value'' [] else vendor
                         | None \<Rightarrow> vendor)
          in (vendor', to_int (attr_or di ''VendorID'' ''0'') 0, to_int (attr_or di ''DeviceID'' ''0'') 0)))"

definition device_name_of :: "string \<Rightarrow> xml \<Rightarrow> dap_info list \<Rightarrow> string" where
  "device_name_of path doc daps =
     or_else
       (case daps of
          d # _ \<Rightarrow> dap_name d
        | [] \<Rightarrow> (case first_named doc ''DeviceAccessPointItem'' of
                  None \<Rightarrow> [] | Some dap \<Rightarrow> attr_or dap ''DNS_CompatibleName'' []))
       (split_ext (basename path))"

text \<open>A file that does not parse gives no names at all.\<close>

definition extract_names_and_identity :: "file_sys \<Rightarrow> string \<Rightarrow> xml option \<Rightarrow> gsd_names" where
  "extract_names_and_identity fs path parsed =
     (case parsed of
        None \<Rightarrow> \<lparr>gn_id2name = (\<lambda>_. None), gn_vendor_name = [], gn_device_name = [], gn_vendor_id = 0, gn_device_id = 0,
                 gn_bitmap = None, gn_sub_items = (\<lambda>_. None), gn_daps = []\<rparr>
      | Some doc \<Rightarrow>
         (let tmap = build_text_map doc; daps = daps_of tmap doc; (vendor, vid, did) = identity_of doc
          in \<lparr>gn_id2name = id2name_of tmap doc, gn_vendor_name = vendor, gn_device_name = device_name_of path doc daps,
              gn_vendor_id = vid, gn_device_id = did, gn_bitmap = find_bitmap fs path doc,
              gn_sub_items = extract_submodule_items doc tmap, gn_daps = daps\<rparr>))"

section \<open>The device\<close>

text \<open>What the package reads from the same file.\<close>

record lib_sub =
  ls_id :: string
  ls_ident :: int
  ls_in :: int
  ls_out :: int

record lib_mod =
  lm_id :: string
  lm_ident :: int
  lm_submodules :: "lib_sub list"
  lm_useable :: "string list"

record lib_dev =
  ld_vendor :: int
  ld_device :: int
  ld_catalog :: "(string \<times> lib_sub) list"
  ld_modules :: "(string \<times> lib_mod) list"

definition sub_info_of :: "gsd_names \<Rightarrow> lib_sub \<Rightarrow> sub_info" where
  "sub_info_of gn sub =
     \<lparr>si_ident = ls_ident sub,
      si_name = (case gn_id2name gn (ls_id sub) of Some n \<Rightarrow> n | None \<Rightarrow> ls_id sub),
      si_input_length = ls_in sub, si_output_length = ls_out sub,
      si_data_items = (case gn_sub_items gn (ls_id sub) of Some is \<Rightarrow> is | None \<Rightarrow> [])\<rparr>"

definition add_unseen :: "lib_sub list \<Rightarrow> lib_sub \<Rightarrow> lib_sub list" where
  "add_unseen acc sub = (if ls_id sub \<in> set (map ls_id acc) then acc else acc @ [sub])"

definition add_useable :: "(string \<times> lib_sub) list \<Rightarrow> lib_sub list \<Rightarrow> string \<Rightarrow> lib_sub list" where
  "add_useable catalog acc sid = (case map_of catalog sid of None \<Rightarrow> acc | Some sub \<Rightarrow> add_unseen acc sub)"

definition module_subs :: "(string \<times> lib_sub) list \<Rightarrow> lib_mod \<Rightarrow> lib_sub list" where
  "module_subs catalog m =
     (let telegrams = foldl (add_useable catalog) (foldl add_unseen [] (lm_submodules m)) (lm_useable m)
      in if telegrams = [] then map snd catalog else telegrams)"

definition module_of :: "gsd_names \<Rightarrow> (string \<times> lib_sub) list \<Rightarrow> lib_mod \<Rightarrow> mod_info" where
  "module_of gn catalog m =
     \<lparr>mi_ident = lm_ident m, mi_name = (case gn_id2name gn (lm_id m) of Some n \<Rightarrow> n | None \<Rightarrow> lm_id m),
      mi_submodules = map (sub_info_of gn) (module_subs catalog m)\<rparr>"

definition default_module :: "gsd_names \<Rightarrow> (string \<times> lib_sub) list \<Rightarrow> mod_info" where
  "default_module gn catalog =
     (let telegrams = map (sub_info_of gn \<circ> snd) catalog
      in \<lparr>mi_ident = 1, mi_name = ''Default Module'',
          mi_submodules = (if telegrams = []
            then [\<lparr>si_ident = 1, si_name = ''Standard Telegram 1'', si_input_length = 4, si_output_length = 4, si_data_items = []\<rparr>]
            else telegrams)\<rparr>)"

definition modules_of :: "gsd_names \<Rightarrow> lib_dev \<Rightarrow> mod_info list" where
  "modules_of gn dev =
     (let modules = map (module_of gn (ld_catalog dev) \<circ> snd) (ld_modules dev)
      in if modules = [] then [default_module gn (ld_catalog dev)] else modules)"

definition device_of :: "string \<Rightarrow> gsd_names \<Rightarrow> lib_dev \<Rightarrow> gsdml_device" where
  "device_of path gn dev =
     \<lparr>gv_path = path, gv_vendor_name = gn_vendor_name gn, gv_device_name = gn_device_name gn,
      gv_vendor_id = (if gn_vendor_id gn = 0 then ld_vendor dev else gn_vendor_id gn),
      gv_device_id = (if gn_device_id gn = 0 then ld_device dev else gn_device_id gn),
      gv_modules = modules_of gn dev, gv_bitmap = gn_bitmap gn, gv_daps = gn_daps gn,
      gv_selected = [], gv_head_ident = 0\<rparr>"

definition choose_variant :: "string \<Rightarrow> gsdml_device \<Rightarrow> gsdml_device" where
  "choose_variant want out =
     (case gv_daps out of
        [] \<Rightarrow> out
      | d0 # _ \<Rightarrow>
         (let w = (if want \<noteq> [] \<and> (\<exists>d \<in> set (gv_daps out). dap_id d = want) then want else dap_id d0);
              out' = snd (select_dap w out)
          in out'\<lparr>gv_device_name := dap_display_name out' []\<rparr>))"

definition parse_gsdml ::
  "file_sys \<Rightarrow> (string \<Rightarrow> xml option) \<Rightarrow> (string \<Rightarrow> py_error + lib_dev) \<Rightarrow> string \<Rightarrow> string \<Rightarrow> py_error + gsdml_device" where
  "parse_gsdml fs et_parse load_gsdml path want =
     (let gn = extract_names_and_identity fs path (et_parse path)
      in bindE (load_gsdml path) (\<lambda>dev. Inr (choose_variant want (device_of path gn dev))))"

lemma choose_variant_keeps [simp]:
  "gv_daps (choose_variant want out) = gv_daps out" "gv_modules (choose_variant want out) = gv_modules out"
  by (auto simp: choose_variant_def select_dap_def Let_def split: list.split option.split)

lemma parse_gsdml_Inr:
  "parse_gsdml fs et_parse load_gsdml path want = Inr dev \<longleftrightarrow>
   (\<exists>lib. load_gsdml path = Inr lib \<and>
      dev = choose_variant want (device_of path (extract_names_and_identity fs path (et_parse path)) lib))"
  by (auto simp: parse_gsdml_def Let_def bindE_Inr)

section \<open>Lemmas\<close>

lemma foldl_add_unseen:
  "distinct (map ls_id acc) \<Longrightarrow>
   distinct (map ls_id (foldl add_unseen acc subs))
   \<and> ls_id ` set (foldl add_unseen acc subs) = ls_id ` set acc \<union> ls_id ` set subs
   \<and> set (foldl add_unseen acc subs) \<subseteq> set acc \<union> set subs"
proof (induction subs arbitrary: acc)
  case (Cons x xs)
  have "distinct (map ls_id (add_unseen acc x))" using Cons.prems by (auto simp: add_unseen_def)
  from Cons.IH [OF this] show ?case by (auto simp: add_unseen_def image_iff split: if_splits)
qed simp

lemma foldl_add_useable:
  "foldl (add_useable catalog) acc sids = foldl add_unseen acc (List.map_filter (map_of catalog) sids)"
  by (induction sids arbitrary: acc) (simp_all add: add_useable_def List.map_filter_simps split: option.split)

text \<open>The sub-modules a module names itself, in order: inline ones, then those it may use.\<close>

definition named_subs :: "(string \<times> lib_sub) list \<Rightarrow> lib_mod \<Rightarrow> lib_sub list" where
  "named_subs catalog m = lm_submodules m @ List.map_filter (map_of catalog) (lm_useable m)"

lemma module_subs_fold:
  "module_subs catalog m = (let t = foldl add_unseen [] (named_subs catalog m) in if t = [] then map snd catalog else t)"
  by (simp add: module_subs_def named_subs_def foldl_add_useable)

lemma foldl_add_unseen_nil: "foldl add_unseen [] subs = [] \<longleftrightarrow> subs = []"
proof
  assume "foldl add_unseen [] subs = []"
  then show "subs = []" using foldl_add_unseen [of "[]" subs] by auto
qed simp

lemma find_mem: "find P xs = Some x \<Longrightarrow> x \<in> set xs \<and> P x"
  by (induction xs) (auto split: if_splits)

lemma find_ex: "x \<in> set xs \<Longrightarrow> P x \<Longrightarrow> \<exists>y. find P xs = Some y"
  by (induction xs) auto

definition text_pairs :: "xml list \<Rightarrow> (string \<times> string) list" where
  "text_pairs ts = concat (map (\<lambda>t. case (attr t ''TextId'', attr t ''Value'') of
     (Some tid, Some val) \<Rightarrow> [(tid, val)] | _ \<Rightarrow> []) ts)"

lemma foldl_add_text:
  "tid \<noteq> [] \<Longrightarrow> foldl add_text tmap ts tid = (case tmap tid of Some v \<Rightarrow> Some v | None \<Rightarrow> map_of (text_pairs ts) tid)"
proof (induction ts arbitrary: tmap)
  case (Cons t ts)
  show ?case
    using Cons.IH [OF Cons.prems, of "add_text tmap t"] Cons.prems
    by (auto simp: add_text_def text_pairs_def split: option.splits)
qed (simp add: text_pairs_def split: option.split)

lemma select_dap_found:
  assumes "find (\<lambda>d. dap_id d = w) (gv_daps dev) = Some d" and "w \<noteq> []"
  shows "snd (select_dap w dev) = dev\<lparr>gv_selected := w, gv_head_ident := dap_module_ident d\<rparr>"
    and "get_dap (snd (select_dap w dev)) [] = Some d"
proof -
  have "dap_id d = w" using find_mem [OF assms(1)] by simp
  then show 1: "snd (select_dap w dev) = dev\<lparr>gv_selected := w, gv_head_ident := dap_module_ident d\<rparr>"
    by (simp add: select_dap_def assms(1))
  show "get_dap (snd (select_dap w dev)) [] = Some d"
    unfolding 1 by (simp add: get_dap_def assms(1))
qed

lemma choose_variant_eq:
  assumes "gv_daps out = d0 # ds"
    and "w = (if want \<noteq> [] \<and> (\<exists>d \<in> set (gv_daps out). dap_id d = want) then want else dap_id d0)"
    and "find (\<lambda>d. dap_id d = w) (gv_daps out) = Some d" and "w \<noteq> []"
  shows "choose_variant want out =
    out\<lparr>gv_selected := w, gv_head_ident := dap_module_ident d, gv_device_name := dap_name d\<rparr>"
proof -
  have "choose_variant want out = (snd (select_dap w out))\<lparr>gv_device_name := dap_display_name (snd (select_dap w out)) []\<rparr>"
    using assms(1) by (simp add: choose_variant_def assms(2) Let_def)
  also have "dap_display_name (snd (select_dap w out)) [] = dap_name d"
    unfolding dap_display_name_def select_dap_found(2) [OF assms(3,4)] by simp
  also have "(snd (select_dap w out))\<lparr>gv_device_name := dap_name d\<rparr> =
      out\<lparr>gv_selected := w, gv_head_ident := dap_module_ident d, gv_device_name := dap_name d\<rparr>"
    unfolding select_dap_found(1) [OF assms(3,4)] by simp
  finally show ?thesis .
qed

section \<open>A small file\<close>

definition demo_doc :: xml where
  "demo_doc =
     Element ''{ns}ISO15745Profile'' [] None
      [Element ''{ns}DeviceAccessPointItem'' [(''ID'', ''IDD_1''), (''ModuleIdentNumber'', ''0x10''), (''DNS_CompatibleName'', ''cu320'')] None
         [Element ''{ns}Name'' [(''TextId'', ''T1'')] None []],
       Element ''{ns}PrimaryLanguage'' []  None
         [Element ''{ns}Text'' [(''TextId'', ''T1''), (''Value'', ''CU320-2 PN'')] None []],
       Element ''{ns}Language'' [] None
         [Element ''{ns}Text'' [(''TextId'', ''T1''), (''Value'', ''other'')] None []]]"

definition demo_lib_dev :: lib_dev where
  "demo_lib_dev =
     (let tel = \<lparr>ls_id = ''IDS_1'', ls_ident = 1, ls_in = 4, ls_out = 4\<rparr>
      in \<lparr>ld_vendor = 0x2A, ld_device = 0x501, ld_catalog = [(''IDS_1'', tel)],
          ld_modules = [(''IDM_1'', \<lparr>lm_id = ''IDM_1'', lm_ident = 0x300, lm_submodules = [tel], lm_useable = [''IDS_1'', ''IDS_2'']\<rparr>)]\<rparr>)"

definition no_files :: file_sys where
  "no_files = \<lparr>fs_exists = (\<lambda>_. False), fs_read = (\<lambda>_. None), fs_list = (\<lambda>_. None), fs_abs = (\<lambda>p. p)\<rparr>"

lemma demo_parse: "\<exists>dev. parse_gsdml no_files (\<lambda>_. Some demo_doc) (\<lambda>_. Inr demo_lib_dev) ''a.xml'' ''x'' = Inr dev"
  by (simp add: parse_gsdml_def Let_def)

lemma gn_daps_extract: "gn_daps (extract_names_and_identity fs path (Some demo_doc)) = daps_of (build_text_map demo_doc) demo_doc"
  by (simp add: extract_names_and_identity_def Let_def split: prod.split)

lemma demo_daps: "daps_of (build_text_map demo_doc) demo_doc \<noteq> []"
  by (simp add: daps_of_def iter_named_def demo_doc_def local_tag_def split1_last_def attr_or_def attr_def)

section \<open>Properties\<close>

text \<open>C24: Reading a description file raises exactly when the package's own reader does, with its
  exception, whatever the tree looks like; otherwise there is at least one module, and only a
  file with an empty catalogue can have a module without telegrams.\<close>

theorem parse_gsdml_total:
  "case load_gsdml path of
     Inl e \<Rightarrow> parse_gsdml fs et_parse load_gsdml path want = Inl e
   | Inr lib \<Rightarrow> (\<exists>dev. parse_gsdml fs et_parse load_gsdml path want = Inr dev \<and> gv_modules dev \<noteq> []
       \<and> list_all (\<lambda>m. mi_submodules m \<noteq> [] \<or> ld_catalog lib = []) (gv_modules dev))"
proof (cases "load_gsdml path")
  case (Inr lib)
  let ?gn = "extract_names_and_identity fs path (et_parse path)"
  obtain dev where dev: "parse_gsdml fs et_parse load_gsdml path want = Inr dev" "gv_modules dev = modules_of ?gn lib"
    by (auto simp: parse_gsdml_Inr Inr device_of_def)
  have "modules_of ?gn lib \<noteq> []"
    by (simp add: modules_of_def Let_def)
  moreover have "module_subs (ld_catalog lib) m \<noteq> [] \<or> ld_catalog lib = []" for m
    by (simp add: module_subs_fold Let_def)
  then have "list_all (\<lambda>m. mi_submodules m \<noteq> [] \<or> ld_catalog lib = []) (modules_of ?gn lib)"
    by (auto simp: modules_of_def Let_def list_all_iff module_of_def default_module_def)
  ultimately show ?thesis
    using dev by (simp add: Inr)
qed (simp add: parse_gsdml_def)

lemma parse_gsdml_total_witness:
  "\<exists>dev. parse_gsdml no_files (\<lambda>_. None) (\<lambda>_. Inr demo_lib_dev) ''a.xml'' ''x'' = Inr dev
    \<and> gv_modules dev \<noteq> [] \<and> list_all (\<lambda>m. mi_submodules m \<noteq> []) (gv_modules dev)"
  using parse_gsdml_total [where load_gsdml = "\<lambda>_. Inr demo_lib_dev" and path = "''a.xml''" and fs = no_files
      and et_parse = "\<lambda>_. None" and want = "''x''"]
  by (auto simp: demo_lib_dev_def Let_def list_all_iff)

text \<open>Which telegrams a module gets: the ones it names, inline or through the catalogue, each identifier
  once and none left out, and the whole catalogue when it names none that exist.\<close>

theorem module_telegrams:
  assumes "parse_gsdml fs et_parse load_gsdml path want = Inr dev" and "load_gsdml path = Inr lib"
    and "(k, m) \<in> set (ld_modules lib)"
  shows "\<exists>mi subs. mi \<in> set (gv_modules dev) \<and> mi_ident mi = lm_ident m
    \<and> map si_ident (mi_submodules mi) = map ls_ident subs
    \<and> (if named_subs (ld_catalog lib) m = [] then subs = map snd (ld_catalog lib)
       else distinct (map ls_id subs) \<and> ls_id ` set subs = ls_id ` set (named_subs (ld_catalog lib) m)
         \<and> set subs \<subseteq> set (named_subs (ld_catalog lib) m))"
proof -
  let ?gn = "extract_names_and_identity fs path (et_parse path)"
  let ?mi = "module_of ?gn (ld_catalog lib) m" and ?subs = "module_subs (ld_catalog lib) m"
  have "gv_modules dev = modules_of ?gn lib"
    using assms(1,2) by (auto simp: parse_gsdml_Inr device_of_def)
  then have "?mi \<in> set (gv_modules dev)"
    using assms(3) by (force simp: modules_of_def Let_def)
  moreover have "map si_ident (mi_submodules ?mi) = map ls_ident ?subs"
    by (simp add: module_of_def sub_info_of_def comp_def)
  moreover have "if named_subs (ld_catalog lib) m = [] then ?subs = map snd (ld_catalog lib)
       else distinct (map ls_id ?subs) \<and> ls_id ` set ?subs = ls_id ` set (named_subs (ld_catalog lib) m)
         \<and> set ?subs \<subseteq> set (named_subs (ld_catalog lib) m)"
    using foldl_add_unseen [of "[]" "named_subs (ld_catalog lib) m"]
    by (simp add: module_subs_fold Let_def foldl_add_unseen_nil)
  ultimately show ?thesis
    by (intro exI [of _ ?mi] exI [of _ ?subs]) (simp add: module_of_def)
qed

lemma module_telegrams_witness:
  "\<exists>dev mi. parse_gsdml no_files (\<lambda>_. Some demo_doc) (\<lambda>_. Inr demo_lib_dev) ''a.xml'' ''x'' = Inr dev
    \<and> mi \<in> set (gv_modules dev) \<and> mi_ident mi = 0x300"
proof -
  obtain dev where dev: "parse_gsdml no_files (\<lambda>_. Some demo_doc) (\<lambda>_. Inr demo_lib_dev) ''a.xml'' ''x'' = Inr dev"
    using demo_parse by blast
  then show ?thesis
    using module_telegrams [OF dev refl, of "fst (hd (ld_modules demo_lib_dev))" "snd (hd (ld_modules demo_lib_dev))"]
    by (auto simp: demo_lib_dev_def Let_def)
qed

text \<open>C23: The device variant that a file is read with: the wanted one when the file has it, the first one
  otherwise; the selected identifier, the head module and the device name are all of that same
  variant, and it is the one that a lookup without an identifier finds.\<close>

theorem variant_selected:
  assumes "parse_gsdml fs et_parse load_gsdml path want = Inr dev" and "gv_daps dev \<noteq> []"
  shows "\<exists>d. get_dap dev [] = Some d \<and> d \<in> set (gv_daps dev) \<and> gv_selected dev = dap_id d
    \<and> gv_head_ident dev = dap_module_ident d \<and> gv_device_name dev = dap_name d
    \<and> (if want \<in> dap_id ` set (gv_daps dev) then dap_id d = want else d = hd (gv_daps dev))"
proof -
  let ?gn = "extract_names_and_identity fs path (et_parse path)"
  let ?daps = "gn_daps ?gn"
  have ids: "dap_id d \<noteq> []" if "d \<in> set ?daps" for d
    using that by (auto simp: extract_names_and_identity_def daps_of_def dap_of_def Let_def split: option.splits prod.splits)
  obtain out where out: "dev = choose_variant want out" "gv_daps out = ?daps"
    using assms(1) by (auto simp: parse_gsdml_Inr device_of_def)
  then have daps: "gv_daps dev = ?daps" by simp
  obtain d0 ds where d0: "?daps = d0 # ds" using assms(2) daps by (cases ?daps) auto
  define w where "w = (if want \<noteq> [] \<and> (\<exists>d \<in> set ?daps. dap_id d = want) then want else dap_id d0)"
  have "\<exists>x \<in> set ?daps. dap_id x = w" using d0 by (auto simp: w_def)
  then obtain d where d: "find (\<lambda>d. dap_id d = w) ?daps = Some d"
    using find_ex [of _ ?daps "\<lambda>d. dap_id d = w"] by blast
  then have mem: "d \<in> set ?daps" "dap_id d = w" using find_mem by fast+
  then have w: "w \<noteq> []" using ids by blast
  have found: "find (\<lambda>d. dap_id d = w) (gv_daps out) = Some d" using d out(2) by simp
  have dev: "dev = out\<lparr>gv_selected := w, gv_head_ident := dap_module_ident d, gv_device_name := dap_name d\<rparr>"
    unfolding out(1) by (rule choose_variant_eq [OF _ _ found w]) (simp_all add: out(2) d0 w_def)
  have sel: "gv_selected dev = dap_id d" "gv_head_ident dev = dap_module_ident d" "gv_device_name dev = dap_name d"
    by (simp_all add: dev mem(2))
  have "get_dap dev [] = Some d"
    by (simp add: get_dap_def dev found w)
  moreover have "if want \<in> dap_id ` set ?daps then dap_id d = want else d = hd ?daps"
  proof (cases "want \<in> dap_id ` set ?daps")
    case True
    then have "w = want" using ids by (auto simp: w_def)
    with True mem(2) show ?thesis by simp
  next
    case False
    then have "w = dap_id d0" by (auto simp: w_def)
    with d have "d = hd ?daps" by (simp add: d0)
    with False show ?thesis by simp
  qed
  ultimately show ?thesis
    using sel mem(1) by (auto simp: daps)
qed

lemma variant_selected_witness:
  "\<exists>dev d. parse_gsdml no_files (\<lambda>_. Some demo_doc) (\<lambda>_. Inr demo_lib_dev) ''a.xml'' ''x'' = Inr dev
    \<and> get_dap dev [] = Some d \<and> gv_device_name dev = dap_name d"
proof -
  obtain dev where dev: "parse_gsdml no_files (\<lambda>_. Some demo_doc) (\<lambda>_. Inr demo_lib_dev) ''a.xml'' ''x'' = Inr dev"
    using demo_parse by blast
  then have "gv_daps dev \<noteq> []"
    by (auto simp: parse_gsdml_Inr device_of_def gn_daps_extract demo_daps)
  from variant_selected [OF dev this] dev show ?thesis by blast
qed

text \<open>Texts are those of the primary language, where the file has one, and the first one for each
  identifier: the map that names are resolved with is the lookup in the list of the identifiers
  and values of that block in document order, whatever the other language blocks say.\<close>

theorem primary_language_texts:
  assumes "tid \<noteq> []"
  shows "build_text_map doc tid =
    map_of (text_pairs (iter_named (case first_named doc ''PrimaryLanguage'' of Some p \<Rightarrow> p | None \<Rightarrow> doc) ''Text'')) tid"
  using foldl_add_text [OF assms, of "\<lambda>_. None"] by (simp add: build_text_map_def Let_def)

lemma primary_language_texts_witness: "build_text_map demo_doc ''T1'' = Some ''CU320-2 PN''"
proof -
  have "first_named demo_doc ''PrimaryLanguage'' =
      Some (Element ''{ns}PrimaryLanguage'' [] None [Element ''{ns}Text'' [(''TextId'', ''T1''), (''Value'', ''CU320-2 PN'')] None []])"
    by (simp add: first_named_def iter_named_def demo_doc_def local_tag_def split1_last_def)
  then show ?thesis
    by (simp add: primary_language_texts iter_named_def local_tag_def split1_last_def text_pairs_def attr_def)
qed

end
