(* ===== verification/Ui_Io.thy ===== *)
theory Ui_Io
  imports Gateway Pn_Patch
begin

text \<open>
  The operations behind two windows of \<open>profinet_gateway_py/ui\<close>: the hex dump of
  \<open>gateway_monitor.py\<close>, and in \<open>io_diagnostic.py\<close> forcing control words and raw words
  into the output buffers of the gateway and reading its input words.
\<close>

section \<open>Hex dump\<close>

definition pad_right :: "nat \<Rightarrow> string \<Rightarrow> string" where
  "pad_right w s = s @ replicate (w - length s) (CHR '' '')"

definition printable :: "byte \<Rightarrow> char" where
  "printable b = (if 32 \<le> uint b \<and> uint b < 127 then char_of (unat b) else CHR ''.'')"

definition dump_row :: "nat \<Rightarrow> bytes \<Rightarrow> string" where
  "dump_row off chunk =
     hex_fmt 4 off @ ''  '' @ pad_right 47 (join '' '' (map hex_byte chunk)) @ ''  '' @ map printable chunk"

function dump_rows :: "nat \<Rightarrow> bytes \<Rightarrow> string list" where
  "dump_rows off bs = (if bs = [] then [] else dump_row off (take 16 bs) # dump_rows (off + 16) (drop 16 bs))"
  by pat_completeness auto

termination by (relation "measure (\<lambda>(off, bs). length bs)") auto

declare dump_rows.simps [simp del]

definition ELLIPSIS :: string where
  "ELLIPSIS = [char_of (0xE2 :: nat), char_of (0x80 :: nat), char_of (0xA6 :: nat)]"

definition hexdump :: "bytes \<Rightarrow> nat \<Rightarrow> string" where
  "hexdump data max_bytes =
     (if data = [] then ''(no data yet)''
      else join [CHR 0x0A]
        (dump_rows 0 (take max_bytes data)
         @ (if length data > max_bytes
            then [ELLIPSIS @ '' (+'' @ dec_digits (length data - max_bytes) @ '' more bytes)''] else [])))"

text \<open>The bytes that a row shows, read from its hexadecimal columns.\<close>

definition read_row :: "string \<Rightarrow> bytes" where
  "read_row r = (case from_hex (take 47 (drop 6 r)) of Some bs \<Rightarrow> bs | None \<Rightarrow> [])"

lemma hex_gap_space: "hex_gap (CHR '' '')"
  by (simp add: hex_gap_def ord_c_def)

lemma from_hex_gap: "hex_gap c \<Longrightarrow> from_hex (c # s) = from_hex s"
  by (cases s) simp_all

lemma from_hex_spaces: "from_hex (replicate n (CHR '' '')) = Some []"
  by (induction n) (simp_all add: from_hex_gap hex_gap_space)

lemma from_hex_byte: "from_hex (hex_byte b @ s) = map_option ((#) b) (from_hex s)"
proof -
  have "(word_of_nat (16 * (unat b div 16) + unat b mod 16) :: byte) = b" by simp
  then show ?thesis by (simp add: hex_byte_def)
qed

lemma from_hex_row: "from_hex (join '' '' (map hex_byte chunk) @ replicate n (CHR '' '')) = Some chunk"
proof (induction chunk rule: induct_list012)
  case (2 b)
  then show ?case by (simp add: from_hex_byte from_hex_spaces)
next
  case (3 a b chunk)
  then show ?case by (simp add: from_hex_byte from_hex_gap hex_gap_space)
qed (simp add: from_hex_spaces)

lemma length_join_hex: "length (join '' '' (map hex_byte chunk)) = 3 * length chunk - 1"
  by (induction chunk rule: induct_list012) (auto simp: hex_byte_def)

lemma length_hex_digits: "n < 65536 \<Longrightarrow> length (hex_digits n) \<le> 4"
proof -
  have 1: "n < 16 \<Longrightarrow> length (hex_digits n) = 1" for n by (subst hex_digits.simps) simp
  have 2: "n < 256 \<Longrightarrow> length (hex_digits n) \<le> 2" for n
    using 1 [of "n div 16"] by (subst hex_digits.simps) auto
  have 3: "n < 4096 \<Longrightarrow> length (hex_digits n) \<le> 3" for n
    using 2 [of "n div 16"] by (subst hex_digits.simps) auto
  show "n < 65536 \<Longrightarrow> length (hex_digits n) \<le> 4"
    using 3 [of "n div 16"] by (subst hex_digits.simps) auto
qed

lemma read_dump_row:
  assumes "off < 65536" and "length chunk \<le> 16"
  shows "read_row (dump_row off chunk) = chunk \<and> take 4 (dump_row off chunk) = hex_fmt 4 off"
proof -
  have "length (hex_fmt 4 off) = 4"
    using length_hex_digits [OF assms(1)] by (simp add: hex_fmt_def Let_def)
  moreover have "length (pad_right 47 (join '' '' (map hex_byte chunk))) = 47"
    using assms(2) by (simp add: pad_right_def length_join_hex)
  ultimately show ?thesis
    by (simp add: read_row_def dump_row_def pad_right_def from_hex_row)
qed

lemma read_dump_rows:
  "off + length bs < 65536 \<Longrightarrow>
   concat (map read_row (dump_rows off bs)) = bs
   \<and> map (take 4) (dump_rows off bs) = map (\<lambda>i. hex_fmt 4 (off + 16 * i)) [0 ..< (length bs + 15) div 16]"
proof (induction off bs rule: dump_rows.induct)
  case (1 off bs)
  show ?case
  proof (cases "bs = []")
    case False
    let ?n = "(length (drop 16 bs) + 15) div 16"
    have n: "(length bs + 15) div 16 = Suc ?n"
      using False by (cases "length bs \<le> 16") (auto simp: Suc_le_eq div_nat_eqI le_div_geq)
    have rows: "dump_rows off bs = dump_row off (take 16 bs) # dump_rows (off + 16) (drop 16 bs)"
      using False by (subst dump_rows.simps) simp
    have IH: "concat (map read_row (dump_rows (off + 16) (drop 16 bs))) = drop 16 bs"
      "map (take 4) (dump_rows (off + 16) (drop 16 bs)) = map (\<lambda>i. hex_fmt 4 (off + 16 + 16 * i)) [0 ..< ?n]"
    proof -
      have "drop 16 bs = [] \<Longrightarrow> dump_rows (off + 16) (drop 16 bs) = []"
        by (subst dump_rows.simps) simp
      moreover have "drop 16 bs \<noteq> [] \<Longrightarrow> off + 16 + length (drop 16 bs) < 65536"
        using "1.prems" by auto
      ultimately show "concat (map read_row (dump_rows (off + 16) (drop 16 bs))) = drop 16 bs"
        "map (take 4) (dump_rows (off + 16) (drop 16 bs)) = map (\<lambda>i. hex_fmt 4 (off + 16 + 16 * i)) [0 ..< ?n]"
        using "1.IH" [OF False] by (cases "drop 16 bs = []"; simp)+
    qed
    have row: "read_row (dump_row off (take 16 bs)) = take 16 bs" "take 4 (dump_row off (take 16 bs)) = hex_fmt 4 off"
      using read_dump_row [of off "take 16 bs"] "1.prems" by auto
    have "[0 ..< Suc ?n] = 0 # map Suc [0 ..< ?n]"
      by (simp add: map_Suc_upt upt_conv_Cons del: upt_Suc)
    then show ?thesis
      unfolding n rows by (simp add: IH row comp_def add.assoc del: upt_Suc)
  qed (simp add: dump_rows.simps)
qed

section \<open>Forcing outputs\<close>

definition force_words :: "nat \<Rightarrow> int \<Rightarrow> int \<Rightarrow> gateway \<Rightarrow> py_error + gateway" where
  "force_words idx stw1 nsoll g =
     bindE (pack_Hs [stw1 AND 0xFFFF, nsoll AND 0xFFFF]) (\<lambda>data. Inr (set_outputs idx data g))"

text \<open>The button for both words, and the one that keeps the control word of the drive.\<close>

definition force :: "nat \<Rightarrow> string \<Rightarrow> string \<Rightarrow> gateway \<Rightarrow> py_error + gateway" where
  "force idx stw1_text nsoll_text g =
     (case parse_hex stw1_text of
        None \<Rightarrow> Inr g
      | Some stw1 \<Rightarrow> force_words idx stw1 (case parse_hex nsoll_text of Some v \<Rightarrow> v | None \<Rightarrow> 0) g)"

definition force_nsoll :: "nat \<Rightarrow> int option \<Rightarrow> string \<Rightarrow> gateway \<Rightarrow> py_error + gateway" where
  "force_nsoll idx ds_stw1 nsoll_text g =
     (case parse_hex nsoll_text of
        None \<Rightarrow> Inr g
      | Some nsoll \<Rightarrow> force_words idx (case ds_stw1 of Some v \<Rightarrow> v | None \<Rightarrow> 0) nsoll g)"

definition word_of_text :: "string \<Rightarrow> int" where
  "word_of_text t = (case parse_hex (if t = [] then ''0'' else t) of Some v \<Rightarrow> v AND 0xFFFF | None \<Rightarrow> 0)"

definition write_words :: "nat \<Rightarrow> string list \<Rightarrow> gateway \<Rightarrow> py_error + gateway" where
  "write_words idx texts g = bindE (pack_Hs (map word_of_text texts)) (\<lambda>data. Inr (set_outputs idx data g))"

text \<open>The words shown of the input buffer; a word past its end keeps what was shown.\<close>

definition in_words :: "gateway \<Rightarrow> nat \<Rightarrow> string list \<Rightarrow> string list" where
  "in_words g idx shown =
     (let inp = get_inputs g idx in
      map (\<lambda>(w, old). if 2 * w + 2 \<le> length inp then hex_fmt 4 (nat (val16 (inp ! (2 * w)) (inp ! (2 * w + 1)))) else old)
        (zip [0 ..< length shown] shown))"

lemma word_of_text_u16: "0 \<le> word_of_text t \<and> word_of_text t < 65536"
  by (simp add: word_of_text_def and_mask16 split: option.split)

lemma pack_words: "list_all (\<lambda>v. 0 \<le> v \<and> v < 65536) vs \<Longrightarrow> pack_Hs vs = Inr (concat (map be16 vs))"
  by (induction vs) (simp_all add: pack_H_def)

lemma set_outputs_at:
  assumes "idx < length (gw_io g)" and "length data \<le> length (get_outputs g idx)"
  shows "get_outputs (set_outputs idx data g) idx = data @ drop (length data) (get_outputs g idx)"
  using assms by (simp add: set_outputs_def get_outputs_def Let_def slice_set_def min_def)

lemma set_outputs_other:
  "j \<noteq> idx \<Longrightarrow> get_outputs (set_outputs idx data g) j = get_outputs g j"
  "get_inputs (set_outputs idx data g) k = get_inputs g k"
  by (auto simp: set_outputs_def get_outputs_def get_inputs_def Let_def nth_list_update)

section \<open>Properties\<close>

text \<open>The dump of a frame shows it exactly: its rows carry the offsets 0, 16, 32 and so on, and the
  hexadecimal columns of the rows together read back as the first 128 bytes of the frame; a last
  line that counts the rest is there exactly when the frame is longer.\<close>

theorem hexdump_reads_back:
  assumes "data \<noteq> []"
  shows "\<exists>rows. hexdump data 128 = join [CHR 0x0A]
      (rows @ (if 128 < length data then [ELLIPSIS @ '' (+'' @ dec_digits (length data - 128) @ '' more bytes)''] else []))
    \<and> concat (map read_row rows) = take 128 data
    \<and> map (take 4) rows = map (\<lambda>i. hex_fmt 4 (16 * i)) [0 ..< (min 128 (length data) + 15) div 16]"
  using assms read_dump_rows [of 0 "take 128 data"]
  by (intro exI [of _ "dump_rows 0 (take 128 data)"]) (simp add: hexdump_def min.commute)

lemma hexdump_reads_back_witness:
  "\<exists>rows. hexdump [1, 2, 255] 128 = join [CHR 0x0A] rows \<and> concat (map read_row rows) = [1, 2, 255]"
  using hexdump_reads_back [of "[1, 2, 255]"] by auto

text \<open>C32: Forcing the words of a device: with a control word that reads as hexadecimal, both words,
  cut to 16 bits, are at once what the bridge will read for this device (an unreadable set-point
  counts as 0), everything behind them in its buffer and every other buffer stays; with an
  unreadable control word nothing changes.\<close>

theorem force_outputs:
  assumes "idx < length (gw_io g)" and "4 \<le> length (get_outputs g idx)"
  shows "\<exists>g'. force idx stw1_text nsoll_text g = Inr g'
    \<and> get_stw1_nsoll g' idx = (case parse_hex stw1_text of
         None \<Rightarrow> get_stw1_nsoll g idx
       | Some stw1 \<Rightarrow> (stw1 mod 65536, (case parse_hex nsoll_text of Some v \<Rightarrow> v mod 65536 | None \<Rightarrow> 0)))
    \<and> drop 4 (get_outputs g' idx) = drop 4 (get_outputs g idx)
    \<and> length (get_outputs g' idx) = length (get_outputs g idx)
    \<and> (\<forall>j. j \<noteq> idx \<longrightarrow> get_outputs g' j = get_outputs g j) \<and> (\<forall>j. get_inputs g' j = get_inputs g j)"
proof (cases "parse_hex stw1_text")
  case (Some stw1)
  let ?nsoll = "case parse_hex nsoll_text of Some v \<Rightarrow> v | None \<Rightarrow> 0"
  let ?data = "be16 stw1 @ be16 ?nsoll"
  have "force idx stw1_text nsoll_text g = Inr (set_outputs idx ?data g)"
    by (simp add: force_def Some force_words_def pack_H_masked)
  moreover have out: "get_outputs (set_outputs idx ?data g) idx = ?data @ drop 4 (get_outputs g idx)"
    using assms by (subst set_outputs_at) simp_all
  moreover have "get_stw1_nsoll (set_outputs idx ?data g) idx =
      (stw1 mod 65536, (case parse_hex nsoll_text of Some v \<Rightarrow> v mod 65536 | None \<Rightarrow> 0))"
    unfolding get_stw1_nsoll_def out using assms(2)
    by (simp add: Let_def be16_def numeral_2_eq_2 numeral_3_eq_3 val16_be16 split: option.split)
  ultimately show ?thesis
    using assms(2) set_outputs_other by (simp add: Some)
qed (simp add: force_def)

definition force_gw :: gateway where
  "force_gw = gw_init\<lparr>gw_io := [\<lparr>io_out = zeros 8, io_inp = zeros 4\<rparr>]\<rparr>"

lemma force_outputs_witness:
  "\<exists>g'. force 0 ''047F'' ''2000'' force_gw = Inr g' \<and> get_stw1_nsoll g' 0 = (0x47F, 0x2000)"
proof -
  have "parse_hex ''047F'' = Some 0x47F" "parse_hex ''2000'' = Some 0x2000"
    by code_simp+
  then show ?thesis
    using force_outputs [of 0 force_gw "''047F''" "''2000''"]
    by (auto simp: force_gw_def gw_init_def get_outputs_def)
qed

text \<open>Writing the raw words: each entry is one big-endian word at its place at the head of
  the buffer of the device, cut to 16 bits, an unreadable or empty one as 0; the bytes behind the
  last word and every other buffer stay, and it never fails.\<close>

theorem write_words_at:
  assumes "idx < length (gw_io g)" and "2 * length texts \<le> length (get_outputs g idx)"
  shows "\<exists>g'. write_words idx texts g = Inr g'
    \<and> (\<forall>w < length texts. unpack_H (get_outputs g' idx) (2 * w) = Inr (word_of_text (texts ! w)))
    \<and> drop (2 * length texts) (get_outputs g' idx) = drop (2 * length texts) (get_outputs g idx)
    \<and> (\<forall>j. j \<noteq> idx \<longrightarrow> get_outputs g' j = get_outputs g j)"
proof -
  let ?data = "concat (map be16 (map word_of_text texts))"
  have len: "length ?data = 2 * length texts"
    by (induction texts) simp_all
  have "write_words idx texts g = Inr (set_outputs idx ?data g)"
    unfolding write_words_def by (subst pack_words) (simp_all add: list_all_iff word_of_text_u16)
  moreover have out: "get_outputs (set_outputs idx ?data g) idx = ?data @ drop (2 * length texts) (get_outputs g idx)"
    using set_outputs_at [OF assms(1), of ?data] assms(2) by (simp only: len)
  moreover have "unpack_H (?data @ r) (2 * w) = Inr (word_of_text (texts ! w))" if "w < length texts" for w r
  proof -
    have "texts = take w texts @ texts ! w # drop (Suc w) texts"
      using that by (rule id_take_nth_drop)
    then have "?data = concat (map be16 (map word_of_text (take w texts))) @ be16 (word_of_text (texts ! w))
        @ concat (map be16 (map word_of_text (drop (Suc w) texts)))"
      by (metis concat.simps(2) concat_append list.simps(9) map_append)
    moreover have "length (concat (map be16 (map word_of_text (take w texts)))) = 2 * w"
      using that by (induction texts arbitrary: w) (auto simp: take_Cons split: nat.split)
    ultimately show ?thesis
      using word_of_text_u16 [of "texts ! w"] by (simp add: unpack_H_append)
  qed
  ultimately show ?thesis
    using set_outputs_other(1) len by (intro exI [of _ "set_outputs idx ?data g"]) (simp add: out)
qed

lemma write_words_at_witness:
  "\<exists>g'. write_words 0 [''12AB'', ''x''] force_gw = Inr g'
     \<and> unpack_H (get_outputs g' 0) 0 = Inr 0x12AB \<and> unpack_H (get_outputs g' 0) 2 = Inr 0"
proof -
  have w: "word_of_text ''12AB'' = 0x12AB" "word_of_text ''x'' = 0"
    by code_simp+
  obtain g' where "write_words 0 [''12AB'', ''x''] force_gw = Inr g'"
    "\<forall>w < 2. unpack_H (get_outputs g' 0) (2 * w) = Inr (word_of_text ([''12AB'', ''x''] ! w))"
    using write_words_at [of 0 force_gw "[''12AB'', ''x'']"]
    by (auto simp: force_gw_def gw_init_def get_outputs_def numeral_2_eq_2)
  then show ?thesis
    using w by (intro exI [of _ g']) (auto dest: spec [of _ 0] spec [of _ 1])
qed

end
