(* ===== verification/Pn_Dcp.thy ===== *)
theory Pn_Dcp
  imports Pn_Ctrl Actions
begin

text \<open>
  The DCP operations of \<open>ProfinetCtrl\<close> (\<open>profinet_gateway_py/profinet_ctrl.py\<close>): scanning
  the network, and setting the name or the address of a device or flashing its lamp.  The calls
  into the \<open>profinet\<close> package are recorded in order, each with whether it returned; what they
  return or raise is given by a world that may depend on the calls before.
\<close>

section \<open>Calls\<close>

datatype dcp_call =
    DOpen string | DGetMac string | DDiscover bytes | DReadResponse bytes int
  | DSetName bytes string string | DSetIp bytes string string string string bool
  | DFlash bytes string int | DClose

type_synonym dcp_hist = "(dcp_call \<times> bool) list"

text \<open>A description that the package makes of an answer; a missing attribute or one without a value is empty.\<close>

record found =
  fd_name :: "string option"
  fd_ip :: "string option"
  fd_mac :: string
  fd_netmask :: string
  fd_gateway :: string
  fd_vendor_name :: string
  fd_vendor_id :: int
  fd_device_id :: int

record dcp_world =
  dw_unit :: "dcp_hist \<Rightarrow> dcp_call \<Rightarrow> py_error + unit"
  dw_mac :: "dcp_hist \<Rightarrow> dcp_call \<Rightarrow> py_error + bytes"
  dw_ok :: "dcp_hist \<Rightarrow> dcp_call \<Rightarrow> py_error + bool"
  dw_found :: "dcp_hist \<Rightarrow> dcp_call \<Rightarrow> py_error + (py_error + found) list"

datatype dcp_event = DcpAdapter pn_event | DcpResult string string bool | DcpFailed string py_error

record dcp_st =
  dt_calls :: dcp_hist
  dt_out :: "scan_result list"
  dt_log :: "dcp_event list"

definition dcp_start :: dcp_st where
  "dcp_start = \<lparr>dt_calls = [], dt_out = [], dt_log = []\<rparr>"

definition callD :: "(dcp_hist \<Rightarrow> dcp_call \<Rightarrow> py_error + 'a) \<Rightarrow> dcp_call \<Rightarrow> (dcp_st, 'a) action" where
  "callD w c st = (case w (dt_calls st) c of
     Inl e \<Rightarrow> (Inl e, st\<lparr>dt_calls := dt_calls st @ [(c, False)]\<rparr>)
   | Inr x \<Rightarrow> (Inr x, st\<lparr>dt_calls := dt_calls st @ [(c, True)]\<rparr>))"

definition sayD :: "dcp_event \<Rightarrow> (dcp_st, unit) action" where
  "sayD e = modA (\<lambda>st. st\<lparr>dt_log := dt_log st @ [e]\<rparr>)"

definition resolveD :: "string list \<Rightarrow> string \<Rightarrow> (dcp_st, string) action" where
  "resolveD available adapter st =
     (case resolve_adapter available adapter of
        (a, evs) \<Rightarrow> (Inr a, st\<lparr>dt_log := dt_log st @ map DcpAdapter evs\<rparr>))"

section \<open>Scanning\<close>

definition byte_of_hex :: "string \<Rightarrow> py_error + byte" where
  "byte_of_hex x =
     (case parse_hex x of
        None \<Rightarrow> Inl ValueError
      | Some v \<Rightarrow> if 0 \<le> v \<and> v < 256 then Inr (of_int v) else Inl ValueError)"

fun bytes_of_hex :: "string list \<Rightarrow> py_error + bytes" where
  "bytes_of_hex [] = Inr []"
| "bytes_of_hex (x # xs) = bindE (byte_of_hex x) (\<lambda>b. bindE (bytes_of_hex xs) (\<lambda>bs. Inr (b # bs)))"

definition mac_raw :: "string \<Rightarrow> py_error + bytes" where
  "mac_raw mac = (if mac \<noteq> [] then bytes_of_hex (split_on (CHR '':'') mac) else Inr (zeros 6))"

definition scan_of :: "found \<Rightarrow> bytes \<Rightarrow> scan_result" where
  "scan_of d mac = \<lparr>sr_name_of_station = (case fd_name d of Some n \<Rightarrow> n | None \<Rightarrow> []),
     sr_ip_str = (case fd_ip d of Some i \<Rightarrow> i | None \<Rightarrow> []), sr_mac = mac,
     sr_netmask = fd_netmask d, sr_gateway = fd_gateway d, sr_vendor_name = fd_vendor_name d,
     sr_vendor_id = fd_vendor_id d, sr_device_id = fd_device_id d\<rparr>"

definition scan_entry :: "py_error + found \<Rightarrow> py_error + scan_result" where
  "scan_entry item = bindE item (\<lambda>d. bindE (mac_raw (fd_mac d)) (\<lambda>m. Inr (scan_of d m)))"

fun add_found :: "(py_error + found) list \<Rightarrow> (dcp_st, unit) action" where
  "add_found [] = retA ()"
| "add_found (item # resp) =
     bindA (liftA (scan_entry item)) (\<lambda>r. seqA (modA (\<lambda>st. st\<lparr>dt_out := dt_out st @ [r]\<rparr>)) (add_found resp))"

text \<open>The result is what was collected, also when an exception ends the collection.\<close>

definition dcp_discover :: "bool \<Rightarrow> dcp_world \<Rightarrow> bool \<Rightarrow> string list \<Rightarrow> string \<Rightarrow> int \<Rightarrow> (dcp_st, scan_result list) action" where
  "dcp_discover lib_ok w win available adapter timeout_ms =
     (if \<not> lib_ok then retA []
      else
        bindA (resolveD available adapter) (\<lambda>a.
        seqA
         (tryA
           (seqA (callD (dw_unit w) (DOpen a))
             (finallyA
               (bindA (callD (dw_mac w) (DGetMac (macname win a))) (\<lambda>src.
                seqA (callD (dw_unit w) (DDiscover src))
                 (bindA (callD (dw_found w) (DReadResponse src (max 1 (timeout_ms div 1000)))) add_found)))
               (callD (dw_unit w) DClose)))
           (\<lambda>e. sayD (DcpFailed ''discover'' e)))
         (\<lambda>st. (Inr (dt_out st), st))))"

section \<open>Actions on one device\<close>

definition dcp_socket :: "dcp_world \<Rightarrow> bool \<Rightarrow> string list \<Rightarrow> string \<Rightarrow> (dcp_st, bytes) action" where
  "dcp_socket w win available adapter =
     bindA (resolveD available adapter) (\<lambda>a.
       seqA (callD (dw_unit w) (DOpen a)) (callD (dw_mac w) (DGetMac (macname win a))))"

text \<open>The frame the three operations share.\<close>

definition dcp_tool :: "dcp_world \<Rightarrow> bool \<Rightarrow> string list \<Rightarrow> string \<Rightarrow> string \<Rightarrow> string \<Rightarrow> (bytes \<Rightarrow> dcp_call) \<Rightarrow> (dcp_st, bool) action" where
  "dcp_tool w win available adapter label mac request =
     tryA
      (bindA (dcp_socket w win available adapter) (\<lambda>src.
       bindA (finallyA (callD (dw_ok w) (request src)) (callD (dw_unit w) DClose)) (\<lambda>ok.
       seqA (sayD (DcpResult label mac ok)) (retA ok))))
      (\<lambda>e. seqA (sayD (DcpFailed label e)) (retA False))"

definition dcp_set_name :: "bool \<Rightarrow> dcp_world \<Rightarrow> bool \<Rightarrow> string list \<Rightarrow> string \<Rightarrow> string \<Rightarrow> string \<Rightarrow> (dcp_st, bool) action" where
  "dcp_set_name lib_ok w win available adapter mac name =
     (if \<not> lib_ok then retA False
      else dcp_tool w win available adapter ''SetName'' mac (\<lambda>src. DSetName src (lower mac) name))"

definition dcp_set_ip :: "bool \<Rightarrow> dcp_world \<Rightarrow> bool \<Rightarrow> string list \<Rightarrow> string \<Rightarrow> string \<Rightarrow> string \<Rightarrow> string \<Rightarrow> string
    \<Rightarrow> bool \<Rightarrow> (dcp_st, bool) action" where
  "dcp_set_ip lib_ok w win available adapter mac ip subnet gateway permanent =
     (if \<not> lib_ok then retA False
      else dcp_tool w win available adapter ''SetIP'' mac
             (\<lambda>src. DSetIp src (lower mac) ip subnet gateway permanent))"

definition dcp_flash_led :: "bool \<Rightarrow> dcp_world \<Rightarrow> bool \<Rightarrow> string list \<Rightarrow> string \<Rightarrow> string \<Rightarrow> int \<Rightarrow> (dcp_st, bool) action" where
  "dcp_flash_led lib_ok w win available adapter mac duration_ms =
     (if \<not> lib_ok then retA False
      else dcp_tool w win available adapter ''Flash LED'' mac (\<lambda>src. DFlash src (lower mac) duration_ms))"

section \<open>Sockets left open\<close>

fun is_dopen :: "dcp_call \<Rightarrow> bool" where
  "is_dopen (DOpen _) = True" | "is_dopen _ = False"

definition dcp_open :: "dcp_hist \<Rightarrow> int" where
  "dcp_open h = net is_dopen (\<lambda>c. c = DClose) h"

named_theorems dcp_defs "the actions of one DCP operation"

declare bindA_def [dcp_defs] seqA_def [dcp_defs] tryA_def [dcp_defs] finallyA_def [dcp_defs] retA_def [dcp_defs]
  modA_def [dcp_defs] liftA_def [dcp_defs] callD_def [dcp_defs] sayD_def [dcp_defs] resolveD_def [dcp_defs]

lemma keepsD_say [keeps_rules]: "(\<And>st l. P st \<Longrightarrow> P (st\<lparr>dt_log := l\<rparr>)) \<Longrightarrow> keeps P (sayD e)"
  unfolding sayD_def by (rule keeps_mod)

text \<open>The calls that one operation on a device makes, with what it answers.\<close>

definition tool_calls :: "dcp_world \<Rightarrow> string \<Rightarrow> string \<Rightarrow> (bytes \<Rightarrow> dcp_call) \<Rightarrow> dcp_hist \<times> bool" where
  "tool_calls w a m request =
     (case dw_unit w [] (DOpen a) of
        Inl _ \<Rightarrow> ([(DOpen a, False)], False)
      | Inr _ \<Rightarrow>
         (let h1 = [(DOpen a, True)] in
          case dw_mac w h1 (DGetMac m) of
            Inl _ \<Rightarrow> (h1 @ [(DGetMac m, False)], False)
          | Inr src \<Rightarrow>
             (let h2 = h1 @ [(DGetMac m, True)]; r = dw_ok w h2 (request src);
                  h3 = h2 @ [(request src, \<not> isl r)]; c = dw_unit w h3 DClose
              in (h3 @ [(DClose, \<not> isl c)], r = Inr True \<and> \<not> isl c))))"

lemma dcp_tool_calls:
  "case dcp_tool w win available adapter label mac request dcp_start of (r, st) \<Rightarrow>
     (case tool_calls w (fst (resolve_adapter available adapter))
             (macname win (fst (resolve_adapter available adapter))) request of
        (h, ok) \<Rightarrow> dt_calls st = h \<and> r = Inr ok)"
  by (auto simp: dcp_tool_def dcp_socket_def dcp_defs dcp_start_def tool_calls_def Let_def
      split: sum.splits prod.splits)

text \<open>What a scan collects from the answers.\<close>

lemma add_found_out:
  "case add_found resp st of (r, st') \<Rightarrow>
     dt_out st' = dt_out st @ map projr (takeWhile (\<lambda>x. \<not> isl x) (map scan_entry resp)) \<and> dt_calls st' = dt_calls st"
proof (induction resp arbitrary: st)
  case Nil
  then show ?case by (simp add: retA_def)
next
  case (Cons item resp)
  show ?case
  proof (cases "scan_entry item")
    case (Inl e)
    then show ?thesis by (simp add: bindA_def liftA_def)
  next
    case (Inr r)
    then show ?thesis
      using Cons.IH [of "st\<lparr>dt_out := dt_out st @ [r]\<rparr>"]
      by (simp add: bindA_def seqA_def liftA_def modA_def split: prod.splits)
  qed
qed

definition collected :: "(py_error + found) list \<Rightarrow> scan_result list" where
  "collected resp = map projr (takeWhile (\<lambda>x. \<not> isl x) (map scan_entry resp))"

text \<open>From opening the socket to closing it.\<close>

definition scan_body :: "dcp_world \<Rightarrow> bool \<Rightarrow> string \<Rightarrow> int \<Rightarrow> (dcp_st, unit) action" where
  "scan_body w win a timeout_ms =
     bindA (callD (dw_mac w) (DGetMac (macname win a))) (\<lambda>src.
      seqA (callD (dw_unit w) (DDiscover src))
       (bindA (callD (dw_found w) (DReadResponse src (max 1 (timeout_ms div 1000)))) add_found))"

text \<open>The result that a scan owes its caller: nothing when one of the calls up to the reading of
  the answers fails, and what the answers describe when none does.\<close>

definition scanned :: "dcp_world \<Rightarrow> bool \<Rightarrow> string \<Rightarrow> int \<Rightarrow> (dcp_call \<times> bool) list \<Rightarrow> scan_result list" where
  "scanned w win a timeout_ms h =
     (case dw_mac w h (DGetMac (macname win a)) of Inl _ \<Rightarrow> []
      | Inr src \<Rightarrow>
          (case dw_unit w (h @ [(DGetMac (macname win a), True)]) (DDiscover src) of Inl _ \<Rightarrow> []
           | Inr _ \<Rightarrow>
               (case dw_found w (h @ [(DGetMac (macname win a), True), (DDiscover src, True)])
                       (DReadResponse src (max 1 (timeout_ms div 1000))) of
                  Inl _ \<Rightarrow> [] | Inr resp \<Rightarrow> collected resp)))"

lemma scan_body_out:
  assumes "dt_out st = []"
  shows "case scan_body w win a timeout_ms st of (r, st') \<Rightarrow>
    dcp_open (dt_calls st') = dcp_open (dt_calls st) \<and> dt_out st' = scanned w win a timeout_ms (dt_calls st)"
proof (cases "dw_mac w (dt_calls st) (DGetMac (macname win a))")
  case (Inl e)
  then show ?thesis using assms by (simp add: scan_body_def scanned_def bindA_def callD_def dcp_open_def)
next
  case (Inr src)
  let ?h = "dt_calls st @ [(DGetMac (macname win a), True)]"
  let ?read = "DReadResponse src (max 1 (timeout_ms div 1000))"
  show ?thesis
  proof (cases "dw_unit w ?h (DDiscover src)")
    case (Inl e)
    with Inr assms show ?thesis by (simp add: scan_body_def scanned_def bindA_def seqA_def callD_def dcp_open_def)
  next
    case unit: (Inr u)
    let ?h' = "?h @ [(DDiscover src, True)]"
    show ?thesis
    proof (cases "dw_found w ?h' ?read")
      case (Inl e)
      with Inr unit assms show ?thesis by (simp add: scan_body_def scanned_def bindA_def seqA_def callD_def dcp_open_def)
    next
      case resp: (Inr resp)
      let ?st = "st\<lparr>dt_calls := ?h' @ [(?read, True)]\<rparr>"
      have "scan_body w win a timeout_ms st = add_found resp ?st"
        using Inr unit resp by (simp add: scan_body_def bindA_def seqA_def callD_def)
      moreover have "case add_found resp ?st of (r, st') \<Rightarrow> dt_out st' = collected resp \<and> dt_calls st' = dt_calls ?st"
        using add_found_out [where resp = resp and st = ?st] assms by (simp add: collected_def)
      ultimately show ?thesis
        using Inr unit resp by (auto simp: dcp_open_def scanned_def split: prod.splits)
    qed
  qed
qed

lemma dcp_tool_sockets:
  assumes "a = fst (resolve_adapter available adapter)" and "\<And>src. request src \<noteq> DClose \<and> \<not> is_dopen (request src)"
  shows "case dcp_tool w win available adapter label mac request dcp_start of (r, st) \<Rightarrow> \<exists>ok. r = Inr ok
    \<and> dcp_open (dt_calls st) =
        (if \<not> isl (dw_unit w [] (DOpen a)) \<and> isl (dw_mac w [(DOpen a, True)] (DGetMac (macname win a))) then 1 else 0)
    \<and> (ok \<longrightarrow> length (dt_calls st) = 4 \<and> list_all snd (dt_calls st))"
  using dcp_tool_calls [where w = w and win = win and available = available and adapter = adapter
      and label = label and mac = mac and request = request] assms(2)
  by (auto simp: assms(1) tool_calls_def Let_def dcp_open_def split: sum.splits prod.splits if_splits)

lemma dcp_discover_sockets:
  "case dcp_discover True w win available adapter timeout_ms dcp_start of (r, st) \<Rightarrow>
     dcp_open (dt_calls st) = 0
     \<and> r = Inr (if isl (dw_unit w [] (DOpen (fst (resolve_adapter available adapter)))) then []
                else scanned w win (fst (resolve_adapter available adapter)) timeout_ms
                       [(DOpen (fst (resolve_adapter available adapter)), True)])"
proof -
  obtain a evs where a: "resolve_adapter available adapter = (a, evs)" by fastforce
  let ?st0 = "dcp_start\<lparr>dt_log := map DcpAdapter evs\<rparr>"
  let ?st1 = "?st0\<lparr>dt_calls := [(DOpen a, True)]\<rparr>"
  have unfold: "dcp_discover True w win available adapter timeout_ms dcp_start =
      seqA (tryA (seqA (callD (dw_unit w) (DOpen a))
              (finallyA (scan_body w win a timeout_ms) (callD (dw_unit w) DClose)))
        (\<lambda>e. sayD (DcpFailed ''discover'' e))) (\<lambda>st. (Inr (dt_out st), st)) ?st0"
    by (simp add: dcp_discover_def scan_body_def bindA_def resolveD_def a dcp_start_def)
  have out: "dt_out ?st1 = []" by (simp add: dcp_start_def)
  show ?thesis
  proof (cases "dw_unit w [] (DOpen a)")
    case (Inl e)
    then show ?thesis unfolding unfold by (simp add: a dcp_defs dcp_start_def dcp_open_def)
  next
    case (Inr u)
    then show ?thesis
      using scan_body_out [OF out, where w = w and win = win and a = a and timeout_ms = timeout_ms]
      unfolding unfold by (auto simp: a dcp_defs dcp_start_def dcp_open_def split: prod.splits sum.splits)
  qed
qed

text \<open>A hardware address and its text.\<close>

lemma colon_hex_byte: "CHR '':'' \<notin> set (hex_byte b)"
  using hex_char_not(1) [OF unat_byte_div [of b], THEN not_sym] hex_char_not(1) [of "unat b mod 16", THEN not_sym]
  by (simp add: hex_byte_def)

lemma byte_of_hex_byte: "byte_of_hex (hex_byte b) = Inr b"
proof -
  have plain: "\<not> is_space (hex_char n) \<and> hex_char n \<noteq> CHR ''-'' \<and> hex_char n \<noteq> CHR ''+'' \<and> hex_char n \<noteq> CHR ''x''
      \<and> hex_char n \<noteq> CHR ''X''" if "n < 16" for n
  proof -
    have "ord_c (hex_char n) \<in> {48 ..< 58} \<union> {65 ..< 71}" using that by (auto simp: ord_c_hex_char)
    moreover have "ord_c (CHR ''-'') = 45" "ord_c (CHR ''+'') = 43" "ord_c (CHR ''x'') = 120" "ord_c (CHR ''X'') = 88"
      by (simp_all add: ord_c_def)
    ultimately show ?thesis by (auto simp: is_space_def)
  qed
  have "parse_hex (hex_byte b) = Some (int (unat b))"
    using plain [OF unat_byte_div [of b]] plain [of "unat b mod 16"] unat_byte_div [of b]
    by (simp add: parse_hex_def strip_def hex_byte_def signed_val_def literal_val_def)
  then show ?thesis
    by (simp add: byte_of_hex_def)
qed

lemma bytes_of_hex_map: "bytes_of_hex (map hex_byte bs) = Inr bs"
  by (induction bs) (simp_all add: byte_of_hex_byte)

lemma mac_raw_text: "mac_raw (mac_bytes_to_str mac) = Inr (if mac = [] then zeros 6 else mac)"
proof (cases "mac = []")
  case False
  then have "mac_bytes_to_str mac \<noteq> []"
    by (cases mac rule: list.exhaust; cases "tl mac") (auto simp: mac_bytes_to_str_def hex_byte_def)
  with False show ?thesis
    by (simp add: mac_raw_def mac_bytes_to_str_def split_on_join list_all_iff colon_hex_byte bytes_of_hex_map)
qed (simp add: mac_raw_def mac_bytes_to_str_def)

section \<open>Properties\<close>

text \<open>C29: What the DCP operations leave behind: none of them raises; setting a name or an
  address or flashing a lamp succeeds only when every call returned, and leaves its socket open
  exactly when the socket was opened and the address of the adapter could not be read.  A scan
  always closes its socket; it returns nothing when opening the socket, reading the address,
  sending the request or reading the answers fails, and otherwise exactly what the answers
  describe, up to the first one that cannot be read.\<close>

theorem dcp_sockets:
  assumes "act \<in> {dcp_set_name True w win available adapter mac name,
      dcp_set_ip True w win available adapter mac ip subnet gateway permanent,
      dcp_flash_led True w win available adapter mac duration_ms}"
    and "a = fst (resolve_adapter available adapter)"
  shows "(case act dcp_start of (r, st) \<Rightarrow> \<exists>ok. r = Inr ok
       \<and> dcp_open (dt_calls st) =
           (if \<not> isl (dw_unit w [] (DOpen a)) \<and> isl (dw_mac w [(DOpen a, True)] (DGetMac (macname win a))) then 1 else 0)
       \<and> (ok \<longrightarrow> length (dt_calls st) = 4 \<and> list_all snd (dt_calls st)))
    \<and> (case dcp_discover True w win available adapter timeout_ms dcp_start of (r, st) \<Rightarrow>
         dcp_open (dt_calls st) = 0
         \<and> (let h1 = [(DOpen a, True)]; h2 = h1 @ [(DGetMac (macname win a), True)] in
            (\<forall>src resp. dw_unit w [] (DOpen a) = Inr () \<and> dw_mac w h1 (DGetMac (macname win a)) = Inr src
                \<and> dw_unit w h2 (DDiscover src) = Inr ()
                \<and> dw_found w (h2 @ [(DDiscover src, True)]) (DReadResponse src (max 1 (timeout_ms div 1000))) = Inr resp
              \<longrightarrow> r = Inr (collected resp))
          \<and> ((\<exists>e. dw_unit w [] (DOpen a) = Inl e \<or> dw_mac w h1 (DGetMac (macname win a)) = Inl e
                \<or> (\<exists>src. dw_mac w h1 (DGetMac (macname win a)) = Inr src \<and> (dw_unit w h2 (DDiscover src) = Inl e
                    \<or> dw_found w (h2 @ [(DDiscover src, True)]) (DReadResponse src (max 1 (timeout_ms div 1000))) = Inl e)))
              \<longrightarrow> r = Inr [])))"
proof (rule conjI)
  obtain label request where act: "act = dcp_tool w win available adapter label mac request"
    and req: "\<And>src. request src \<noteq> DClose \<and> \<not> is_dopen (request src)"
    using assms(1) by (auto simp: dcp_set_name_def dcp_set_ip_def dcp_flash_led_def)
  show "case act dcp_start of (r, st) \<Rightarrow> \<exists>ok. r = Inr ok
       \<and> dcp_open (dt_calls st) =
           (if \<not> isl (dw_unit w [] (DOpen a)) \<and> isl (dw_mac w [(DOpen a, True)] (DGetMac (macname win a))) then 1 else 0)
       \<and> (ok \<longrightarrow> length (dt_calls st) = 4 \<and> list_all snd (dt_calls st))"
    unfolding act by (rule dcp_tool_sockets [OF assms(2) req])
next
  note d = dcp_discover_sockets [where w = w and win = win and available = available and adapter = adapter
      and timeout_ms = timeout_ms, folded assms(2)]
  show "case dcp_discover True w win available adapter timeout_ms dcp_start of (r, st) \<Rightarrow>
         dcp_open (dt_calls st) = 0
         \<and> (let h1 = [(DOpen a, True)]; h2 = h1 @ [(DGetMac (macname win a), True)] in
            (\<forall>src resp. dw_unit w [] (DOpen a) = Inr () \<and> dw_mac w h1 (DGetMac (macname win a)) = Inr src
                \<and> dw_unit w h2 (DDiscover src) = Inr ()
                \<and> dw_found w (h2 @ [(DDiscover src, True)]) (DReadResponse src (max 1 (timeout_ms div 1000))) = Inr resp
              \<longrightarrow> r = Inr (collected resp))
          \<and> ((\<exists>e. dw_unit w [] (DOpen a) = Inl e \<or> dw_mac w h1 (DGetMac (macname win a)) = Inl e
                \<or> (\<exists>src. dw_mac w h1 (DGetMac (macname win a)) = Inr src \<and> (dw_unit w h2 (DDiscover src) = Inl e
                    \<or> dw_found w (h2 @ [(DDiscover src, True)]) (DReadResponse src (max 1 (timeout_ms div 1000))) = Inl e)))
              \<longrightarrow> r = Inr []))"
    using d by (cases "dcp_discover True w win available adapter timeout_ms dcp_start")
      (auto simp: scanned_def Let_def split: sum.splits)
qed

text \<open>An adapter whose address cannot be read.\<close>

definition demo_dcp :: "bool \<Rightarrow> dcp_world" where
  "demo_dcp mac_known =
     \<lparr>dw_unit = \<lambda>_ _. Inr (), dw_mac = \<lambda>_ _. if mac_known then Inr [2, 0, 0, 0, 0, 1] else Inl (LibError ''no such adapter''),
      dw_ok = \<lambda>_ _. Inr True,
      dw_found = \<lambda>_ _. Inr [Inr \<lparr>fd_name = Some ''drive'', fd_ip = None, fd_mac = ''00:1B:1B:00:00:07'', fd_netmask = [],
        fd_gateway = [], fd_vendor_name = [], fd_vendor_id = 42, fd_device_id = 1\<rparr>, Inl KeyError]\<rparr>"

lemma dcp_sockets_witness:
  "dcp_open (dt_calls (snd (dcp_set_name True (demo_dcp False) False [''eth0''] ''eth0'' ''00:1B:1B:00:00:07'' ''x'' dcp_start))) = 1
   \<and> fst (dcp_discover True (demo_dcp True) False [''eth0''] ''eth0'' 3000 dcp_start) =
       Inr (collected (projr (dw_found (demo_dcp True) [] DClose)))
   \<and> length (collected (projr (dw_found (demo_dcp True) [] DClose))) = 1"
proof -
  have r: "resolve_adapter [''eth0''] ''eth0'' = (''eth0'', [])" by code_simp
  have "length (collected (projr (dw_found (demo_dcp True) [] DClose))) = 1" by code_simp
  with r show ?thesis
    using dcp_sockets [of "dcp_set_name True (demo_dcp False) False [''eth0''] ''eth0'' ''00:1B:1B:00:00:07'' ''x''"
        "demo_dcp False" False "[''eth0'']" "''eth0''" "''00:1B:1B:00:00:07''" "''x''" "[]" "[]" "[]" True 0 "''eth0''" 0]
      dcp_sockets [of "dcp_set_name True (demo_dcp True) False [''eth0''] ''eth0'' ''00:1B:1B:00:00:07'' ''x''"
        "demo_dcp True" False "[''eth0'']" "''eth0''" "''00:1B:1B:00:00:07''" "''x''" "[]" "[]" "[]" True 0 "''eth0''" 3000]
    by (auto simp: demo_dcp_def case_prod_beta)
qed

end
