(* ===== verification/Ui_Device.thy ===== *)
theory Ui_Device
  imports Config Gsdml
begin

text \<open>
  The device dialog of \<open>profinet_gateway_py/ui/device_dialog.py\<close> without its widgets: the
  working copy of the rack and the entry fields as state, the operations behind the buttons,
  and what Apply and Cancel leave in the configuration.  A string is its UTF-8 bytes; the check of an
  address decodes them, because \<open>isdigit\<close> and \<open>int\<close> know the digits of other scripts.  White
  space is that of ASCII.
\<close>

section \<open>State\<close>

record dialog =
  dg_cfg :: device_config
  dg_gsdml :: gsdml_device
  dg_rack :: "drive_object list"
  dg_accepted :: bool
  dg_open :: bool
  dg_combo :: "nat option"
  dg_name :: string
  dg_ip :: string
  dg_subnet :: string
  dg_gw :: string
  dg_mac :: string

definition dap_ids :: "dialog \<Rightarrow> string list" where
  "dap_ids dg = map dap_id (gv_daps (dg_gsdml dg))"

fun index_of :: "'a \<Rightarrow> 'a list \<Rightarrow> nat option" where
  "index_of x [] = None"
| "index_of x (y # ys) = (if x = y then Some 0 else map_option Suc (index_of x ys))"

definition load_identity :: "dialog \<Rightarrow> dialog" where
  "load_identity dg =
     (let c = dg_cfg dg;
          dg1 = (case dap_ids dg of
                   [] \<Rightarrow> dg
                 | d0 # _ \<Rightarrow>
                    (let did = (if dc_dap_id c \<in> set (dap_ids dg) then dc_dap_id c else d0)
                     in dg\<lparr>dg_cfg := c\<lparr>dc_dap_id := did\<rparr>, dg_gsdml := snd (select_dap did (dg_gsdml dg)),
                           dg_combo := index_of did (dap_ids dg)\<rparr>))
      in dg1\<lparr>dg_name := dc_station_name c, dg_ip := dc_ip c, dg_subnet := dc_subnet c,
             dg_gw := dc_gateway c, dg_mac := dc_mac c\<rparr>)"

definition dialog_open :: "device_config \<Rightarrow> gsdml_device \<Rightarrow> dialog" where
  "dialog_open cfg gsdml =
     load_identity
       \<lparr>dg_cfg = cfg, dg_gsdml = gsdml, dg_rack = effective_drive_objects cfg, dg_accepted = False, dg_open = True,
        dg_combo = None, dg_name = [], dg_ip = [], dg_subnet = [], dg_gw = [], dg_mac = []\<rparr>"

section \<open>The rack\<close>

definition is_telegram :: "sub_info \<Rightarrow> bool" where
  "is_telegram sub \<longleftrightarrow> \<not> contains ''access point'' (lower (si_name sub)) \<and> \<not> contains ''empty sub'' (lower (si_name sub))"

definition telegrams :: "mod_info \<Rightarrow> sub_info list" where
  "telegrams m = filter is_telegram (mi_submodules m)"

function free_slot :: "int list \<Rightarrow> int \<Rightarrow> int" where
  "free_slot used s = (if s \<in> set used then free_slot used (s + 1) else s)"
  by pat_completeness auto

termination
proof (relation "measure (\<lambda>(used, s). length (filter (\<lambda>x. s \<le> x) used))", goal_cases)
  case 1 show ?case by simp
next
  case (2 used s)
  then have "length (filter (\<lambda>x. s + 1 \<le> x) used) < length (filter (\<lambda>x. s \<le> x) used)"
  proof (induction used)
    case (Cons a used)
    have "length (filter (\<lambda>x. s + 1 \<le> x) used) \<le> length (filter (\<lambda>x. s \<le> x) used)"
      by (induction used) auto
    with Cons show ?case by auto
  qed simp
  then show ?case by simp
qed

declare free_slot.simps [simp del]

definition next_slot :: "drive_object list \<Rightarrow> int" where
  "next_slot rack = free_slot (map do_slot rack) 1"

definition with_telegram :: "sub_info \<Rightarrow> drive_object \<Rightarrow> drive_object" where
  "with_telegram s d = d\<lparr>do_submodule_ident := si_ident s, do_submodule_name := si_name s,
     do_input_length := si_input_length s, do_output_length := si_output_length s\<rparr>"

text \<open>The first telegram that is not a PROFIsafe one, else the first telegram.\<close>

definition preferred :: "mod_info \<Rightarrow> sub_info option" where
  "preferred m =
     (let tels = telegrams m; pref = filter (\<lambda>s. \<not> contains ''profisafe'' (lower (si_name s))) tels
      in case (if pref \<noteq> [] then pref else tels) of [] \<Rightarrow> None | s # _ \<Rightarrow> Some s)"

definition do_add_module :: "nat \<Rightarrow> dialog \<Rightarrow> py_error + dialog" where
  "do_add_module idx dg =
     (if idx < length (gv_modules (dg_gsdml dg)) then
        (let m = gv_modules (dg_gsdml dg) ! idx;
             d = default_drive_object\<lparr>do_slot := next_slot (dg_rack dg), do_subslot := 3,
                   do_module_ident := mi_ident m, do_module_name := mi_name m\<rparr>;
             d' = (case preferred m of None \<Rightarrow> d | Some s \<Rightarrow> with_telegram s d)
         in Inr (dg\<lparr>dg_rack := dg_rack dg @ [d']\<rparr>))
      else Inl IndexError)"

text \<open>Choosing a telegram for a drive object: \<open>_add_submodule\<close> with \<open>_do_set_telegram\<close>.\<close>

definition do_set_telegram :: "nat \<Rightarrow> nat \<Rightarrow> dialog \<Rightarrow> py_error + dialog" where
  "do_set_telegram idx si dg =
     (if idx < length (dg_rack dg) then
        (let d = dg_rack dg ! idx in
         case get_module (dg_gsdml dg) (do_module_ident d) of
           None \<Rightarrow> Inr dg
         | Some m \<Rightarrow>
            (let tels = telegrams m in
             if tels = [] then Inr dg
             else if si < length tels
               then Inr (dg\<lparr>dg_rack := (dg_rack dg)[idx := with_telegram (tels ! si) (d\<lparr>do_subslot := 3\<rparr>)]\<rparr>)
             else Inl IndexError))
      else Inr dg)"

definition remove_selected :: "nat \<Rightarrow> dialog \<Rightarrow> dialog" where
  "remove_selected idx dg =
     (if idx < length (dg_rack dg) then dg\<lparr>dg_rack := take idx (dg_rack dg) @ drop (Suc idx) (dg_rack dg)\<rparr> else dg)"

section \<open>Variant, scan, Apply and Cancel\<close>

definition on_dap_change :: "nat \<Rightarrow> dialog \<Rightarrow> dialog" where
  "on_dap_change idx dg =
     (if idx < length (dap_ids dg) then
        (let did = dap_ids dg ! idx;
             g = snd (select_dap did (dg_gsdml dg));
             dns = dap_dns_name g did
         in dg\<lparr>dg_combo := Some idx, dg_cfg := (dg_cfg dg)\<lparr>dc_dap_id := did\<rparr>, dg_gsdml := g,
               dg_name := (if strip (dg_name dg) = [] \<and> dns \<noteq> [] then dns else dg_name dg)\<rparr>)
      else dg)"

definition scan_select :: "string \<Rightarrow> string \<Rightarrow> string \<Rightarrow> dialog \<Rightarrow> dialog" where
  "scan_select name ip mac dg = dg\<lparr>dg_name := name, dg_ip := ip, dg_mac := mac\<rparr>"

text \<open>The code points of a text.\<close>

fun code_points :: "string \<Rightarrow> int list" where
  "code_points [] = []"
| "code_points (a # s) =
     (let n = of_char a; tail = (\<lambda>c. of_char c mod 64) in
      if n < 0x80 then n # code_points s
      else if n < 0xE0 then
        (case s of b # t \<Rightarrow> (n mod 32 * 64 + tail b) # code_points t | [] \<Rightarrow> [n])
      else if n < 0xF0 then
        (case s of b # c # t \<Rightarrow> ((n mod 16 * 64 + tail b) * 64 + tail c) # code_points t | _ \<Rightarrow> [n])
      else
        (case s of b # c # d # t \<Rightarrow> (((n mod 8 * 64 + tail b) * 64 + tail c) * 64 + tail d) # code_points t
         | _ \<Rightarrow> [n]))"

text \<open>Unicode 14: the zeros of the decimal digits, each followed by its nine others, and the
  characters that \<open>isdigit\<close> accepts beside them, superscripts and digits in circles for example,
  which \<open>int\<close> refuses.  The interpreter also refuses a numeral of more than 4300 digits.\<close>

definition DECIMAL_ZEROS :: "int list" where
  "DECIMAL_ZEROS =
     [0x30, 0x660, 0x6F0, 0x7C0, 0x966, 0x9E6, 0xA66, 0xAE6, 0xB66, 0xBE6, 0xC66, 0xCE6, 0xD66, 0xDE6, 0xE50, 0xED0,
      0xF20, 0x1040, 0x1090, 0x17E0, 0x1810, 0x1946, 0x19D0, 0x1A80, 0x1A90, 0x1B50, 0x1BB0, 0x1C40, 0x1C50, 0xA620,
      0xA8D0, 0xA900, 0xA9D0, 0xA9F0, 0xAA50, 0xABF0, 0xFF10, 0x104A0, 0x10D30, 0x11066, 0x110F0, 0x11136, 0x111D0,
      0x112F0, 0x11450, 0x114D0, 0x11650, 0x116C0, 0x11730, 0x118E0, 0x11950, 0x11C50, 0x11D50, 0x11DA0, 0x16A60,
      0x16AC0, 0x16B50, 0x1D7CE, 0x1D7D8, 0x1D7E2, 0x1D7EC, 0x1D7F6, 0x1E140, 0x1E2F0, 0x1E950, 0x1FBF0]"

definition OTHER_DIGITS :: "(int \<times> int) list" where
  "OTHER_DIGITS =
     [(0xB2, 0xB3), (0xB9, 0xB9), (0x1369, 0x1371), (0x19DA, 0x19DA), (0x2070, 0x2070), (0x2074, 0x2079),
      (0x2080, 0x2089), (0x2460, 0x2468), (0x2474, 0x247C), (0x2488, 0x2490), (0x24EA, 0x24EA), (0x24F5, 0x24FD),
      (0x24FF, 0x24FF), (0x2776, 0x277E), (0x2780, 0x2788), (0x278A, 0x2792), (0x10A40, 0x10A43), (0x10E60, 0x10E68),
      (0x11052, 0x1105A), (0x1F100, 0x1F10A)]"

definition INT_MAX_STR_DIGITS :: int where "INT_MAX_STR_DIGITS = 4300"

definition decimal_val :: "int \<Rightarrow> int option" where
  "decimal_val c = map_option (\<lambda>z. c - z) (find (\<lambda>z. z \<le> c \<and> c < z + 10) DECIMAL_ZEROS)"

definition is_digit_u :: "int \<Rightarrow> bool" where
  "is_digit_u c \<longleftrightarrow> decimal_val c \<noteq> None \<or> list_ex (\<lambda>(a, b). a \<le> c \<and> c \<le> b) OTHER_DIGITS"

text \<open>\<open>int(p)\<close> of a text that \<open>isdigit\<close> accepts.\<close>

fun decimal_num :: "int list \<Rightarrow> int \<Rightarrow> int option" where
  "decimal_num [] acc = Some acc"
| "decimal_num (c # cs) acc =
     (case decimal_val c of None \<Rightarrow> None | Some v \<Rightarrow> decimal_num cs (10 * acc + v))"

definition ip_part_check :: "string \<Rightarrow> py_error + bool" where
  "ip_part_check p =
     (let cs = code_points p in
      if cs = [] \<or> \<not> list_all is_digit_u cs then Inr False
      else if INT_MAX_STR_DIGITS < int (length cs) then Inl ValueError
      else (case decimal_num cs 0 of None \<Rightarrow> Inl ValueError | Some v \<Rightarrow> Inr (v \<le> 255)))"

text \<open>The parts in order, up to the first that is no number or too large.\<close>

fun ip_parts_check :: "string list \<Rightarrow> py_error + bool" where
  "ip_parts_check [] = Inr True"
| "ip_parts_check (p # ps) = bindE (ip_part_check p) (\<lambda>ok. if ok then ip_parts_check ps else Inr False)"

definition ip_check :: "string \<Rightarrow> py_error + bool" where
  "ip_check ip =
     (let parts = split_on (CHR ''.'') ip in if length parts \<noteq> 4 then Inr False else ip_parts_check parts)"

definition ip_ok :: "string \<Rightarrow> bool" where
  "ip_ok ip \<longleftrightarrow> ip_check ip = Inr True"

text \<open>The dialog that Apply leaves: as it was when the address is refused, and when the check of it
  raises.\<close>

definition on_apply :: "dialog \<Rightarrow> dialog" where
  "on_apply dg =
     (let ip = strip (dg_ip dg) in
      if \<not> ip_ok ip then dg
      else
        (let c = dg_cfg dg;
             did = (case dg_combo dg of
                      Some i \<Rightarrow> if i < length (dap_ids dg) then dap_ids dg ! i else dc_dap_id c
                    | None \<Rightarrow> dc_dap_id c);
             c1 = c\<lparr>dc_dap_id := did, dc_station_name := strip (dg_name dg), dc_ip := ip,
                    dc_subnet := or_else (strip (dg_subnet dg)) ''255.255.255.0'',
                    dc_gateway := or_else (strip (dg_gw dg)) ''192.168.1.1'',
                    dc_mac := strip (dg_mac dg), dc_drive_objects := dg_rack dg\<rparr>
         in dg\<lparr>dg_cfg := sync_legacy_from_rack c1, dg_accepted := True, dg_open := False\<rparr>))"

definition on_cancel :: "dialog \<Rightarrow> dialog" where
  "on_cancel dg = dg\<lparr>dg_accepted := False, dg_open := False\<rparr>"

text \<open>What a user can do while the dialog is open.\<close>

datatype edit = AddModule nat | SetTelegram nat nat | Remove nat | ChooseVariant nat
  | TakeScanned string string string | TypeFields string string string string

fun edit_step :: "edit \<Rightarrow> dialog \<Rightarrow> py_error + dialog" where
  "edit_step (AddModule i) dg = do_add_module i dg"
| "edit_step (SetTelegram i j) dg = do_set_telegram i j dg"
| "edit_step (Remove i) dg = Inr (remove_selected i dg)"
| "edit_step (ChooseVariant i) dg = Inr (on_dap_change i dg)"
| "edit_step (TakeScanned n ip mac) dg = Inr (scan_select n ip mac dg)"
| "edit_step (TypeFields n ip sn gw) dg = Inr (dg\<lparr>dg_name := n, dg_ip := ip, dg_subnet := sn, dg_gw := gw\<rparr>)"

fun edits :: "edit list \<Rightarrow> dialog \<Rightarrow> py_error + dialog" where
  "edits [] dg = Inr dg"
| "edits (e # es) dg = bindE (edit_step e dg) (edits es)"

section \<open>Free slots\<close>

lemma free_slot_spec:
  "s \<le> free_slot used s \<and> free_slot used s \<notin> set used \<and> (\<forall>t. s \<le> t \<and> t < free_slot used s \<longrightarrow> t \<in> set used)"
proof (induction used s rule: free_slot.induct)
  case (1 used s)
  show ?case
  proof (cases "s \<in> set used")
    case True
    have *: "free_slot used s = free_slot used (s + 1)"
      using True by (subst free_slot.simps) simp
    have "t \<in> set used" if "s \<le> t" "t < free_slot used (s + 1)" for t
      using 1 [OF True] that True by (cases "t = s") auto
    then show ?thesis
      using 1 [OF True] unfolding * by auto
  next
    case False
    then have "free_slot used s = s" by (subst free_slot.simps) simp
    with False show ?thesis by auto
  qed
qed

definition slots_ok :: "drive_object list \<Rightarrow> bool" where
  "slots_ok rack \<longleftrightarrow> distinct (map do_slot rack) \<and> list_all (\<lambda>d. 1 \<le> do_slot d) rack"

lemma slots_ok_add: "slots_ok rack \<Longrightarrow> do_slot d = next_slot rack \<Longrightarrow> slots_ok (rack @ [d])"
  using free_slot_spec [of 1 "map do_slot rack"] by (auto simp: slots_ok_def next_slot_def)

lemma slots_ok_update: "slots_ok rack \<Longrightarrow> i < length rack \<Longrightarrow> do_slot d = do_slot (rack ! i) \<Longrightarrow> slots_ok (rack[i := d])"
  by (auto simp: slots_ok_def map_update_same list_all_length nth_list_update simp del: list_update_id)

lemma slots_ok_remove: "slots_ok rack \<Longrightarrow> slots_ok (take i rack @ drop (Suc i) rack)"
proof -
  assume ok: "slots_ok rack"
  have "distinct (map do_slot (take i rack @ drop (Suc i) rack))"
    using ok set_take_disj_set_drop_if_distinct [of "map do_slot rack" i "Suc i"]
    by (auto simp: slots_ok_def simp flip: take_map drop_map)
  moreover have "set (take i rack @ drop (Suc i) rack) \<subseteq> set rack"
    by (auto dest: in_set_takeD in_set_dropD)
  ultimately show ?thesis
    using ok by (auto simp: slots_ok_def list_all_iff)
qed

lemma with_telegram_slot [simp]: "do_slot (with_telegram s d) = do_slot d"
  by (simp add: with_telegram_def)

lemma edit_step_slots: "edit_step e dg = Inr dg' \<Longrightarrow> slots_ok (dg_rack dg) \<Longrightarrow> slots_ok (dg_rack dg')"
proof (cases e)
  case (AddModule i)
  assume "edit_step e dg = Inr dg'" "slots_ok (dg_rack dg)"
  then show ?thesis
    by (auto simp: AddModule do_add_module_def Let_def split: if_splits option.splits intro!: slots_ok_add)
next
  case (SetTelegram i j)
  assume "edit_step e dg = Inr dg'" "slots_ok (dg_rack dg)"
  then show ?thesis
    by (auto simp: SetTelegram do_set_telegram_def Let_def split: if_splits option.splits intro!: slots_ok_update)
next
  case (Remove i)
  assume "edit_step e dg = Inr dg'" "slots_ok (dg_rack dg)"
  then show ?thesis
    by (auto simp: Remove remove_selected_def slots_ok_remove split: if_splits)
qed (auto simp: on_dap_change_def scan_select_def Let_def split: if_splits)

lemma edits_slots: "edits es dg = Inr dg' \<Longrightarrow> slots_ok (dg_rack dg) \<Longrightarrow> slots_ok (dg_rack dg')"
  by (induction es arbitrary: dg) (auto simp: bindE_Inr dest: edit_step_slots)

lemma load_identity_rack [simp]: "dg_rack (load_identity dg) = dg_rack dg"
  by (simp add: load_identity_def Let_def split: list.split)

lemma dialog_open_rack [simp]: "dg_rack (dialog_open cfg g) = effective_drive_objects cfg"
  by (simp add: dialog_open_def)

text \<open>Opening and editing touch the configuration only in its variant.\<close>

definition same_but_dap :: "device_config \<Rightarrow> device_config \<Rightarrow> bool" where
  "same_but_dap c c' \<longleftrightarrow> c' = c\<lparr>dc_dap_id := dc_dap_id c'\<rparr>"

lemma same_but_dap_refl: "same_but_dap c c"
  by (simp add: same_but_dap_def)

lemma same_but_dap_set: "same_but_dap c c' \<Longrightarrow> same_but_dap c (c'\<lparr>dc_dap_id := i\<rparr>)"
  by (cases c; cases c') (simp add: same_but_dap_def)

lemma edit_step_cfg: "edit_step e dg = Inr dg' \<Longrightarrow> same_but_dap c (dg_cfg dg) \<Longrightarrow> same_but_dap c (dg_cfg dg')"
  by (cases e)
    (auto simp: do_add_module_def do_set_telegram_def remove_selected_def on_dap_change_def scan_select_def Let_def
        same_but_dap_set split: if_splits option.splits)

lemma edits_cfg: "edits es dg = Inr dg' \<Longrightarrow> same_but_dap c (dg_cfg dg) \<Longrightarrow> same_but_dap c (dg_cfg dg')"
  by (induction es arbitrary: dg) (auto simp: bindE_Inr dest: edit_step_cfg)

lemma dialog_open_cfg: "same_but_dap cfg (dg_cfg (dialog_open cfg g))"
  by (auto simp: dialog_open_def load_identity_def Let_def same_but_dap_set same_but_dap_refl split: list.split)

section \<open>Properties\<close>

text \<open>The slots of the rack: whatever modules are added, removed or given telegrams, a rack whose
  drive objects are on distinct slots from 1 on stays one, and the next module added always gets
  the lowest slot that is free.\<close>

theorem rack_slots:
  assumes "edits es (dialog_open cfg g) = Inr dg" and "slots_ok (effective_drive_objects cfg)"
  shows "slots_ok (dg_rack dg)
    \<and> (\<forall>i dg'. do_add_module i dg = Inr dg' \<longrightarrow>
         (\<exists>d. dg_rack dg' = dg_rack dg @ [d] \<and> 1 \<le> do_slot d \<and> do_slot d \<notin> do_slot ` set (dg_rack dg)
           \<and> (\<forall>t. 1 \<le> t \<and> t < do_slot d \<longrightarrow> t \<in> do_slot ` set (dg_rack dg))))"
proof -
  have spec: "1 \<le> next_slot (dg_rack dg)" "next_slot (dg_rack dg) \<notin> do_slot ` set (dg_rack dg)"
    "\<forall>t. 1 \<le> t \<and> t < next_slot (dg_rack dg) \<longrightarrow> t \<in> do_slot ` set (dg_rack dg)"
    using free_slot_spec [of 1 "map do_slot (dg_rack dg)"] by (auto simp: next_slot_def)
  have "\<exists>d. dg_rack dg' = dg_rack dg @ [d] \<and> do_slot d = next_slot (dg_rack dg)" if "do_add_module i dg = Inr dg'" for i dg'
    using that by (auto simp: do_add_module_def Let_def split: if_splits option.splits)
  moreover have "slots_ok (dg_rack dg)"
    using edits_slots [OF assms(1)] assms(2) by simp
  ultimately show ?thesis
    using spec by metis
qed

definition demo_gsdml :: gsdml_device where
  "demo_gsdml =
     \<lparr>gv_path = ''a.xml'', gv_vendor_name = [], gv_device_name = ''dev'', gv_vendor_id = 0x2A, gv_device_id = 1,
      gv_modules = [\<lparr>mi_ident = 5, mi_name = ''Vector'', mi_submodules =
        [\<lparr>si_ident = 1, si_name = ''Module Access Point'', si_input_length = 0, si_output_length = 0, si_data_items = []\<rparr>,
         \<lparr>si_ident = 2, si_name = ''PROFIsafe telegram 30'', si_input_length = 6, si_output_length = 6, si_data_items = []\<rparr>,
         \<lparr>si_ident = 3, si_name = ''Standard telegram 1'', si_input_length = 4, si_output_length = 4, si_data_items = []\<rparr>]\<rparr>],
      gv_bitmap = None,
      gv_daps = [\<lparr>dap_id = ''A'', dap_name = ''first'', dap_module_ident = 1, dap_dns = ''a''\<rparr>,
                 \<lparr>dap_id = ''B'', dap_name = ''second'', dap_module_ident = 2, dap_dns = ''b''\<rparr>],
      gv_selected = ''A'', gv_head_ident = 1\<rparr>"

lemma demo_edit:
  "case edits [AddModule 0, Remove 0] (dialog_open default_device_config demo_gsdml) of
     Inl _ \<Rightarrow> False | Inr dg \<Rightarrow> map do_slot (dg_rack dg) = [2] \<and> map do_submodule_ident (dg_rack dg) = [3]"
  by code_simp

lemma rack_slots_witness:
  "\<exists>dg. edits [AddModule 0, Remove 0] (dialog_open default_device_config demo_gsdml) = Inr dg \<and> slots_ok (dg_rack dg)"
proof -
  have "slots_ok (effective_drive_objects default_device_config)" by code_simp
  with demo_edit rack_slots [of "[AddModule 0, Remove 0]" default_device_config demo_gsdml] show ?thesis
    by (auto split: sum.splits)
qed

text \<open>What Apply leaves in the configuration: with an address that is not four numbers up to 255 nothing
  changes and the dialog stays; otherwise the drive objects in effect are those of the rack and the
  totals are their sums, except that an emptied rack brings the old single drive object of the
  scalar fields back.\<close>

theorem apply_config:
  "if ip_ok (strip (dg_ip dg))
   then dg_accepted (on_apply dg) \<and> \<not> dg_open (on_apply dg) \<and> dc_ip (dg_cfg (on_apply dg)) = strip (dg_ip dg)
     \<and> effective_drive_objects (dg_cfg (on_apply dg)) =
         (if dg_rack dg \<noteq> [] then dg_rack dg else effective_drive_objects ((dg_cfg dg)\<lparr>dc_drive_objects := []\<rparr>))
     \<and> (dg_rack dg = [] \<or> total_input_length (dg_cfg (on_apply dg)) = sum_list (map do_input_length (dg_rack dg))
         \<and> total_output_length (dg_cfg (on_apply dg)) = sum_list (map do_output_length (dg_rack dg)))
   else on_apply dg = dg"
  by (auto simp: on_apply_def Let_def sync_legacy_from_rack_def effective_drive_objects_def total_input_length_def
      total_output_length_def split: list.split)

lemma apply_config_witness:
  "length (effective_drive_objects (dg_cfg (on_apply ((dialog_open default_device_config demo_gsdml)\<lparr>dg_ip := '' 10.0.0.7 '', dg_rack := []\<rparr>)))) = 1"
proof -
  have "ip_ok (strip (dg_ip ((dialog_open default_device_config demo_gsdml)\<lparr>dg_ip := '' 10.0.0.7 '', dg_rack := []\<rparr>)))"
    by code_simp
  with apply_config [of "(dialog_open default_device_config demo_gsdml)\<lparr>dg_ip := '' 10.0.0.7 '', dg_rack := []\<rparr>"]
  show ?thesis by (auto simp: effective_drive_objects_def)
qed

text \<open>Cancel takes everything back but the device variant: after any edits the configuration
  differs from the one the dialog was opened on at most in the variant, which opening the dialog
  and choosing in it set at once.\<close>

theorem cancel_keeps:
  assumes "edits es (dialog_open cfg g) = Inr dg"
  shows "\<not> dg_accepted (on_cancel dg) \<and> dg_cfg (on_cancel dg) = cfg\<lparr>dc_dap_id := dc_dap_id (dg_cfg dg)\<rparr>"
  using edits_cfg [OF assms dialog_open_cfg] by (simp add: on_cancel_def same_but_dap_def)

lemma cancel_keeps_witness:
  "\<exists>dg. edits [ChooseVariant 1] (dialog_open default_device_config demo_gsdml) = Inr dg
    \<and> dg_cfg (on_cancel dg) = default_device_config\<lparr>dc_dap_id := ''B''\<rparr>"
proof -
  have "case edits [ChooseVariant 1] (dialog_open default_device_config demo_gsdml) of
      Inl _ \<Rightarrow> False | Inr dg \<Rightarrow> dc_dap_id (dg_cfg dg) = ''B''"
    by code_simp
  with cancel_keeps [of "[ChooseVariant 1]" default_device_config demo_gsdml] show ?thesis
    by (auto split: sum.splits)
qed

end
