(* ===== verification/Ui_Discovery.thy ===== *)
theory Ui_Discovery
  imports Pn_Dcp Ui_Device
begin

text \<open>
  The discovery window of \<open>profinet_gateway_py/ui/discovery_window.py\<close> without its widgets: the
  adapter, the table of the devices found, the entry fields of the selected one, and the requests
  that its buttons hand to the controller on a worker thread.
\<close>

section \<open>State\<close>

record discovery =
  dy_adapter :: string
  dy_adapter_names :: "string list"
  dy_results :: "scan_result list"
  dy_selection :: "nat option"
  dy_name :: string
  dy_ip :: string
  dy_subnet :: string
  dy_gw :: string
  dy_mac :: string
  dy_status :: string

definition discovery_open :: "string \<Rightarrow> discovery" where
  "discovery_open adapter = \<lparr>dy_adapter = adapter, dy_adapter_names = [], dy_results = [], dy_selection = None,
     dy_name = [], dy_ip = [], dy_subnet = ''255.255.255.0'', dy_gw = ''0.0.0.0'', dy_mac = [], dy_status = ''Ready.''\<rparr>"

section \<open>Adapters\<close>

text \<open>The configured adapter when the machine has it, else the first one.\<close>

definition refresh_adapters :: "(string \<times> string) list \<Rightarrow> discovery \<Rightarrow> discovery" where
  "refresh_adapters verbose s =
     (let names = map fst verbose; s1 = s\<lparr>dy_adapter_names := names\<rparr> in
      case names of
        [] \<Rightarrow> s1\<lparr>dy_status := ''No adapters found '' @ em_dash @ '' is Npcap installed?''\<rparr>
      | n # _ \<Rightarrow>
         (let want = (if dy_adapter s \<noteq> [] then fst (resolve_adapter names (dy_adapter s)) else []) in
          s1\<lparr>dy_adapter := (case index_of want names of Some i \<Rightarrow> names ! i | None \<Rightarrow> n)\<rparr>))"

definition on_adapter_select :: "nat \<Rightarrow> discovery \<Rightarrow> discovery" where
  "on_adapter_select idx s =
     (if idx < length (dy_adapter_names s)
      then s\<lparr>dy_adapter := dy_adapter_names s ! idx, dy_status := ''Adapter: '' @ dy_adapter_names s ! idx\<rparr>
      else s)"

section \<open>The table\<close>

definition rstrip_nul :: "string \<Rightarrow> string" where
  "rstrip_nul s = rev (dropWhile (\<lambda>c. ord_c c = 0) (rev s))"

definition row_of :: "scan_result \<Rightarrow> string list" where
  "row_of d =
     [rstrip_nul (sr_name_of_station d), rstrip_nul (sr_ip_str d), mac_bytes_to_str (sr_mac d),
      (if sr_vendor_name d \<noteq> [] then sr_vendor_name d
       else if sr_vendor_id d \<noteq> 0 then ''0x'' @ hex_fmt 4 (nat (sr_vendor_id d)) else []),
      (if sr_device_id d \<noteq> 0 then ''0x'' @ hex_fmt 4 (nat (sr_device_id d)) else [])]"

text \<open>New rows replace the old ones, which drops the selection.\<close>

definition fill_table :: "scan_result list \<Rightarrow> discovery \<Rightarrow> discovery" where
  "fill_table devices s =
     s\<lparr>dy_results := devices, dy_selection := None,
       dy_status := (if devices \<noteq> [] then ''Found '' @ dec_digits (length devices) @ '' device(s).'' else ''No devices found.'')\<rparr>"

definition selected :: "discovery \<Rightarrow> scan_result option" where
  "selected s =
     (case dy_selection s of
        Some i \<Rightarrow> if i < length (dy_results s) then Some (dy_results s ! i) else None
      | None \<Rightarrow> None)"

definition on_select :: "discovery \<Rightarrow> discovery" where
  "on_select s =
     (case selected s of
        None \<Rightarrow> s
      | Some d \<Rightarrow> s\<lparr>dy_name := rstrip_nul (sr_name_of_station d), dy_ip := rstrip_nul (sr_ip_str d),
                    dy_mac := mac_bytes_to_str (sr_mac d),
                    dy_subnet := (if sr_netmask d \<noteq> [] then sr_netmask d else dy_subnet s),
                    dy_gw := (if sr_gateway d \<noteq> [] then sr_gateway d else dy_gw s)\<rparr>)"

text \<open>A click on a row: the selection, then its event.\<close>

definition select_row :: "nat \<Rightarrow> discovery \<Rightarrow> discovery" where
  "select_row i s = on_select (s\<lparr>dy_selection := Some i\<rparr>)"

section \<open>Actions\<close>

text \<open>A request holds the adapter of the moment of the click; the worker reads it as it starts.\<close>

datatype tool_req =
    NameReq string string string
  | IpReq string string string string string
  | FlashReq string string int

datatype refusal = NoDeviceSelected | NameRequired | BadAddress string | Uncaught py_error

definition run_on :: "discovery \<Rightarrow> (string \<Rightarrow> tool_req) \<Rightarrow> refusal + tool_req" where
  "run_on s fn =
     (case selected s of
        None \<Rightarrow> Inl NoDeviceSelected
      | Some d \<Rightarrow> Inr (fn (mac_bytes_to_str (sr_mac d))))"

definition on_set_name :: "discovery \<Rightarrow> refusal + tool_req" where
  "on_set_name s =
     (let name = strip (dy_name s) in
      if name = [] then Inl NameRequired else run_on s (\<lambda>mac. NameReq (dy_adapter s) mac name))"

definition on_set_ip :: "discovery \<Rightarrow> refusal + tool_req" where
  "on_set_ip s =
     (let ip = strip (dy_ip s) in
      case ip_check ip of
        Inl e \<Rightarrow> Inl (Uncaught e)
      | Inr ok \<Rightarrow>
          if \<not> ok then Inl (BadAddress ip)
          else run_on s (\<lambda>mac. IpReq (dy_adapter s) mac ip (or_else (strip (dy_subnet s)) ''255.255.255.0'')
                                 (or_else (strip (dy_gw s)) ''0.0.0.0'')))"

definition on_flash :: "discovery \<Rightarrow> refusal + tool_req" where
  "on_flash s = run_on s (\<lambda>mac. FlashReq (dy_adapter s) mac 3000)"

text \<open>The worker thread, and whether the window scans again afterwards.  The handler of an
  exception leaves a callback behind that reads the name of the exception after the handler has
  unbound it, so the status stays as it is.\<close>

fun perform :: "bool \<Rightarrow> dcp_world \<Rightarrow> bool \<Rightarrow> string list \<Rightarrow> tool_req \<Rightarrow> (dcp_st, bool) action" where
  "perform lib_ok w win available (NameReq adapter mac name) = dcp_set_name lib_ok w win available adapter mac name"
| "perform lib_ok w win available (IpReq adapter mac ip sn gw) = dcp_set_ip lib_ok w win available adapter mac ip sn gw True"
| "perform lib_ok w win available (FlashReq adapter mac ms) = dcp_flash_led lib_ok w win available adapter mac ms"

fun req_label :: "tool_req \<Rightarrow> string" where
  "req_label (NameReq _ _ _) = ''Set Name''"
| "req_label (IpReq _ _ _ _ _) = ''Set IP''"
| "req_label (FlashReq _ _ _) = ''Flash LED''"

definition worker :: "bool \<Rightarrow> dcp_world \<Rightarrow> bool \<Rightarrow> string list \<Rightarrow> tool_req \<Rightarrow> discovery \<Rightarrow> discovery \<times> bool" where
  "worker lib_ok w win available req s =
     (case fst (perform lib_ok w win available req dcp_start) of
        Inl _ \<Rightarrow> (s, False)
      | Inr ok \<Rightarrow> (s\<lparr>dy_status := req_label req @ '': '' @ (if ok then ''OK'' else ''no response'')\<rparr>,
                    ok \<and> req_label req \<noteq> ''Flash LED''))"

section \<open>The address on the wire\<close>

lemma lower_hex_char: "n < 16 \<Longrightarrow> hex_digit (lower_c (hex_char n)) = Some n \<and> ord_c (lower_c (hex_char n)) \<in> {48 ..< 58} \<union> {97 ..< 103}"
  by (auto simp: lower_c_def ord_c_hex_char hex_digit_def Let_def)

lemma byte_of_hex_lower: "byte_of_hex (lower (hex_byte b)) = Inr b"
proof -
  have c: "ord_c (CHR ''-'') = 45" "ord_c (CHR ''+'') = 43" "ord_c (CHR ''x'') = 120" "ord_c (CHR ''X'') = 88" "ord_c (CHR ''_'') = 95"
    by (simp_all add: ord_c_def)
  have plain: "hex_digit (lower_c (hex_char n)) = Some n \<and> \<not> is_space (lower_c (hex_char n))
      \<and> lower_c (hex_char n) \<noteq> CHR ''-'' \<and> lower_c (hex_char n) \<noteq> CHR ''+'' \<and> lower_c (hex_char n) \<noteq> CHR ''x''
      \<and> lower_c (hex_char n) \<noteq> CHR ''X'' \<and> lower_c (hex_char n) \<noteq> CHR ''_''" if "n < 16" for n
    using lower_hex_char [OF that] c by (auto simp: is_space_def)
  have "parse_hex (lower (hex_byte b)) = Some (int (unat b))"
    using plain [OF unat_byte_div [of b]] plain [of "unat b mod 16"] unat_byte_div [of b]
    by (simp add: parse_hex_def strip_def hex_byte_def signed_val_def literal_val_def lower_def)
  then show ?thesis
    by (simp add: byte_of_hex_def)
qed

lemma bytes_of_hex_lower: "bytes_of_hex (map (\<lambda>b. lower (hex_byte b)) bs) = Inr bs"
  by (induction bs) (simp_all add: byte_of_hex_lower)

lemma lower_join: "lower (join '':'' ws) = join '':'' (map lower ws)"
  by (induction "'':''" ws rule: join.induct) (simp_all add: lower_def lower_c_def ord_c_def)

lemma colon_lower_hex_byte: "CHR '':'' \<notin> set (lower (hex_byte b))"
proof -
  have "ord_c (CHR '':'') = 58" by (simp add: ord_c_def)
  then have "lower_c (hex_char n) \<noteq> CHR '':''" if "n < 16" for n
    using lower_hex_char [OF that] by auto
  from this [OF unat_byte_div [of b]] this [of "unat b mod 16"] show ?thesis
    by (auto simp: hex_byte_def lower_def)
qed

lemma mac_raw_lower: "mac \<noteq> [] \<Longrightarrow> mac_raw (lower (mac_bytes_to_str mac)) = Inr mac"
proof -
  assume "mac \<noteq> []"
  moreover from this have "lower (mac_bytes_to_str mac) \<noteq> []"
    by (cases mac rule: list.exhaust; cases "tl mac") (auto simp: mac_bytes_to_str_def hex_byte_def lower_def)
  ultimately show ?thesis
    by (simp add: mac_raw_def mac_bytes_to_str_def lower_join split_on_join list_all_iff colon_lower_hex_byte
        bytes_of_hex_lower comp_def)
qed

text \<open>The call a request ends in.\<close>

fun req_call :: "bytes \<Rightarrow> tool_req \<Rightarrow> dcp_call" where
  "req_call src (NameReq _ mac name) = DSetName src (lower mac) name"
| "req_call src (IpReq _ mac ip sn gw) = DSetIp src (lower mac) ip sn gw True"
| "req_call src (FlashReq _ mac ms) = DFlash src (lower mac) ms"

lemma perform_calls:
  assumes "(c, ok) \<in> set (dt_calls (snd (perform True w win available req dcp_start)))"
  shows "(\<exists>a. c = DOpen a \<or> c = DGetMac a) \<or> c = DClose \<or> (\<exists>src. c = req_call src req)"
proof -
  obtain adapter label mac where p: "perform True w win available req = dcp_tool w win available adapter label mac (\<lambda>src. req_call src req)"
    by (cases req) (auto simp: dcp_set_name_def dcp_set_ip_def dcp_flash_led_def)
  show ?thesis
    using assms dcp_tool_calls [where w = w and win = win and available = available and adapter = adapter
        and label = label and mac = mac and request = "\<lambda>src. req_call src req"]
    by (auto simp: p tool_calls_def Let_def split: sum.splits prod.splits)
qed

lemma selected_row: "i < length devs \<Longrightarrow> selected (select_row i (fill_table devs s)) = Some (devs ! i)"
  by (simp add: select_row_def on_select_def selected_def fill_table_def)

section \<open>Properties\<close>

text \<open>C28: The device that the buttons act on is the one selected: after a scan filled the table, the
  entry fields show the selected row, the subnet and the gateway only where the device reported them,
  and setting the address, setting the name or flashing the lamp make a call whose address text
  reads back as the hardware address that the scan found, with the values of the fields.\<close>

theorem discovery_acts_on_selected:
  assumes "i < length devs" and "sr_mac (devs ! i) \<noteq> []" and "s1 = select_row i (fill_table devs s)"
  shows "dy_name s1 = rstrip_nul (sr_name_of_station (devs ! i)) \<and> dy_ip s1 = rstrip_nul (sr_ip_str (devs ! i))
    \<and> dy_subnet s1 = or_else (sr_netmask (devs ! i)) (dy_subnet s) \<and> dy_gw s1 = or_else (sr_gateway (devs ! i)) (dy_gw s)
    \<and> (\<exists>mac. mac_raw mac = Inr (sr_mac (devs ! i))
        \<and> (\<exists>req. on_flash s1 = Inr req \<and> req_call src req = DFlash src mac 3000)
        \<and> (strip (dy_name s1) \<noteq> [] \<longrightarrow>
             (\<exists>req. on_set_name s1 = Inr req \<and> req_call src req = DSetName src mac (strip (dy_name s1))))
        \<and> (ip_ok (strip (dy_ip s1)) \<longrightarrow>
             (\<exists>req. on_set_ip s1 = Inr req
               \<and> req_call src req = DSetIp src mac (strip (dy_ip s1)) (or_else (strip (dy_subnet s1)) ''255.255.255.0'')
                   (or_else (strip (dy_gw s1)) ''0.0.0.0'') True)))
    \<and> (\<forall>w win available req c ok. (c, ok) \<in> set (dt_calls (snd (perform True w win available req dcp_start))) \<longrightarrow>
         (\<exists>a. c = DOpen a \<or> c = DGetMac a) \<or> c = DClose \<or> (\<exists>src. c = req_call src req))"
proof -
  have sel: "selected s1 = Some (devs ! i)"
    using assms(1) by (simp add: assms(3) selected_row)
  have fields: "dy_name s1 = rstrip_nul (sr_name_of_station (devs ! i)) \<and> dy_ip s1 = rstrip_nul (sr_ip_str (devs ! i))
    \<and> dy_subnet s1 = or_else (sr_netmask (devs ! i)) (dy_subnet s) \<and> dy_gw s1 = or_else (sr_gateway (devs ! i)) (dy_gw s)"
    using assms(1) by (simp add: assms(3) select_row_def on_select_def selected_def fill_table_def or_else_def)
  moreover have "mac_raw (lower (mac_bytes_to_str (sr_mac (devs ! i)))) = Inr (sr_mac (devs ! i))"
    using assms(2) by (rule mac_raw_lower)
  ultimately show ?thesis
    by (intro conjI exI [of _ "lower (mac_bytes_to_str (sr_mac (devs ! i)))"])
      (auto simp: on_flash_def on_set_name_def on_set_ip_def run_on_def ip_ok_def sel Let_def dest: perform_calls)
qed

definition demo_found :: scan_result where
  "demo_found = \<lparr>sr_name_of_station = ''drive'', sr_ip_str = ''10.0.0.7'', sr_mac = [0, 0x1B, 0x1B, 0, 0, 7],
     sr_netmask = [], sr_gateway = ''10.0.0.1'', sr_vendor_name = [], sr_vendor_id = 42, sr_device_id = 1\<rparr>"

lemma discovery_acts_on_selected_witness:
  "\<exists>req mac. on_set_ip (select_row 0 (fill_table [demo_found] (discovery_open ''eth0''))) = Inr req
    \<and> mac_raw mac = Inr [0, 0x1B, 0x1B, 0, 0, 7]
    \<and> req_call [] req = DSetIp [] mac ''10.0.0.7'' ''255.255.255.0'' ''10.0.0.1'' True"
proof -
  have ok: "ip_ok ''10.0.0.7''" "strip ''10.0.0.7'' = ''10.0.0.7''" "strip ''255.255.255.0'' = ''255.255.255.0''"
    "strip ''10.0.0.1'' = ''10.0.0.1''" "rstrip_nul ''10.0.0.7'' = ''10.0.0.7''"
    by code_simp+
  show ?thesis
    using discovery_acts_on_selected [of 0 "[demo_found]" _ "discovery_open ''eth0''" "[]", OF _ _ refl]
    by (auto simp: demo_found_def discovery_open_def or_else_def ok)
qed

end
