(* ===== verification/Ui_Canvas.thy ===== *)
theory Ui_Canvas
  imports Ui_Device Pn_Ctrl Gateway
begin

text \<open>
  The configuration window of \<open>profinet_gateway_py/ui\<close> without its widgets: the tab with the
  description files and the devices on the canvas (\<open>pn_config_tab.py\<close>), the gateway tab
  (\<open>gw_config_tab.py\<close>), and Apply and Restart (\<open>config_window.py\<close>).  Configurations and
  device descriptions are objects that the window shares with the running application, so they
  live in stores and are referred to by their place there.  Which items a click overlaps is
  answered by the window toolkit and is an argument; a coordinate is the integer it is cut to.
\<close>

section \<open>State\<close>

record canvas_dev =
  cd_gsdml :: nat
  cd_cfg :: nat
  cd_canvas_id :: nat
  cd_label_id :: nat
  cd_box_id :: nat
  cd_label :: string

record win =
  w_cfgs :: "device_config list"
  w_gsdmls :: "gsdml_device list"
  w_app_adapter :: string
  w_app_devices :: "nat list"
  w_app_gateway :: gateway_config
  w_gsdml_list :: "nat list"
  w_devs :: "canvas_dev list"
  w_drag :: "nat option"
  w_adapter_names :: "string list"
  w_adapter :: string
  w_next_id :: nat
  w_form :: gateway_config

text \<open>The files that the window reads.\<close>

record disk =
  dk_exists :: "string \<Rightarrow> bool"
  dk_files :: file_sys
  dk_tree :: "string \<Rightarrow> xml option"
  dk_load :: "string \<Rightarrow> py_error + lib_dev"

definition read_gsdml :: "disk \<Rightarrow> string \<Rightarrow> string \<Rightarrow> py_error + gsdml_device" where
  "read_gsdml dk path want = parse_gsdml (dk_files dk) (dk_tree dk) (dk_load dk) path want"

definition new_gsdml :: "gsdml_device \<Rightarrow> win \<Rightarrow> nat \<times> win" where
  "new_gsdml g w = (length (w_gsdmls w), w\<lparr>w_gsdmls := w_gsdmls w @ [g]\<rparr>)"

definition BUS_Y :: int where "BUS_Y = 60"

section \<open>Adding devices\<close>

definition first_sub :: "gsdml_device \<Rightarrow> sub_info option" where
  "first_sub g = (case gv_modules g of [] \<Rightarrow> None | m # _ \<Rightarrow> (case mi_submodules m of [] \<Rightarrow> None | s # _ \<Rightarrow> Some s))"

definition new_config :: "gsdml_device \<Rightarrow> int \<Rightarrow> int \<Rightarrow> device_config" where
  "new_config g x y = default_device_config\<lparr>dc_gsdml_path := gv_path g, dc_dap_id := gv_selected g,
     dc_canvas_x := x, dc_canvas_y := y,
     dc_module_ident := (case gv_modules g of [] \<Rightarrow> 0 | m # _ \<Rightarrow> mi_ident m),
     dc_submodule_ident := (case first_sub g of None \<Rightarrow> 0 | Some s \<Rightarrow> si_ident s),
     dc_input_length := (case first_sub g of None \<Rightarrow> 4 | Some s \<Rightarrow> si_input_length s),
     dc_output_length := (case first_sub g of None \<Rightarrow> 4 | Some s \<Rightarrow> si_output_length s)\<rparr>"

text \<open>The box is created first, then the picture, then the label.\<close>

definition add_device :: "nat \<Rightarrow> int \<Rightarrow> int \<Rightarrow> nat option \<Rightarrow> win \<Rightarrow> win" where
  "add_device gref x y0 existing w =
     (let y = max y0 (BUS_Y + 90); g = w_gsdmls w ! gref; n = w_next_id w;
          (cref, cfgs) = (case existing of
             Some c \<Rightarrow> (c, w_cfgs w)
           | None \<Rightarrow> (length (w_cfgs w), w_cfgs w @ [new_config g x y]))
      in w\<lparr>w_cfgs := cfgs[cref := (cfgs ! cref)\<lparr>dc_canvas_x := x, dc_canvas_y := y\<rparr>],
           w_devs := w_devs w @ [\<lparr>cd_gsdml = gref, cd_cfg = cref, cd_canvas_id = n + 1, cd_label_id = n + 2,
                                  cd_box_id = n, cd_label = gv_device_name g\<rparr>],
           w_next_id := n + 3\<rparr>)"

definition path_listed :: "string \<Rightarrow> win \<Rightarrow> bool" where
  "path_listed path w \<longleftrightarrow> (\<exists>r \<in> set (w_gsdml_list w). gv_path (w_gsdmls w ! r) = path)"

definition load_one :: "disk \<Rightarrow> nat \<Rightarrow> win \<Rightarrow> win" where
  "load_one dk c w =
     (let cfg = w_cfgs w ! c in
      if \<not> dk_exists dk (dc_gsdml_path cfg) then w
      else
        (case read_gsdml dk (dc_gsdml_path cfg) (dc_dap_id cfg) of
           Inl _ \<Rightarrow> w
         | Inr g \<Rightarrow>
            (let (r, w1) = new_gsdml g w;
                 w2 = (if path_listed (dc_gsdml_path cfg) w1 then w1 else w1\<lparr>w_gsdml_list := w_gsdml_list w1 @ [r]\<rparr>)
             in add_device r (dc_canvas_x cfg) (dc_canvas_y cfg) (Some c) w2)))"

definition load_from_configs :: "disk \<Rightarrow> nat list \<Rightarrow> win \<Rightarrow> win" where
  "load_from_configs dk refs w = fold (load_one dk) refs w"

section \<open>The list of description files\<close>

text \<open>A file that does not parse only shows a message.\<close>

definition load_path :: "disk \<Rightarrow> string \<Rightarrow> win \<Rightarrow> win" where
  "load_path dk path w =
     (if path_listed path w then w
      else (case read_gsdml dk path [] of
              Inl _ \<Rightarrow> w
            | Inr g \<Rightarrow> (let (r, w1) = new_gsdml g w in w1\<lparr>w_gsdml_list := w_gsdml_list w1 @ [r]\<rparr>)))"

definition load_gsdml_files :: "disk \<Rightarrow> string list \<Rightarrow> win \<Rightarrow> win" where
  "load_gsdml_files dk paths w = fold (load_path dk) paths w"

definition remove_gsdml :: "nat \<Rightarrow> win \<Rightarrow> win" where
  "remove_gsdml idx w = w\<lparr>w_gsdml_list := take idx (w_gsdml_list w) @ drop (Suc idx) (w_gsdml_list w)\<rparr>"

section \<open>The canvas\<close>

definition lb_press :: "nat \<Rightarrow> win \<Rightarrow> win" where
  "lb_press idx w =
     w\<lparr>w_drag := (if idx < length (w_gsdml_list w) then Some (w_gsdml_list w ! idx) else None)\<rparr>"

definition canvas_drop :: "nat list \<Rightarrow> int \<Rightarrow> int \<Rightarrow> win \<Rightarrow> win" where
  "canvas_drop items x y w =
     (case w_drag w of
        None \<Rightarrow> w
      | Some g \<Rightarrow>
         if \<exists>it \<in> set items. \<exists>cd \<in> set (w_devs w). cd_canvas_id cd = it then w\<lparr>w_drag := None\<rparr>
         else (add_device g x y None w)\<lparr>w_drag := None\<rparr>)"

definition move_device :: "nat \<Rightarrow> int \<Rightarrow> int \<Rightarrow> win \<Rightarrow> win" where
  "move_device i x y w =
     (let c = cd_cfg (w_devs w ! i) in
      w\<lparr>w_cfgs := (w_cfgs w)[c := (w_cfgs w ! c)\<lparr>dc_canvas_x := x, dc_canvas_y := max y (BUS_Y + 90)\<rparr>]\<rparr>)"

fun hit :: "nat list \<Rightarrow> canvas_dev list \<Rightarrow> nat option" where
  "hit items [] = None"
| "hit items (cd # cds) =
     (if cd_canvas_id cd \<in> set items \<or> cd_label_id cd \<in> set items then Some 0 else map_option Suc (hit items cds))"

definition right_click :: "nat list \<Rightarrow> bool \<Rightarrow> win \<Rightarrow> win" where
  "right_click items yes w =
     (case hit items (w_devs w) of
        None \<Rightarrow> w
      | Some i \<Rightarrow> if yes then w\<lparr>w_devs := take i (w_devs w) @ drop (Suc i) (w_devs w)\<rparr> else w)"

text \<open>A double click opens the device dialog on the objects of the device: what the user does in
  it, then Apply or Cancel.  With Apply refused the dialog can only be cancelled.\<close>

definition double_click :: "nat list \<Rightarrow> edit list \<Rightarrow> bool \<Rightarrow> win \<Rightarrow> py_error + win" where
  "double_click items es apply w =
     (case hit items (w_devs w) of
        None \<Rightarrow> Inr w
      | Some i \<Rightarrow>
         (let cd = w_devs w ! i in
          bindE (edits es (dialog_open (w_cfgs w ! cd_cfg cd) (w_gsdmls w ! cd_gsdml cd))) (\<lambda>dg.
            (let dg' = (if apply \<and> dg_accepted (on_apply dg) then on_apply dg else on_cancel dg);
                 cd' = (if dg_accepted dg'
                        then cd\<lparr>cd_label := or_else (dc_station_name (dg_cfg dg')) (gv_device_name (dg_gsdml dg'))\<rparr> else cd)
             in Inr (w\<lparr>w_cfgs := (w_cfgs w)[cd_cfg cd := dg_cfg dg'], w_gsdmls := (w_gsdmls w)[cd_gsdml cd := dg_gsdml dg'],
                       w_devs := (w_devs w)[i := cd']\<rparr>)))))"

section \<open>Adapter and gateway tab\<close>

definition tab_adapters :: "string list \<Rightarrow> win \<Rightarrow> win" where
  "tab_adapters names w =
     (let current = (if w_adapter w \<noteq> [] then fst (resolve_adapter names (w_adapter w)) else w_adapter w);
          w1 = w\<lparr>w_adapter_names := names, w_adapter := current\<rparr>
      in case names of
           [] \<Rightarrow> w1
         | n # _ \<Rightarrow> if current \<in> set names then w1 else w1\<lparr>w_adapter := n\<rparr>)"

definition choose_adapter :: "nat \<Rightarrow> win \<Rightarrow> win" where
  "choose_adapter idx w = (if idx < length (w_adapter_names w) then w\<lparr>w_adapter := w_adapter_names w ! idx\<rparr> else w)"

text \<open>The entry fields of the gateway tab hold what the record of the configuration holds.\<close>

definition load_values :: "gateway_config \<Rightarrow> gateway_config" where
  "load_values c = c\<lparr>gc_priority := or_else (gc_priority c) ''high''\<rparr>"

definition form_config :: "gateway_config \<Rightarrow> gateway_config" where
  "form_config f = f\<lparr>gc_bind := or_else (strip (gc_bind f)) ''0.0.0.0'', gc_cpu_affinity := strip (gc_cpu_affinity f)\<rparr>"

section \<open>The window\<close>

definition window_open :: "disk \<Rightarrow> string list \<Rightarrow> app_config \<Rightarrow> win" where
  "window_open dk names cfg =
     load_from_configs dk [0 ..< length (ac_devices cfg)]
       (tab_adapters names
         \<lparr>w_cfgs = ac_devices cfg, w_gsdmls = [], w_app_adapter = ac_adapter cfg,
          w_app_devices = [0 ..< length (ac_devices cfg)], w_app_gateway = ac_gateway cfg,
          w_gsdml_list = [], w_devs = [], w_drag = None, w_adapter_names = [], w_adapter = ac_adapter cfg,
          w_next_id = 1, w_form = load_values (ac_gateway cfg)\<rparr>)"

text \<open>What the running application sees.\<close>

definition app_of :: "win \<Rightarrow> app_config" where
  "app_of w = \<lparr>ac_adapter = w_app_adapter w, ac_devices = map ((!) (w_cfgs w)) (w_app_devices w), ac_gateway = w_app_gateway w\<rparr>"

text \<open>Apply and Restart; without devices it asks first.\<close>

definition apply_restart :: "bool \<Rightarrow> win \<Rightarrow> files \<Rightarrow> win \<times> files" where
  "apply_restart confirm w fs =
     (let refs = map cd_cfg (w_devs w);
          new_cfg = \<lparr>ac_adapter = w_adapter w, ac_devices = map ((!) (w_cfgs w)) refs, ac_gateway = form_config (w_form w)\<rparr>
      in if refs = [] \<and> \<not> confirm then (w, fs)
         else (w\<lparr>w_app_adapter := w_adapter w, w_app_devices := refs, w_app_gateway := form_config (w_form w)\<rparr>,
               save_config new_cfg fs))"

section \<open>Loading\<close>

definition readable :: "disk \<Rightarrow> device_config \<Rightarrow> bool" where
  "readable dk dc \<longleftrightarrow> dk_exists dk (dc_gsdml_path dc) \<and> \<not> isl (read_gsdml dk (dc_gsdml_path dc) (dc_dap_id dc))"

definition lifted :: "device_config \<Rightarrow> device_config" where
  "lifted dc = dc\<lparr>dc_canvas_y := max (dc_canvas_y dc) (BUS_Y + 90)\<rparr>"

text \<open>The parts of the window that loading does not touch.\<close>

definition same_app :: "win \<Rightarrow> win \<Rightarrow> bool" where
  "same_app w w' \<longleftrightarrow> w_app_adapter w' = w_app_adapter w \<and> w_app_devices w' = w_app_devices w
     \<and> w_app_gateway w' = w_app_gateway w \<and> w_adapter w' = w_adapter w \<and> w_form w' = w_form w"

lemma load_one_effect:
  "w_cfgs (load_one dk c w) =
     (if readable dk (w_cfgs w ! c) then (w_cfgs w)[c := lifted (w_cfgs w ! c)] else w_cfgs w)
   \<and> map cd_cfg (w_devs (load_one dk c w)) =
     map cd_cfg (w_devs w) @ (if readable dk (w_cfgs w ! c) then [c] else [])
   \<and> same_app w (load_one dk c w)"
  by (auto simp: load_one_def readable_def lifted_def same_app_def add_device_def new_gsdml_def Let_def split: sum.splits)

lemma load_from_configs_effect:
  assumes "distinct refs"
  shows "length (w_cfgs (load_from_configs dk refs w)) = length (w_cfgs w)
    \<and> (\<forall>i < length (w_cfgs w). w_cfgs (load_from_configs dk refs w) ! i =
         (if i \<in> set refs \<and> readable dk (w_cfgs w ! i) then lifted (w_cfgs w ! i) else w_cfgs w ! i))
    \<and> map cd_cfg (w_devs (load_from_configs dk refs w)) =
        map cd_cfg (w_devs w) @ filter (\<lambda>i. readable dk (w_cfgs w ! i)) refs
    \<and> same_app w (load_from_configs dk refs w)"
  using assms
proof (induction refs arbitrary: w)
  case Nil
  then show ?case by (simp add: load_from_configs_def same_app_def)
next
  case (Cons c refs)
  let ?w = "load_one dk c w"
  have IH: "length (w_cfgs (load_from_configs dk refs ?w)) = length (w_cfgs ?w)"
    "\<And>i. i < length (w_cfgs ?w) \<Longrightarrow> w_cfgs (load_from_configs dk refs ?w) ! i =
       (if i \<in> set refs \<and> readable dk (w_cfgs ?w ! i) then lifted (w_cfgs ?w ! i) else w_cfgs ?w ! i)"
    "map cd_cfg (w_devs (load_from_configs dk refs ?w)) =
       map cd_cfg (w_devs ?w) @ filter (\<lambda>i. readable dk (w_cfgs ?w ! i)) refs"
    "same_app ?w (load_from_configs dk refs ?w)"
    using Cons.IH [of ?w] Cons.prems by auto
  have other: "w_cfgs ?w ! i = w_cfgs w ! i" if "i \<noteq> c" for i
    using that load_one_effect [of dk c w] by simp
  have "filter (\<lambda>i. readable dk (w_cfgs ?w ! i)) refs = filter (\<lambda>i. readable dk (w_cfgs w ! i)) refs"
  proof (rule filter_cong)
    fix i
    assume "i \<in> set refs"
    then have "i \<noteq> c" using Cons.prems by auto
    then show "readable dk (w_cfgs ?w ! i) = readable dk (w_cfgs w ! i)" by (simp add: other)
  qed simp
  moreover have "load_from_configs dk (c # refs) w = load_from_configs dk refs ?w"
    by (simp add: load_from_configs_def)
  moreover have "(if i \<in> set refs \<and> readable dk (w_cfgs ?w ! i) then lifted (w_cfgs ?w ! i) else w_cfgs ?w ! i) =
      (if i \<in> set (c # refs) \<and> readable dk (w_cfgs w ! i) then lifted (w_cfgs w ! i) else w_cfgs w ! i)"
    if "i < length (w_cfgs w)" for i
  proof (cases "i = c")
    case True
    then show ?thesis using Cons.prems that load_one_effect [of dk c w] by simp
  next
    case False
    then show ?thesis using other by simp
  qed
  moreover have "length (w_cfgs ?w) = length (w_cfgs w)"
    using load_one_effect [of dk c w] by simp
  moreover have "same_app w (load_from_configs dk refs ?w)"
    using IH(4) load_one_effect [of dk c w] by (simp add: same_app_def)
  ultimately show ?case
    using IH(1-3) load_one_effect [of dk c w] by simp
qed

lemma tab_adapters_same [simp]:
  "w_cfgs (tab_adapters names w) = w_cfgs w" "w_devs (tab_adapters names w) = w_devs w"
  "w_app_adapter (tab_adapters names w) = w_app_adapter w" "w_app_devices (tab_adapters names w) = w_app_devices w"
  "w_app_gateway (tab_adapters names w) = w_app_gateway w" "w_form (tab_adapters names w) = w_form w"
  by (simp_all add: tab_adapters_def Let_def split: list.split)

lemma filter_upt_map:
  "map ((!) (map f xs)) (filter (\<lambda>i. P (xs ! i)) [0 ..< length xs]) = map f (filter P xs)"
proof -
  have "map ((!) xs) (filter (\<lambda>i. P (xs ! i)) [0 ..< length xs]) = filter P xs"
    by (metis (no_types, lifting) comp_def filter_cong filter_map map_nth)
  moreover have "map ((!) (map f xs)) (filter (\<lambda>i. P (xs ! i)) [0 ..< length xs]) =
      map f (map ((!) xs) (filter (\<lambda>i. P (xs ! i)) [0 ..< length xs]))"
    by auto
  ultimately show ?thesis by simp
qed

lemma window_open_cfgs:
  "w_cfgs (window_open dk names cfg) = map (\<lambda>dc. if readable dk dc then lifted dc else dc) (ac_devices cfg)
   \<and> map cd_cfg (w_devs (window_open dk names cfg)) =
       filter (\<lambda>i. readable dk (ac_devices cfg ! i)) [0 ..< length (ac_devices cfg)]
   \<and> w_app_devices (window_open dk names cfg) = [0 ..< length (ac_devices cfg)]
   \<and> w_form (window_open dk names cfg) = load_values (ac_gateway cfg)
   \<and> w_app_adapter (window_open dk names cfg) = ac_adapter cfg \<and> w_app_gateway (window_open dk names cfg) = ac_gateway cfg"
proof -
  have *: "w_cfgs (window_open dk names cfg) = map (\<lambda>dc. if readable dk dc then lifted dc else dc) (ac_devices cfg)"
    if "length (w_cfgs (window_open dk names cfg)) = length (ac_devices cfg)"
      "\<And>i. i < length (ac_devices cfg) \<Longrightarrow> w_cfgs (window_open dk names cfg) ! i =
         (if readable dk (ac_devices cfg ! i) then lifted (ac_devices cfg ! i) else ac_devices cfg ! i)"
    using that by (intro nth_equalityI) auto
  show ?thesis
    using load_from_configs_effect [of "[0 ..< length (ac_devices cfg)]" dk
        "tab_adapters names \<lparr>w_cfgs = ac_devices cfg, w_gsdmls = [], w_app_adapter = ac_adapter cfg,
          w_app_devices = [0 ..< length (ac_devices cfg)], w_app_gateway = ac_gateway cfg,
          w_gsdml_list = [], w_devs = [], w_drag = None, w_adapter_names = [], w_adapter = ac_adapter cfg,
          w_next_id = 1, w_form = load_values (ac_gateway cfg)\<rparr>"]
    by (intro conjI *) (auto simp: window_open_def same_app_def)
qed

section \<open>Any use of the window\<close>

datatype win_op =
    LoadFiles "string list" | RemoveFile nat | Press nat | Drop "nat list" int int | Move nat int int
  | RightClick "nat list" bool | DoubleClick "nat list" "edit list" bool | ChooseAdapter nat | TypeGateway gateway_config
  | ApplyRestart bool

text \<open>A move is bound to a device that is there; a double click that raises leaves the objects as they are.\<close>

fun win_step :: "disk \<Rightarrow> win_op \<Rightarrow> win \<times> files \<Rightarrow> win \<times> files" where
  "win_step dk (LoadFiles ps) (w, fs) = (load_gsdml_files dk ps w, fs)"
| "win_step dk (RemoveFile i) (w, fs) = (remove_gsdml i w, fs)"
| "win_step dk (Press i) (w, fs) = (lb_press i w, fs)"
| "win_step dk (Drop items x y) (w, fs) = (canvas_drop items x y w, fs)"
| "win_step dk (Move i x y) (w, fs) = (if i < length (w_devs w) then move_device i x y w else w, fs)"
| "win_step dk (RightClick items yes) (w, fs) = (right_click items yes w, fs)"
| "win_step dk (DoubleClick items es ok) (w, fs) = (case double_click items es ok w of Inr w' \<Rightarrow> (w', fs) | Inl _ \<Rightarrow> (w, fs))"
| "win_step dk (ChooseAdapter i) (w, fs) = (choose_adapter i w, fs)"
| "win_step dk (TypeGateway f) (w, fs) = (w\<lparr>w_form := f\<rparr>, fs)"
| "win_step dk (ApplyRestart ok) (w, fs) = apply_restart ok w fs"

definition dev_ids :: "canvas_dev \<Rightarrow> nat list" where
  "dev_ids cd = [cd_canvas_id cd, cd_label_id cd, cd_box_id cd]"

definition canvas_ok :: "win \<Rightarrow> bool" where
  "canvas_ok w \<longleftrightarrow>
     list_all (\<lambda>cd. cd_cfg cd < length (w_cfgs w) \<and> cd_gsdml cd < length (w_gsdmls w)
                \<and> list_all (\<lambda>n. n < w_next_id w) (dev_ids cd)
                \<and> BUS_Y + 90 \<le> dc_canvas_y (w_cfgs w ! cd_cfg cd)) (w_devs w)
     \<and> distinct (map cd_cfg (w_devs w)) \<and> distinct (concat (map dev_ids (w_devs w)))
     \<and> list_all (\<lambda>r. r < length (w_gsdmls w)) (w_gsdml_list w)
     \<and> (\<forall>g. w_drag w = Some g \<longrightarrow> g < length (w_gsdmls w))
     \<and> list_all (\<lambda>c. c < length (w_cfgs w)) (w_app_devices w)"

lemma canvas_ok_new_gsdml: "canvas_ok w \<Longrightarrow> canvas_ok (snd (new_gsdml g w))"
  by (auto simp: canvas_ok_def new_gsdml_def list_all_iff)

lemma new_gsdml_ref: "fst (new_gsdml g w) < length (w_gsdmls (snd (new_gsdml g w)))"
  by (simp add: new_gsdml_def)

lemma canvas_ok_add_device:
  assumes "canvas_ok w" and "gref < length (w_gsdmls w)"
    and "\<And>c. existing = Some c \<Longrightarrow> c < length (w_cfgs w) \<and> c \<notin> cd_cfg ` set (w_devs w)"
  shows "canvas_ok (add_device gref x y existing w)"
proof (cases existing)
  case None
  then show ?thesis
    using assms(1,2)
    by (auto simp: canvas_ok_def add_device_def Let_def list_all_iff dev_ids_def nth_append nth_list_update)
next
  case (Some c)
  then show ?thesis
    using assms
    by (auto simp: canvas_ok_def add_device_def Let_def list_all_iff dev_ids_def nth_list_update image_iff)
qed

lemma canvas_ok_list: "canvas_ok w \<Longrightarrow> r < length (w_gsdmls w) \<Longrightarrow> canvas_ok (w\<lparr>w_gsdml_list := w_gsdml_list w @ [r]\<rparr>)"
  by (simp add: canvas_ok_def)

lemma canvas_ok_load_path: "canvas_ok w \<Longrightarrow> canvas_ok (load_path dk path w)"
  using canvas_ok_list [OF canvas_ok_new_gsdml new_gsdml_ref]
  by (auto simp: load_path_def new_gsdml_def split: sum.split)

lemma canvas_ok_load_files: "canvas_ok w \<Longrightarrow> canvas_ok (load_gsdml_files dk paths w)"
  unfolding load_gsdml_files_def by (induction paths arbitrary: w) (auto simp: canvas_ok_load_path)

lemma canvas_ok_load_one:
  assumes "canvas_ok w" and "c < length (w_cfgs w)" and "c \<notin> cd_cfg ` set (w_devs w)"
  shows "canvas_ok (load_one dk c w)"
proof (cases "readable dk (w_cfgs w ! c)")
  case True
  then obtain g where g: "read_gsdml dk (dc_gsdml_path (w_cfgs w ! c)) (dc_dap_id (w_cfgs w ! c)) = Inr g"
    by (cases "read_gsdml dk (dc_gsdml_path (w_cfgs w ! c)) (dc_dap_id (w_cfgs w ! c))") (auto simp: readable_def)
  let ?w1 = "snd (new_gsdml g w)" and ?r = "fst (new_gsdml g w)"
  define w2 where "w2 = (if path_listed (dc_gsdml_path (w_cfgs w ! c)) ?w1 then ?w1
    else ?w1\<lparr>w_gsdml_list := w_gsdml_list ?w1 @ [?r]\<rparr>)"
  have "canvas_ok w2" "?r < length (w_gsdmls w2)" "w_cfgs w2 = w_cfgs w" "w_devs w2 = w_devs w"
    using canvas_ok_new_gsdml [OF assms(1), of g] canvas_ok_list [OF canvas_ok_new_gsdml [OF assms(1)] new_gsdml_ref]
    by (auto simp: w2_def new_gsdml_def)
  moreover have "load_one dk c w = add_device ?r (dc_canvas_x (w_cfgs w ! c)) (dc_canvas_y (w_cfgs w ! c)) (Some c) w2"
    using True g by (simp add: load_one_def readable_def w2_def case_prod_beta Let_def)
  ultimately show ?thesis
    using assms(2,3) by (auto intro!: canvas_ok_add_device)
next
  case False
  then have "load_one dk c w = w"
    by (cases "read_gsdml dk (dc_gsdml_path (w_cfgs w ! c)) (dc_dap_id (w_cfgs w ! c))")
      (auto simp: load_one_def readable_def Let_def)
  with assms(1) show ?thesis by simp
qed

lemma canvas_ok_load:
  assumes "canvas_ok w" and "distinct refs" and "set refs \<subseteq> {..< length (w_cfgs w)}"
    and "set refs \<inter> cd_cfg ` set (w_devs w) = {}"
  shows "canvas_ok (load_from_configs dk refs w)"
  using assms
proof (induction refs arbitrary: w)
  case (Cons c refs)
  have "set (map cd_cfg (w_devs (load_one dk c w))) \<subseteq> insert c (set (map cd_cfg (w_devs w)))"
    using load_one_effect [of dk c w] by (auto simp del: set_map list.set_map)
  then have "cd_cfg ` set (w_devs (load_one dk c w)) \<subseteq> insert c (cd_cfg ` set (w_devs w))"
    by simp
  moreover have "length (w_cfgs (load_one dk c w)) = length (w_cfgs w)"
    using load_one_effect [of dk c w] by simp
  moreover from calculation have "set refs \<inter> cd_cfg ` set (w_devs (load_one dk c w)) = {}"
    using Cons.prems by (metis (no_types, lifting) Int_insert_right disjoint_iff distinct.simps(2) insert_iff list.simps(15) subsetD)
  ultimately have "canvas_ok (load_from_configs dk refs (load_one dk c w))"
    using Cons.prems by (intro Cons.IH canvas_ok_load_one) auto
  then show ?case by (simp add: load_from_configs_def)
qed (simp add: load_from_configs_def)

lemma canvas_ok_window_open: "canvas_ok (window_open dk names cfg)"
  unfolding window_open_def
  by (rule canvas_ok_load) (auto simp: canvas_ok_def tab_adapters_def Let_def list_all_iff split: list.split)

lemma canvas_ok_remove_gsdml: "canvas_ok w \<Longrightarrow> canvas_ok (remove_gsdml i w)"
  by (auto simp: canvas_ok_def remove_gsdml_def list_all_iff dest: in_set_takeD in_set_dropD)

lemma canvas_ok_press: "canvas_ok w \<Longrightarrow> canvas_ok (lb_press i w)"
  by (auto simp: canvas_ok_def lb_press_def list_all_iff)

lemma canvas_ok_no_drag: "canvas_ok w \<Longrightarrow> canvas_ok (w\<lparr>w_drag := None\<rparr>)"
  by (simp add: canvas_ok_def)

lemma canvas_ok_drop: "canvas_ok w \<Longrightarrow> canvas_ok (canvas_drop items x y w)"
proof -
  assume ok: "canvas_ok w"
  have "canvas_ok (add_device g x y None w)" if "w_drag w = Some g" for g
    using ok that by (intro canvas_ok_add_device) (auto simp: canvas_ok_def)
  then show ?thesis
    using ok by (auto simp: canvas_drop_def canvas_ok_no_drag split: option.split)
qed

text \<open>Rewriting the configuration and the description of one device, in place.\<close>

lemma canvas_ok_update:
  assumes "canvas_ok w" and "i < length (w_devs w)" and "cd_cfg (w_devs w ! i) = c" and "BUS_Y + 90 \<le> dc_canvas_y dc"
  shows "canvas_ok (w\<lparr>w_cfgs := (w_cfgs w)[c := dc]\<rparr>)"
  using assms by (auto simp: canvas_ok_def list_all_iff nth_list_update)

lemma canvas_ok_move: "canvas_ok w \<Longrightarrow> i < length (w_devs w) \<Longrightarrow> canvas_ok (move_device i x y w)"
  unfolding move_device_def Let_def by (rule canvas_ok_update) auto

lemma hit_less: "hit items cds = Some i \<Longrightarrow> i < length cds"
  by (induction cds arbitrary: i) (auto split: if_splits)

lemma distinct_remove: "distinct xs \<Longrightarrow> distinct (take i xs @ drop (Suc i) xs)"
  using set_take_disj_set_drop_if_distinct [of xs i "Suc i"] by auto

lemma distinct_concat_remove: "distinct (concat xs) \<Longrightarrow> distinct (concat (take i xs @ drop (Suc i) xs))"
proof (cases "i < length xs")
  case True
  assume "distinct (concat xs)"
  moreover have "concat xs = concat (take i xs) @ xs ! i @ concat (drop (Suc i) xs)"
    by (metis True concat.simps(2) concat_append id_take_nth_drop)
  ultimately show ?thesis by auto
qed simp

lemma canvas_ok_right_click: "canvas_ok w \<Longrightarrow> canvas_ok (right_click items yes w)"
proof -
  assume ok: "canvas_ok w"
  have "canvas_ok (w\<lparr>w_devs := take i (w_devs w) @ drop (Suc i) (w_devs w)\<rparr>)" for i
  proof -
    let ?ds = "take i (w_devs w) @ drop (Suc i) (w_devs w)"
    have "set ?ds \<subseteq> set (w_devs w)" by (auto dest: in_set_takeD in_set_dropD)
    moreover have "distinct (map cd_cfg ?ds)"
      using ok distinct_remove [of "map cd_cfg (w_devs w)" i] by (simp add: canvas_ok_def take_map drop_map)
    moreover have "distinct (concat (map dev_ids ?ds))"
      using ok distinct_concat_remove [of "map dev_ids (w_devs w)" i] by (simp add: canvas_ok_def take_map drop_map)
    ultimately show ?thesis
      using ok unfolding canvas_ok_def list_all_iff by simp blast
  qed
  with ok show ?thesis by (auto simp: right_click_def split: option.split)
qed

lemma sync_canvas [simp]: "dc_canvas_y (sync_legacy_from_rack dc) = dc_canvas_y dc"
  by (simp add: sync_legacy_from_rack_def split: list.split)

lemma edits_canvas:
  assumes "edits es (dialog_open dc g) = Inr dg"
  shows "dc_canvas_y (dg_cfg dg) = dc_canvas_y dc"
proof -
  have "dg_cfg dg = dc\<lparr>dc_dap_id := dc_dap_id (dg_cfg dg)\<rparr>"
    using edits_cfg [OF assms dialog_open_cfg] by (simp add: same_but_dap_def)
  then show ?thesis by (metis device_config.select_convs(9) device_config.surjective device_config.update_convs(2))
qed

text \<open>What a dialog leaves in the objects of the device it was opened on.\<close>

definition dialog_done :: "bool \<Rightarrow> dialog \<Rightarrow> dialog" where
  "dialog_done ok dg = (if ok \<and> dg_accepted (on_apply dg) then on_apply dg else on_cancel dg)"

lemma dialog_done_canvas: "dc_canvas_y (dg_cfg (dialog_done ok dg)) = dc_canvas_y (dg_cfg dg)"
  by (auto simp: dialog_done_def on_apply_def on_cancel_def Let_def)

lemma double_click_Inr:
  assumes "double_click items es ok w = Inr w'" and "hit items (w_devs w) = Some i"
  obtains dg where "edits es (dialog_open (w_cfgs w ! cd_cfg (w_devs w ! i)) (w_gsdmls w ! cd_gsdml (w_devs w ! i))) = Inr dg"
    and "w_cfgs w' = (w_cfgs w)[cd_cfg (w_devs w ! i) := dg_cfg (dialog_done ok dg)]"
    and "w_gsdmls w' = (w_gsdmls w)[cd_gsdml (w_devs w ! i) := dg_gsdml (dialog_done ok dg)]"
    and "\<exists>l. w_devs w' = (w_devs w)[i := (w_devs w ! i)\<lparr>cd_label := l\<rparr>]"
    and "w_app_devices w' = w_app_devices w" and "w_gsdml_list w' = w_gsdml_list w" and "w_drag w' = w_drag w"
    and "w_next_id w' = w_next_id w" and "w_app_adapter w' = w_app_adapter w" and "w_app_gateway w' = w_app_gateway w"
proof -
  let ?cd = "w_devs w ! i"
  obtain dg where "edits es (dialog_open (w_cfgs w ! cd_cfg ?cd) (w_gsdmls w ! cd_gsdml ?cd)) = Inr dg"
    and w': "w' = w\<lparr>w_cfgs := (w_cfgs w)[cd_cfg ?cd := dg_cfg (dialog_done ok dg)],
       w_gsdmls := (w_gsdmls w)[cd_gsdml ?cd := dg_gsdml (dialog_done ok dg)],
       w_devs := (w_devs w)[i := (if dg_accepted (dialog_done ok dg)
         then ?cd\<lparr>cd_label := or_else (dc_station_name (dg_cfg (dialog_done ok dg))) (gv_device_name (dg_gsdml (dialog_done ok dg)))\<rparr>
         else ?cd)]\<rparr>"
    using assms unfolding double_click_def Let_def dialog_done_def [symmetric] by (auto simp: bindE_Inr)
  moreover have "\<exists>l. w_devs w' = (w_devs w)[i := ?cd\<lparr>cd_label := l\<rparr>]"
  proof (cases "dg_accepted (dialog_done ok dg)")
    case True
    then show ?thesis unfolding w' by auto
  next
    case False
    then show ?thesis unfolding w' by (intro exI [of _ "cd_label ?cd"]) simp
  qed
  ultimately show thesis by (intro that) simp_all
qed

lemma canvas_ok_same:
  assumes "canvas_ok w" and "length (w_cfgs w') = length (w_cfgs w)" and "length (w_gsdmls w') = length (w_gsdmls w)"
    and "map cd_cfg (w_devs w') = map cd_cfg (w_devs w)" and "map cd_gsdml (w_devs w') = map cd_gsdml (w_devs w)"
    and "map dev_ids (w_devs w') = map dev_ids (w_devs w)"
    and "\<And>c. c < length (w_cfgs w) \<Longrightarrow> dc_canvas_y (w_cfgs w' ! c) = dc_canvas_y (w_cfgs w ! c)"
    and "w_gsdml_list w' = w_gsdml_list w" and "w_drag w' = w_drag w" and "w_app_devices w' = w_app_devices w"
    and "w_next_id w' = w_next_id w"
  shows "canvas_ok w'"
proof -
  have len: "length (w_devs w') = length (w_devs w)"
    using assms(4) by (metis length_map)
  have "cd_cfg (w_devs w' ! k) = cd_cfg (w_devs w ! k) \<and> cd_gsdml (w_devs w' ! k) = cd_gsdml (w_devs w ! k)
      \<and> dev_ids (w_devs w' ! k) = dev_ids (w_devs w ! k)" if "k < length (w_devs w)" for k
    using assms(4-6) that len by (metis nth_map)
  then show ?thesis
    using assms len unfolding canvas_ok_def list_all_length by simp
qed

lemma canvas_ok_double_click:
  assumes "canvas_ok w" and "double_click items es ok w = Inr w'"
  shows "canvas_ok w'"
proof (cases "hit items (w_devs w)")
  case None
  with assms show ?thesis by (simp add: double_click_def)
next
  case (Some i)
  obtain dg where
    dg: "edits es (dialog_open (w_cfgs w ! cd_cfg (w_devs w ! i)) (w_gsdmls w ! cd_gsdml (w_devs w ! i))) = Inr dg"
    and upd: "w_cfgs w' = (w_cfgs w)[cd_cfg (w_devs w ! i) := dg_cfg (dialog_done ok dg)]"
      "w_gsdmls w' = (w_gsdmls w)[cd_gsdml (w_devs w ! i) := dg_gsdml (dialog_done ok dg)]"
      "w_app_devices w' = w_app_devices w" "w_gsdml_list w' = w_gsdml_list w" "w_drag w' = w_drag w" "w_next_id w' = w_next_id w"
    and devs: "\<exists>l. w_devs w' = (w_devs w)[i := (w_devs w ! i)\<lparr>cd_label := l\<rparr>]"
    by (rule double_click_Inr [OF assms(2) Some])
  from devs obtain l where l: "w_devs w' = (w_devs w)[i := (w_devs w ! i)\<lparr>cd_label := l\<rparr>]" ..
  have y: "dc_canvas_y (dg_cfg (dialog_done ok dg)) = dc_canvas_y (w_cfgs w ! cd_cfg (w_devs w ! i))"
    using edits_canvas [OF dg] by (simp add: dialog_done_canvas)
  have same: "map f (w_devs w') = map f (w_devs w)" if "\<And>cd l. f (cd\<lparr>cd_label := l\<rparr>) = f cd" for f :: "canvas_dev \<Rightarrow> 'a"
    using hit_less [OF Some] that by (simp add: l map_update list_update_same_conv)
  have "dc_canvas_y (w_cfgs w' ! c) = dc_canvas_y (w_cfgs w ! c)" if "c < length (w_cfgs w)" for c
    using that y by (cases "c = cd_cfg (w_devs w ! i)") (simp_all add: upd)
  then show ?thesis
    by (intro canvas_ok_same [OF assms(1)] same) (simp_all add: upd dev_ids_def)
qed

lemma canvas_ok_apply: "canvas_ok w \<Longrightarrow> canvas_ok (fst (apply_restart ok w fs))"
  by (auto simp: apply_restart_def canvas_ok_def Let_def list_all_iff)

lemma canvas_ok_step: "canvas_ok (fst s) \<Longrightarrow> canvas_ok (fst (win_step dk p s))"
proof (cases s)
  case (Pair w fs)
  assume "canvas_ok (fst s)"
  then have ok: "canvas_ok w" by (simp add: Pair)
  note keep = canvas_ok_load_files canvas_ok_remove_gsdml canvas_ok_press canvas_ok_drop canvas_ok_move canvas_ok_right_click canvas_ok_apply
  show ?thesis
  proof (cases p)
    case (DoubleClick items es b)
    show ?thesis
      by (cases "double_click items es b w") (auto simp: Pair DoubleClick ok intro: canvas_ok_double_click [OF ok])
  qed (auto simp: Pair ok keep choose_adapter_def canvas_ok_def [of "w\<lparr>w_adapter := _\<rparr>"] canvas_ok_def [of "w\<lparr>w_form := _\<rparr>"]
      canvas_ok_def [of w, THEN iffD1, OF ok])
qed

lemma on_apply_rack:
  "ip_ok (strip (dg_ip dg)) \<Longrightarrow> dg_rack dg \<noteq> [] \<Longrightarrow>
   effective_drive_objects (dg_cfg (on_apply dg)) = dg_rack dg \<and> dg_accepted (on_apply dg)"
  by (simp add: on_apply_def Let_def) (simp add: effective_drive_objects_def)

lemma sum_list_update_int: "k < length xs \<Longrightarrow> sum_list (xs[k := x]) = sum_list xs + x - xs ! k" for x :: int
  by (induction xs arbitrary: k) (auto split: nat.split)

lemma app_devices_update:
  assumes "w_cfgs w' = (w_cfgs w)[c := dc]" and "w_app_devices w' = w_app_devices w" and "distinct (w_app_devices w)"
    and "j < length (w_app_devices w)" and "w_app_devices w ! j = c" and "c < length (w_cfgs w)"
  shows "ac_devices (app_of w') = (ac_devices (app_of w))[j := dc]"
proof (rule nth_equalityI)
  fix k
  assume "k < length (ac_devices (app_of w'))"
  then have k: "k < length (w_app_devices w)" by (simp add: app_of_def assms(2))
  show "ac_devices (app_of w') ! k = (ac_devices (app_of w))[j := dc] ! k"
  proof (cases "k = j")
    case True
    with assms show ?thesis by (simp add: app_of_def)
  next
    case False
    then have "w_app_devices w ! k \<noteq> c" using assms(3-5) k by (metis nth_eq_iff_index_eq)
    with False k show ?thesis by (simp add: app_of_def assms(1,2))
  qed
qed (simp add: app_of_def assms(2))

lemma out_frame_size_update:
  assumes "gw_device_configs gw = dcs" and "j < length dcs"
  shows "out_frame_size (gw\<lparr>gw_device_configs := dcs[j := dc]\<rparr>) =
    out_frame_size gw + total_output_length dc - total_output_length (dcs ! j)"
  using assms by (simp add: out_frame_size_def map_update sum_list_update_int)

section \<open>Properties\<close>

text \<open>C27: Opening the configuration window and applying it unchanged: the devices that stay are those
  whose description file is there and can be read, in their order and as they were but for the
  place on the canvas, which is kept below the bus; all others are gone from the running
  application and from the file, which reads back as exactly the configuration applied.\<close>

theorem apply_unchanged:
  "case apply_restart True (window_open dk names cfg) fs of (w, fs') \<Rightarrow>
     ac_devices (app_of w) = map lifted (filter (readable dk) (ac_devices cfg))
     \<and> ac_gateway (app_of w) = form_config (load_values (ac_gateway cfg))
     \<and> load_config fs' = Ok (app_of w)"
proof -
  note o = window_open_cfgs [of dk names cfg]
  let ?ds = "ac_devices cfg"
  have "map ((!) (map (\<lambda>dc. if readable dk dc then lifted dc else dc) ?ds)) (filter (\<lambda>i. readable dk (?ds ! i)) [0 ..< length ?ds])
      = map (\<lambda>dc. if readable dk dc then lifted dc else dc) (filter (readable dk) ?ds)"
    by (rule filter_upt_map)
  also have "\<dots> = map lifted (filter (readable dk) ?ds)" by simp
  finally show ?thesis
    using o by (simp add: apply_restart_def app_of_def Let_def save_config_def save_ops_def load_config_def)
qed

text \<open>C26: Whatever is done in the configuration window, its devices are consistent: each device has a
  configuration of its own and canvas items of its own, its description and its configuration
  exist, it stays below the bus, and so do the objects the list, a drag and the running application
  refer to.\<close>

theorem canvas_consistent: "canvas_ok (fst (fold (win_step dk) ops (window_open dk names cfg, fs)))"
proof -
  have "canvas_ok (fst (fold (win_step dk) ops s))" if "canvas_ok (fst s)" for s
    using that by (induction ops arbitrary: s) (simp_all add: canvas_ok_step)
  then show ?thesis by (simp add: canvas_ok_window_open)
qed

text \<open>C25: The device dialog edits the running application: as soon as it is applied on a device that the
  application runs, before Apply and Restart and even if the window is cancelled afterwards, the
  configuration the services use has the new rack, and the gateway, which computes its frame size
  from it, expects frames that differ from its buffers by the difference of the racks.\<close>

theorem dialog_edits_running:
  assumes "canvas_ok w" and "hit items (w_devs w) = Some i" and "j < length (w_app_devices w)"
    and "w_app_devices w ! j = cd_cfg (w_devs w ! i)" and "distinct (w_app_devices w)"
    and "edits es (dialog_open (w_cfgs w ! cd_cfg (w_devs w ! i)) (w_gsdmls w ! cd_gsdml (w_devs w ! i))) = Inr dg"
    and "ip_ok (strip (dg_ip dg))" and "dg_rack dg \<noteq> []" and "double_click items es True w = Inr w'"
    and "gw_device_configs gw = ac_devices (app_of w)"
  shows "effective_drive_objects (ac_devices (app_of w') ! j) = dg_rack dg
    \<and> (\<forall>k < length (w_app_devices w). k \<noteq> j \<longrightarrow> ac_devices (app_of w') ! k = ac_devices (app_of w) ! k)
    \<and> out_frame_size (gw\<lparr>gw_device_configs := ac_devices (app_of w')\<rparr>) =
        out_frame_size gw + sum_list (map do_output_length (dg_rack dg)) - total_output_length (ac_devices (app_of w) ! j)"
proof -
  let ?c = "cd_cfg (w_devs w ! i)" and ?dc = "dg_cfg (on_apply dg)"
  have applied: "dialog_done True dg = on_apply dg" "effective_drive_objects ?dc = dg_rack dg"
    using on_apply_rack [OF assms(7,8)] by (simp_all add: dialog_done_def)
  obtain dg' where "edits es (dialog_open (w_cfgs w ! ?c) (w_gsdmls w ! cd_gsdml (w_devs w ! i))) = Inr dg'"
    and "w_cfgs w' = (w_cfgs w)[?c := dg_cfg (dialog_done True dg')]" and same: "w_app_devices w' = w_app_devices w"
    by (rule double_click_Inr [OF assms(9,2)])
  with assms(6) applied have "w_cfgs w' = (w_cfgs w)[?c := ?dc]" by simp
  moreover have "?c < length (w_cfgs w)"
    using assms(1) hit_less [OF assms(2)] by (simp add: canvas_ok_def list_all_length)
  ultimately have devs: "ac_devices (app_of w') = (ac_devices (app_of w))[j := ?dc]"
    using app_devices_update [OF _ same assms(5,3,4)] by blast
  have len: "length (ac_devices (app_of w)) = length (w_app_devices w)" by (simp add: app_of_def)
  have "total_output_length ?dc = sum_list (map do_output_length (dg_rack dg))"
    by (simp add: total_output_length_def applied(2))
  with out_frame_size_update [OF assms(10), of j ?dc] devs applied(2) len assms(3) show ?thesis by simp
qed

definition demo_win :: win where
  "demo_win = \<lparr>w_cfgs = [default_device_config\<lparr>dc_canvas_y := 150\<rparr>], w_gsdmls = [demo_gsdml], w_app_adapter = ''eth0'',
     w_app_devices = [0], w_app_gateway = default_gateway_config, w_gsdml_list = [0],
     w_devs = [\<lparr>cd_gsdml = 0, cd_cfg = 0, cd_canvas_id = 2, cd_label_id = 3, cd_box_id = 1, cd_label = ''dev''\<rparr>],
     w_drag = None, w_adapter_names = [''eth0''], w_adapter = ''eth0'', w_next_id = 4, w_form = default_gateway_config\<rparr>"

lemma dialog_edits_running_witness:
  "\<exists>w'. double_click [2] [AddModule 0] True demo_win = Inr w'
     \<and> map do_submodule_ident (effective_drive_objects (ac_devices (app_of w') ! 0)) = [0, 3]
     \<and> out_frame_size (gw_init\<lparr>gw_device_configs := ac_devices (app_of demo_win)\<rparr>) = 4
     \<and> out_frame_size (gw_init\<lparr>gw_device_configs := ac_devices (app_of w')\<rparr>) = 8"
proof -
  have demo: "w_cfgs demo_win = [default_device_config\<lparr>dc_canvas_y := 150\<rparr>]" "w_gsdmls demo_win = [demo_gsdml]"
    "cd_cfg (w_devs demo_win ! 0) = 0" "cd_gsdml (w_devs demo_win ! 0) = 0" "w_app_devices demo_win = [0]"
    "hit [2] (w_devs demo_win) = Some 0" "canvas_ok demo_win"
    by (simp_all add: demo_win_def canvas_ok_def dev_ids_def BUS_Y_def)
  have "case edits [AddModule 0] (dialog_open (default_device_config\<lparr>dc_canvas_y := 150\<rparr>) demo_gsdml) of
      Inl _ \<Rightarrow> False
    | Inr dg \<Rightarrow> ip_ok (strip (dg_ip dg)) \<and> map do_submodule_ident (dg_rack dg) = [0, 3]
        \<and> sum_list (map do_output_length (dg_rack dg)) = 8"
    by code_simp
  then obtain dg where dg: "edits [AddModule 0] (dialog_open (default_device_config\<lparr>dc_canvas_y := 150\<rparr>) demo_gsdml) = Inr dg"
    "ip_ok (strip (dg_ip dg))" "map do_submodule_ident (dg_rack dg) = [0, 3]" "sum_list (map do_output_length (dg_rack dg)) = 8"
    by (auto split: sum.splits)
  then obtain w' where w': "double_click [2] [AddModule 0] True demo_win = Inr w'"
    by (auto simp: double_click_def demo Let_def)
  have old: "total_output_length (ac_devices (app_of demo_win) ! 0) = 4"
    "out_frame_size (gw_init\<lparr>gw_device_configs := ac_devices (app_of demo_win)\<rparr>) = 4"
    by (simp_all add: app_of_def demo total_output_length_def effective_drive_objects_def default_device_config_def
        out_frame_size_def gw_init_def)
  show ?thesis
    using dialog_edits_running [of demo_win "[2]" 0 0 "[AddModule 0]" dg w'
        "gw_init\<lparr>gw_device_configs := ac_devices (app_of demo_win)\<rparr>"] dg w' old
    by (intro exI [of _ w']) (auto simp: demo)
qed

end
