(* ===== verification/Ui_Views.thy ===== *)
theory Ui_Views
  imports Ui_Device Ui_Io System "HOL-Library.Multiset"
begin

text \<open>
  What the windows of \<open>profinet_gateway_py/ui\<close> show: the description file, the rack and the choice in
  it (\<open>device_dialog.py\<close>), the cards of the diagnostic window (\<open>io_diagnostic.py\<close>), the monitor
  of the gateway (\<open>gateway_monitor.py\<close>) and the status in the main window (\<open>main_window.py\<close>).
  A view is a record of the texts and values shown; colours are left out, and a text is its UTF-8
  bytes.
\<close>

section \<open>The description file\<close>

datatype view_row = Row nat string | Truncated nat

definition row_label :: "xml \<Rightarrow> string" where
  "row_label el =
     (let key = or_else (attr_or el ''ID'' []) (or_else (attr_or el ''TextId'' []) (attr_or el ''Name'' []))
      in local_tag (el_tag el) @ (if key \<noteq> [] then ''  '' @ [CHR 0x22] @ key @ [CHR 0x22] else []))"

lemma take_size [termination_simp]: "x \<in> set (take n xs) \<Longrightarrow> size x < Suc (size_list size xs)"
  by (meson in_set_takeD less_Suc_eq_le size_list_estimation' order_refl)

text \<open>The rows below a row, in order; each at its depth.\<close>

fun view_rows :: "nat \<Rightarrow> xml \<Rightarrow> view_row list" where
  "view_rows depth (Element tag ats txt cs) =
     (if depth > 6 then []
      else Row depth (row_label (Element tag ats txt cs))
        # concat (map (view_rows (Suc depth)) (take 201 cs))
        @ (if length cs > 201 then [Truncated (Suc depth)] else []))"

record viewer =
  vw_loaded :: bool
  vw_rows :: "view_row list"
  vw_failed :: bool

definition populate_viewer :: "xml option \<Rightarrow> viewer \<Rightarrow> viewer" where
  "populate_viewer doc v =
     (if vw_loaded v then v
      else (case doc of
              None \<Rightarrow> v\<lparr>vw_loaded := True, vw_failed := True\<rparr>
            | Some el \<Rightarrow> v\<lparr>vw_loaded := True, vw_rows := view_rows 0 el\<rparr>))"

section \<open>The rack\<close>

record rack_row =
  rr_iid :: string
  rr_parent :: string
  rr_text :: string
  rr_values :: "string list"

definition in_out :: "int \<Rightarrow> int \<Rightarrow> string" where
  "in_out n m = dec_int n @ ''/'' @ dec_int m"

text \<open>The rows of the drive object at place \<open>i\<close>; a row without an identifier of its own has none here.\<close>

definition do_rows :: "nat \<Rightarrow> drive_object \<Rightarrow> rack_row list" where
  "do_rows i d =
     (let iid = ''do'' @ dec_digits i in
      [\<lparr>rr_iid = iid, rr_parent = [],
        rr_text = ''Slot '' @ dec_int (do_slot d) @ '':  '' @ or_else (do_module_name d) ''(module)'', rr_values = [[], []]\<rparr>,
       \<lparr>rr_iid = [], rr_parent = iid, rr_text = ''    Sub-slot 1:  Module Access Point'', rr_values = [''1'', ''0/0'']\<rparr>,
       \<lparr>rr_iid = [], rr_parent = iid, rr_text = ''    Sub-slot 2:  empty sub-module'', rr_values = [''2'', ''0/0'']\<rparr>,
       \<lparr>rr_iid = ''tel'' @ dec_digits i, rr_parent = iid,
        rr_text = ''    Sub-slot 3:  '' @ or_else (do_submodule_name d) ''(no telegram)'',
        rr_values = [''3'', in_out (do_input_length d) (do_output_length d)]\<rparr>])"

definition refresh_rack :: "dialog \<Rightarrow> rack_row list \<times> string" where
  "refresh_rack dg =
     (let rack = dg_rack dg; head = dap_display_name (dg_gsdml dg) (dc_dap_id (dg_cfg dg)) in
      (\<lparr>rr_iid = [], rr_parent = [], rr_text = ''Slot 0:  '' @ head @ '' [Access Point]'', rr_values = [[], []]\<rparr>
         # concat (map (\<lambda>(i, d). do_rows i d) (enumerate 0 rack)),
       ''Use of slots: '' @ dec_digits (length rack + 1) @ ''   |   State of data length: Input ''
         @ dec_int (sum_list (map do_input_length rack)) @ '' / Output ''
         @ dec_int (sum_list (map do_output_length rack)) @ '' Octets''))"

text \<open>The drive object that a selected row belongs to.\<close>

definition selected_do_index :: "string option \<Rightarrow> py_error + int option" where
  "selected_do_index sel =
     (case sel of
        None \<Rightarrow> Inr None
      | Some iid \<Rightarrow>
         if starts_with iid ''do'' then
           (case parse_dec (drop 2 iid) of Some i \<Rightarrow> Inr (Some i) | None \<Rightarrow> Inl ValueError)
         else if starts_with iid ''tel'' then
           (case parse_dec (drop 3 iid) of Some i \<Rightarrow> Inr (Some i) | None \<Rightarrow> Inl ValueError)
         else Inr None)"

definition on_rack_select :: "string option \<Rightarrow> dialog \<Rightarrow> py_error + data_item list" where
  "on_rack_select sel dg =
     bindE (selected_do_index sel) (\<lambda>idx.
       case idx of
         None \<Rightarrow> Inr []
       | Some i \<Rightarrow>
          let n = int (length (dg_rack dg)); j = (if i < 0 then i + n else i) in
          if n \<le> i then Inr []
          else if j < 0 then Inl IndexError
          else (let d = dg_rack dg ! nat j in
                case get_submodule (dg_gsdml dg) (do_module_ident d) (do_submodule_ident d) of
                  None \<Rightarrow> Inr [] | Some s \<Rightarrow> Inr (si_data_items s)))"

section \<open>Cards of the diagnostic window\<close>

text \<open>The bits of the status word that have a name.\<close>

definition ZSW1_FLAGS :: "(nat \<times> string) list" where
  "ZSW1_FLAGS = [(0, ''RDY_SW''), (1, ''RDY''), (2, ''RUN''), (3, ''FAULT''), (4, ''NO_COAST''), (5, ''NO_QSTOP''),
     (8, ''SPD_DEV''), (10, ''SPD_OK'')]"

definition SUM_SIGN :: string where
  "SUM_SIGN = [char_of (0xCE :: nat), char_of (0xA3 :: nat)]"

definition zsw1_names :: "int \<Rightarrow> string list" where
  "zsw1_names zsw1 = map snd (filter (\<lambda>(b, _). bit zsw1 b) ZSW1_FLAGS)"

definition zsw1_text :: "int \<Rightarrow> string" where
  "zsw1_text zsw1 = (if zsw1_names zsw1 \<noteq> [] then join ''  '' (zsw1_names zsw1) else em_dash)"

definition telegram_part :: "drive_object \<Rightarrow> string" where
  "telegram_part d =
     (if do_module_name d \<noteq> [] then do_module_name d @ '' / '' else [])
     @ or_else (do_submodule_name d) ''(no telegram)''
     @ '' ['' @ in_out (do_input_length d) (do_output_length d) @ '' B]''"

definition telegram_text :: "device_config \<Rightarrow> string" where
  "telegram_text dc =
     (let dos = effective_drive_objects dc;
          total = ''   '' @ SUM_SIGN @ '' in '' @ dec_int (total_input_length dc) @ '' / out ''
                  @ dec_int (total_output_length dc) @ '' B''
      in ''Telegram:  '' @ join ''   +   '' (map telegram_part dos) @ (if length dos > 1 then total else []))"

text \<open>\<open>f''{v:04X}''\<close>, the sign counted in the width.\<close>

definition word_text :: "int \<Rightarrow> string" where
  "word_text v = (if v < 0 then ''-'' @ hex_fmt 3 (nat (- v)) else hex_fmt 4 (nat v))"

text \<open>\<open>round(n * 100 / 0x4000)\<close>.\<close>

definition percent :: "int \<Rightarrow> int" where
  "percent n = py_round (of_int (n * 100) / 16384)"

record card =
  ca_idx :: nat
  ca_out_words :: "string list"
  ca_in_words :: "string list"
  ca_connected :: bool
  ca_error :: string
  ca_title :: string
  ca_telegram :: string
  ca_stw1 :: string
  ca_nsoll :: string
  ca_zsw1 :: string
  ca_nist :: string
  ca_bits :: string
  ca_percent :: string

definition card_title :: "nat \<Rightarrow> device_config \<Rightarrow> string" where
  "card_title idx dc =
     ''  '' @ or_else (dc_station_name dc) (''Device '' @ dec_digits idx) @ ''  ('' @ dc_ip dc @ '')''"

definition new_card :: "nat \<Rightarrow> device_config \<Rightarrow> card" where
  "new_card idx dc =
     (let n = nat (total_output_length dc div 2); m = nat (total_input_length dc div 2); raw = (n > 1 \<or> m > 1) in
      \<lparr>ca_idx = idx, ca_out_words = (if raw then replicate n ''0000'' else []),
       ca_in_words = (if raw then replicate m ''0000'' else []), ca_connected = False, ca_error = [],
       ca_title = card_title idx dc, ca_telegram = [], ca_stw1 = ''0x0000'', ca_nsoll = ''0x0000'',
       ca_zsw1 = ''0x0000'', ca_nist = ''0x0000'', ca_bits = [], ca_percent = ''0%''\<rparr>)"

definition card_refresh :: "gateway \<Rightarrow> 'c pn_ctrl \<Rightarrow> card \<Rightarrow> card" where
  "card_refresh g pn c =
     (let i = int (ca_idx c);
          c1 = (if is_connected i pn then c\<lparr>ca_connected := True, ca_error := []\<rparr>
                else c\<lparr>ca_connected := False,
                       ca_error := (case device_state i pn of Some ds \<Rightarrow> ds_error ds | None \<Rightarrow> [])\<rparr>)
      in case device_state i pn of
           None \<Rightarrow> c1
         | Some ds \<Rightarrow>
             c1\<lparr>ca_title := card_title (ca_idx c) (ds_config ds), ca_telegram := telegram_text (ds_config ds),
                ca_stw1 := ''0x'' @ word_text (ds_stw1 ds), ca_nsoll := ''0x'' @ word_text (ds_nsoll ds),
                ca_zsw1 := ''0x'' @ word_text (ds_zsw1 ds), ca_nist := ''0x'' @ word_text (ds_nist ds),
                ca_bits := zsw1_text (ds_zsw1 ds),
                ca_percent := dec_int (if ds_nist ds \<noteq> 0 then percent (ds_nist ds) else 0) @ ''%'',
                ca_in_words := in_words g (ca_idx c) (ca_in_words c)\<rparr>)"

record diag_win =
  dw_cards :: "card list"
  dw_sig :: "(int \<times> int) list option"

definition populate_cards :: "'c pn_ctrl \<Rightarrow> card list" where
  "populate_cards pn =
     List.map_filter (\<lambda>i. map_option (\<lambda>ds. new_card i (ds_config ds)) (device_state (int i) pn)) [0 ..< device_count pn]"

definition config_signature :: "'c pn_ctrl \<Rightarrow> (int \<times> int) list" where
  "config_signature pn =
     List.map_filter (\<lambda>i. map_option (\<lambda>ds. (total_input_length (ds_config ds), total_output_length (ds_config ds)))
                            (device_state (int i) pn)) [0 ..< device_count pn]"

definition diag_open :: "'c pn_ctrl \<Rightarrow> diag_win" where
  "diag_open pn = \<lparr>dw_cards = populate_cards pn, dw_sig = None\<rparr>"

definition diag_refresh :: "gateway \<Rightarrow> 'c pn_ctrl \<Rightarrow> diag_win \<Rightarrow> diag_win" where
  "diag_refresh g pn dw =
     (let sig = config_signature pn;
          dw1 = (if Some sig \<noteq> dw_sig dw then \<lparr>dw_cards = populate_cards pn, dw_sig = Some sig\<rparr> else dw)
      in dw1\<lparr>dw_cards := map (card_refresh g pn) (dw_cards dw1)\<rparr>)"

text \<open>The spikes as a share of all cycles, and the threshold; a text that is no number is left out.\<close>

definition spike_percent :: "bridge \<Rightarrow> rat" where
  "spike_percent b =
     (let j = get_jitter b in if jv_count j \<noteq> 0 then 100 * of_nat (jv_spikes j) / of_nat (jv_count j) else 0)"

definition apply_threshold :: "rat option \<Rightarrow> bridge option \<Rightarrow> bridge option" where
  "apply_threshold v br =
     (case (br, v) of (Some b, Some ms) \<Rightarrow> Some (set_jitter_threshold ms b) | _ \<Rightarrow> br)"

section \<open>The monitor of the gateway\<close>

datatype gw_status = Stopped | Serving "nat option" "(bool \<times> int \<times> rat option) option"

record gw_monitor =
  gm_prev :: "(rat \<times> nat \<times> nat) option"
  gm_header :: string
  gm_status :: gw_status
  gm_rx_rate :: rat
  gm_tx_rate :: rat
  gm_rx :: "nat \<times> nat \<times> nat"
  gm_tx :: "nat \<times> nat \<times> nat"
  gm_rx_hex :: string
  gm_tx_hex :: string

text \<open>The watchdog is shown as tripped or not, with its time, and when the last frame came.\<close>

definition watchdog_shown :: "monitor_view \<Rightarrow> (bool \<times> int \<times> rat option) option" where
  "watchdog_shown m =
     (if mv_watchdog_ms m = 0 then None
      else if mv_watchdog_tripped m then Some (True, mv_watchdog_ms m, None)
      else Some (False, mv_watchdog_ms m, if mv_ms_since_rx m \<ge> 0 then Some (mv_ms_since_rx m) else None))"

definition monitor_refresh :: "rat \<Rightarrow> gateway \<Rightarrow> gw_monitor \<Rightarrow> gw_monitor" where
  "monitor_refresh now g w =
     (let m = get_monitor now g; mon = mv_mon m;
          rate = (\<lambda>total old. case gm_prev w of
                     None \<Rightarrow> 0
                   | Some (t, r, s) \<Rightarrow> if now - t > 0 then (of_nat total - of_nat (old (r, s))) / (now - t) else 0)
      in \<lparr>gm_prev = Some (now, rx_bytes mon, tx_bytes mon),
          gm_header = mv_protocol m @ ''  '' @ mv_bind m @ '':'' @ dec_int (mv_port m),
          gm_status = (if mv_running m then Serving (mv_client m) (watchdog_shown m) else Stopped),
          gm_rx_rate = rate (rx_bytes mon) fst, gm_tx_rate = rate (tx_bytes mon) snd,
          gm_rx = (rx_frames mon, rx_bytes mon, length (last_rx mon)),
          gm_tx = (tx_frames mon, tx_bytes mon, length (last_tx mon)),
          gm_rx_hex = hexdump (last_rx mon) 128, gm_tx_hex = hexdump (last_tx mon) 128\<rparr>)"

section \<open>The main window\<close>

datatype dev_status = Connected | Disconnected string

record main_view =
  ma_gateway :: "(string \<times> int \<times> bool) option"
  ma_names :: "string list"
  ma_status :: "dev_status list"

definition main_refresh :: "gateway_config \<Rightarrow> gateway \<Rightarrow> 'c pn_ctrl \<Rightarrow> main_view \<Rightarrow> main_view" where
  "main_refresh gc g pn v =
     (let n = device_count pn;
          names = (if length (ma_status v) \<noteq> n
                   then map (\<lambda>i. case device_state (int i) pn of
                               Some ds \<Rightarrow> dc_station_name (ds_config ds) | None \<Rightarrow> ''Device '' @ dec_digits i) [0 ..< n]
                   else ma_names v)
      in \<lparr>ma_gateway = (if is_running g then Some (gc_protocol gc, gc_port gc, client_connected g) else None),
          ma_names = names,
          ma_status = map (\<lambda>i. if is_connected (int i) pn then Connected
                               else Disconnected (case device_state (int i) pn of Some ds \<Rightarrow> ds_error ds | None \<Rightarrow> []))
                        [0 ..< n]\<rparr>)"

definition on_close :: "'c sys \<Rightarrow> 'c sys" where
  "on_close s = stop_services s"

definition pn_names :: "'c pn_ctrl \<Rightarrow> string list" where
  "pn_names pn = map (\<lambda>ds. dc_station_name (ds_config ds)) (pn_devices pn)"

section \<open>The log before and after the main window\<close>

text \<open>\<open>main\<close> collects the lines of the log until the window is there, which then gets those that it
  missed, one by one, while the threads of the services go on logging.\<close>

record app_log =
  al_lines :: "string list"
  al_window :: "string list option"
  al_pos :: nat

definition log_init :: app_log where
  "log_init = \<lparr>al_lines = [], al_window = None, al_pos = 0\<rparr>"

definition log_msg :: "string \<Rightarrow> app_log \<Rightarrow> app_log" where
  "log_msg m s = s\<lparr>al_lines := al_lines s @ [m], al_window := map_option (\<lambda>w. w @ [m]) (al_window s)\<rparr>"

definition log_attach :: "app_log \<Rightarrow> app_log" where
  "log_attach s = (if al_window s = None then s\<lparr>al_window := Some []\<rparr> else s)"

definition log_replay :: "app_log \<Rightarrow> app_log" where
  "log_replay s =
     (case al_window s of
        None \<Rightarrow> s
      | Some w \<Rightarrow>
          if al_pos s < length (al_lines s)
          then s\<lparr>al_window := Some (w @ [al_lines s ! al_pos s]), al_pos := Suc (al_pos s)\<rparr> else s)"

datatype log_event = Say string | Attach | Replay

fun log_step :: "log_event \<Rightarrow> app_log \<Rightarrow> app_log" where
  "log_step (Say m) = log_msg m" | "log_step Attach = log_attach" | "log_step Replay = log_replay"

fun said :: "log_event list \<Rightarrow> string list" where
  "said [] = []" | "said (Say m # es) = m # said es" | "said (_ # es) = said es"

lemma log_before: "fold log_step (map Say ms) log_init = \<lparr>al_lines = ms, al_window = None, al_pos = 0\<rparr>"
proof -
  have "fold log_step (map Say ms) s = s\<lparr>al_lines := al_lines s @ ms\<rparr>" if "al_window s = None" for s
    using that by (induction ms arbitrary: s) (simp_all add: log_msg_def)
  then show ?thesis by (simp add: log_init_def)
qed

lemma log_after:
  assumes "al_window s = Some w" and "al_pos s \<le> length (al_lines s)"
  shows "case fold log_step es s of s' \<Rightarrow>
           al_lines s' = al_lines s @ said es \<and> al_pos s' \<le> length (al_lines s')
           \<and> (\<exists>w'. al_window s' = Some w' \<and> mset w' + mset (take (al_pos s) (al_lines s)) =
                 mset w + mset (said es) + mset (take (al_pos s') (al_lines s')))"
  using assms
proof (induction es arbitrary: s w)
  case (Cons e es)
  show ?case
  proof (cases e)
    case (Say m)
    have "al_window (log_msg m s) = Some (w @ [m])" "al_pos (log_msg m s) \<le> length (al_lines (log_msg m s))"
      using Cons.prems by (simp_all add: log_msg_def)
    from Cons.IH [OF this] Cons.prems show ?thesis by (auto simp: Say log_msg_def)
  next
    case Attach
    with Cons.prems have "log_step e s = s" by (simp add: log_attach_def)
    with Attach have eq: "fold log_step (e # es) s = fold log_step es s" "said (e # es) = said es" by simp_all
    show ?thesis unfolding eq by (rule Cons.IH [OF Cons.prems])
  next
    case Replay
    show ?thesis
    proof (cases "al_pos s < length (al_lines s)")
      case True
      with Cons.prems have st: "log_replay s = s\<lparr>al_window := Some (w @ [al_lines s ! al_pos s]), al_pos := Suc (al_pos s)\<rparr>"
        by (simp add: log_replay_def)
      have "al_window (log_replay s) = Some (w @ [al_lines s ! al_pos s])" "al_pos (log_replay s) \<le> length (al_lines (log_replay s))"
        using True by (simp_all add: st)
      from Cons.IH [OF this] True Replay show ?thesis by (auto simp: st take_Suc_conv_app_nth)
    next
      case False
      with Cons.prems have "log_step e s = s" by (simp add: Replay log_replay_def)
      with Replay have eq: "fold log_step (e # es) s = fold log_step es s" "said (e # es) = said es" by simp_all
      show ?thesis unfolding eq by (rule Cons.IH [OF Cons.prems])
    qed
  qed
qed auto

text \<open>No line of the log is lost on the way to the window; but what the services log while the lines
  from before are handed over is shown twice.\<close>

theorem log_shown:
  "case fold log_step (map Say before @ Attach # es) log_init of s \<Rightarrow>
     if al_pos s = length (al_lines s)
     then \<exists>w. al_window s = Some w \<and> mset w = mset before + mset (said es) + mset (said es)
     else True"
proof -
  let ?s = "\<lparr>al_lines = before, al_window = Some [], al_pos = 0\<rparr>"
  have "fold log_step (map Say before @ Attach # es) log_init = fold log_step es ?s"
    by (simp add: log_before log_attach_def)
  with log_after [of ?s "[]" es] show ?thesis by (auto simp: union_ac)
qed

section \<open>Names made anew with the number of devices\<close>

text \<open>A view that keeps the names it shows as long as as many devices are there as are shown: \<open>fresh\<close>
  are the names of the devices as they are, \<open>shown\<close> is how many the view shows.\<close>

locale counted_view =
  fixes names :: "'v \<Rightarrow> 'n list" and shown :: "'v \<Rightarrow> nat" and fresh :: "'s \<Rightarrow> 'n list" and renew :: "'s \<Rightarrow> 'v \<Rightarrow> 'v"
  assumes names_renew: "names (renew s v) = (if shown v = length (fresh s) then names v else fresh s)"
    and shown_renew: "shown (renew s v) = length (fresh s)"
begin

lemma names_next: "names (renew t (renew s v)) = (if length (fresh t) = length (fresh s) then names (renew s v) else fresh t)"
  by (simp add: names_renew [of t] shown_renew)

lemma shown_fold: "shown (renew s (fold renew ss v)) = length (fresh s)"
  by (rule shown_renew)

text \<open>However often the devices are replaced by as many others, the names stay.\<close>

lemma names_stay: "list_all (\<lambda>t. length (fresh t) = length (fresh s)) ss \<Longrightarrow> names (fold renew ss (renew s v)) = names (renew s v)"
proof (induction ss arbitrary: s v)
  case (Cons t ss)
  then have "names (fold renew ss (renew t (renew s v))) = names (renew t (renew s v))"
    by (intro Cons.IH) simp_all
  with Cons.prems show ?case by (simp add: names_next)
qed simp

end

section \<open>Rows of a description file\<close>

fun row_text :: "view_row \<Rightarrow> string option" where
  "row_text (Row d s) = Some s" | "row_text (Truncated d) = None"

text \<open>A document that the limits on depth and children leave whole.\<close>

fun fits :: "nat \<Rightarrow> xml \<Rightarrow> bool" where
  "fits depth (Element tag ats txt cs) \<longleftrightarrow> depth \<le> 6 \<and> length cs \<le> 201 \<and> list_all (fits (Suc depth)) cs"

lemma length_concat_bound: "(\<And>x. x \<in> set xs \<Longrightarrow> length (f x) \<le> b) \<Longrightarrow> length (concat (map f xs)) \<le> length xs * b"
  by (induction xs) (auto simp: add_mono)

lemma view_rows_bound: "length (view_rows depth el) \<le> 2 * (\<Sum>i<7 - depth. 201 ^ i)"
proof (induction depth el rule: view_rows.induct)
  case (1 depth tag ats tx cs)
  show ?case
  proof (cases "depth > 6")
    case False
    let ?B = "2 * (\<Sum>i<6 - depth. 201 ^ i) :: nat"
    have "7 - Suc depth = 6 - depth" by simp
    then have "length (view_rows (Suc depth) c) \<le> ?B" if "c \<in> set (take 201 cs)" for c
      using "1.IH" [OF False that] by simp
    then have "length (concat (map (view_rows (Suc depth)) (take 201 cs))) \<le> length (take 201 cs) * ?B"
      by (rule length_concat_bound)
    also have "\<dots> \<le> 201 * ?B" by (intro mult_right_mono) simp_all
    finally have "length (view_rows depth (Element tag ats tx cs)) \<le> 2 + 201 * ?B"
      using False by (cases "201 < length cs") simp_all
    also have "\<dots> = 2 * (\<Sum>i<Suc (6 - depth). 201 ^ i)"
      by (subst sum.lessThan_Suc_shift) (simp add: sum_distrib_left)
    also have "Suc (6 - depth) = 7 - depth" using False by simp
    finally show ?thesis .
  qed simp
qed

lemma view_rows_fits: "fits depth el \<Longrightarrow> map row_text (view_rows depth el) = map (Some \<circ> row_label) (iter_all el)"
proof (induction depth el rule: view_rows.induct)
  case (1 depth tag ats tx cs)
  then have f: "\<not> depth > 6" "take 201 cs = cs" "list_all (fits (Suc depth)) cs" by simp_all
  have "map row_text (concat (map (view_rows (Suc depth)) cs)) = map (Some \<circ> row_label) (concat (map iter_all cs))"
    using "1.IH" [OF f(1)] f(2,3) by (induction cs) (auto simp: list_all_iff)
  with f "1.prems" show ?case by simp
qed

section \<open>Rows of the rack\<close>

lemma rack_rows_iff:
  "r \<in> set (concat (map (\<lambda>(i, d). do_rows i d) (enumerate 0 rack))) \<longleftrightarrow> (\<exists>i<length rack. r \<in> set (do_rows i (rack ! i)))"
  by (fastforce simp: enumerate_eq_zip set_zip)

lemma do_rows_selected:
  "r \<in> set (do_rows i d) \<Longrightarrow> rr_iid r \<noteq> [] \<Longrightarrow> selected_do_index (Some (rr_iid r)) = Inr (Some (int i))"
  by (auto simp: do_rows_def selected_do_index_def Let_def)

section \<open>Cards\<close>

lemma device_state_at: "i < device_count pn \<Longrightarrow> device_state (int i) pn = Some (pn_devices pn ! i)"
  by (simp add: device_state_def device_count_def pn_get_def)

lemma populate_cards_all: "populate_cards pn = map (\<lambda>i. new_card i (ds_config (pn_devices pn ! i))) [0 ..< device_count pn]"
  unfolding populate_cards_def map_filter_def
  by (auto simp: device_state_at filter_id_conv intro!: map_cong)

lemma config_signature_all:
  "config_signature pn =
     map (\<lambda>ds. (total_input_length (ds_config ds), total_output_length (ds_config ds))) (pn_devices pn)"
proof -
  have "config_signature pn = map (\<lambda>i. (\<lambda>ds. (total_input_length (ds_config ds), total_output_length (ds_config ds)))
      (pn_devices pn ! i)) [0 ..< device_count pn]"
    unfolding config_signature_def map_filter_def
    by (auto simp: device_state_at filter_id_conv intro!: map_cong)
  then show ?thesis by (intro nth_equalityI) (simp_all add: device_count_def)
qed

text \<open>The place of a card, and how many words it shows.\<close>

definition card_shape :: "card \<Rightarrow> nat \<times> nat \<times> nat" where
  "card_shape c = (ca_idx c, length (ca_in_words c), length (ca_out_words c))"

definition shape_for :: "nat \<Rightarrow> int \<times> int \<Rightarrow> nat \<times> nat \<times> nat" where
  "shape_for i io =
     (let m = nat (fst io div 2); n = nat (snd io div 2) in if n > 1 \<or> m > 1 then (i, m, n) else (i, 0, 0))"

definition shapes :: "(int \<times> int) list \<Rightarrow> (nat \<times> nat \<times> nat) list" where
  "shapes sig = map (\<lambda>i. shape_for i (sig ! i)) [0 ..< length sig]"

lemma shape_new_card: "card_shape (new_card i dc) = shape_for i (total_input_length dc, total_output_length dc)"
  by (simp add: card_shape_def new_card_def shape_for_def Let_def)

lemma shape_refresh [simp]: "card_shape (card_refresh g pn c) = card_shape c"
  by (simp add: card_shape_def card_refresh_def in_words_def Let_def split: option.split)

lemma shapes_populated: "map card_shape (populate_cards pn) = shapes (config_signature pn)"
  by (simp add: populate_cards_all shapes_def config_signature_all shape_new_card device_count_def comp_def)

definition diag_ok :: "diag_win \<Rightarrow> bool" where
  "diag_ok dw \<longleftrightarrow> (case dw_sig dw of None \<Rightarrow> True | Some sig \<Rightarrow> map card_shape (dw_cards dw) = shapes sig)"

lemma diag_refresh_ok:
  "diag_ok dw \<Longrightarrow> diag_ok (diag_refresh g pn dw) \<and> dw_sig (diag_refresh g pn dw) = Some (config_signature pn)"
  by (cases "dw_sig dw") (auto simp: diag_ok_def diag_refresh_def Let_def shapes_populated comp_def)

lemma diag_refreshes_ok: "diag_ok dw \<Longrightarrow> diag_ok (fold (\<lambda>(g, pn). diag_refresh g pn) states dw)"
  by (induction states arbitrary: dw) (auto simp: diag_refresh_ok)

lemma word_text_reads: "0 \<le> v \<Longrightarrow> parse_hex (''0x'' @ word_text v) = Some v"
  using parse_hex_fmt [of 4 "nat v"] by (simp add: word_text_def)

section \<open>Properties\<close>

text \<open>Showing a description file ends with a bounded number of rows, whatever the file: at most
  2 (1 + 201 + ... + 201^6); a file of at most seven levels and 201 children each is shown whole, one
  row for each element in document order; and once it is shown, or could not be read, it stays.\<close>

theorem viewer_rows:
  "case populate_viewer doc \<lparr>vw_loaded = False, vw_rows = [], vw_failed = False\<rparr> of v \<Rightarrow>
     length (vw_rows v) \<le> 2 * (\<Sum>i<7. 201 ^ i) \<and> vw_failed v = (doc = None) \<and> populate_viewer doc' v = v
     \<and> (case doc of None \<Rightarrow> vw_rows v = []
        | Some el \<Rightarrow> if fits 0 el then map row_text (vw_rows v) = map (Some \<circ> row_label) (iter_all el) else True)"
  using view_rows_bound [of 0] view_rows_fits [of 0] by (cases doc) (simp_all add: populate_viewer_def)

text \<open>C38: What the diagnostic window shows after any sequence of refreshes, while devices come, go
  and change their telegrams: one card per device with a field for each word of its telegrams as they
  are now; and, for words that are not negative, texts that read back as the four words of the device
  and the names of the bits that are set in its status word.\<close>

theorem diag_shows:
  "case diag_refresh g pn (fold (\<lambda>(g, pn). diag_refresh g pn) states (diag_open pn0)) of dw \<Rightarrow>
     map card_shape (dw_cards dw) = shapes (config_signature pn)
     \<and> (\<forall>i < device_count pn. case (dw_cards dw ! i, pn_devices pn ! i) of (c, ds) \<Rightarrow>
          ca_connected c = ds_connected ds \<and> ca_title c = card_title i (ds_config ds)
          \<and> ca_telegram c = telegram_text (ds_config ds)
          \<and> (if list_all (\<lambda>v. 0 \<le> v) [ds_stw1 ds, ds_nsoll ds, ds_zsw1 ds, ds_nist ds]
             then map parse_hex [ca_stw1 c, ca_nsoll c, ca_zsw1 c, ca_nist c] =
                  map Some [ds_stw1 ds, ds_nsoll ds, ds_zsw1 ds, ds_nist ds] else True)
          \<and> set (zsw1_names (ds_zsw1 ds)) = {nm. \<exists>b. (b, nm) \<in> set ZSW1_FLAGS \<and> bit (ds_zsw1 ds) b}
          \<and> ca_bits c = zsw1_text (ds_zsw1 ds))"
proof -
  let ?old = "fold (\<lambda>(g, pn). diag_refresh g pn) states (diag_open pn0)"
  let ?dw = "diag_refresh g pn ?old"
  have ok: "diag_ok ?old" by (rule diag_refreshes_ok) (simp add: diag_ok_def diag_open_def)
  from diag_refresh_ok [OF this, of g pn] have "diag_ok ?dw" "dw_sig ?dw = Some (config_signature pn)"
    by blast+
  then have shape: "map card_shape (dw_cards ?dw) = shapes (config_signature pn)"
    by (simp add: diag_ok_def)
  then have len: "length (dw_cards ?dw) = device_count pn"
    by (metis config_signature_all device_count_def length_map length_upt minus_nat.diff_0 shapes_def)
  have card: "dw_cards ?dw ! i = card_refresh g pn c \<and> ca_idx c = i"
    if i: "i < device_count pn" and c: "c = (dw_cards (if Some (config_signature pn) \<noteq> dw_sig ?old
        then \<lparr>dw_cards = populate_cards pn, dw_sig = Some (config_signature pn)\<rparr> else ?old)) ! i" for i c
  proof -
    have eq: "dw_cards ?dw ! i = card_refresh g pn c"
      using i len c by (auto simp: diag_refresh_def Let_def)
    have "card_shape (dw_cards ?dw ! i) = shape_for i (config_signature pn ! i)"
      using arg_cong [OF shape, of "\<lambda>xs. xs ! i"] i len
      by (simp add: shapes_def config_signature_all device_count_def)
    then have "fst (card_shape c) = i" by (simp add: eq shape_for_def Let_def split: if_splits)
    with eq show ?thesis by (simp add: card_shape_def)
  qed
  have shown: "case (dw_cards ?dw ! i, pn_devices pn ! i) of (c, ds) \<Rightarrow>
      ca_connected c = ds_connected ds \<and> ca_title c = card_title i (ds_config ds)
      \<and> ca_telegram c = telegram_text (ds_config ds)
      \<and> (if list_all (\<lambda>v. 0 \<le> v) [ds_stw1 ds, ds_nsoll ds, ds_zsw1 ds, ds_nist ds]
         then map parse_hex [ca_stw1 c, ca_nsoll c, ca_zsw1 c, ca_nist c] =
              map Some [ds_stw1 ds, ds_nsoll ds, ds_zsw1 ds, ds_nist ds] else True)
      \<and> set (zsw1_names (ds_zsw1 ds)) = {nm. \<exists>b. (b, nm) \<in> set ZSW1_FLAGS \<and> bit (ds_zsw1 ds) b}
      \<and> ca_bits c = zsw1_text (ds_zsw1 ds)" if i: "i < device_count pn" for i
  proof -
    have "pn_get (int i) pn = Some (pn_devices pn ! i)" using device_state_at [OF i] by (simp add: device_state_def)
    moreover have "set (zsw1_names z) = {nm. \<exists>b. (b, nm) \<in> set ZSW1_FLAGS \<and> bit z b}" for z
      by (auto simp: zsw1_names_def image_iff)
    ultimately show ?thesis
      using card [OF i refl] device_state_at [OF i]
      by (simp add: card_refresh_def is_connected_def word_text_reads [simplified] Let_def)
  qed
  show ?thesis using shape by (intro conjI allI impI shown)
qed

definition view_pn :: "unit pn_ctrl" where
  "view_pn = (pn_init True)\<lparr>pn_devices := [(new_dev_state default_device_config)
     \<lparr>ds_connected := True, ds_stw1 := 0x047F, ds_nsoll := 0x2000, ds_zsw1 := 0x0237, ds_nist := 0x1FFF\<rparr>]\<rparr>"

lemma diag_shows_witness:
  "case diag_refresh gw_init view_pn (diag_open view_pn) of dw \<Rightarrow>
     length (dw_cards dw) = 1 \<and> ca_connected (dw_cards dw ! 0)
     \<and> map parse_hex [ca_stw1 (dw_cards dw ! 0), ca_nist (dw_cards dw ! 0)] = [Some 0x047F, Some 0x1FFF]"
proof -
  have dev: "device_count view_pn = 1" "pn_devices view_pn ! 0 = (new_dev_state default_device_config)
      \<lparr>ds_connected := True, ds_stw1 := 0x047F, ds_nsoll := 0x2000, ds_zsw1 := 0x0237, ds_nist := 0x1FFF\<rparr>"
    by (simp_all add: device_count_def view_pn_def)
  note sh = diag_shows [of gw_init view_pn "[]" view_pn]
  have "length (dw_cards (diag_refresh gw_init view_pn (diag_open view_pn))) = 1"
    using arg_cong [OF conjunct1 [OF sh], of length] dev(1)
    by (simp add: shapes_def config_signature_all device_count_def)
  with sh dev show ?thesis by (simp add: case_prod_beta)
qed

lemma length_pn_names [simp]: "length (pn_names pn) = device_count pn"
  by (simp add: pn_names_def device_count_def)

interpretation mainw: counted_view ma_names "\<lambda>v. length (ma_status v)" "\<lambda>(gc, g, pn). pn_names pn"
  "\<lambda>(gc, g, pn). main_refresh gc g pn"
proof unfold_locales
  fix s :: "gateway_config \<times> gateway \<times> 'c pn_ctrl" and v
  obtain gc g pn where s: "s = (gc, g, pn)" by (cases s)
  have "map (\<lambda>i. case device_state (int i) pn of Some ds \<Rightarrow> dc_station_name (ds_config ds) | None \<Rightarrow> ''Device '' @ dec_digits i)
      [0 ..< device_count pn] = pn_names pn"
    by (intro nth_equalityI) (simp_all add: pn_names_def device_state_at, simp_all add: device_count_def)
  with s show "ma_names ((case s of (gc, g, pn) \<Rightarrow> main_refresh gc g pn) v)
      = (if length (ma_status v) = length (case s of (gc, g, pn) \<Rightarrow> pn_names pn) then ma_names v
         else case s of (gc, g, pn) \<Rightarrow> pn_names pn)"
    by (simp add: main_refresh_def Let_def)
  show "length (ma_status ((case s of (gc, g, pn) \<Rightarrow> main_refresh gc g pn) v)) = length (case s of (gc, g, pn) \<Rightarrow> pn_names pn)"
    by (simp add: s main_refresh_def Let_def)
qed

text \<open>The main window over restarts: it shows the connection of every device as it is now; but however
  often the services are restarted with as many devices, it shows them under the names from
  before, and only with another number of devices under their own.\<close>

theorem main_window_names:
  "case main_refresh gc g (pn :: 'c pn_ctrl) v of v1 \<Rightarrow>
   case fold (\<lambda>(gc, g, pn :: 'c pn_ctrl). main_refresh gc g pn) ss v1 of v2 \<Rightarrow>
     (if list_all (\<lambda>(_, _, pn'). device_count pn' = device_count pn) ss then ma_names v2 = ma_names v1 else True)
     \<and> (case main_refresh gc' g' pn' v2 of v3 \<Rightarrow>
          length (ma_status v3) = device_count pn'
          \<and> (\<forall>i < device_count pn'. (ma_status v3 ! i = Connected) = is_connected (int i) pn')
          \<and> (if length (ma_status v2) = device_count pn' then ma_names v3 = ma_names v2 else ma_names v3 = pn_names pn'))"
proof -
  have "list_all (\<lambda>t. length (case t of (gc, g, p) \<Rightarrow> pn_names p) = length (pn_names pn)) ss"
    if "list_all (\<lambda>(_, _, pn'). device_count pn' = device_count pn) ss"
    using that by (auto simp: list_all_iff)
  then have "ma_names (fold (\<lambda>(gc, g, pn). main_refresh gc g pn) ss (main_refresh gc g pn v)) = ma_names (main_refresh gc g pn v)"
    if "list_all (\<lambda>(_, _, pn'). device_count pn' = device_count pn) ss"
    using that mainw.names_stay [of "(gc, g, pn)" ss v] by simp
  moreover have "\<forall>i < device_count pn'. (ma_status (main_refresh gc' g' pn' w) ! i = Connected) = is_connected (int i) pn'" for w
    by (simp add: main_refresh_def Let_def)
  ultimately show ?thesis
    using mainw.names_renew [of "(gc', g', pn')"] mainw.shown_renew [of "(gc', g', pn')"] by simp
qed

text \<open>The rows of the rack and the choice in it: every row that can be told apart belongs to one
  drive object, and choosing it chooses that object and shows the data items of its telegram.\<close>

theorem rack_rows_chosen:
  "\<forall>r \<in> set (fst (refresh_rack dg)).
     rr_iid r = [] \<or>
     (\<exists>i < length (dg_rack dg). r \<in> set (do_rows i (dg_rack dg ! i))
        \<and> selected_do_index (Some (rr_iid r)) = Inr (Some (int i))
        \<and> on_rack_select (Some (rr_iid r)) dg =
            Inr (case get_submodule (dg_gsdml dg) (do_module_ident (dg_rack dg ! i)) (do_submodule_ident (dg_rack dg ! i)) of
                   None \<Rightarrow> [] | Some s \<Rightarrow> si_data_items s))"
proof
  fix r
  assume "r \<in> set (fst (refresh_rack dg))"
  then have "rr_iid r = [] \<or> (\<exists>i<length (dg_rack dg). r \<in> set (do_rows i (dg_rack dg ! i)))"
    by (simp add: refresh_rack_def Let_def flip: rack_rows_iff) (metis rack_row.select_convs(1))
  then show "rr_iid r = [] \<or>
     (\<exists>i < length (dg_rack dg). r \<in> set (do_rows i (dg_rack dg ! i))
        \<and> selected_do_index (Some (rr_iid r)) = Inr (Some (int i))
        \<and> on_rack_select (Some (rr_iid r)) dg =
            Inr (case get_submodule (dg_gsdml dg) (do_module_ident (dg_rack dg ! i)) (do_submodule_ident (dg_rack dg ! i)) of
                   None \<Rightarrow> [] | Some s \<Rightarrow> si_data_items s))"
    using do_rows_selected by (fastforce simp: on_rack_select_def Let_def split: option.splits)
qed

end
