(* ===== verification/Realtime.thy ===== *)
theory Realtime
  imports Config Py_Str
begin

unbundle bit_operations_syntax

text \<open>
  Tuning of the process (\<open>profinet_gateway_py/realtime.py\<close>, and \<open>apply_realtime\<close> of \<open>main.py\<close>):
  which calls into the operating system are made, in which order, from the texts in the
  configuration.  What a call does is given by a world: it succeeds, reports a failure or raises.
\<close>

datatype rt_call = TimerPeriod | PriorityClass int | AffinityMask int | SchedAffinity "int set" | Renice int | TimerEnd

datatype rt_result = Done | Refused | Raised

record rt_world =
  rt_windows :: bool
  rt_has_sched :: bool
  rt_result :: "rt_call \<Rightarrow> rt_result"

definition priority_class :: "string \<Rightarrow> int option" where
  "priority_class p = map_of [(''high'', 0x80), (''above'', 0x8000), (''realtime'', 0x100)] (lower p)"

text \<open>A negative core raises in the shift.\<close>

fun core_mask :: "int \<Rightarrow> int list \<Rightarrow> py_error + int" where
  "core_mask m [] = Inr m"
| "core_mask m (c # cs) = (if c < 0 then Inl ValueError else core_mask (m OR push_bit (nat c) 1) cs)"

text \<open>On POSIX an affinity that is refused raises and leaves out the priority.\<close>

definition enable_posix :: "rt_world \<Rightarrow> string \<Rightarrow> int list option \<Rightarrow> rt_call list" where
  "enable_posix w priority cores =
     (let nice = (if lower priority \<in> {''high'', ''above'', ''realtime''} then [Renice (- 10)] else []) in
      case cores of
        Some (c # cs) \<Rightarrow>
          if rt_has_sched w then
            (let call = SchedAffinity (set (c # cs))
             in call # (if rt_result w call = Raised then [] else nice))
          else nice
      | _ \<Rightarrow> nice)"

definition enable_realtime :: "rt_world \<Rightarrow> string \<Rightarrow> int list option \<Rightarrow> bool \<Rightarrow> rt_call list" where
  "enable_realtime w priority cores timer =
     (if \<not> rt_windows w then enable_posix w priority cores
      else
        (if timer then [TimerPeriod] else [])
        @ (case priority_class priority of Some c \<Rightarrow> [PriorityClass c] | None \<Rightarrow> [])
        @ (case cores of
             Some (c # cs) \<Rightarrow> (case core_mask 0 (c # cs) of Inr m \<Rightarrow> [AffinityMask m] | Inl _ \<Rightarrow> [])
           | _ \<Rightarrow> []))"

definition disable_realtime :: "rt_world \<Rightarrow> rt_call list" where
  "disable_realtime w = (if rt_windows w then [TimerEnd] else [])"

text \<open>The cores as they are written in the configuration; a part that is no number drops them all.\<close>

definition cores_of :: "string \<Rightarrow> int list option" where
  "cores_of text =
     (let raw = filter (\<lambda>c. c \<noteq> CHR '' '') text in
      if raw = [] then None
      else (let vs = map parse_dec (filter (\<lambda>x. x \<noteq> []) (split_on (CHR '','') raw))
            in if None \<in> set vs then None else Some (map the vs)))"

definition apply_realtime :: "rt_world \<Rightarrow> gateway_config \<Rightarrow> rt_call list" where
  "apply_realtime w gc = enable_realtime w (gc_priority gc) (cores_of (gc_cpu_affinity gc)) True"

lemma core_mask_bits:
  "core_mask m cs = Inr r \<Longrightarrow> bit r n \<longleftrightarrow> bit m n \<or> int n \<in> set cs"
  by (induction cs arbitrary: m) (auto simp: bit_or_iff bit_push_bit_iff bit_1_iff bit_exp_iff possible_bit_def split: if_splits)

lemma core_mask_ok: "list_all (\<lambda>c. 0 \<le> c) cs \<Longrightarrow> \<exists>r. core_mask m cs = Inr r"
  by (induction cs arbitrary: m) auto

lemma core_mask_negative: "c \<in> set cs \<Longrightarrow> c < 0 \<Longrightarrow> core_mask m cs = Inl ValueError"
  by (induction cs arbitrary: m) auto

lemma core_mask_pinned:
  "core_mask 0 cs = Inr m \<Longrightarrow> (\<forall>n. bit m n = (int n \<in> set cs)) \<and> list_all (\<lambda>c. 0 \<le> c) cs"
  using core_mask_negative [of _ cs 0] by (fastforce simp: core_mask_bits list_all_iff not_le [symmetric])

text \<open>The cores that the process is put on are those named in the configuration, on either system;
  without a number in it, or with a part that is none, it stays on all.\<close>

theorem cores_pinned:
  "case cores_of text of
     None \<Rightarrow> (\<forall>call \<in> set (apply_realtime w (gc\<lparr>gc_cpu_affinity := text\<rparr>)). case call of
        AffinityMask _ \<Rightarrow> False | SchedAffinity _ \<Rightarrow> False | _ \<Rightarrow> True)
   | Some cs \<Rightarrow> \<forall>call \<in> set (apply_realtime w (gc\<lparr>gc_cpu_affinity := text\<rparr>)). case call of
        AffinityMask m \<Rightarrow> (\<forall>n. bit m n = (int n \<in> set cs)) \<and> list_all (\<lambda>c. 0 \<le> c) cs
      | SchedAffinity s \<Rightarrow> s = set cs | _ \<Rightarrow> True"
proof (cases "cores_of text")
  case None
  then show ?thesis
    by (auto simp: apply_realtime_def enable_realtime_def enable_posix_def split: option.splits)
next
  case (Some cs)
  show ?thesis
  proof (cases cs)
    case Nil
    with Some show ?thesis
      by (auto simp: apply_realtime_def enable_realtime_def enable_posix_def split: option.splits)
  next
    case (Cons c cs')
    show ?thesis
    proof (cases "core_mask 0 (c # cs')")
      case (Inr m)
      with core_mask_pinned [OF Inr] Some Cons show ?thesis
        by (auto simp: apply_realtime_def enable_realtime_def enable_posix_def Let_def simp del: core_mask.simps
            split: option.splits)
    qed (use Some Cons in \<open>auto simp: apply_realtime_def enable_realtime_def enable_posix_def Let_def
            simp del: core_mask.simps split: option.splits\<close>)
  qed
qed

end
