(* ===== verification/Old_Config.thy ===== *)
theory Old_Config
  imports Config
begin

text \<open>
  The configuration of the earlier gateway (\<open>profinet_gateway/config.py\<close>), which the library in
  C drives: its dataclasses, loading and saving, and how its files and those of the present
  gateway read in each other.
\<close>

section \<open>Dataclasses\<close>

record old_device_config =
  od_gsdml_path :: string
  od_station_name :: string
  od_ip :: string
  od_subnet :: string
  od_gateway :: string
  od_mac :: string
  od_canvas_x :: int
  od_canvas_y :: int
  od_slot :: int
  od_subslot :: int
  od_module_ident :: int
  od_submodule_ident :: int
  od_module_name :: string
  od_submodule_name :: string
  od_input_length :: int
  od_output_length :: int

record old_gateway_config =
  ogc_protocol :: string
  ogc_port :: int
  ogc_bind :: string

record old_app_config =
  oa_adapter :: string
  oa_devices :: "old_device_config list"
  oa_gateway :: old_gateway_config

definition old_default_gateway :: old_gateway_config where
  "old_default_gateway = \<lparr>ogc_protocol = ''TCP'', ogc_port = 5000, ogc_bind = ''0.0.0.0''\<rparr>"

definition old_default_app :: old_app_config where
  "old_default_app = \<lparr>oa_adapter = '''', oa_devices = [], oa_gateway = old_default_gateway\<rparr>"

section \<open>Loading\<close>

definition old_fields_device :: "string list" where
  "old_fields_device = [''gsdml_path'', ''station_name'', ''ip'', ''subnet'', ''gateway'', ''mac'',
     ''canvas_x'', ''canvas_y'', ''slot'', ''subslot'', ''module_ident'', ''submodule_ident'',
     ''module_name'', ''submodule_name'', ''input_length'', ''output_length'']"

definition old_fields_gateway :: "string list" where
  "old_fields_gateway = [''protocol'', ''port'', ''bind'']"

definition mk_old_device :: "(string \<times> json) list \<Rightarrow> old_device_config option" where
  "mk_old_device d = do {
     path \<leftarrow> kw_str d ''gsdml_path'' '''';
     name \<leftarrow> kw_str d ''station_name'' '''';
     ip \<leftarrow> kw_str d ''ip'' ''192.168.1.50'';
     subnet \<leftarrow> kw_str d ''subnet'' ''255.255.255.0'';
     gw \<leftarrow> kw_str d ''gateway'' ''192.168.1.1'';
     mac \<leftarrow> kw_str d ''mac'' '''';
     x \<leftarrow> kw_int d ''canvas_x'' 100;
     y \<leftarrow> kw_int d ''canvas_y'' 100;
     slot \<leftarrow> kw_int d ''slot'' 1;
     subslot \<leftarrow> kw_int d ''subslot'' 1;
     mident \<leftarrow> kw_int d ''module_ident'' 0;
     sident \<leftarrow> kw_int d ''submodule_ident'' 0;
     mname \<leftarrow> kw_str d ''module_name'' '''';
     sname \<leftarrow> kw_str d ''submodule_name'' '''';
     inl \<leftarrow> kw_int d ''input_length'' 4;
     outl \<leftarrow> kw_int d ''output_length'' 4;
     Some \<lparr>od_gsdml_path = path, od_station_name = name, od_ip = ip, od_subnet = subnet, od_gateway = gw,
       od_mac = mac, od_canvas_x = x, od_canvas_y = y, od_slot = slot, od_subslot = subslot,
       od_module_ident = mident, od_submodule_ident = sident, od_module_name = mname,
       od_submodule_name = sname, od_input_length = inl, od_output_length = outl\<rparr> }"

definition mk_old_gateway :: "(string \<times> json) list \<Rightarrow> old_gateway_config option" where
  "mk_old_gateway d = do {
     proto \<leftarrow> kw_str d ''protocol'' ''TCP'';
     port \<leftarrow> kw_int d ''port'' 5000;
     bnd \<leftarrow> kw_str d ''bind'' ''0.0.0.0'';
     Some \<lparr>ogc_protocol = proto, ogc_port = port, ogc_bind = bnd\<rparr> }"

text \<open>\<open>C(**d)\<close>: an unexpected keyword, or a value that is no mapping, raises \<open>TypeError\<close>.\<close>

fun old_construct :: "string list \<Rightarrow> ((string \<times> json) list \<Rightarrow> 'a option) \<Rightarrow> json \<Rightarrow> 'a outcome" where
  "old_construct fs mk (JObj kvs) =
     (if list_all (\<lambda>(k, _). k \<in> set fs) kvs then (case mk kvs of Some x \<Rightarrow> Ok x | None \<Rightarrow> Outside)
      else Raised TypeError)"
| "old_construct fs mk _ = Raised TypeError"

definition old_load_device :: "json \<Rightarrow> old_device_config outcome" where
  "old_load_device = old_construct old_fields_device mk_old_device"

definition old_load_gateway :: "json \<Rightarrow> old_gateway_config outcome" where
  "old_load_gateway = old_construct old_fields_gateway mk_old_gateway"

text \<open>An element that raises ends the list whatever comes before it.\<close>

fun old_load_devices :: "json list \<Rightarrow> old_device_config list outcome" where
  "old_load_devices [] = Ok []"
| "old_load_devices (j # js) =
     (case (old_load_device j, old_load_devices js) of
        (Raised e, _) \<Rightarrow> Raised e
      | (_, Raised e) \<Rightarrow> Raised e
      | (Ok d, Ok ds) \<Rightarrow> Ok (d # ds)
      | _ \<Rightarrow> Outside)"

fun old_load_data :: "json \<Rightarrow> old_app_config outcome" where
  "old_load_data (JObj data) =
     (let adapter = (case dict_get ''adapter'' data of None \<Rightarrow> Some '''' | Some (JStr s) \<Rightarrow> Some s | _ \<Rightarrow> None);
          gw = old_load_gateway (case dict_get ''gateway'' data of None \<Rightarrow> JObj [] | Some g \<Rightarrow> g);
          devs = (case py_iter (case dict_get ''devices'' data of None \<Rightarrow> JArr [] | Some v \<Rightarrow> v) of
                    Inl e \<Rightarrow> Raised e | Inr js \<Rightarrow> old_load_devices js)
      in case (gw, devs) of
           (Raised e, _) \<Rightarrow> Raised e
         | (_, Raised e) \<Rightarrow> Raised e
         | (Ok g, Ok ds) \<Rightarrow>
             (case adapter of
                Some a \<Rightarrow> Ok \<lparr>oa_adapter = a, oa_devices = ds, oa_gateway = g\<rparr>
              | None \<Rightarrow> Outside)
         | _ \<Rightarrow> Outside)"
| "old_load_data _ = Raised AttributeError"

definition old_load_config :: "files \<Rightarrow> old_app_config outcome" where
  "old_load_config fs =
     (case config_json fs of
        Some (Complete j) \<Rightarrow> (case old_load_data j of Raised _ \<Rightarrow> Ok old_default_app | r \<Rightarrow> r)
      | _ \<Rightarrow> Ok old_default_app)"

section \<open>Saving\<close>

definition old_asdict_device :: "old_device_config \<Rightarrow> json" where
  "old_asdict_device d = JObj [
     (''gsdml_path'', JStr (od_gsdml_path d)), (''station_name'', JStr (od_station_name d)),
     (''ip'', JStr (od_ip d)), (''subnet'', JStr (od_subnet d)), (''gateway'', JStr (od_gateway d)),
     (''mac'', JStr (od_mac d)), (''canvas_x'', JInt (od_canvas_x d)), (''canvas_y'', JInt (od_canvas_y d)),
     (''slot'', JInt (od_slot d)), (''subslot'', JInt (od_subslot d)),
     (''module_ident'', JInt (od_module_ident d)), (''submodule_ident'', JInt (od_submodule_ident d)),
     (''module_name'', JStr (od_module_name d)), (''submodule_name'', JStr (od_submodule_name d)),
     (''input_length'', JInt (od_input_length d)), (''output_length'', JInt (od_output_length d))]"

definition old_config_data :: "old_app_config \<Rightarrow> json" where
  "old_config_data cfg = JObj [
     (''adapter'', JStr (oa_adapter cfg)),
     (''gateway'', JObj [(''protocol'', JStr (ogc_protocol (oa_gateway cfg))), (''port'', JInt (ogc_port (oa_gateway cfg))),
                         (''bind'', JStr (ogc_bind (oa_gateway cfg)))]),
     (''devices'', JArr (map old_asdict_device (oa_devices cfg)))]"

text \<open>The file itself is truncated and then written.\<close>

datatype old_fs_op = OpenJson | DumpJson json

fun old_fs_step :: "files \<Rightarrow> old_fs_op \<Rightarrow> files" where
  "old_fs_step fs OpenJson = fs\<lparr>config_json := Some Partial\<rparr>"
| "old_fs_step fs (DumpJson j) = fs\<lparr>config_json := Some (Complete j)\<rparr>"

definition old_save_ops :: "old_app_config \<Rightarrow> old_fs_op list" where
  "old_save_ops cfg = [OpenJson, DumpJson (old_config_data cfg)]"

definition old_save_config :: "old_app_config \<Rightarrow> files \<Rightarrow> files" where
  "old_save_config cfg fs = foldl old_fs_step fs (old_save_ops cfg)"

section \<open>Reading back\<close>

lemmas [cfg_simps] = old_fields_device_def old_fields_gateway_def mk_old_device_def mk_old_gateway_def
  old_load_device_def old_load_gateway_def

lemma old_load_device_asdict [simp]: "old_load_device (old_asdict_device d) = Ok d"
  by (simp add: old_asdict_device_def cfg_simps)

lemma old_load_devices_asdict [simp]: "old_load_devices (map old_asdict_device ds) = Ok ds"
  by (induction ds) simp_all

lemma old_load_data_asdict [simp]: "old_load_data (old_config_data cfg) = Ok cfg"
  by (simp add: old_config_data_def cfg_simps)

text \<open>The device and the gateway of the earlier version in the terms of the present one.\<close>

definition embed_dev :: "old_device_config \<Rightarrow> device_config" where
  "embed_dev d = \<lparr>dc_gsdml_path = od_gsdml_path d, dc_dap_id = '''', dc_station_name = od_station_name d,
     dc_ip = od_ip d, dc_subnet = od_subnet d, dc_gateway = od_gateway d, dc_mac = od_mac d,
     dc_canvas_x = od_canvas_x d, dc_canvas_y = od_canvas_y d, dc_drive_objects = [], dc_slot = od_slot d,
     dc_subslot = od_subslot d, dc_module_ident = od_module_ident d, dc_submodule_ident = od_submodule_ident d,
     dc_module_name = od_module_name d, dc_submodule_name = od_submodule_name d,
     dc_input_length = od_input_length d, dc_output_length = od_output_length d\<rparr>"

definition embed_app :: "old_app_config \<Rightarrow> app_config" where
  "embed_app cfg = \<lparr>ac_adapter = oa_adapter cfg, ac_devices = map embed_dev (oa_devices cfg),
     ac_gateway = default_gateway_config\<lparr>gc_protocol := ogc_protocol (oa_gateway cfg),
       gc_port := ogc_port (oa_gateway cfg), gc_bind := ogc_bind (oa_gateway cfg)\<rparr>\<rparr>"

lemma load_device_old [simp]: "load_device (old_asdict_device d) = Ok (embed_dev d)"
  by (simp add: load_device_def old_asdict_device_def cfg_simps embed_dev_def)

lemma load_devices_old [simp]: "load_devices (map old_asdict_device ds) = Ok (map embed_dev ds)"
  by (induction ds) simp_all

lemma load_data_old [simp]: "load_data (old_config_data cfg) = Ok (embed_app cfg)"
  by (simp add: old_config_data_def embed_app_def cfg_simps default_gateway_config_def)

lemma old_load_data_new [simp]: "old_load_data (config_data cfg) = Raised TypeError"
  by (simp add: config_data_def asdict_gateway_config_def cfg_simps)

lemma old_load_saved: "old_load_config (old_save_config c fs) = Ok c"
  by (simp add: old_save_config_def old_save_ops_def old_load_config_def)

section \<open>Properties\<close>

text \<open>C35: Where a save can be interrupted: after any prefix of its file operations the present
  version loads the configuration from before or the new one, and the new one once it is done; the
  earlier version loses everything between truncating the file and writing it.\<close>

theorem save_interrupted:
  "load_config (foldl fs_step fs (take k (save_ops cfg))) = (if k < 3 then load_config fs else Ok cfg)
   \<and> old_load_config (foldl old_fs_step fs (take k (old_save_ops old))) =
       (if k = 0 then old_load_config fs else if k = 1 then Ok old_default_app else Ok old)"
proof -
  have k: "k = 0 \<or> k = 1 \<or> k = 2 \<or> 3 \<le> k" by auto
  show ?thesis
    using k by (auto simp: save_ops_def old_save_ops_def load_config_def old_load_config_def numeral_2_eq_2)
qed

text \<open>C36: A configuration across the versions: a file of the earlier version loads in the present one
  with every value it had, its scalar telegram as the one drive object in effect, and the defaults for
  what is new; a file of the present version makes the earlier one fall back to an empty
  configuration, whatever it holds.\<close>

theorem config_versions:
  "load_config (old_save_config old fs) = Ok (embed_app old)
   \<and> old_load_config (old_save_config old fs) = Ok old
   \<and> map (map do_output_length \<circ> effective_drive_objects) (ac_devices (embed_app old)) = map (\<lambda>d. [od_output_length d]) (oa_devices old)
   \<and> old_load_config (save_config cfg fs) = Ok old_default_app"
  by (simp add: old_save_config_def old_save_ops_def save_config_def save_ops_def load_config_def old_load_config_def
      embed_app_def embed_dev_def effective_drive_objects_def)

end
