(* ===== verification/Old_Gateway.thy ===== *)
theory Old_Gateway
  imports Old_Config Gw_Socket
begin

text \<open>
  The server of the earlier gateway (\<open>profinet_gateway/gateway_server.py\<close>): flat frames over
  TCP request and response or UDP, no framing, no watchdog, words with the low byte first.
  Buffers, connections and accepted clients are those of the present server.
\<close>

section \<open>State\<close>

record old_gateway =
  og_protocol :: string
  og_port :: int
  og_bind :: string
  og_devices :: "old_device_config list"
  og_io :: "dev_io list"
  og_thread :: "server_kind option"
  og_running :: bool
  og_client_conn :: "nat option"
  og_client_addr :: "nat option"
  og_sock :: bool
  og_log :: "gw_event list"

definition og_init :: old_gateway where
  "og_init = \<lparr>og_protocol = ''TCP'', og_port = 5000, og_bind = ''0.0.0.0'', og_devices = [], og_io = [],
     og_thread = None, og_running = False, og_client_conn = None, og_client_addr = None, og_sock = False, og_log = []\<rparr>"

definition og_say :: "gw_event \<Rightarrow> old_gateway \<Rightarrow> old_gateway" where
  "og_say e g = g\<lparr>og_log := og_log g @ [e]\<rparr>"

definition old_fresh_io :: "old_device_config \<Rightarrow> py_error + dev_io" where
  "old_fresh_io dc =
     bindE (bytearray_n (od_output_length dc)) (\<lambda>out.
     bindE (bytearray_n (od_input_length dc)) (\<lambda>inp. Inr \<lparr>io_out = out, io_inp = inp\<rparr>))"

definition old_configure :: "string \<Rightarrow> int \<Rightarrow> string \<Rightarrow> old_device_config list \<Rightarrow> old_gateway \<Rightarrow> py_error option \<times> old_gateway" where
  "old_configure protocol port bnd dcs g =
     (let g1 = g\<lparr>og_protocol := upper protocol, og_port := port, og_bind := bnd, og_devices := dcs\<rparr> in
      case map_err old_fresh_io dcs of
        Inl e \<Rightarrow> (Some e, g1)
      | Inr ios \<Rightarrow> (None, g1\<lparr>og_io := ios\<rparr>))"

section \<open>Buffers\<close>

definition old_get_outputs :: "old_gateway \<Rightarrow> nat \<Rightarrow> bytes" where
  "old_get_outputs g idx = (if idx < length (og_io g) then io_out (og_io g ! idx) else [])"

definition old_set_inputs :: "nat \<Rightarrow> bytes \<Rightarrow> old_gateway \<Rightarrow> old_gateway" where
  "old_set_inputs idx data g =
     (if idx < length (og_io g) then
        (let io = og_io g ! idx; n = min (length data) (length (io_inp io))
         in g\<lparr>og_io := (og_io g)[idx := io\<lparr>io_inp := slice_set 0 n (take n data) (io_inp io)\<rparr>]\<rparr>)
      else g)"

text \<open>\<open>struct\<close> code \<open><H\<close>.\<close>

definition pack_le :: "int \<Rightarrow> py_error + bytes" where
  "pack_le v = bindE (pack_H v) (\<lambda>bs. Inr (rev bs))"

definition old_get_stw1_nsoll :: "old_gateway \<Rightarrow> nat \<Rightarrow> int \<times> int" where
  "old_get_stw1_nsoll g idx =
     (let out = old_get_outputs g idx in
      if length out \<ge> 4 then (val16 (out ! 1) (out ! 0), val16 (out ! 3) (out ! 2)) else (0, 0))"

definition old_set_zsw1_nist :: "nat \<Rightarrow> int \<Rightarrow> int \<Rightarrow> old_gateway \<Rightarrow> py_error option \<times> old_gateway" where
  "old_set_zsw1_nist idx zsw1 nist g =
     (case bindE (pack_le zsw1) (\<lambda>a. bindE (pack_le nist) (\<lambda>b. Inr (a @ b))) of
        Inl e \<Rightarrow> (Some e, g)
      | Inr data \<Rightarrow> (None, old_set_inputs idx data g))"

section \<open>Lifecycle\<close>

definition old_start :: "old_gateway \<Rightarrow> old_gateway" where
  "old_start g =
     (if og_running g then g
      else og_say (Listening (og_protocol g) (og_bind g) (og_port g)) (g\<lparr>og_running := True,
             og_thread := Some (if og_protocol g = ''TCP'' then Tcp_server else Udp_server)\<rparr>))"

definition old_stop :: "old_gateway \<Rightarrow> old_gateway" where
  "old_stop g = og_say ServerStopped (g\<lparr>og_running := False, og_client_conn := None, og_sock := False\<rparr>)"

section \<open>Frames\<close>

definition old_out_size :: "old_gateway \<Rightarrow> int" where
  "old_out_size g = sum_list (map od_output_length (og_devices g))"

definition old_inp_size :: "old_gateway \<Rightarrow> int" where
  "old_inp_size g = sum_list (map od_input_length (og_devices g))"

fun old_distribute :: "bytes \<Rightarrow> int \<Rightarrow> nat \<Rightarrow> old_device_config list \<Rightarrow> dev_io list \<Rightarrow> py_error option \<times> dev_io list" where
  "old_distribute data offset i [] ios = (None, ios)"
| "old_distribute data offset i (dc # dcs) ios =
     (let n = od_output_length dc in
      if i < length ios then
        old_distribute data (offset + n) (Suc i) dcs
          (ios[i := (ios ! i)\<lparr>io_out := islice_set 0 n (islice offset (offset + n) data) (io_out (ios ! i))\<rparr>])
      else (Some IndexError, ios))"

definition old_apply :: "bytes \<Rightarrow> old_gateway \<Rightarrow> py_error option \<times> old_gateway" where
  "old_apply data g =
     (case old_distribute data 0 0 (og_devices g) (og_io g) of (e, ios) \<Rightarrow> (e, g\<lparr>og_io := ios\<rparr>))"

definition old_inp_frame :: "old_gateway \<Rightarrow> py_error + bytes" where
  "old_inp_frame g =
     (case map_err (flat_part (og_io g)) [0 ..< length (og_devices g)] of
        Inl e \<Rightarrow> Inl e | Inr parts \<Rightarrow> Inr (concat parts))"

section \<open>TCP\<close>

text \<open>A pause before the first byte gives up; one in the middle of a frame does not.\<close>

function old_recv_exact :: "nat \<Rightarrow> bytes \<Rightarrow> recv_ev list \<Rightarrow> rx \<times> recv_ev list" where
  "old_recv_exact n buf es =
     (if length buf < n then
        (case sock_recv (n - length buf) es of
           (R_data chunk, es') \<Rightarrow> old_recv_exact n (buf @ chunk) es'
         | (R_closed, es') \<Rightarrow> (NoFrame, es')
         | (R_timeout, es') \<Rightarrow> if buf = [] then (NoFrame, es') else old_recv_exact n buf es'
         | (R_error, es') \<Rightarrow> (RxError OSError, es')
         | (R_pending, es') \<Rightarrow> (Waiting, es'))
      else (Got buf, es))"
  by pat_completeness auto
termination
proof (relation "measure (\<lambda>(n, buf, es). (n - length buf) + length es)", goal_cases)
  case 1 show ?case by simp
next
  case (2 n buf es r es' chunk)
  then have "sock_recv (n - length buf) es = (R_data chunk, es')" by simp
  from sock_recv_data [OF this] 2(1) show ?case
    by (auto simp flip: length_greater_0_conv)
next
  case (3 n buf es r es')
  then have "sock_recv (n - length buf) es = (R_timeout, es')" by simp
  from sock_recv_timeout [OF this] show ?case by simp
qed

declare old_recv_exact.simps [simp del]

definition old_send :: "old_gateway \<Rightarrow> conn \<Rightarrow> step \<times> old_gateway \<times> conn" where
  "old_send g c =
     (case old_inp_frame g of
        Inl e \<Rightarrow> (Die e, g, c)
      | Inr frame \<Rightarrow> (case conn_send frame c of (ok, c') \<Rightarrow> (if ok then Go else Break, g, c')))"

definition old_tcp_iter :: "int \<Rightarrow> int \<Rightarrow> old_gateway \<Rightarrow> conn \<Rightarrow> step \<times> old_gateway \<times> conn" where
  "old_tcp_iter out_size inp_size g c =
     (if out_size > 0 then
        (case old_recv_exact (nat out_size) [] (c_rx c) of (r, es) \<Rightarrow>
           (let c1 = c\<lparr>c_rx := es\<rparr> in
            case r of
              Waiting \<Rightarrow> (Wait, g, c1)
            | RxError _ \<Rightarrow> (Break, g, c1)
            | NoFrame \<Rightarrow> (Break, g, c1)
            | Got data \<Rightarrow>
                (case old_apply data g of
                   (Some e, g1) \<Rightarrow> (Die e, g1, c1)
                 | (None, g1) \<Rightarrow> if inp_size > 0 then old_send g1 c1 else (Go, g1, c1))))
      else if inp_size > 0 then old_send g c
      else (Go, g, c))"

text \<open>The loop over its first \<open>k\<close> passes, then the connection is closed.\<close>

fun old_tcp_loop :: "int \<Rightarrow> int \<Rightarrow> nat \<Rightarrow> old_gateway \<Rightarrow> conn \<Rightarrow> step \<times> old_gateway \<times> conn" where
  "old_tcp_loop out_size inp_size 0 g c = (Go, g, c)"
| "old_tcp_loop out_size inp_size (Suc k) g c =
     (if og_running g then
        (case old_tcp_iter out_size inp_size g c of
           (Go, g1, c1) \<Rightarrow> old_tcp_loop out_size inp_size k g1 c1
         | r \<Rightarrow> r)
      else (Break, g, c))"

definition old_handle_tcp :: "nat \<Rightarrow> old_gateway \<Rightarrow> conn \<Rightarrow> step \<times> old_gateway \<times> conn" where
  "old_handle_tcp k g c =
     (case old_tcp_loop (old_out_size g) (old_inp_size g) k g c of
        (Break, g1, c1) \<Rightarrow> (Break, g1, conn_close c1)
      | r \<Rightarrow> r)"

fun old_tcp_accept :: "accept_ev list \<Rightarrow> old_gateway \<Rightarrow> step \<times> old_gateway" where
  "old_tcp_accept [] g = (Wait, g)"
| "old_tcp_accept (AcceptTimeout # evs) g = (if og_running g then old_tcp_accept evs g else (Break, g))"
| "old_tcp_accept (AcceptError # evs) g = (Break, g)"
| "old_tcp_accept (Accepted addr c sched # evs) g =
     (if og_running g then
        (case old_handle_tcp (length sched)
                (og_say (ClientConnected addr) (g\<lparr>og_client_conn := Some addr, og_client_addr := Some addr\<rparr>)) c of
           (Break, g1, _) \<Rightarrow> old_tcp_accept evs (og_say (ClientDisconnected addr) (g1\<lparr>og_client_conn := None\<rparr>))
         | (s, g1, _) \<Rightarrow> (s, g1))
      else (Break, g))"

definition old_tcp_server :: "bool \<Rightarrow> accept_ev list \<Rightarrow> old_gateway \<Rightarrow> step \<times> old_gateway" where
  "old_tcp_server bind_ok evs g =
     (if bind_ok then old_tcp_accept evs (g\<lparr>og_sock := True\<rparr>)
      else (Break, (og_say (BindError Tcp_server) (g\<lparr>og_sock := True\<rparr>))\<lparr>og_running := False\<rparr>))"

section \<open>UDP\<close>

definition old_udp_iter :: "int \<Rightarrow> bytes \<Rightarrow> nat \<Rightarrow> bool \<Rightarrow> old_gateway \<Rightarrow> step \<times> old_gateway \<times> bytes list" where
  "old_udp_iter out_size data addr send_ok g =
     (let g1 = g\<lparr>og_client_addr := Some addr\<rparr> in
      case (if int (length data) \<ge> out_size then old_apply data g1 else (None, g1)) of
        (Some e, g2) \<Rightarrow> (Die e, g2, [])
      | (None, g2) \<Rightarrow>
         (case old_inp_frame g2 of
            Inl e \<Rightarrow> (Die e, g2, [])
          | Inr frame \<Rightarrow> if send_ok then (Go, g2, [frame]) else (Break, g2, [])))"

fun old_udp_loop :: "int \<Rightarrow> udp_ev list \<Rightarrow> old_gateway \<Rightarrow> step \<times> old_gateway \<times> bytes list" where
  "old_udp_loop out_size [] g = (Wait, g, [])"
| "old_udp_loop out_size (UdpTimeout # evs) g =
     (if og_running g then old_udp_loop out_size evs g else (Break, g, []))"
| "old_udp_loop out_size (UdpError # evs) g = (Break, g, [])"
| "old_udp_loop out_size (Datagram data addr now ok # evs) g =
     (if og_running g then
        (case old_udp_iter out_size data addr ok g of
           (Go, g1, sent) \<Rightarrow> (case old_udp_loop out_size evs g1 of (s, g2, later) \<Rightarrow> (s, g2, sent @ later))
         | r \<Rightarrow> r)
      else (Break, g, []))"

definition old_udp_server :: "bool \<Rightarrow> udp_ev list \<Rightarrow> old_gateway \<Rightarrow> step \<times> old_gateway \<times> bytes list" where
  "old_udp_server bind_ok evs g =
     (if bind_ok then old_udp_loop (old_out_size g) evs (g\<lparr>og_sock := True\<rparr>)
      else (Break, (og_say (BindError Udp_server) (g\<lparr>og_sock := True\<rparr>))\<lparr>og_running := False\<rparr>, []))"

section \<open>The earlier server and the present one\<close>

definition gw_agrees :: "old_gateway \<Rightarrow> gateway \<Rightarrow> bool" where
  "gw_agrees og g \<longleftrightarrow> gw_io g = og_io og \<and> gw_device_configs g = map embed_dev (og_devices og)
     \<and> \<not> gw_framed g \<and> gw_running g = og_running og"

lemma total_length_embed [simp]:
  "total_output_length (embed_dev d) = od_output_length d" "total_input_length (embed_dev d) = od_input_length d"
  by (simp_all add: embed_dev_def total_output_length_def total_input_length_def effective_drive_objects_def)

lemma fresh_io_embed: "map_err fresh_io (map embed_dev dcs) = map_err old_fresh_io dcs"
  by (induction dcs) (simp_all add: fresh_io_def old_fresh_io_def bindE_def split: sum.splits)

lemma distribute_embed: "apply_flat data offset i (map embed_dev dcs) ios = old_distribute data offset i dcs ios"
  by (induction data offset i dcs ios rule: old_distribute.induct) (simp_all add: Let_def)

lemma sizes_agree: "gw_agrees og g \<Longrightarrow> out_frame_size g = old_out_size og \<and> in_frame_size g = old_inp_size og"
  by (simp add: gw_agrees_def out_frame_size_def in_frame_size_def old_out_size_def old_inp_size_def comp_def)

lemma apply_agree:
  "gw_agrees og g \<Longrightarrow>
   fst (apply_outputs data g) = fst (old_apply data og) \<and> gw_agrees (snd (old_apply data og)) (snd (apply_outputs data g))"
  by (auto simp: gw_agrees_def apply_outputs_def old_apply_def distribute_embed split: prod.splits)

lemma frame_agree: "gw_agrees og g \<Longrightarrow> build_inputs g = old_inp_frame og"
  by (simp add: gw_agrees_def build_inputs_def old_inp_frame_def)

lemma mon_agree [simp]: "gw_agrees og (mon_rx t d g) = gw_agrees og g" "gw_agrees og (mon_tx d g) = gw_agrees og g"
  by (simp_all add: gw_agrees_def mon_rx_def mon_tx_def gw_say_def Let_def)

text \<open>A script in which nothing pauses.\<close>

lemma sock_recv_no_pause:
  "TimedOut \<notin> set es \<Longrightarrow> sock_recv k es = (r, es') \<Longrightarrow> r \<noteq> R_timeout \<and> TimedOut \<notin> set es'"
  by (cases "(k, es)" rule: sock_recv.cases) (auto split: if_splits)

lemma recv_agree:
  "TimedOut \<notin> set es \<Longrightarrow>
   recv_exact n dl buf w es = old_recv_exact n buf es
   \<and> TimedOut \<notin> set (snd (old_recv_exact n buf es))
   \<and> (\<forall>d. fst (old_recv_exact n buf es) = Got d \<longrightarrow> n \<le> length d)"
proof (induction n dl buf w es rule: recv_exact.induct)
  case (1 n dl buf w es)
  show ?case
  proof (cases "length buf < n")
    case True
    obtain r es' where r: "sock_recv (n - length buf) es = (r, es')" by fastforce
    note np = sock_recv_no_pause [OF "1.prems" r]
    show ?thesis
    proof (cases r)
      case (R_data chunk)
      with "1.IH" (1) [OF True r [symmetric]] np r True show ?thesis
        by (simp add: recv_exact.simps [of n dl buf] old_recv_exact.simps [of n buf])
    qed (use np r True in \<open>simp_all add: recv_exact.simps [of n dl buf] old_recv_exact.simps [of n buf]\<close>)
  qed (use "1.prems" in \<open>simp add: recv_exact.simps [of n dl buf] old_recv_exact.simps [of n buf]\<close>)
qed

lemma send_agree:
  assumes "gw_agrees og g" and "old_send og c = (s, og', c')"
  shows "\<exists>g'. send_inputs Inr g c = (s, g', c') \<and> gw_agrees og' g' \<and> c_rx c' = c_rx c"
  using assms
  by (auto simp: old_send_def send_inputs_def frame_agree conn_send_def split: sum.splits prod.splits list.splits if_splits)

lemma iter_agree:
  assumes "gw_agrees og g" and "TimedOut \<notin> set (c_rx c)" and "old_tcp_iter o_size i_size og c = (s, og', c')"
  shows "\<exists>g'. tcp_iter o_size i_size now g c = (s, g', c') \<and> gw_agrees og' g' \<and> TimedOut \<notin> set (c_rx c')"
proof (cases "0 < o_size")
  case False
  show ?thesis
  proof (cases "0 < i_size")
    case True
    with False assms(3) have "old_send og c = (s, og', c')" by (simp add: old_tcp_iter_def)
    from send_agree [OF assms(1) this] obtain g' where
      "send_inputs Inr g c = (s, g', c')" "gw_agrees og' g'" "c_rx c' = c_rx c" by blast
    with True False assms(2) show ?thesis by (simp add: tcp_iter_def)
  qed (use False assms in \<open>simp add: old_tcp_iter_def tcp_iter_def\<close>)
next
  case True
  obtain r es where r: "old_recv_exact (nat o_size) [] (c_rx c) = (r, es)" by fastforce
  note ra = recv_agree [OF assms(2), of "nat o_size" 2 "[]" 0]
  have np: "TimedOut \<notin> set es" and new: "recv_exact (nat o_size) 2 [] 0 (c_rx c) = (r, es)"
    using ra r by simp_all
  show ?thesis
  proof (cases r)
    case (Got data)
    then have "data \<noteq> []" using ra r True by auto
    obtain e og1 where a: "old_apply data og = (e, og1)" by fastforce
    obtain g1 where b: "apply_outputs data (mon_rx now data g) = (e, g1)" "gw_agrees og1 g1"
      using apply_agree [of og "mon_rx now data g" data] assms(1) a by (cases "apply_outputs data (mon_rx now data g)") auto
    show ?thesis
    proof (cases e)
      case None
      show ?thesis
      proof (cases "0 < i_size")
        case i: True
        with assms(3) True r Got a None have "old_send og1 (c\<lparr>c_rx := es\<rparr>) = (s, og', c')"
          by (simp add: old_tcp_iter_def Let_def)
        from send_agree [OF b(2) this] obtain g' where
          "send_inputs Inr g1 (c\<lparr>c_rx := es\<rparr>) = (s, g', c')" "gw_agrees og' g'" "c_rx c' = es" by auto
        with i True Got b None new np \<open>data \<noteq> []\<close> show ?thesis by (simp add: tcp_iter_def Let_def)
      qed (use assms(3) True r Got a b None new np \<open>data \<noteq> []\<close> in \<open>auto simp: old_tcp_iter_def tcp_iter_def Let_def\<close>)
    qed (use assms(3) True r Got a b new np \<open>data \<noteq> []\<close> in \<open>auto simp: old_tcp_iter_def tcp_iter_def Let_def\<close>)
  qed (use assms(1,3) True r new np in \<open>auto simp: old_tcp_iter_def tcp_iter_def Let_def\<close>)
qed

lemma loop_agree:
  assumes "gw_agrees og g" and "TimedOut \<notin> set (c_rx c)" and "old_tcp_loop o_size i_size (length ts) og c = (s, og', c')"
  shows "\<exists>g'. tcp_loop o_size i_size ts g c = (s, g', c') \<and> gw_agrees og' g'"
  using assms
proof (induction ts arbitrary: og g c)
  case Nil
  then show ?case by simp
next
  case (Cons t ts)
  obtain s1 og1 c1 where o: "old_tcp_iter o_size i_size og c = (s1, og1, c1)" by (metis prod_cases3)
  obtain g1 where g1: "tcp_iter o_size i_size t g c = (s1, g1, c1)" "gw_agrees og1 g1" "TimedOut \<notin> set (c_rx c1)"
    using iter_agree [OF Cons.prems(1,2) o] by blast
  have run: "gw_running g = og_running og" using Cons.prems(1) by (simp add: gw_agrees_def)
  show ?case
  proof (cases "og_running og \<and> s1 = Go")
    case True
    with Cons.prems(3) o have "old_tcp_loop o_size i_size (length ts) og1 c1 = (s, og', c')" by simp
    from Cons.IH [OF g1(2,3) this] show ?thesis using True run g1 by simp
  next
    case False
    with Cons.prems o run g1 show ?thesis by (cases s1) auto
  qed
qed

definition swap16 :: "int \<Rightarrow> int" where
  "swap16 v = v mod 256 * 256 + v div 256"

lemma swap16_val16 [simp]: "swap16 (val16 a b) = val16 b a"
proof -
  have "0 \<le> uint b" "uint b < 256" using unsigned_less [where ?'a = int and w = b] by simp_all
  then show ?thesis by (simp add: swap16_def val16_def)
qed

lemma words_swapped:
  "gw_agrees og g \<Longrightarrow>
   get_outputs g i = old_get_outputs og i \<and> get_stw1_nsoll g i = map_prod swap16 swap16 (old_get_stw1_nsoll og i)"
  by (simp add: gw_agrees_def get_stw1_nsoll_def old_get_stw1_nsoll_def get_outputs_def old_get_outputs_def Let_def)
    (simp add: swap16_def)

section \<open>Properties\<close>

text \<open>C33: The present server in its flat request and response mode takes the place of the earlier one: on
  a connection that never pauses, any number of passes of the two end alike, with the same bytes sent,
  the same buffers and the same frame sizes, also on errors; the words that are read from the
  buffers have their bytes swapped; and a pause between two frames makes the earlier server drop the
  client, which the present one keeps.\<close>

theorem server_replaced:
  assumes "gw_agrees og g" and "TimedOut \<notin> set (c_rx c)"
  shows "(case old_tcp_loop (old_out_size og) (old_inp_size og) (length ts) og c of (s, og', c') \<Rightarrow>
      \<exists>g'. tcp_loop (out_frame_size g) (in_frame_size g) ts g c = (s, g', c') \<and> gw_agrees og' g'
        \<and> (\<forall>i. get_outputs g' i = old_get_outputs og' i
             \<and> get_stw1_nsoll g' i = map_prod swap16 swap16 (old_get_stw1_nsoll og' i)))
    \<and> (0 < old_out_size og \<longrightarrow>
         fst (old_tcp_iter (old_out_size og) (old_inp_size og) og (c\<lparr>c_rx := TimedOut # es\<rparr>)) = Break
         \<and> fst (tcp_iter (out_frame_size g) (in_frame_size g) t g (c\<lparr>c_rx := TimedOut # es\<rparr>)) = Go)"
proof (rule conjI)
  obtain s og' c' where o: "old_tcp_loop (old_out_size og) (old_inp_size og) (length ts) og c = (s, og', c')"
    by (metis prod_cases3)
  from loop_agree [OF assms this] show "case old_tcp_loop (old_out_size og) (old_inp_size og) (length ts) og c of (s, og', c') \<Rightarrow>
      \<exists>g'. tcp_loop (out_frame_size g) (in_frame_size g) ts g c = (s, g', c') \<and> gw_agrees og' g'
        \<and> (\<forall>i. get_outputs g' i = old_get_outputs og' i
             \<and> get_stw1_nsoll g' i = map_prod swap16 swap16 (old_get_stw1_nsoll og' i))"
    using words_swapped sizes_agree [OF assms(1)] by (auto simp: o)
  show "0 < old_out_size og \<longrightarrow>
         fst (old_tcp_iter (old_out_size og) (old_inp_size og) og (c\<lparr>c_rx := TimedOut # es\<rparr>)) = Break
         \<and> fst (tcp_iter (out_frame_size g) (in_frame_size g) t g (c\<lparr>c_rx := TimedOut # es\<rparr>)) = Go"
    using sizes_agree [OF assms(1)]
    by (simp add: old_tcp_iter_def tcp_iter_def old_recv_exact.simps [of _ "[]"] recv_exact.simps [of _ _ "[]"])
qed

definition demo_old_device :: old_device_config where
  "demo_old_device = \<lparr>od_gsdml_path = [], od_station_name = ''drive'', od_ip = ''10.0.0.7'', od_subnet = ''255.255.255.0'',
     od_gateway = ''10.0.0.1'', od_mac = ''00:1B:1B:00:00:07'', od_canvas_x = 0, od_canvas_y = 0, od_slot = 1, od_subslot = 1,
     od_module_ident = 1, od_submodule_ident = 1, od_module_name = [], od_submodule_name = [],
     od_input_length = 4, od_output_length = 4\<rparr>"

definition demo_old :: old_gateway where
  "demo_old = og_init\<lparr>og_devices := [demo_old_device], og_io := [\<lparr>io_out = zeros 4, io_inp = zeros 4\<rparr>], og_running := True\<rparr>"

definition demo_present :: gateway where
  "demo_present = gw_init\<lparr>gw_device_configs := [embed_dev demo_old_device],
     gw_io := [\<lparr>io_out = zeros 4, io_inp = zeros 4\<rparr>], gw_running := True\<rparr>"

definition old_conn :: conn where
  "old_conn = \<lparr>c_rx = [Data [0x7F, 4], Data [0, 0x20]], c_send_ok = [], c_sent = [], c_open = True\<rparr>"

lemma server_replaced_witness:
  "case old_tcp_loop 4 4 1 demo_old old_conn of (s, og', c') \<Rightarrow>
     \<exists>g'. tcp_loop 4 4 [0] demo_present old_conn = (s, g', c')
       \<and> get_stw1_nsoll g' 0 = map_prod swap16 swap16 (old_get_stw1_nsoll og' 0)"
proof -
  have agree: "gw_agrees demo_old demo_present" "TimedOut \<notin> set (c_rx old_conn)"
    and sizes: "old_out_size demo_old = 4" "old_inp_size demo_old = 4"
    by (simp_all add: gw_agrees_def demo_old_def demo_present_def old_conn_def og_init_def gw_init_def
        old_out_size_def old_inp_size_def demo_old_device_def)
  then show ?thesis
    using server_replaced [OF agree, of "[0]"] sizes_agree [OF agree(1)] by (fastforce split: prod.splits)
qed

end
