(* ===== verification/Old_Ctrl.thy ===== *)
theory Old_Ctrl
  imports Old_Gateway Pn_Ctrl "HOL-Library.Multiset"
begin

text \<open>
  The controller of the earlier gateway (\<open>profinet_gateway/profinet_ctrl.py\<close>), its bridge
  (\<open>bridge.py\<close>) and the start of the services (\<open>main.py\<close>).  The calls into the library in C
  are recorded in order, and a world gives what each returns, depending on all the calls up to it;
  every symbol of the library is taken to be there.  Log lines are left out.
\<close>

section \<open>Calls\<close>

record ar_config =
  ar_mac :: bytes
  ar_ip :: string
  ar_send_clock :: int
  ar_reduction :: int
  ar_watchdog :: int
  ar_api :: int
  ar_slot :: int
  ar_subslot :: int
  ar_module :: int
  ar_submodule :: int

datatype old_call =
    OInit string | OShutdown nat | ODisconnect nat
  | OSetName nat bytes string | OSetIp nat bytes string string string | OConnect nat ar_config
  | OSetpoint nat int int | OWrite nat bytes | OStatus nat | ORead nat nat | ODiscover nat int | OStats nat

text \<open>\<open>PN_Stats\<close>, the counters of the library.\<close>

record old_stats =
  ot_frames_sent :: int
  ot_frames_received :: int
  ot_missed_cycles :: int
  ot_watchdog_timeouts :: int
  ot_cycle_counter :: int
  ot_connected :: int
  ot_cyclic_running :: int

type_synonym old_hist = "old_call list"

record 'd old_world =
  wo_init :: "old_hist \<Rightarrow> int \<times> nat"
  wo_rc :: "old_hist \<Rightarrow> int"
  wo_status :: "old_hist \<Rightarrow> int \<times> int \<times> int"
  wo_read :: "old_hist \<Rightarrow> int \<times> bytes"
  wo_found :: "old_hist \<Rightarrow> 'd list"
  wo_stats :: "old_hist \<Rightarrow> int \<times> old_stats"

section \<open>State\<close>

record old_dev =
  ov_config :: old_device_config
  ov_handle :: nat
  ov_connected :: bool
  ov_zsw1 :: int
  ov_nist :: int
  ov_stw1 :: int
  ov_nsoll :: int
  ov_error :: string

record old_pn =
  op_ok :: bool
  op_devices :: "old_dev list"
  op_calls :: old_hist

definition old_new_dev :: "old_device_config \<Rightarrow> old_dev" where
  "old_new_dev dc = \<lparr>ov_config = dc, ov_handle = 0, ov_connected = False, ov_zsw1 = 0, ov_nist = 0,
     ov_stw1 = 0, ov_nsoll = 0, ov_error = []\<rparr>"

definition old_pn_init :: "bool \<Rightarrow> old_pn" where
  "old_pn_init ok = \<lparr>op_ok = ok, op_devices = [], op_calls = []\<rparr>"

definition ocall :: "old_call \<Rightarrow> old_pn \<Rightarrow> old_pn" where
  "ocall c op = op\<lparr>op_calls := op_calls op @ [c]\<rparr>"

definition oput :: "nat \<Rightarrow> old_dev \<Rightarrow> old_pn \<Rightarrow> old_pn" where
  "oput idx d op = op\<lparr>op_devices := (op_devices op)[idx := d]\<rparr>"

definition RC_NAMES :: "(int \<times> string) list" where
  "RC_NAMES = [(0, ''PN_OK''), (- 1, ''PN_ERR_INVALID_PARAM''), (- 2, ''PN_ERR_NOT_INITIALIZED''),
     (- 4, ''PN_ERR_NO_ADAPTER''), (- 5, ''PN_ERR_PCAP_OPEN''), (- 8, ''PN_ERR_DCP_TIMEOUT''),
     (- 9, ''PN_ERR_DCP_SET_FAIL''), (- 10, ''PN_ERR_RPC_CONNECT''), (- 15, ''PN_ERR_NOT_CONNECTED''),
     (- 99, ''PN_ERR_INTERNAL'')]"

definition rc_str :: "int \<Rightarrow> string" where
  "rc_str rc = (case map_of RC_NAMES rc of Some s \<Rightarrow> s | None \<Rightarrow> ''ERR('' @ dec_int rc @ '')'')"

section \<open>Adapters\<close>

text \<open>The live name of a stale one, by its GUID; the name itself where none has that GUID.\<close>

definition old_resolve_adapter :: "string list \<Rightarrow> string \<Rightarrow> string" where
  "old_resolve_adapter available adapter =
     (if adapter = [] \<or> adapter \<in> set available then adapter
      else
        (case guid_search adapter of
           None \<Rightarrow> adapter
         | Some m \<Rightarrow>
            (case find (\<lambda>name. map_option upper (guid_search name) = Some (upper m)) available of
               None \<Rightarrow> adapter | Some name \<Rightarrow> name)))"

lemma find_first_guid: "find (\<lambda>name. map_option upper (guid_search name) = Some g) available = first_guid g available"
  by (induction available) (auto split: option.split)

text \<open>Both versions heal a name alike.\<close>

lemma old_resolve_same: "old_resolve_adapter available a = fst (resolve_adapter available a)"
  by (auto simp: old_resolve_adapter_def resolve_adapter_def find_first_guid simp del: map_option_eq_Some split: option.split)

section \<open>Starting and stopping\<close>

definition old_stop_dev :: "old_dev \<Rightarrow> old_pn \<Rightarrow> old_pn" where
  "old_stop_dev d op =
     (if ov_handle d \<noteq> 0 then ocall (OShutdown (ov_handle d)) (ocall (ODisconnect (ov_handle d)) op) else op)"

definition old_pn_stop :: "old_pn \<Rightarrow> old_pn" where
  "old_pn_stop op = fold old_stop_dev (op_devices op) (op\<lparr>op_devices := []\<rparr>)"

definition old_init_dev :: "'d old_world \<Rightarrow> string \<Rightarrow> old_device_config \<Rightarrow> bool \<times> old_pn \<Rightarrow> bool \<times> old_pn" where
  "old_init_dev w adapter dc s =
     (case s of (ok, op) \<Rightarrow>
        (let op1 = ocall (OInit adapter) op; (rc, h) = wo_init w (op_calls op1); d = old_new_dev dc
         in if rc \<noteq> 0 then (False, op1\<lparr>op_devices := op_devices op1 @ [d\<lparr>ov_error := rc_str rc\<rparr>]\<rparr>)
            else (ok, op1\<lparr>op_devices := op_devices op1 @ [d\<lparr>ov_handle := h\<rparr>]\<rparr>)))"

definition old_pn_start :: "'d old_world \<Rightarrow> string list \<Rightarrow> string \<Rightarrow> old_device_config list \<Rightarrow> old_pn \<Rightarrow> bool \<times> old_pn" where
  "old_pn_start w available adapter dcs op =
     (if \<not> op_ok op then (False, op)
      else fold (old_init_dev w (old_resolve_adapter available adapter)) dcs (True, (old_pn_stop op)\<lparr>op_devices := []\<rparr>))"

section \<open>Connecting\<close>

definition str_to_mac :: "string \<Rightarrow> int list" where
  "str_to_mac mac =
     (let vs = map parse_hex (split_on (CHR '':'') mac)
      in if None \<in> set vs then replicate 6 0 else map the vs)"

text \<open>An array of six bytes from a list: too many elements raise, each is cut to a byte, missing ones are zero.\<close>

definition mac_array :: "int list \<Rightarrow> py_error + bytes" where
  "mac_array vs = (if length vs > 6 then Inl IndexError else Inr (ljust 6 (map word_of_int vs)))"

definition ar_of :: "bytes \<Rightarrow> old_device_config \<Rightarrow> py_error + ar_config" where
  "ar_of mac dc =
     (if length (od_ip dc) > 16 then Inl ValueError
      else Inr \<lparr>ar_mac = mac, ar_ip = od_ip dc, ar_send_clock = 128, ar_reduction = 1, ar_watchdog = 3, ar_api = 0,
                ar_slot = od_slot dc mod 65536, ar_subslot = od_subslot dc mod 65536,
                ar_module = od_module_ident dc mod 4294967296, ar_submodule = od_submodule_ident dc mod 4294967296\<rparr>)"

text \<open>Name and address over DCP; a failure is only logged.\<close>

definition old_dcp_set :: "nat \<Rightarrow> bytes \<Rightarrow> old_device_config \<Rightarrow> old_pn \<Rightarrow> old_pn" where
  "old_dcp_set h mac dc op =
     (let op1 = (if od_station_name dc \<noteq> [] \<and> od_mac dc \<noteq> [] then ocall (OSetName h mac (od_station_name dc)) op else op)
      in if od_ip dc \<noteq> [] \<and> od_mac dc \<noteq> []
         then ocall (OSetIp h mac (od_ip dc) (od_subnet dc) (od_gateway dc)) op1 else op1)"

definition old_configure_device :: "'d old_world \<Rightarrow> nat \<Rightarrow> old_pn \<Rightarrow> (py_error + bool) \<times> old_pn" where
  "old_configure_device w idx op =
     (if length (op_devices op) \<le> idx then (Inr False, op)
      else
        (let d = op_devices op ! idx; dc = ov_config d; h = ov_handle d in
         if h = 0 then (Inr False, op)
         else
           (case mac_array (str_to_mac (od_mac dc)) of
              Inl e \<Rightarrow> (Inl e, op)
            | Inr mac \<Rightarrow>
               (let op2 = old_dcp_set h mac dc op
                in case ar_of mac dc of
                     Inl e \<Rightarrow> (Inl e, op2)
                   | Inr ar \<Rightarrow>
                      (let op3 = ocall (OConnect h ar) op2; rc = wo_rc w (op_calls op3)
                       in if rc \<noteq> 0 then (Inr False, oput idx (d\<lparr>ov_error := rc_str rc, ov_connected := False\<rparr>) op3)
                          else (Inr True, oput idx (d\<lparr>ov_connected := True, ov_error := []\<rparr>) op3))))))"

section \<open>Scanning and IO\<close>

definition old_discover :: "'d old_world \<Rightarrow> string list \<Rightarrow> string \<Rightarrow> int \<Rightarrow> old_pn \<Rightarrow> 'd list \<times> old_pn" where
  "old_discover w available adapter timeout_ms op =
     (if \<not> op_ok op then ([], op)
      else
        (let op1 = ocall (OInit (old_resolve_adapter available adapter)) op; (rc, h) = wo_init w (op_calls op1)
         in if rc \<noteq> 0 \<or> h = 0 then ([], op1)
            else (let op2 = ocall (ODiscover h timeout_ms) op1 in (wo_found w (op_calls op2), ocall (OShutdown h) op2))))"

text \<open>A device that takes part in cyclic IO.\<close>

definition old_live :: "old_pn \<Rightarrow> nat \<Rightarrow> old_dev option" where
  "old_live op idx =
     (if idx < length (op_devices op) \<and> ov_handle (op_devices op ! idx) \<noteq> 0 \<and> ov_connected (op_devices op ! idx)
      then Some (op_devices op ! idx) else None)"

definition old_write_outputs :: "nat \<Rightarrow> int \<Rightarrow> int \<Rightarrow> old_pn \<Rightarrow> old_pn" where
  "old_write_outputs idx stw1 nsoll op =
     (case old_live op idx of
        None \<Rightarrow> op
      | Some d \<Rightarrow> ocall (OSetpoint (ov_handle d) (stw1 mod 65536) (nsoll mod 65536))
                    (oput idx (d\<lparr>ov_stw1 := stw1, ov_nsoll := nsoll\<rparr>) op))"

definition old_write_raw :: "nat \<Rightarrow> bytes \<Rightarrow> old_pn \<Rightarrow> old_pn" where
  "old_write_raw idx data op =
     (case old_live op idx of None \<Rightarrow> op | Some d \<Rightarrow> ocall (OWrite (ov_handle d) data) op)"

definition old_read_inputs :: "'d old_world \<Rightarrow> nat \<Rightarrow> old_pn \<Rightarrow> (int \<times> int) \<times> old_pn" where
  "old_read_inputs w idx op =
     (case old_live op idx of
        None \<Rightarrow> ((0, 0), op)
      | Some d \<Rightarrow>
         (let op1 = ocall (OStatus (ov_handle d)) op; (rc, z, n) = wo_status w (op_calls op1);
              d1 = (if rc = 0 then d\<lparr>ov_zsw1 := z mod 65536, ov_nist := n mod 65536\<rparr> else d)
          in ((ov_zsw1 d1, ov_nist d1), oput idx d1 op1)))"

definition old_read_raw :: "'d old_world \<Rightarrow> nat \<Rightarrow> nat \<Rightarrow> old_pn \<Rightarrow> bytes \<times> old_pn" where
  "old_read_raw w idx len op =
     (case old_live op idx of
        None \<Rightarrow> (zeros len, op)
      | Some d \<Rightarrow>
         (let op1 = ocall (ORead (ov_handle d) len) op; (rc, bs) = wo_read w (op_calls op1)
          in (if rc = 0 then take len (ljust len bs) else zeros len, op1)))"

definition old_is_connected :: "old_pn \<Rightarrow> nat \<Rightarrow> bool" where
  "old_is_connected op idx = (idx < length (op_devices op) \<and> ov_connected (op_devices op ! idx))"

definition old_get_stats :: "'d old_world \<Rightarrow> nat \<Rightarrow> old_pn \<Rightarrow> old_stats option \<times> old_pn" where
  "old_get_stats w idx op =
     (if length (op_devices op) \<le> idx \<or> ov_handle (op_devices op ! idx) = 0 then (None, op)
      else (let op1 = ocall (OStats (ov_handle (op_devices op ! idx))) op; (rc, st) = wo_stats w (op_calls op1)
            in (if rc = 0 then Some st else None, op1)))"

section \<open>The bridge\<close>

definition old_bridge_out :: "nat \<Rightarrow> old_device_config \<Rightarrow> old_gateway \<Rightarrow> old_pn \<Rightarrow> old_pn" where
  "old_bridge_out i dc g op =
     (let out = old_get_outputs g i in
      if od_output_length dc \<ge> 4 \<and> length out \<ge> 4
      then old_write_outputs i (val16 (out ! 1) (out ! 0)) (val16 (out ! 3) (out ! 2)) op
      else if od_output_length dc > 0 then old_write_raw i out op
      else op)"

definition old_bridge_in :: "'d old_world \<Rightarrow> nat \<Rightarrow> old_device_config \<Rightarrow> old_gateway \<Rightarrow> old_pn \<Rightarrow> py_error option \<times> old_gateway \<times> old_pn" where
  "old_bridge_in w i dc g op =
     (if od_input_length dc \<ge> 4 then
        (case old_read_inputs w i op of ((z, n), op1) \<Rightarrow>
           (case old_set_zsw1_nist i z n g of (e, g1) \<Rightarrow> (e, g1, op1)))
      else if od_input_length dc > 0 then
        (case old_read_raw w i (nat (od_input_length dc)) op of (bs, op1) \<Rightarrow> (None, old_set_inputs i bs g, op1))
      else (None, g, op))"

definition old_bridge_device :: "'d old_world \<Rightarrow> nat \<Rightarrow> old_gateway \<Rightarrow> old_pn \<Rightarrow> py_error option \<times> old_gateway \<times> old_pn" where
  "old_bridge_device w i g op =
     (if \<not> old_is_connected op i then (None, g, op)
      else (let dc = ov_config (op_devices op ! i) in old_bridge_in w i dc g (old_bridge_out i dc g op)))"

fun old_bridge_pass :: "'d old_world \<Rightarrow> nat list \<Rightarrow> old_gateway \<Rightarrow> old_pn \<Rightarrow> py_error option \<times> old_gateway \<times> old_pn" where
  "old_bridge_pass w [] g op = (None, g, op)"
| "old_bridge_pass w (i # is) g op =
     (case old_bridge_device w i g op of
        (None, g1, op1) \<Rightarrow> old_bridge_pass w is g1 op1
      | r \<Rightarrow> r)"

section \<open>Services\<close>

fun old_connect_all :: "'d old_world \<Rightarrow> nat list \<Rightarrow> old_pn \<Rightarrow> py_error option \<times> old_pn" where
  "old_connect_all w [] op = (None, op)"
| "old_connect_all w (i # is) op =
     (case old_configure_device w i op of
        (Inl e, op1) \<Rightarrow> (Some e, op1)
      | (Inr _, op1) \<Rightarrow> old_connect_all w is op1)"

text \<open>The devices are connected before the server and the bridge start; an exception ends the start.\<close>

definition old_start_services ::
  "'d old_world \<Rightarrow> string list \<Rightarrow> old_app_config \<Rightarrow> old_gateway \<Rightarrow> old_pn \<Rightarrow> py_error option \<times> old_gateway \<times> old_pn" where
  "old_start_services w available cfg g op =
     (case (if oa_devices cfg \<noteq> []
            then old_connect_all w [0 ..< length (oa_devices cfg)]
                   (snd (old_pn_start w available (oa_adapter cfg) (oa_devices cfg) op))
            else (None, op)) of
        (Some e, op1) \<Rightarrow> (Some e, g, op1)
      | (None, op1) \<Rightarrow>
         (case old_configure (ogc_protocol (oa_gateway cfg)) (ogc_port (oa_gateway cfg)) (ogc_bind (oa_gateway cfg))
                 (oa_devices cfg) g of
            (Some e, g1) \<Rightarrow> (Some e, g1, op1)
          | (None, g1) \<Rightarrow> (None, old_start g1, op1)))"

definition old_restart ::
  "'d old_world \<Rightarrow> string list \<Rightarrow> old_app_config \<Rightarrow> old_gateway \<Rightarrow> old_pn \<Rightarrow> py_error option \<times> old_gateway \<times> old_pn" where
  "old_restart w available cfg g op = old_start_services w available cfg (old_stop g) (old_pn_stop op)"

definition old_heal_config :: "string list \<Rightarrow> bool \<Rightarrow> old_app_config \<Rightarrow> files \<Rightarrow> old_app_config \<times> files" where
  "old_heal_config available save_ok cfg fs =
     (if oa_adapter cfg = [] then (cfg, fs)
      else
        (let healed = old_resolve_adapter available (oa_adapter cfg); cfg1 = cfg\<lparr>oa_adapter := healed\<rparr>
         in if healed \<noteq> oa_adapter cfg then (cfg1, if save_ok then old_save_config cfg1 fs else fs) else (cfg, fs)))"

section \<open>Handles\<close>

definition opens :: "'d old_world \<Rightarrow> old_hist \<Rightarrow> old_call \<Rightarrow> nat multiset" where
  "opens w pre c =
     (case c of
        OInit _ \<Rightarrow> (case wo_init w (pre @ [c]) of (rc, h) \<Rightarrow> if rc = 0 \<and> h \<noteq> 0 then {#h#} else {#})
      | _ \<Rightarrow> {#})"

fun opened_from :: "'d old_world \<Rightarrow> old_hist \<Rightarrow> old_hist \<Rightarrow> nat multiset" where
  "opened_from w pre [] = {#}"
| "opened_from w pre (c # cs) = opens w pre c + opened_from w (pre @ [c]) cs"

text \<open>The handles that the library gave out, and those that were given back.\<close>

definition opened :: "'d old_world \<Rightarrow> old_hist \<Rightarrow> nat multiset" where
  "opened w h = opened_from w [] h"

fun closes :: "old_call \<Rightarrow> nat multiset" where
  "closes (OShutdown h) = {#h#}" | "closes _ = {#}"

definition given_back :: "old_hist \<Rightarrow> nat multiset" where
  "given_back h = sum_list (map closes h)"

definition dev_handles :: "old_dev list \<Rightarrow> nat multiset" where
  "dev_handles ds = filter_mset (\<lambda>h. h \<noteq> 0) (mset (map ov_handle ds))"

definition balanced :: "'d old_world \<Rightarrow> old_pn \<Rightarrow> bool" where
  "balanced w op \<longleftrightarrow> opened w (op_calls op) = given_back (op_calls op) + dev_handles (op_devices op)"

lemma opened_from_snoc: "opened_from w pre (h @ [c]) = opened_from w pre h + opens w (pre @ h) c"
  by (induction h arbitrary: pre) (simp_all add: add.assoc)

lemma opened_snoc [simp]: "opened w (h @ [c]) = opened w h + opens w h c"
  by (simp add: opened_def opened_from_snoc)

lemma given_back_snoc [simp]: "given_back (h @ [c]) = given_back h + closes c"
  by (simp add: given_back_def)

lemma opened_Nil [simp]: "opened w [] = {#}" "given_back [] = {#}" "dev_handles [] = {#}"
  by (simp_all add: opened_def given_back_def dev_handles_def)

lemma ocall_simps [simp]:
  "op_calls (ocall c op) = op_calls op @ [c]" "op_devices (ocall c op) = op_devices op" "op_ok (ocall c op) = op_ok op"
  by (simp_all add: ocall_def)

lemma dev_handles_update:
  "idx < length ds \<Longrightarrow> ov_handle d = ov_handle (ds ! idx) \<Longrightarrow> dev_handles (ds[idx := d]) = dev_handles ds"
proof -
  assume *: "idx < length ds" "ov_handle d = ov_handle (ds ! idx)"
  then have "map ov_handle (ds[idx := d]) = map ov_handle ds"
    by (simp add: map_update list_update_same_conv)
  then show ?thesis unfolding dev_handles_def by metis
qed

lemma dev_handles_Cons: "dev_handles (d # ds) = dev_handles [d] + dev_handles ds"
  by (simp add: dev_handles_def)

lemma opened_pair: "opened w (h @ [a, b]) = opened w h + opens w h a + opens w (h @ [a]) b"
  using opened_snoc [of w "h @ [a]" b] by (simp add: add.assoc)

lemma given_back_pair: "given_back (h @ [a, b]) = given_back h + closes a + closes b"
  by (simp add: given_back_def add.assoc)

lemma stop_dev:
  "opened w (op_calls (old_stop_dev d op)) = opened w (op_calls op)
   \<and> given_back (op_calls (old_stop_dev d op)) = given_back (op_calls op) + dev_handles [d]
   \<and> op_devices (old_stop_dev d op) = op_devices op"
  by (simp add: old_stop_dev_def opened_pair given_back_pair opens_def dev_handles_def)

lemma stop_devs:
  "opened w (op_calls (fold old_stop_dev ds op)) = opened w (op_calls op)
   \<and> given_back (op_calls (fold old_stop_dev ds op)) = given_back (op_calls op) + dev_handles ds
   \<and> op_devices (fold old_stop_dev ds op) = op_devices op"
proof (induction ds arbitrary: op)
  case (Cons d ds)
  show ?case
    using Cons.IH [of "old_stop_dev d op"] stop_dev [of w d op] dev_handles_Cons [of d ds] by simp
qed simp

lemma balanced_stop: "balanced w op \<Longrightarrow> balanced w (old_pn_stop op) \<and> op_devices (old_pn_stop op) = []"
  using stop_devs [of w "op_devices op" "op\<lparr>op_devices := []\<rparr>"]
  by (auto simp: old_pn_stop_def balanced_def algebra_simps)

lemma balanced_init_dev: "balanced w op \<Longrightarrow> balanced w (snd (old_init_dev w a dc (ok, op)))"
  by (auto simp: old_init_dev_def balanced_def Let_def old_new_dev_def opens_def dev_handles_def algebra_simps split: prod.splits)

lemma balanced_init_devs: "balanced w (snd s) \<Longrightarrow> balanced w (snd (fold (old_init_dev w a) dcs s))"
proof (induction dcs arbitrary: s)
  case (Cons dc dcs)
  then show ?case using balanced_init_dev [of w "snd s" a dc "fst s"] by simp
qed simp

lemma balanced_start: "balanced w op \<Longrightarrow> balanced w (snd (old_pn_start w av a dcs op))"
  using balanced_stop [of w op] by (auto simp: old_pn_start_def balanced_def intro!: balanced_init_devs [unfolded balanced_def])

text \<open>A call that opens and closes nothing.\<close>

lemma balanced_ocall [simp]: "opens w (op_calls op) c = {#} \<Longrightarrow> closes c = {#} \<Longrightarrow> balanced w (ocall c op) = balanced w op"
  by (simp add: balanced_def)

lemma balanced_oput:
  "idx < length (op_devices op) \<Longrightarrow> ov_handle d = ov_handle (op_devices op ! idx) \<Longrightarrow> balanced w (oput idx d op) = balanced w op"
  by (simp add: balanced_def oput_def dev_handles_update)

lemma oput_calls [simp]: "op_calls (oput i d op) = op_calls op"
  by (simp add: oput_def)

lemma balanced_configure: "balanced w op \<Longrightarrow> balanced w (snd (old_configure_device w idx op))"
proof (cases "idx < length (op_devices op)")
  case True
  assume bal: "balanced w op"
  let ?d = "op_devices op ! idx"
  have set: "balanced w (old_dcp_set h mac dc op)" "op_devices (old_dcp_set h mac dc op) = op_devices op" for h mac dc
    using bal by (simp_all add: old_dcp_set_def opens_def Let_def)
  have conn: "balanced w (oput idx d (ocall (OConnect h ar) q))"
    if "balanced w q" "op_devices q = op_devices op" "ov_handle d = ov_handle ?d" for d h ar q
    using that True by (simp add: balanced_oput opens_def)
  show ?thesis
    using bal True by (auto simp: old_configure_device_def Let_def set intro!: conn split: sum.split)
qed (simp add: old_configure_device_def)

lemma opened_triple: "opened w (h @ [a, b, c]) = opened w h + opens w h a + opens w (h @ [a]) b + opens w (h @ [a, b]) c"
  using opened_snoc [of w "h @ [a, b]" c] by (simp add: opened_pair)

lemma given_back_triple: "given_back (h @ [a, b, c]) = given_back h + closes a + closes b + closes c"
  by (simp add: given_back_def add.assoc)

lemma balanced_discover: "balanced w op \<Longrightarrow> balanced w (snd (old_discover w av a ms op))"
  by (auto simp: old_discover_def balanced_def Let_def opens_def opened_triple given_back_triple split: prod.splits)

lemma old_live_Some: "old_live op idx = Some d \<Longrightarrow> idx < length (op_devices op) \<and> d = op_devices op ! idx"
  by (auto simp: old_live_def split: if_splits)

lemma balanced_write: "balanced w op \<Longrightarrow> balanced w (old_write_outputs idx a b op)"
  using old_live_Some [of op idx]
  by (auto simp: old_write_outputs_def balanced_oput opens_def split: option.split)

lemma balanced_write_raw: "balanced w op \<Longrightarrow> balanced w (old_write_raw idx bs op)"
  by (simp add: old_write_raw_def opens_def split: option.split)

lemma balanced_read: "balanced w op \<Longrightarrow> balanced w (snd (old_read_inputs w idx op))"
  using old_live_Some [of op idx]
  by (auto simp: old_read_inputs_def balanced_oput opens_def Let_def split: option.split prod.splits)

lemma balanced_read_raw: "balanced w op \<Longrightarrow> balanced w (snd (old_read_raw w idx n op))"
  by (simp add: old_read_raw_def opens_def Let_def split: option.split prod.splits)

lemma balanced_out: "balanced w op \<Longrightarrow> balanced w (old_bridge_out i dc g op)"
  by (simp add: old_bridge_out_def Let_def balanced_write balanced_write_raw)

lemma balanced_in: "balanced w op \<Longrightarrow> balanced w (snd (snd (old_bridge_in w i dc g op)))"
  using balanced_read [of w op i] balanced_read_raw [of w op i "nat (od_input_length dc)"]
  by (auto simp: old_bridge_in_def split: prod.splits)

lemma balanced_bridge: "balanced w op \<Longrightarrow> balanced w (snd (snd (old_bridge_pass w is g op)))"
proof (induction "is" arbitrary: g op)
  case (Cons i "is")
  have "balanced w (snd (snd (old_bridge_device w i g op)))"
    using Cons.prems by (simp add: old_bridge_device_def Let_def balanced_in balanced_out)
  with Cons.IH show ?case by (auto split: prod.splits option.splits)
qed simp

lemma balanced_connect_all: "balanced w op \<Longrightarrow> balanced w (snd (old_connect_all w is op))"
proof (induction "is" arbitrary: op)
  case (Cons i "is")
  have "balanced w (snd (old_configure_device w i op))" by (rule balanced_configure [OF Cons.prems])
  with Cons.IH show ?case by (cases "old_configure_device w i op"; cases "fst (old_configure_device w i op)") auto
qed simp

text \<open>Everything the earlier application does with its controller.\<close>

datatype old_op = OpStart "string list" old_app_config | OpRestart "string list" old_app_config
  | OpBridge "nat list" | OpDiscover "string list" string int | OpForce nat int int | OpStats nat | OpStop

fun old_step :: "'d old_world \<Rightarrow> old_op \<Rightarrow> old_gateway \<times> old_pn \<Rightarrow> old_gateway \<times> old_pn" where
  "old_step w (OpStart av cfg) (g, op) = snd (old_start_services w av cfg g op)"
| "old_step w (OpRestart av cfg) (g, op) = snd (old_restart w av cfg g op)"
| "old_step w (OpBridge is) (g, op) = snd (old_bridge_pass w is g op)"
| "old_step w (OpDiscover av a ms) (g, op) = (g, snd (old_discover w av a ms op))"
| "old_step w (OpForce i a b) (g, op) = (g, old_write_outputs i a b op)"
| "old_step w (OpStats i) (g, op) = (g, snd (old_get_stats w i op))"
| "old_step w OpStop (g, op) = (old_stop g, old_pn_stop op)"

lemma balanced_services: "balanced w op \<Longrightarrow> balanced w (snd (snd (old_start_services w av cfg g op)))"
proof -
  assume "balanced w op"
  then have "balanced w (snd (if oa_devices cfg \<noteq> [] then old_connect_all w [0 ..< length (oa_devices cfg)]
      (snd (old_pn_start w av (oa_adapter cfg) (oa_devices cfg) op)) else (None, op)))"
    by (simp add: balanced_connect_all balanced_start)
  then show ?thesis
    by (auto simp: old_start_services_def split: prod.splits option.splits)
qed

lemma balanced_stats: "balanced w op \<Longrightarrow> balanced w (snd (old_get_stats w i op))"
  by (simp add: old_get_stats_def opens_def Let_def split: prod.split)

lemma balanced_step: "balanced w (snd s) \<Longrightarrow> balanced w (snd (old_step w p s))"
  by (cases s; cases p) (auto simp: balanced_services old_restart_def balanced_stop balanced_bridge balanced_discover
      balanced_write balanced_stats)

section \<open>A small example\<close>

text \<open>One connected drive, and a library in which every call succeeds.\<close>

definition force_pn :: old_pn where
  "force_pn = \<lparr>op_ok = True, op_devices = [(old_new_dev demo_old_device)\<lparr>ov_handle := 7, ov_connected := True\<rparr>], op_calls = []\<rparr>"

definition quiet_world :: "nat old_world" where
  "quiet_world = \<lparr>wo_init = (\<lambda>_. (0, 7)), wo_rc = (\<lambda>_. 0), wo_status = (\<lambda>_. (0, 0x0637, 0)), wo_read = (\<lambda>_. (0, [])), wo_found = (\<lambda>_. []),
     wo_stats = (\<lambda>_. (0, \<lparr>ot_frames_sent = 0, ot_frames_received = 0, ot_missed_cycles = 0, ot_watchdog_timeouts = 0,
        ot_cycle_counter = 0, ot_connected = 1, ot_cyclic_running = 1\<rparr>))\<rparr>"

section \<open>Properties\<close>

text \<open>C34: The handles of the earlier controller: after any starts, restarts, scans, cyclic traffic,
  forced words, queries and stops, with any outcome of every call into the library, the handles that the
  library gave out are those given back plus those its devices hold, and stopping gives every handle back
  exactly once.\<close>

theorem old_handles:
  "case fold (old_step w) ops (g, old_pn_init ok) of (_, op) \<Rightarrow>
     opened w (op_calls op) = given_back (op_calls op) + dev_handles (op_devices op)
     \<and> opened w (op_calls (old_pn_stop op)) = given_back (op_calls (old_pn_stop op))"
proof -
  have run: "balanced w (snd (fold (old_step w) ops s))" if "balanced w (snd s)" for s
    using that by (induction ops arbitrary: s) (simp_all add: balanced_step)
  have "balanced w (snd (fold (old_step w) ops (g, old_pn_init ok)))"
    by (rule run) (simp add: balanced_def old_pn_init_def)
  then show ?thesis
    using balanced_stop by (fastforce simp: balanced_def split: prod.splits)
qed

end
