(* ===== verification/Adapters.thy ===== *)
theory Adapters
  imports System Old_Ctrl "HOL-Library.AList"
begin

text \<open>
  Network adapters outside the present controller: how the earlier gateway names them
  (\<open>profinet_gateway/profinet_ctrl.py\<close>) and how the simulator lists them and asks for one
  (\<open>simulator/vfd_sim.py\<close>).  The nodes that the capture library lists are an argument, with their
  decoded names and descriptions, empty for a null pointer.
\<close>

section \<open>The earlier gateway\<close>

text \<open>The first of the places of the library that exists, else the first one.\<close>

definition lib_places :: "bool \<Rightarrow> string \<Rightarrow> string list" where
  "lib_places windows base =
     (if windows then [base @ ''/dist/profinet.dll'', base @ ''/profinet.dll'', ''profinet.dll'']
      else [base @ ''/dist/libprofinet.so'', base @ ''/libprofinet.so'', ''./libprofinet.so''])"

definition find_lib :: "(string \<Rightarrow> bool) \<Rightarrow> (string \<Rightarrow> string) \<Rightarrow> bool \<Rightarrow> string \<Rightarrow> string" where
  "find_lib exists abspath windows base =
     (case find exists (lib_places windows base) of
        Some c \<Rightarrow> abspath c
      | None \<Rightarrow> (case lib_places windows base of c # _ \<Rightarrow> c | [] \<Rightarrow> []))"

text \<open>A dict of descriptions; \<open>None\<close> when the library is missing or the call fails.\<close>

definition pcap_descriptions :: "(string \<times> string) list option \<Rightarrow> (string \<times> string) list" where
  "pcap_descriptions nodes =
     (case nodes of
        None \<Rightarrow> []
      | Some ns \<Rightarrow> fold (\<lambda>(name, desc) m. if name \<noteq> [] then AList.update name desc m else m) ns [])"

fun desc_by_guid :: "string \<Rightarrow> (string \<times> string) list \<Rightarrow> string" where
  "desc_by_guid g [] = []"
| "desc_by_guid g ((k, v) # kvs) = (if map_option upper (guid_search k) = Some g then v else desc_by_guid g kvs)"

definition old_description :: "(string \<times> string) list \<Rightarrow> string \<Rightarrow> string" where
  "old_description descs n =
     (let d0 = (case map_of descs n of Some d \<Rightarrow> d | None \<Rightarrow> []);
          d1 = (if d0 = [] then (case guid_search n of Some m \<Rightarrow> desc_by_guid (upper m) descs | None \<Rightarrow> d0) else d0)
      in if contains ''loopback'' (lower n) \<and> d1 = [] then ''Npcap Loopback Adapter''
         else if d1 \<noteq> [] then d1 else ''(no description)'')"

definition old_adapters_verbose :: "string list \<Rightarrow> (string \<times> string) list option \<Rightarrow> (string \<times> string) list" where
  "old_adapters_verbose names nodes = map (\<lambda>n. (n, old_description (pcap_descriptions nodes) n)) names"

text \<open>Names come from the library as arrays of bytes, with the zeros behind them stripped.\<close>

definition old_adapter_name :: "bytes \<Rightarrow> bytes" where
  "old_adapter_name raw = rev (dropWhile (\<lambda>b. b = 0) (rev raw))"

section \<open>The simulator\<close>

definition sim_adapters :: "(string \<times> string) list option \<Rightarrow> (string \<times> string) list" where
  "sim_adapters nodes =
     (case nodes of
        None \<Rightarrow> []
      | Some ns \<Rightarrow>
          concat (map (\<lambda>(name, desc).
            let desc' = (if desc = [] \<and> contains ''loopback'' (lower name) then ''Npcap Loopback Adapter'' else desc)
            in if name \<noteq> [] then [(name, if desc' \<noteq> [] then desc' else ''(no description)'')] else []) ns))"

fun first_loopback :: "nat \<Rightarrow> (string \<times> string) list \<Rightarrow> nat" where
  "first_loopback i [] = 0"
| "first_loopback i ((name, _) # as) = (if contains ''loopback'' (lower name) then i else first_loopback (Suc i) as)"

datatype pick = Exit | Picked string | PickError py_error

text \<open>What is typed in answer selects one; a negative number counts from the end.\<close>

definition pick_adapter :: "(string \<times> string) list \<Rightarrow> string \<Rightarrow> pick" where
  "pick_adapter adapters answer =
     (if adapters = [] then Exit
      else
        (let sel = strip answer; n = int (length adapters) in
         case (if sel \<noteq> [] then parse_dec sel else Some (int (first_loopback 0 adapters))) of
           None \<Rightarrow> PickError ValueError
         | Some i \<Rightarrow>
            let j = (if i < 0 then i + n else i)
            in if 0 \<le> j \<and> j < n then Picked (fst (adapters ! nat j)) else PickError IndexError))"

lemma sim_adapters_win: "sim_adapters nodes = win_adapters nodes"
  by (auto simp: sim_adapters_def win_adapters_def Let_def split: option.split intro!: arg_cong [where f = concat] map_cong)

lemma desc_by_guid_cases:
  "(\<exists>k. (k, desc_by_guid g kvs) \<in> set kvs \<and> map_option upper (guid_search k) = Some g) \<or>
   (desc_by_guid g kvs = [] \<and> (\<forall>(k, _) \<in> set kvs. map_option upper (guid_search k) \<noteq> Some g))"
proof (induction kvs)
  case (Cons kv kvs)
  then show ?case
    by (cases kv; cases "map_option upper (guid_search (fst kv)) = Some g")
      (auto simp del: map_option_eq_Some)
qed simp

lemma first_loopback_less: "adapters \<noteq> [] \<Longrightarrow> i \<le> n \<Longrightarrow> first_loopback i adapters < length adapters + n"
proof (induction adapters arbitrary: i n)
  case (Cons a as)
  then show ?case
    by (cases a; cases "as = []") (auto dest: Cons.IH [of "Suc i" "Suc n"])
qed simp

text \<open>Every adapter is listed once under its own name and with some description, which is that of
  its name, or of an adapter with the same GUID, or a fixed text.\<close>

theorem old_adapters_described:
  "map fst (old_adapters_verbose names nodes) = names
   \<and> list_all (\<lambda>(n, d). d \<noteq> [] \<and> (d \<in> {''Npcap Loopback Adapter'', ''(no description)''} \<or> (\<exists>k. (k, d) \<in> set (pcap_descriptions nodes)
        \<and> (k = n \<or> map_option upper (guid_search k) = map_option upper (guid_search n)))))
      (old_adapters_verbose names nodes)"
proof -
  let ?m = "pcap_descriptions nodes"
  have "old_description ?m n \<noteq> [] \<and> (old_description ?m n \<in> {''Npcap Loopback Adapter'', ''(no description)''}
      \<or> (\<exists>k. (k, old_description ?m n) \<in> set ?m \<and> (k = n \<or> map_option upper (guid_search k) = map_option upper (guid_search n))))" for n
  proof (cases "map_of ?m n = None \<or> map_of ?m n = Some []")
    case True
    show ?thesis
    proof (cases "guid_search n")
      case (Some g)
      with True desc_by_guid_cases [of "upper g" ?m] show ?thesis
        by (auto simp: old_description_def Let_def)
    qed (use True in \<open>auto simp: old_description_def Let_def\<close>)
  next
    case False
    then obtain y where y: "map_of ?m n = Some y" "y \<noteq> []" by auto
    with map_of_SomeD [OF y(1)] show ?thesis by (auto simp: old_description_def Let_def)
  qed
  then show ?thesis by (simp add: old_adapters_verbose_def list_all_iff comp_def)
qed

text \<open>An empty answer picks the first loopback adapter, or the first one; a number picks its
  adapter; any other answer ends the simulator with an error.\<close>

theorem adapter_picked:
  "case pick_adapter adapters answer of
     Exit \<Rightarrow> adapters = []
   | Picked name \<Rightarrow> name \<in> fst ` set adapters
   | PickError e \<Rightarrow> strip answer \<noteq> []
       \<and> (case parse_dec (strip answer) of None \<Rightarrow> e = ValueError
          | Some i \<Rightarrow> e = IndexError \<and> \<not> (- int (length adapters) \<le> i \<and> i < int (length adapters)))"
  using first_loopback_less [of adapters 0 0]
  by (auto simp: pick_adapter_def Let_def split: option.split if_splits)

section \<open>Healing a stale name\<close>

lemma resolve_available: "x \<in> set available \<Longrightarrow> fst (resolve_adapter available x) = x"
  by (simp add: resolve_adapter_def)

lemma resolve_cases: "fst (resolve_adapter available a) = a \<or> fst (resolve_adapter available a) \<in> set available"
  by (auto simp: resolve_adapter_def dest!: first_guid_in split: option.split)

lemma resolve_idem: "fst (resolve_adapter available (fst (resolve_adapter available a))) = fst (resolve_adapter available a)"
  using resolve_cases [of available a] resolve_available by auto

text \<open>Healing happens once: with the healed configuration, as saved, nothing is changed or saved again;
  only the adapter name is touched; and the name is one of those available whenever one of them has
  its GUID.\<close>

theorem adapter_healed:
  "case heal_config available True cfg fs of (cfg1, fs1) \<Rightarrow>
     cfg1 = cfg\<lparr>ac_adapter := ac_adapter cfg1\<rparr>
     \<and> (if ac_adapter cfg1 = ac_adapter cfg then fs1 = fs else load_config fs1 = Ok cfg1)
     \<and> heal_config available ok cfg1 fs1 = (cfg1, fs1)
     \<and> (case guid_search (ac_adapter cfg) of None \<Rightarrow> True
        | Some g \<Rightarrow> if upper g \<in> {upper h |h. \<exists>n \<in> set available. guid_search n = Some h}
                     then ac_adapter cfg1 \<in> set available else True)"
proof -
  let ?h = "fst (resolve_adapter available (ac_adapter cfg))"
  have found: "?h \<in> set available"
    if "guid_search (ac_adapter cfg) = Some g" "n \<in> set available" "guid_search n = Some h" "upper g = upper h" for g n h
  proof (cases "ac_adapter cfg \<in> set available \<or> ac_adapter cfg = []")
    case False
    have "first_guid (upper g) available \<noteq> None" using that by (auto simp: first_guid_None)
    then obtain m where m: "first_guid (upper g) available = Some m" by auto
    with first_guid_in [OF m] False that(1) show ?thesis by (simp add: resolve_adapter_def)
  qed (use that in \<open>auto simp: resolve_adapter_def\<close>)
  have saved: "load_config (save_config c fs) = Ok c" for c
    by (simp add: save_config_def save_ops_def load_config_def)
  have idem: "fst (resolve_adapter available ?h) = ?h" by (rule resolve_idem)
  show ?thesis
  proof (cases "ac_adapter cfg = []")
    case True
    then show ?thesis using found by (auto simp: heal_config_def split: option.split)
  next
    case False
    with idem saved show ?thesis
      using found by (auto simp: heal_config_def Let_def split: option.split)
  qed
qed

end
