(* ===== verification/Old_Gsdml.thy ===== *)
theory Old_Gsdml
  imports Config Gsdml "HOL-Library.AList"
begin

text \<open>
  The GSDML reader of the earlier gateway (\<open>profinet_gateway/gsdml.py\<close>) over the element tree of
  \<open>Gsdml\<close>: paths that are tried under several namespaces, the submodules by number, the modules
  with the submodules they may use, and the picture.
\<close>

section \<open>Paths\<close>

definition GSDML_NS :: "string \<Rightarrow> string" where
  "GSDML_NS v = ''{http://www.profibus.com/GSDML/DeviceProfile/'' @ v @ ''/GSDML-DeviceProfile}''"

definition NS_PREFIXES :: "string list" where
  "NS_PREFIXES = [GSDML_NS ''2.4'', GSDML_NS ''2.3'', GSDML_NS ''2.2'', GSDML_NS ''2.1'', []]"

text \<open>\<open>elem.findall(path)\<close> for a path that is given by its steps: children of children, in document
  order.  A prefix in front of the path belongs to its first step only.\<close>

fun path_all :: "string list \<Rightarrow> xml \<Rightarrow> xml list" where
  "path_all [] el = [el]"
| "path_all (s # ss) el = concat (map (path_all ss) (filter (\<lambda>c. el_tag c = s) (el_children el)))"

fun with_ns :: "string \<Rightarrow> string list \<Rightarrow> string list" where
  "with_ns ns [] = []"
| "with_ns ns (s # ss) = (ns @ s) # ss"

fun find_ns :: "string list \<Rightarrow> string list \<Rightarrow> xml \<Rightarrow> xml option" where
  "find_ns [] path el = None"
| "find_ns (ns # nss) path el =
     (case path_all (with_ns ns path) el of [] \<Rightarrow> find_ns nss path el | x # _ \<Rightarrow> Some x)"

definition old_find :: "xml \<Rightarrow> string list \<Rightarrow> xml option" where
  "old_find el path = find_ns NS_PREFIXES path el"

fun findall_ns :: "string list \<Rightarrow> string list \<Rightarrow> xml \<Rightarrow> xml list" where
  "findall_ns [] path el = []"
| "findall_ns (ns # nss) path el =
     (case path_all (with_ns ns path) el of [] \<Rightarrow> findall_ns nss path el | xs \<Rightarrow> xs)"

definition old_findall :: "xml \<Rightarrow> string list \<Rightarrow> xml list" where
  "old_findall el path = findall_ns NS_PREFIXES path el"

text \<open>A path that is tried from two places.\<close>

definition find_either :: "xml \<Rightarrow> string list \<Rightarrow> string list \<Rightarrow> xml option" where
  "find_either el p q = (case old_find el p of Some x \<Rightarrow> Some x | None \<Rightarrow> old_find el q)"

fun first_attr :: "xml \<Rightarrow> string list \<Rightarrow> string \<Rightarrow> string" where
  "first_attr el [] d = d"
| "first_attr el (k # ks) d = (case attr el k of Some v \<Rightarrow> v | None \<Rightarrow> first_attr el ks d)"

section \<open>Numbers\<close>

definition old_int :: "string \<Rightarrow> int" where
  "old_int s =
     (case (if starts_with s ''0x'' then parse_hex s else parse_dec s) of Some v \<Rightarrow> v | None \<Rightarrow> 0)"

text \<open>\<open>f''{n:#x}''\<close>.\<close>

definition hex_alt :: "int \<Rightarrow> string" where
  "hex_alt n = (if n < 0 then ''-0x'' @ lower (hex_digits (nat (- n))) else ''0x'' @ lower (hex_digits (nat n)))"

section \<open>Submodules and modules\<close>

record old_sub =
  os_ident :: int
  os_name :: string
  os_input_length :: int
  os_output_length :: int

record old_mod =
  om_ident :: int
  om_name :: string
  om_submodules :: "old_sub list"

record old_gsdml =
  ol_path :: string
  ol_vendor_name :: string
  ol_device_name :: string
  ol_vendor_id :: int
  ol_device_id :: int
  ol_modules :: "old_mod list"
  ol_bitmap :: "bytes option"

definition old_display_name :: "old_gsdml \<Rightarrow> string" where
  "old_display_name dev = ol_device_name dev @ '' ('' @ basename (ol_path dev) @ '')''"

definition old_get_module :: "old_gsdml \<Rightarrow> int \<Rightarrow> old_mod option" where
  "old_get_module dev ident = find (\<lambda>m. om_ident m = ident) (ol_modules dev)"

definition old_get_submodule :: "old_gsdml \<Rightarrow> int \<Rightarrow> int \<Rightarrow> old_sub option" where
  "old_get_submodule dev mod_ident sub_ident =
     (case old_get_module dev mod_ident of
        None \<Rightarrow> None
      | Some m \<Rightarrow> find (\<lambda>s. os_ident s = sub_ident) (om_submodules m))"

text \<open>The length of one direction: a number that cannot be read raises.\<close>

definition old_length :: "xml option \<Rightarrow> string \<Rightarrow> py_error + int" where
  "old_length io dir =
     (case (case io of None \<Rightarrow> None | Some d \<Rightarrow> old_find d [dir]) of
        None \<Rightarrow> Inr 0
      | Some x \<Rightarrow> (case parse_dec (first_attr x [''Length''] ''0'') of Some n \<Rightarrow> Inr n | None \<Rightarrow> Inl ValueError))"

definition old_sub_of :: "xml \<Rightarrow> py_error + old_sub" where
  "old_sub_of smi =
     (let ident = old_int (first_attr smi [''ID'', ''SubmoduleIdentNumber''] ''0'');
          io = old_find smi [''IOData'']
      in bindE (old_length io ''Input'') (\<lambda>n.
         bindE (old_length io ''Output'') (\<lambda>m.
         Inr \<lparr>os_ident = ident, os_name = first_attr smi [''SubmoduleName'', ''Name''] (''Submodule_'' @ hex_alt ident),
              os_input_length = n, os_output_length = m\<rparr>)))"

text \<open>A dict by number keeps the place of a key that comes again, with the later value.\<close>

type_synonym sub_map = "(int \<times> old_sub) list"

fun old_sub_map :: "sub_map \<Rightarrow> xml list \<Rightarrow> py_error + sub_map" where
  "old_sub_map sm [] = Inr sm"
| "old_sub_map sm (smi # smis) =
     bindE (old_sub_of smi) (\<lambda>s. old_sub_map (AList.update (os_ident s) s sm) smis)"

definition ref_of :: "xml \<Rightarrow> int" where
  "ref_of sr = old_int (first_attr sr [''SubmoduleItemTarget'', ''ID''] ''0'')"

definition refs_of :: "xml \<Rightarrow> int list" where
  "refs_of mi =
     (case old_find mi [''UseableSubmodules''] of
        None \<Rightarrow> [] | Some u \<Rightarrow> map ref_of (old_findall u [''SubmoduleItemRef'']))"

definition old_module_of :: "sub_map \<Rightarrow> xml \<Rightarrow> old_mod" where
  "old_module_of sm mi =
     (let ident = old_int (first_attr mi [''ID'', ''ModuleIdentNumber''] ''0'');
          subs = List.map_filter (map_of sm) (refs_of mi)
      in \<lparr>om_ident = ident, om_name = first_attr mi [''ModuleName'', ''Name''] (''Module_'' @ hex_alt ident),
          om_submodules = (if subs = [] \<and> sm \<noteq> [] then map snd sm else subs)\<rparr>)"

definition old_default_sub :: old_sub where
  "old_default_sub = \<lparr>os_ident = 1, os_name = ''Telegram 1 (4B in/out)'', os_input_length = 4, os_output_length = 4\<rparr>"

definition old_default_module :: "sub_map \<Rightarrow> old_mod" where
  "old_default_module sm =
     \<lparr>om_ident = 1, om_name = ''Default Module'', om_submodules = (if sm \<noteq> [] then map snd sm else [old_default_sub])\<rparr>"

definition old_modules :: "sub_map \<Rightarrow> xml option \<Rightarrow> old_mod list" where
  "old_modules sm ml =
     (let ms = (case ml of None \<Rightarrow> [] | Some l \<Rightarrow> map (old_module_of sm) (old_findall l [''ModuleItem'']))
      in if ms = [] then [old_default_module sm] else ms)"

section \<open>The file\<close>

fun old_bitmap :: "xml list \<Rightarrow> bytes option" where
  "old_bitmap [] = None"
| "old_bitmap (gi # gis) =
     (case old_find gi [''GraphicData''] of
        None \<Rightarrow> old_bitmap gis
      | Some d \<Rightarrow>
         (case el_text d of
            None \<Rightarrow> old_bitmap gis
          | Some t \<Rightarrow> if t = [] then old_bitmap gis
                      else (case b64decode (strip t) of Inr bs \<Rightarrow> Some bs | Inl _ \<Rightarrow> old_bitmap gis)))"

definition in_process :: "xml \<Rightarrow> string \<Rightarrow> xml option" where
  "in_process doc tag = find_either doc [''ProfileBody'', ''ApplicationProcess'', tag] [''ApplicationProcess'', tag]"

definition old_device_name_of :: "string \<Rightarrow> xml \<Rightarrow> string" where
  "old_device_name_of path doc =
     (let nm = (case old_find doc [''Device'', ''DeviceAccessPointList'', ''DeviceAccessPointItem''] of
                  None \<Rightarrow> []
                | Some d \<Rightarrow> first_attr d [''DNS_CompatibleName'', ''SubnetMask''] [])
      in if nm = [] then split_ext (basename path) else nm)"

definition old_parse :: "string \<Rightarrow> xml \<Rightarrow> py_error + old_gsdml" where
  "old_parse path doc =
     (let dev = find_either doc [''Device'', ''DeviceIdentity''] [''DeviceIdentity''];
          num = (\<lambda>ks. case dev of None \<Rightarrow> 0 | Some d \<Rightarrow> old_int (first_attr d ks ''0x0000''))
      in bindE (case in_process doc ''SubmoduleList'' of
                  None \<Rightarrow> Inr [] | Some sml \<Rightarrow> old_sub_map [] (old_findall sml [''SubmoduleItem''])) (\<lambda>sm.
         Inr \<lparr>ol_path = path,
              ol_vendor_name = (case dev of None \<Rightarrow> [] | Some d \<Rightarrow> first_attr d [''VendorName''] []),
              ol_device_name = old_device_name_of path doc,
              ol_vendor_id = num [''VendorID'', ''Vendor_ID''], ol_device_id = num [''DeviceID'', ''Device_ID''],
              ol_modules = old_modules sm (in_process doc ''ModuleList''),
              ol_bitmap = (case in_process doc ''GraphicsList'' of None \<Rightarrow> None | Some gl \<Rightarrow> old_bitmap (el_children gl))\<rparr>))"

text \<open>The whole reader: a file that is not there or is no XML raises.\<close>

definition old_parse_gsdml :: "(string \<Rightarrow> py_error + xml) \<Rightarrow> string \<Rightarrow> py_error + old_gsdml" where
  "old_parse_gsdml read_xml path = bindE (read_xml path) (old_parse path)"

section \<open>Paths through namespaces\<close>

text \<open>The elements below an element, itself left out.\<close>

definition below :: "xml \<Rightarrow> xml set" where
  "below el = set (concat (map iter_all (el_children el)))"

lemma iter_all_self: "el \<in> set (iter_all el)"
  by (cases el) simp

lemma child_below: "c \<in> set (el_children el) \<Longrightarrow> c \<in> below el"
  using iter_all_self by (auto simp: below_def)

lemma below_iter: "below el \<subseteq> set (iter_all el)"
  by (cases el) (auto simp: below_def)

lemma below_child: "c \<in> set (el_children el) \<Longrightarrow> below c \<subseteq> below el"
  using below_iter [of c] by (fastforce simp: below_def [of el])

text \<open>The second step of a path never carries a namespace, so it finds nothing where every tag does.\<close>

lemma path_all_namespaced:
  assumes "\<forall>c\<in>below el. starts_with (el_tag c) ''{''" and "\<not> starts_with t ''{''"
  shows "path_all (s # t # ss) el = []"
proof -
  have "filter (\<lambda>d. el_tag d = t) (el_children c) = []" if "c \<in> set (el_children el)" for c
    using assms that below_child child_below by (fastforce simp: filter_empty_conv)
  then show ?thesis by simp
qed

lemma find_ns_None: "(\<And>ns. path_all (with_ns ns path) el = []) \<Longrightarrow> find_ns nss path el = None"
  by (induction nss) simp_all

lemma old_find_namespaced:
  "\<forall>c\<in>below el. starts_with (el_tag c) ''{'' \<Longrightarrow> \<not> starts_with t ''{'' \<Longrightarrow> old_find el (s # t # ss) = None"
  unfolding old_find_def with_ns.simps
  by (rule find_ns_None) (unfold with_ns.simps, rule path_all_namespaced)

section \<open>The submodules by number\<close>

lemma map_of_update_AL: "map_of (AList.update k v al) r = (if r = k then Some v else map_of al r)"
  by (simp add: update_conv')

lemma old_sub_map_err:
  "old_sub_map sm smis =
     (case map_err old_sub_of smis of Inl e \<Rightarrow> Inl e
      | Inr ss \<Rightarrow> Inr (foldl (\<lambda>m s. AList.update (os_ident s) s m) sm ss))"
  by (induction smis arbitrary: sm) (auto simp: bindE_def split: sum.splits)

lemma map_of_fold_update:
  "map_of (foldl (\<lambda>m s. AList.update (os_ident s) s m) sm ss) r =
     (case find (\<lambda>s. os_ident s = r) (rev ss) of Some s \<Rightarrow> Some s | None \<Rightarrow> map_of sm r)"
  by (induction ss rule: rev_induct) (simp_all add: map_of_update_AL)

lemma fold_update_nonempty:
  "foldl (\<lambda>m s. AList.update (os_ident s) s m) sm ss = [] \<longleftrightarrow> sm = [] \<and> ss = []"
proof (induction ss rule: rev_induct)
  case (snoc s ss)
  then show ?case by (cases "foldl (\<lambda>m s. AList.update (os_ident s) s m) sm ss") auto
qed simp

lemma old_length_error: "old_length io d = Inl e \<Longrightarrow> e = ValueError"
  by (auto simp: old_length_def split: option.splits)

lemma map_err_sub_error: "map_err old_sub_of smis = Inl e \<Longrightarrow> e = ValueError"
proof (induction smis)
  case (Cons x xs)
  then show ?case
    by (auto simp: old_sub_of_def bindE_def Let_def dest: old_length_error split: sum.splits)
qed simp

section \<open>Properties\<close>

text \<open>C39: A description file with namespaces, as the standard has them, is not read by the earlier
  gateway: when every tag below the top carries a namespace, the file is accepted with the default
  module and its telegram of four bytes each way, without a picture, and named after the file; and
  with numbers and vendor left empty, unless the identity stands right below the top.\<close>

theorem old_gsdml_namespaced:
  assumes "\<forall>c\<in>set (concat (map iter_all (el_children doc))). starts_with (el_tag c) ''{''"
  shows "\<exists>dev. old_parse path doc = Inr dev
     \<and> ol_modules dev = [\<lparr>om_ident = 1, om_name = ''Default Module'', om_submodules = [old_default_sub]\<rparr>]
     \<and> ol_bitmap dev = None \<and> ol_device_name dev = split_ext (basename path)
     \<and> (old_find doc [''DeviceIdentity''] = None \<longrightarrow>
          ol_vendor_id dev = 0 \<and> ol_device_id dev = 0 \<and> ol_vendor_name dev = [])"
proof -
  have none: "\<And>s t ss. \<not> starts_with t ''{'' \<Longrightarrow> old_find doc (s # t # ss) = None"
    using assms by (intro old_find_namespaced) (simp_all add: below_def)
  have proc: "in_process doc ''SubmoduleList'' = None" "in_process doc ''ModuleList'' = None"
    "in_process doc ''GraphicsList'' = None"
    by (simp_all add: in_process_def find_either_def none)
  show ?thesis
    by (simp add: old_parse_def proc none find_either_def old_device_name_of_def old_modules_def
        old_default_module_def Let_def)
qed

definition ns_doc :: xml where
  "ns_doc = Element ''{http://www.profibus.com/GSDML/2003/11/DeviceProfile}ISO15745Profile'' [] None
     [Element ''{http://www.profibus.com/GSDML/2003/11/DeviceProfile}ProfileBody'' [] None
       [Element ''{http://www.profibus.com/GSDML/2003/11/DeviceProfile}ApplicationProcess'' [] None []]]"

lemma old_gsdml_namespaced_witness:
  "\<exists>dev. old_parse ''/gsd/drive.xml'' ns_doc = Inr dev \<and> ol_device_name dev = ''drive''
     \<and> map om_submodules (ol_modules dev) = [[old_default_sub]]"
proof -
  have "\<forall>c\<in>set (concat (map iter_all (el_children ns_doc))). starts_with (el_tag c) ''{''"
    by (simp add: ns_doc_def)
  from old_gsdml_namespaced [OF this, of "''/gsd/drive.xml''"] show ?thesis
    by (fastforce simp: split_ext_def basename_def)
qed

text \<open>What the earlier gateway reads from a file without namespaces: it raises exactly when the length
  of some submodule is no number; otherwise it has one module for each item of the module list, in
  order, each with the submodules its references name, in their order, where of two submodules with
  the same number the later one counts; and a module that names none may use them all.\<close>

theorem old_gsdml_modules:
  assumes "in_process doc ''SubmoduleList'' = Some sml" and "in_process doc ''ModuleList'' = Some ml"
    and "old_findall ml [''ModuleItem''] = mis" and "mis \<noteq> []"
  shows "(case map_err old_sub_of (old_findall sml [''SubmoduleItem'']) of
       Inl e \<Rightarrow> old_parse path doc = Inl ValueError
     | Inr ss \<Rightarrow>
        (case old_parse path doc of Inl _ \<Rightarrow> False
         | Inr dev \<Rightarrow>
            length (ol_modules dev) = length mis
            \<and> (\<forall>i<length mis.
                 case List.map_filter (\<lambda>r. find (\<lambda>s. os_ident s = r) (rev ss)) (refs_of (mis ! i)) of
                   [] \<Rightarrow> set (om_submodules (ol_modules dev ! i)) = {s. find (\<lambda>t. os_ident t = os_ident s) (rev ss) = Some s}
                 | named \<Rightarrow> om_submodules (ol_modules dev ! i) = named)))"
proof (cases "map_err old_sub_of (old_findall sml [''SubmoduleItem''])")
  case (Inl e)
  with map_err_sub_error [OF Inl] show ?thesis
    by (simp add: old_parse_def assms(1) old_sub_map_err Let_def)
next
  case (Inr ss)
  let ?sm = "foldl (\<lambda>m s. AList.update (os_ident s) s m) [] ss"
  have lookup: "map_of ?sm = (\<lambda>r. find (\<lambda>s. os_ident s = r) (rev ss))"
    by (rule ext) (simp add: map_of_fold_update split: option.split)
  have dist: "distinct (map fst (foldl (\<lambda>m s. AList.update (os_ident s) s m) [] ts))" for ts :: "old_sub list"
    by (induction ts rule: rev_induct) (simp_all add: distinct_update)
  have "set (map snd ?sm) = ran (map_of ?sm)"
    using dist [of ss] by (simp add: ran_distinct)
  also have "\<dots> = {s. find (\<lambda>t. os_ident t = os_ident s) (rev ss) = Some s}"
    by (auto simp: lookup ran_def find_Some_iff)
  finally have all: "set (map snd ?sm) = {s. find (\<lambda>t. os_ident t = os_ident s) (rev ss) = Some s}" .
  have "old_modules ?sm (in_process doc ''ModuleList'') = map (old_module_of ?sm) mis"
    using assms by (simp add: old_modules_def Let_def)
  with Inr show ?thesis
    using all by (auto simp: old_parse_def assms(1) old_sub_map_err Let_def old_module_of_def lookup split: list.split)
qed

end
