(* ===== verification/Old_Ui.thy ===== *)
theory Old_Ui
  imports Old_Gsdml Old_Ctrl Ui_Device
begin

text \<open>
  The device dialog of the earlier gateway (\<open>profinet_gateway/ui/device_dialog.py\<close>) and the forced
  words of its diagnostic window (\<open>ui/io_diagnostic.py\<close>), without the widgets.  An entry field for a
  number holds a number or a text that is none; a drop-down list holds the place of its choice.
\<close>

section \<open>The device dialog\<close>

record old_dialog =
  odg_cfg :: old_device_config
  odg_gsdml :: old_gsdml
  odg_accepted :: bool
  odg_open :: bool
  odg_name :: string
  odg_ip :: string
  odg_subnet :: string
  odg_gw :: string
  odg_mac :: string
  odg_slot :: "int option"
  odg_subslot :: "int option"
  odg_module :: "nat option"
  odg_subs :: "old_sub list"
  odg_sub :: "nat option"

definition on_module_change :: "nat option \<Rightarrow> old_dialog \<Rightarrow> old_dialog" where
  "on_module_change choice dg =
     (case choice of
        None \<Rightarrow> dg
      | Some i \<Rightarrow>
         if i < length (ol_modules (odg_gsdml dg)) then
           (let subs = om_submodules (ol_modules (odg_gsdml dg) ! i)
            in dg\<lparr>odg_module := Some i, odg_subs := subs, odg_sub := (if subs \<noteq> [] then Some 0 else None)\<rparr>)
         else dg)"

text \<open>The first module with the number of the configuration, and in it the first such submodule;
  the first module of the file where there is none.\<close>

definition old_select :: "old_dialog \<Rightarrow> old_dialog" where
  "old_select dg =
     (let c = odg_cfg dg; ms = ol_modules (odg_gsdml dg) in
      case index_of (od_module_ident c) (map om_ident ms) of
        Some i \<Rightarrow>
          (let dg1 = on_module_change (Some i) dg
           in case index_of (od_submodule_ident c) (map os_ident (odg_subs dg1)) of
                Some j \<Rightarrow> dg1\<lparr>odg_sub := Some j\<rparr> | None \<Rightarrow> dg1)
      | None \<Rightarrow> if ms \<noteq> [] then on_module_change (Some 0) dg else dg)"

definition old_load_values :: "old_dialog \<Rightarrow> old_dialog" where
  "old_load_values dg =
     (let c = odg_cfg dg in
      old_select (dg\<lparr>odg_name := od_station_name c, odg_ip := od_ip c, odg_subnet := od_subnet c,
                     odg_gw := od_gateway c, odg_mac := od_mac c,
                     odg_slot := Some (od_slot c), odg_subslot := Some (od_subslot c)\<rparr>))"

definition old_dialog_open :: "old_device_config \<Rightarrow> old_gsdml \<Rightarrow> old_dialog" where
  "old_dialog_open cfg g =
     old_load_values
       \<lparr>odg_cfg = cfg, odg_gsdml = g, odg_accepted = False, odg_open = True, odg_name = [], odg_ip = [], odg_subnet = [],
        odg_gw = [], odg_mac = [], odg_slot = Some 1, odg_subslot = Some 1, odg_module = None, odg_subs = [], odg_sub = None\<rparr>"

text \<open>Apply writes the entry fields, then the module and its submodule.  A slot that is no number
  raises after the fields in front of it have been written.\<close>

definition old_identity :: "old_dialog \<Rightarrow> old_device_config \<Rightarrow> old_device_config" where
  "old_identity dg c = c\<lparr>od_station_name := strip (odg_name dg), od_ip := strip (odg_ip dg),
     od_subnet := or_else (strip (odg_subnet dg)) ''255.255.255.0'',
     od_gateway := or_else (strip (odg_gw dg)) ''192.168.1.1'', od_mac := strip (odg_mac dg)\<rparr>"

definition old_module_fields :: "old_dialog \<Rightarrow> old_device_config \<Rightarrow> old_device_config" where
  "old_module_fields dg c =
     (case odg_module dg of
        None \<Rightarrow> c
      | Some i \<Rightarrow>
         if i < length (ol_modules (odg_gsdml dg)) then
           (let m = ol_modules (odg_gsdml dg) ! i;
                c1 = c\<lparr>od_module_ident := om_ident m, od_module_name := om_name m\<rparr>
            in case odg_sub dg of
                 None \<Rightarrow> c1
               | Some j \<Rightarrow>
                  if j < length (odg_subs dg) then
                    (let s = odg_subs dg ! j
                     in c1\<lparr>od_submodule_ident := os_ident s, od_submodule_name := os_name s,
                           od_input_length := os_input_length s, od_output_length := os_output_length s\<rparr>)
                  else c1)
         else c)"

definition old_on_apply :: "old_dialog \<Rightarrow> py_error option \<times> old_dialog" where
  "old_on_apply dg =
     (if \<not> ip_ok (strip (odg_ip dg)) then
        (case ip_check (strip (odg_ip dg)) of Inl e \<Rightarrow> (Some e, dg) | Inr _ \<Rightarrow> (None, dg))
      else
        (let c1 = old_identity dg (odg_cfg dg) in
         case odg_slot dg of
           None \<Rightarrow> (Some (LibError ''TclError''), dg\<lparr>odg_cfg := c1\<rparr>)
         | Some sl \<Rightarrow>
            (case odg_subslot dg of
               None \<Rightarrow> (Some (LibError ''TclError''), dg\<lparr>odg_cfg := c1\<lparr>od_slot := sl\<rparr>\<rparr>)
             | Some ss \<Rightarrow>
                (None, dg\<lparr>odg_cfg := old_module_fields dg (c1\<lparr>od_slot := sl, od_subslot := ss\<rparr>),
                          odg_accepted := True, odg_open := False\<rparr>))))"

definition old_on_cancel :: "old_dialog \<Rightarrow> old_dialog" where
  "old_on_cancel dg = dg\<lparr>odg_accepted := False, odg_open := False\<rparr>"

definition old_scan_select :: "string \<Rightarrow> string \<Rightarrow> string \<Rightarrow> old_dialog \<Rightarrow> old_dialog" where
  "old_scan_select nm ip mac dg = dg\<lparr>odg_name := nm, odg_ip := ip, odg_mac := mac\<rparr>"

text \<open>What a user can do while the dialog is open.\<close>

datatype old_edit =
    OType string string string string | OSlots "int option" "int option" | OScan string string string
  | OModule nat | OSub nat

fun old_edit_step :: "old_edit \<Rightarrow> old_dialog \<Rightarrow> old_dialog" where
  "old_edit_step (OType nm ip sn gw) dg = dg\<lparr>odg_name := nm, odg_ip := ip, odg_subnet := sn, odg_gw := gw\<rparr>"
| "old_edit_step (OSlots sl ss) dg = dg\<lparr>odg_slot := sl, odg_subslot := ss\<rparr>"
| "old_edit_step (OScan nm ip mac) dg = old_scan_select nm ip mac dg"
| "old_edit_step (OModule i) dg = on_module_change (Some i) dg"
| "old_edit_step (OSub j) dg = (if j < length (odg_subs dg) then dg\<lparr>odg_sub := Some j\<rparr> else dg)"

section \<open>Forced words\<close>

text \<open>\<open>_force\<close>: the words go to the device and into the inputs of the gateway; words over 16 bits
  raise behind the write.\<close>

definition forced_nsoll :: "string \<Rightarrow> int" where
  "forced_nsoll text = (case parse_hex text of Some v \<Rightarrow> v | None \<Rightarrow> 0)"

definition old_force :: "nat \<Rightarrow> string \<Rightarrow> string \<Rightarrow> old_gateway \<Rightarrow> old_pn \<Rightarrow> py_error option \<times> old_gateway \<times> old_pn" where
  "old_force idx stw1_text nsoll_text g op =
     (case parse_hex stw1_text of
        None \<Rightarrow> (None, g, op)
      | Some stw1 \<Rightarrow>
         (let nsoll = forced_nsoll nsoll_text;
              op1 = old_write_outputs idx stw1 nsoll op
          in case old_set_zsw1_nist idx stw1 nsoll g of (e, g1) \<Rightarrow> (e, g1, op1)))"

definition old_force_nsoll :: "nat \<Rightarrow> string \<Rightarrow> old_pn \<Rightarrow> old_pn" where
  "old_force_nsoll idx nsoll_text op =
     (let stw1 = (if idx < length (op_devices op) then ov_stw1 (op_devices op ! idx) else 0) in
      case parse_hex nsoll_text of
        None \<Rightarrow> op
      | Some nsoll \<Rightarrow> old_write_outputs idx stw1 nsoll op)"

section \<open>The choice of the dialog\<close>

text \<open>The submodules on offer are those of the chosen module, one of them is chosen when there are
  any, and a module is chosen when the file has any; the configuration is not touched.\<close>

definition choice_ok :: "old_device_config \<Rightarrow> old_gsdml \<Rightarrow> old_dialog \<Rightarrow> bool" where
  "choice_ok cfg g dg \<longleftrightarrow> odg_cfg dg = cfg \<and> odg_gsdml dg = g \<and> odg_open dg \<and> \<not> odg_accepted dg
     \<and> (case odg_module dg of
          None \<Rightarrow> ol_modules g = [] \<and> odg_subs dg = []
        | Some i \<Rightarrow> i < length (ol_modules g) \<and> odg_subs dg = om_submodules (ol_modules g ! i)
            \<and> (case odg_sub dg of None \<Rightarrow> odg_subs dg = [] | Some j \<Rightarrow> j < length (odg_subs dg)))"

lemma index_of_less: "index_of x xs = Some i \<Longrightarrow> i < length xs"
  by (induction xs arbitrary: i) (auto split: if_splits)

lemma choice_edit: "choice_ok cfg g dg \<Longrightarrow> choice_ok cfg g (old_edit_step e dg)"
proof (cases e)
  case (OSub j)
  assume "choice_ok cfg g dg"
  then show ?thesis by (cases "odg_module dg") (auto simp: OSub choice_ok_def)
qed (auto simp: choice_ok_def on_module_change_def old_scan_select_def Let_def split: option.splits)

lemma choice_edits: "choice_ok cfg g dg \<Longrightarrow> choice_ok cfg g (fold old_edit_step es dg)"
  by (induction es arbitrary: dg) (simp_all add: choice_edit)

lemma choice_open: "choice_ok cfg g (old_dialog_open cfg g)"
proof (cases "ol_modules g = []")
  case False
  then show ?thesis
    by (auto simp: old_dialog_open_def old_load_values_def old_select_def choice_ok_def on_module_change_def Let_def
        dest: index_of_less split: option.splits)
qed (simp add: old_dialog_open_def old_load_values_def old_select_def choice_ok_def)

lemma old_apply_refused:
  "\<not> ip_ok (strip (odg_ip dg)) \<Longrightarrow>
   old_on_apply dg = (case ip_check (strip (odg_ip dg)) of Inl x \<Rightarrow> Some x | Inr _ \<Rightarrow> None, dg)"
  by (simp add: old_on_apply_def split: sum.split)

section \<open>Properties\<close>

text \<open>What Apply in the dialog of the earlier gateway leaves, after any use of the dialog: with an
  address that is not four numbers, the configuration as it was, with an error when a part has digits
  that are no decimal ones; with a slot that is no number, an
  error with name and addresses already changed, which Cancel then does not take back; otherwise a
  module of the file with one of its submodules and the lengths of that, but where the module has no
  submodules, the submodule and lengths from before next to the number of the new module.\<close>

theorem old_dialog_apply:
  "case fold old_edit_step es (old_dialog_open cfg g) of dg \<Rightarrow>
     (case old_on_apply dg of (e, dg') \<Rightarrow>
        (case odg_cfg dg' of c \<Rightarrow>
           if \<not> ip_ok (strip (odg_ip dg)) then
             e = (case ip_check (strip (odg_ip dg)) of Inl x \<Rightarrow> Some x | Inr _ \<Rightarrow> None) \<and> c = cfg \<and> odg_open dg'
           else if odg_slot dg = None \<or> odg_subslot dg = None then
             e = Some (LibError ''TclError'') \<and> odg_open dg' \<and> odg_cfg (old_on_cancel dg') = c
             \<and> od_station_name c = strip (odg_name dg) \<and> od_ip c = strip (odg_ip dg)
             \<and> od_module_ident c = od_module_ident cfg \<and> od_output_length c = od_output_length cfg
           else
             e = None \<and> odg_accepted dg' \<and> od_ip c = strip (odg_ip dg)
             \<and> Some (od_slot c) = odg_slot dg \<and> Some (od_subslot c) = odg_subslot dg
             \<and> (if ol_modules g = [] then od_module_ident c = od_module_ident cfg
                else \<exists>m \<in> set (ol_modules g). od_module_ident c = om_ident m \<and> od_module_name c = om_name m
                  \<and> (if om_submodules m = []
                     then (od_submodule_ident c, od_input_length c, od_output_length c) =
                          (od_submodule_ident cfg, od_input_length cfg, od_output_length cfg)
                     else \<exists>s \<in> set (om_submodules m).
                          (od_submodule_ident c, od_submodule_name c, od_input_length c, od_output_length c) =
                          (os_ident s, os_name s, os_input_length s, os_output_length s)))))"
proof -
  let ?dg = "fold old_edit_step es (old_dialog_open cfg g)"
  have ok: "choice_ok cfg g ?dg" by (rule choice_edits [OF choice_open])
  show ?thesis
  proof (cases "ip_ok (strip (odg_ip ?dg))")
    case False
    then show ?thesis
      using ok by (simp add: old_apply_refused choice_ok_def Let_def)
  next
    case ip: True
    show ?thesis
  proof (cases "odg_module ?dg")
    case None
    with ok ip show ?thesis
      by (auto simp: old_on_apply_def old_module_fields_def old_identity_def old_on_cancel_def choice_ok_def Let_def
          split: option.split)
  next
    case (Some i)
    with ok have i: "i < length (ol_modules g)" "odg_subs ?dg = om_submodules (ol_modules g ! i)"
      and sub: "case odg_sub ?dg of None \<Rightarrow> odg_subs ?dg = [] | Some j \<Rightarrow> j < length (odg_subs ?dg)"
      by (simp_all add: choice_ok_def)
    have m: "ol_modules g ! i \<in> set (ol_modules g)" "ol_modules g \<noteq> []" using i by auto
    show ?thesis
    proof (cases "odg_sub ?dg")
      case None
      with Some ok ip i sub m show ?thesis
        by (auto simp: old_on_apply_def old_module_fields_def old_identity_def old_on_cancel_def choice_ok_def Let_def
            split: option.split intro!: bexI [of _ "ol_modules g ! i"])
    next
      case (Some j)
      then have j: "om_submodules (ol_modules g ! i) ! j \<in> set (om_submodules (ol_modules g ! i))"
        "om_submodules (ol_modules g ! i) \<noteq> []" "j < length (odg_subs ?dg)"
        using i sub by auto
      from Some \<open>odg_module ?dg = Some i\<close> ok ip i m j show ?thesis
        by (auto simp: old_on_apply_def old_module_fields_def old_identity_def old_on_cancel_def choice_ok_def Let_def
            split: option.split intro!: bexI [of _ "ol_modules g ! i"])
    qed
  qed
  qed
qed

text \<open>A call that gives a device its words.\<close>

fun is_setpoint :: "old_call \<Rightarrow> bool" where
  "is_setpoint (OSetpoint h a b) = True" | "is_setpoint _ = False"

lemma old_live_oput: "old_live op i = Some d \<Longrightarrow> ov_handle d' = ov_handle d \<Longrightarrow> ov_connected d' \<Longrightarrow>
    old_live (ocall c (oput i d' op)) i = Some d'"
  by (auto simp: old_live_def oput_def ocall_def split: if_splits)

lemma old_bridge_in_calls:
  "\<exists>rest. op_calls (snd (snd (old_bridge_in w i dc g op))) = op_calls op @ rest \<and> \<not> list_ex is_setpoint rest"
  by (auto simp: old_bridge_in_def old_read_inputs_def old_read_raw_def oput_def ocall_def Let_def
      split: option.splits prod.splits)

lemma old_set_inputs_out: "old_get_outputs (old_set_inputs i bs g) j = old_get_outputs g j"
  by (auto simp: old_set_inputs_def old_get_outputs_def Let_def nth_list_update)

text \<open>C40: What a forced word of the earlier diagnostic window does: the device gets the words at once,
  but the gateway's outputs stay as they are, and the next pass of the bridge gives the device those
  again; the words stand in the inputs instead, where clients read them as status and actual value.\<close>

theorem old_force_lost:
  assumes live: "old_live op i = Some d" and stw1: "parse_hex t = Some stw1"
    and len: "4 \<le> od_output_length (ov_config d)" "4 \<le> length (old_get_outputs g i)"
  shows "case old_force i t u g op of (e, g1, op1) \<Rightarrow>
     op_calls op1 = op_calls op @ [OSetpoint (ov_handle d) (stw1 mod 65536) (forced_nsoll u mod 65536)]
     \<and> old_get_outputs g1 = old_get_outputs g
     \<and> (case old_bridge_device w i g1 op1 of (_, _, op2) \<Rightarrow>
          \<exists>rest. op_calls op2 = op_calls op1
            @ OSetpoint (ov_handle d) (fst (old_get_stw1_nsoll g i)) (snd (old_get_stw1_nsoll g i)) # rest
          \<and> \<not> list_ex is_setpoint rest)
     \<and> (if stw1 \<in> {0 ..< 65536} \<and> forced_nsoll u \<in> {0 ..< 65536} \<and> i < length (og_io g) \<and> 4 \<le> length (io_inp (og_io g ! i))
        then e = None \<and> take 4 (io_inp (og_io g1 ! i)) = rev (be16 stw1) @ rev (be16 (forced_nsoll u)) else True)"
proof -
  let ?n = "forced_nsoll u"
  define d1 where "d1 = d\<lparr>ov_stw1 := stw1, ov_nsoll := ?n\<rparr>"
  define op1 where "op1 = ocall (OSetpoint (ov_handle d) (stw1 mod 65536) (?n mod 65536)) (oput i d1 op)"
  obtain e g1 where g1: "old_set_zsw1_nist i stw1 ?n g = (e, g1)" by fastforce
  have force: "old_force i t u g op = (e, g1, op1)"
    by (simp add: old_force_def stw1 old_write_outputs_def live g1 op1_def d1_def Let_def)
  have outs: "old_get_outputs g1 = old_get_outputs g"
    using g1 by (auto simp: old_set_zsw1_nist_def old_set_inputs_out split: sum.splits)
  have live1: "old_live op1 i = Some d1"
    unfolding op1_def by (rule old_live_oput [OF live]) (use live in \<open>auto simp: d1_def old_live_def split: if_splits\<close>)
  then have at1: "op_devices op1 ! i = d1" "ov_connected d1" "i < length (op_devices op1)"
    by (auto simp: old_live_def split: if_splits)
  have words: "stw < 65536" "0 \<le> stw" if "stw = val16 a b" for stw a b
    using that val16_bounds [of a b] by simp_all
  have dev: "old_bridge_device w i g1 op1 = old_bridge_in w i (ov_config d1) g1 (old_bridge_out i (ov_config d1) g1 op1)"
    by (simp add: old_bridge_device_def old_is_connected_def at1 Let_def)
  have out: "op_calls (old_bridge_out i (ov_config d1) g1 op1) = op_calls op1
      @ [OSetpoint (ov_handle d) (fst (old_get_stw1_nsoll g i)) (snd (old_get_stw1_nsoll g i))]"
    using len outs words
    by (simp add: old_bridge_out_def old_write_outputs_def live1 old_get_stw1_nsoll_def Let_def ocall_def oput_def d1_def)
  have pass: "\<exists>rest. op_calls (snd (snd (old_bridge_device w i g1 op1))) = op_calls op1
        @ OSetpoint (ov_handle d) (fst (old_get_stw1_nsoll g i)) (snd (old_get_stw1_nsoll g i)) # rest
      \<and> \<not> list_ex is_setpoint rest"
    using old_bridge_in_calls [of w i "ov_config d1" g1 "old_bridge_out i (ov_config d1) g1 op1"]
    by (auto simp: dev out)
  have status: "e = None \<and> take 4 (io_inp (og_io g1 ! i)) = rev (be16 stw1) @ rev (be16 ?n)"
    if "stw1 \<in> {0 ..< 65536}" "?n \<in> {0 ..< 65536}" "i < length (og_io g)" "4 \<le> length (io_inp (og_io g ! i))"
    using g1 that by (auto simp: old_set_zsw1_nist_def pack_le_def pack_H_ok old_set_inputs_def Let_def slice_set_def)
  have "op_calls op1 = op_calls op @ [OSetpoint (ov_handle d) (stw1 mod 65536) (?n mod 65536)]"
    by (simp add: op1_def ocall_def oput_def)
  with force outs pass status show ?thesis by (auto simp: case_prod_beta)
qed

lemma old_force_lost_witness:
  "case old_force 0 ''0x047F'' ''2000'' demo_old force_pn of (e, g1, op1) \<Rightarrow>
     op_calls op1 = [OSetpoint 7 0x47F 0x2000]
     \<and> (case old_bridge_device quiet_world 0 g1 op1 of (_, _, op2) \<Rightarrow> \<exists>rest. op_calls op2 = op_calls op1 @ OSetpoint 7 0 0 # rest)"
proof -
  have facts: "old_live force_pn 0 = Some ((old_new_dev demo_old_device)\<lparr>ov_handle := 7, ov_connected := True\<rparr>)"
    "parse_hex ''0x047F'' = Some 0x47F" "forced_nsoll ''2000'' = 0x2000"
    "4 \<le> od_output_length (ov_config ((old_new_dev demo_old_device)\<lparr>ov_handle := 7, ov_connected := True\<rparr>))"
    "4 \<le> length (old_get_outputs demo_old 0)" "old_get_stw1_nsoll demo_old 0 = (0, 0)"
    by code_simp+
  show ?thesis
    using old_force_lost [OF facts(1,2,4,5), of "''2000''" quiet_world] facts
    by (auto simp: force_pn_def split: prod.splits)
qed

end
