(* ===== verification/Old_Canvas.thy ===== *)
theory Old_Canvas
  imports Old_Ui Ui_Canvas
begin

text \<open>
  The configuration window of the earlier gateway (\<open>profinet_gateway/ui\<close>: \<open>pn_config_tab.py\<close>,
  \<open>gw_config_tab.py\<close>, \<open>config_window.py\<close>) without its widgets.  As in the present window the
  configurations and descriptions are objects that it shares with the running application, so
  they live in stores; what a click overlaps is an argument.
\<close>

section \<open>State\<close>

record old_canvas_dev =
  ocd_gsdml :: nat
  ocd_cfg :: nat
  ocd_canvas_id :: nat
  ocd_label_id :: nat
  ocd_label :: string

record old_win =
  ow_cfgs :: "old_device_config list"
  ow_gsdmls :: "old_gsdml list"
  ow_app_adapter :: string
  ow_app_devices :: "nat list"
  ow_app_gateway :: old_gateway_config
  ow_gsdml_list :: "nat list"
  ow_devs :: "old_canvas_dev list"
  ow_drag :: "nat option"
  ow_adapter_names :: "string list"
  ow_adapter :: string
  ow_next_id :: nat
  ow_form :: old_gateway_config

text \<open>Which files exist, and the trees that they parse to.\<close>

record old_disk =
  odk_exists :: "string \<Rightarrow> bool"
  odk_xml :: "string \<Rightarrow> py_error + xml"

section \<open>Devices on the canvas\<close>

definition old_first_sub :: "old_gsdml \<Rightarrow> old_sub option" where
  "old_first_sub g =
     (case ol_modules g of [] \<Rightarrow> None | m # _ \<Rightarrow> (case om_submodules m of [] \<Rightarrow> None | s # _ \<Rightarrow> Some s))"

definition old_default_device :: old_device_config where
  "old_default_device = \<lparr>od_gsdml_path = [], od_station_name = [], od_ip = ''192.168.1.50'', od_subnet = ''255.255.255.0'',
     od_gateway = ''192.168.1.1'', od_mac = [], od_canvas_x = 100, od_canvas_y = 100, od_slot = 1, od_subslot = 1,
     od_module_ident = 0, od_submodule_ident = 0, od_module_name = [], od_submodule_name = [],
     od_input_length = 4, od_output_length = 4\<rparr>"

definition old_new_config :: "old_gsdml \<Rightarrow> int \<Rightarrow> int \<Rightarrow> old_device_config" where
  "old_new_config g x y = old_default_device\<lparr>od_gsdml_path := ol_path g, od_canvas_x := x, od_canvas_y := y,
     od_module_ident := (case ol_modules g of [] \<Rightarrow> 0 | m # _ \<Rightarrow> om_ident m),
     od_submodule_ident := (case old_first_sub g of None \<Rightarrow> 0 | Some s \<Rightarrow> os_ident s),
     od_input_length := (case old_first_sub g of None \<Rightarrow> 4 | Some s \<Rightarrow> os_input_length s),
     od_output_length := (case old_first_sub g of None \<Rightarrow> 4 | Some s \<Rightarrow> os_output_length s)\<rparr>"

definition old_add_device :: "nat \<Rightarrow> int \<Rightarrow> int \<Rightarrow> nat option \<Rightarrow> old_win \<Rightarrow> old_win" where
  "old_add_device gref x y existing w =
     (let g = ow_gsdmls w ! gref; n = ow_next_id w;
          (cref, cfgs) = (case existing of
             Some c \<Rightarrow> (c, ow_cfgs w)
           | None \<Rightarrow> (length (ow_cfgs w), ow_cfgs w @ [old_new_config g x y]))
      in w\<lparr>ow_cfgs := cfgs[cref := (cfgs ! cref)\<lparr>od_canvas_x := x, od_canvas_y := y\<rparr>],
           ow_devs := ow_devs w @ [\<lparr>ocd_gsdml = gref, ocd_cfg = cref, ocd_canvas_id = n, ocd_label_id = n + 1,
                                   ocd_label = ol_device_name g\<rparr>],
           ow_next_id := n + 2\<rparr>)"

definition old_path_listed :: "string \<Rightarrow> old_win \<Rightarrow> bool" where
  "old_path_listed path w \<longleftrightarrow> (\<exists>r \<in> set (ow_gsdml_list w). ol_path (ow_gsdmls w ! r) = path)"

definition old_list_gsdml :: "old_gsdml \<Rightarrow> old_win \<Rightarrow> old_win" where
  "old_list_gsdml g w = w\<lparr>ow_gsdmls := ow_gsdmls w @ [g], ow_gsdml_list := ow_gsdml_list w @ [length (ow_gsdmls w)]\<rparr>"

definition old_load_one :: "old_disk \<Rightarrow> nat \<Rightarrow> old_win \<Rightarrow> old_win" where
  "old_load_one dk c w =
     (let cfg = ow_cfgs w ! c; path = od_gsdml_path cfg in
      if \<not> odk_exists dk path then w
      else
        (case old_parse_gsdml (odk_xml dk) path of
           Inl _ \<Rightarrow> w
         | Inr g \<Rightarrow>
            (let w1 = (if old_path_listed path w then w\<lparr>ow_gsdmls := ow_gsdmls w @ [g]\<rparr> else old_list_gsdml g w)
             in old_add_device (length (ow_gsdmls w)) (od_canvas_x cfg) (od_canvas_y cfg) (Some c) w1)))"

definition old_load_from_configs :: "old_disk \<Rightarrow> nat list \<Rightarrow> old_win \<Rightarrow> old_win" where
  "old_load_from_configs dk refs w = fold (old_load_one dk) refs w"

definition old_load_path :: "old_disk \<Rightarrow> string \<Rightarrow> old_win \<Rightarrow> old_win" where
  "old_load_path dk path w =
     (if old_path_listed path w then w
      else (case old_parse_gsdml (odk_xml dk) path of Inl _ \<Rightarrow> w | Inr g \<Rightarrow> old_list_gsdml g w))"

definition old_load_files :: "old_disk \<Rightarrow> string list \<Rightarrow> old_win \<Rightarrow> old_win" where
  "old_load_files dk paths w = fold (old_load_path dk) paths w"

definition old_remove_gsdml :: "nat \<Rightarrow> old_win \<Rightarrow> old_win" where
  "old_remove_gsdml idx w = w\<lparr>ow_gsdml_list := take idx (ow_gsdml_list w) @ drop (Suc idx) (ow_gsdml_list w)\<rparr>"

section \<open>The canvas\<close>

definition old_lb_press :: "nat \<Rightarrow> old_win \<Rightarrow> old_win" where
  "old_lb_press idx w =
     w\<lparr>ow_drag := (if idx < length (ow_gsdml_list w) then Some (ow_gsdml_list w ! idx) else None)\<rparr>"

definition old_canvas_drop :: "nat list \<Rightarrow> int \<Rightarrow> int \<Rightarrow> old_win \<Rightarrow> old_win" where
  "old_canvas_drop items x y w =
     (case ow_drag w of
        None \<Rightarrow> w
      | Some g \<Rightarrow>
         if \<exists>it \<in> set items. \<exists>cd \<in> set (ow_devs w). ocd_canvas_id cd = it then w\<lparr>ow_drag := None\<rparr>
         else (old_add_device g x y None w)\<lparr>ow_drag := None\<rparr>)"

definition old_move_device :: "nat \<Rightarrow> int \<Rightarrow> int \<Rightarrow> old_win \<Rightarrow> old_win" where
  "old_move_device i x y w =
     (let c = ocd_cfg (ow_devs w ! i)
      in w\<lparr>ow_cfgs := (ow_cfgs w)[c := (ow_cfgs w ! c)\<lparr>od_canvas_x := x, od_canvas_y := y\<rparr>]\<rparr>)"

fun old_hit :: "nat list \<Rightarrow> old_canvas_dev list \<Rightarrow> nat option" where
  "old_hit items [] = None"
| "old_hit items (cd # cds) =
     (if ocd_canvas_id cd \<in> set items \<or> ocd_label_id cd \<in> set items then Some 0 else map_option Suc (old_hit items cds))"

definition old_right_click :: "nat list \<Rightarrow> bool \<Rightarrow> old_win \<Rightarrow> old_win" where
  "old_right_click items yes w =
     (case old_hit items (ow_devs w) of
        None \<Rightarrow> w
      | Some i \<Rightarrow> if yes then w\<lparr>ow_devs := take i (ow_devs w) @ drop (Suc i) (ow_devs w)\<rparr> else w)"

text \<open>A double click opens the device dialog on the objects of the device: what the user does in
  it, then Apply, and Cancel where that does not end it.\<close>

definition old_double_click :: "nat list \<Rightarrow> old_edit list \<Rightarrow> bool \<Rightarrow> old_win \<Rightarrow> old_win" where
  "old_double_click items es apply w =
     (case old_hit items (ow_devs w) of
        None \<Rightarrow> w
      | Some i \<Rightarrow>
         (let cd = ow_devs w ! i; g = ow_gsdmls w ! ocd_gsdml cd;
              dg = fold old_edit_step es (old_dialog_open (ow_cfgs w ! ocd_cfg cd) g);
              dg1 = (if apply then snd (old_on_apply dg) else dg);
              dg2 = (if odg_accepted dg1 then dg1 else old_on_cancel dg1);
              cd' = (if odg_accepted dg2 then cd\<lparr>ocd_label := or_else (od_station_name (odg_cfg dg2)) (ol_device_name g)\<rparr> else cd)
          in w\<lparr>ow_cfgs := (ow_cfgs w)[ocd_cfg cd := odg_cfg dg2], ow_devs := (ow_devs w)[i := cd']\<rparr>))"

section \<open>Adapter, gateway tab and window\<close>

definition old_tab_adapters :: "string list \<Rightarrow> old_win \<Rightarrow> old_win" where
  "old_tab_adapters names w =
     (let current = (if ow_adapter w \<noteq> [] then old_resolve_adapter names (ow_adapter w) else ow_adapter w);
          w1 = w\<lparr>ow_adapter_names := names, ow_adapter := current\<rparr>
      in case names of
           [] \<Rightarrow> w1
         | n # _ \<Rightarrow> if current \<in> set names then w1 else w1\<lparr>ow_adapter := n\<rparr>)"

definition old_choose_adapter :: "nat \<Rightarrow> old_win \<Rightarrow> old_win" where
  "old_choose_adapter idx w =
     (if idx < length (ow_adapter_names w) then w\<lparr>ow_adapter := ow_adapter_names w ! idx\<rparr> else w)"

definition old_form_config :: "old_gateway_config \<Rightarrow> old_gateway_config" where
  "old_form_config f = f\<lparr>ogc_bind := or_else (strip (ogc_bind f)) ''0.0.0.0''\<rparr>"

definition old_window_open :: "old_disk \<Rightarrow> string list \<Rightarrow> old_app_config \<Rightarrow> old_win" where
  "old_window_open dk names cfg =
     old_load_from_configs dk [0 ..< length (oa_devices cfg)]
       (old_tab_adapters names
         \<lparr>ow_cfgs = oa_devices cfg, ow_gsdmls = [], ow_app_adapter = oa_adapter cfg,
          ow_app_devices = [0 ..< length (oa_devices cfg)], ow_app_gateway = oa_gateway cfg,
          ow_gsdml_list = [], ow_devs = [], ow_drag = None, ow_adapter_names = [], ow_adapter = oa_adapter cfg,
          ow_next_id = 1, ow_form = oa_gateway cfg\<rparr>)"

definition old_apply_restart :: "bool \<Rightarrow> old_win \<Rightarrow> files \<Rightarrow> old_win \<times> files" where
  "old_apply_restart confirm w fs =
     (let refs = map ocd_cfg (ow_devs w);
          new_cfg = \<lparr>oa_adapter = ow_adapter w, oa_devices = map ((!) (ow_cfgs w)) refs, oa_gateway = old_form_config (ow_form w)\<rparr>
      in if refs = [] \<and> \<not> confirm then (w, fs)
         else (w\<lparr>ow_app_adapter := ow_adapter w, ow_app_devices := refs, ow_app_gateway := old_form_config (ow_form w)\<rparr>,
               old_save_config new_cfg fs))"

text \<open>What the running application sees.\<close>

definition old_app_of :: "old_win \<Rightarrow> old_app_config" where
  "old_app_of w = \<lparr>oa_adapter = ow_app_adapter w, oa_devices = map ((!) (ow_cfgs w)) (ow_app_devices w),
     oa_gateway = ow_app_gateway w\<rparr>"

section \<open>Loading\<close>

definition old_readable :: "old_disk \<Rightarrow> old_device_config \<Rightarrow> bool" where
  "old_readable dk dc \<longleftrightarrow> odk_exists dk (od_gsdml_path dc) \<and> \<not> isl (old_parse_gsdml (odk_xml dk) (od_gsdml_path dc))"

text \<open>What loading leaves as it is.\<close>

definition old_same_app :: "old_win \<Rightarrow> old_win \<Rightarrow> bool" where
  "old_same_app w w' \<longleftrightarrow> ow_cfgs w' = ow_cfgs w \<and> ow_app_adapter w' = ow_app_adapter w
     \<and> ow_app_devices w' = ow_app_devices w \<and> ow_app_gateway w' = ow_app_gateway w
     \<and> ow_adapter w' = ow_adapter w \<and> ow_form w' = ow_form w"

lemma old_load_one_effect:
  "old_same_app w (old_load_one dk c w)
   \<and> map ocd_cfg (ow_devs (old_load_one dk c w)) =
     map ocd_cfg (ow_devs w) @ (if old_readable dk (ow_cfgs w ! c) then [c] else [])"
  by (auto simp: old_load_one_def old_readable_def old_same_app_def old_add_device_def old_list_gsdml_def Let_def
      split: sum.splits)

lemma old_load_effect:
  "old_same_app w (old_load_from_configs dk refs w)
   \<and> map ocd_cfg (ow_devs (old_load_from_configs dk refs w)) =
     map ocd_cfg (ow_devs w) @ filter (\<lambda>i. old_readable dk (ow_cfgs w ! i)) refs"
proof (induction refs arbitrary: w)
  case (Cons c refs)
  show ?case
    using Cons.IH [of "old_load_one dk c w"] old_load_one_effect [of w dk c]
    by (simp add: old_load_from_configs_def old_same_app_def)
qed (simp add: old_load_from_configs_def old_same_app_def)

lemma old_tab_adapters_same [simp]:
  "ow_cfgs (old_tab_adapters names w) = ow_cfgs w" "ow_devs (old_tab_adapters names w) = ow_devs w"
  "ow_app_adapter (old_tab_adapters names w) = ow_app_adapter w"
  "ow_app_devices (old_tab_adapters names w) = ow_app_devices w"
  "ow_app_gateway (old_tab_adapters names w) = ow_app_gateway w" "ow_form (old_tab_adapters names w) = ow_form w"
  by (simp_all add: old_tab_adapters_def Let_def split: list.split)

lemma old_window_open_effect:
  "ow_cfgs (old_window_open dk names cfg) = oa_devices cfg
   \<and> map ocd_cfg (ow_devs (old_window_open dk names cfg)) =
       filter (\<lambda>i. old_readable dk (oa_devices cfg ! i)) [0 ..< length (oa_devices cfg)]
   \<and> ow_form (old_window_open dk names cfg) = oa_gateway cfg
   \<and> old_app_of (old_window_open dk names cfg) = cfg"
  using old_load_effect [of _ dk "[0 ..< length (oa_devices cfg)]"]
  by (simp add: old_window_open_def old_same_app_def old_app_of_def map_nth)

section \<open>Applying\<close>

text \<open>Applying the untouched window keeps exactly the devices whose description can still be read.\<close>

theorem old_apply_unchanged:
  "case old_window_open dk names cfg of w \<Rightarrow>
     old_app_of w = cfg
     \<and> (case old_apply_restart confirm w fs of (w', fs') \<Rightarrow>
          if filter (old_readable dk) (oa_devices cfg) = [] \<and> \<not> confirm then w' = w \<and> fs' = fs
          else old_load_config fs' = Ok (old_app_of w')
            \<and> oa_devices (old_app_of w') = filter (old_readable dk) (oa_devices cfg)
            \<and> oa_gateway (old_app_of w') = old_form_config (oa_gateway cfg))"
proof -
  let ?w = "old_window_open dk names cfg"
  note open_facts = old_window_open_effect [of dk names cfg]
  have devs: "map ((!) (ow_cfgs ?w)) (map ocd_cfg (ow_devs ?w)) = filter (old_readable dk) (oa_devices cfg)"
    using open_facts filter_upt_map [of id "oa_devices cfg" "old_readable dk"] by simp
  moreover have "map ocd_cfg (ow_devs ?w) = [] \<longleftrightarrow> filter (old_readable dk) (oa_devices cfg) = []"
    using devs by (metis map_is_Nil_conv)
  moreover have "\<And>c. old_load_config (old_save_config c fs) = Ok c"
    by (simp add: old_load_saved)
  moreover have "old_app_of ?w = cfg" using open_facts by blast
  moreover have "old_app_of (?w\<lparr>ow_app_adapter := a, ow_app_devices := refs, ow_app_gateway := f\<rparr>) =
      \<lparr>oa_adapter = a, oa_devices = map ((!) (ow_cfgs ?w)) refs, oa_gateway = f\<rparr>" for a refs f
    by (simp add: old_app_of_def)
  ultimately show ?thesis
    using open_facts by (simp add: old_apply_restart_def Let_def)
qed

text \<open>Moving a device on the canvas changes the configuration of the running application, before and
  without Apply, but only in the place on the canvas.\<close>

lemma old_move_running:
  "oa_devices (old_app_of (old_move_device i x y w)) =
    map (\<lambda>c. if c = ocd_cfg (ow_devs w ! i) \<and> c < length (ow_cfgs w)
             then (ow_cfgs w ! c)\<lparr>od_canvas_x := x, od_canvas_y := y\<rparr> else ow_cfgs w ! c) (ow_app_devices w)"
  by (auto simp: old_app_of_def old_move_device_def Let_def nth_list_update not_less list_update_beyond)

end
