(* ===== verification/Old_Views.thy ===== *)
theory Old_Views
  imports Old_Ui Ui_Views
begin

text \<open>
  What the windows of the earlier gateway show (\<open>profinet_gateway/ui/io_diagnostic.py\<close> and
  \<open>main_window.py\<close>), as records of the texts shown; the texts of words and percentages are
  written as in the present version (\<open>Ui_Views\<close>).
\<close>

definition old_device_count :: "old_pn \<Rightarrow> nat" where
  "old_device_count op = length (op_devices op)"

definition old_device_state :: "old_pn \<Rightarrow> nat \<Rightarrow> old_dev option" where
  "old_device_state op idx = (if idx < length (op_devices op) then Some (op_devices op ! idx) else None)"

section \<open>The diagnostic window\<close>

definition old_decode_zsw1 :: "int \<Rightarrow> string" where
  "old_decode_zsw1 z =
     (let bits = (if z AND push_bit 0 1 \<noteq> 0 then [''RDY_SW''] else []) @ (if z AND push_bit 1 1 \<noteq> 0 then [''RDY''] else [])
          @ (if z AND push_bit 2 1 \<noteq> 0 then [''RUN''] else []) @ (if z AND push_bit 3 1 \<noteq> 0 then [''FAULT''] else [])
          @ (if z AND push_bit 4 1 \<noteq> 0 then [''NO_COAST''] else []) @ (if z AND push_bit 5 1 \<noteq> 0 then [''NO_QSTOP''] else [])
          @ (if z AND push_bit 8 1 \<noteq> 0 then [''SPD_DEV''] else []) @ (if z AND push_bit 10 1 \<noteq> 0 then [''SPD_OK''] else [])
      in if bits \<noteq> [] then join ''  '' bits else em_dash)"

text \<open>Both versions name the bits alike.\<close>

lemma old_decode_zsw1_same: "old_decode_zsw1 z = zsw1_text z"
proof -
  have bit_mask: "(z AND push_bit n 1 \<noteq> 0) = bit z n" for n
    using and_exp_eq_0_iff_not_bit [of z n] by (simp add: push_bit_of_1)
  show ?thesis
    unfolding old_decode_zsw1_def zsw1_text_def Let_def bit_mask
    by (simp add: zsw1_names_def ZSW1_FLAGS_def)
qed

record old_card =
  oc_idx :: nat
  oc_title :: string
  oc_connected :: bool
  oc_error :: string
  oc_words :: "string list"
  oc_bits :: string
  oc_percent :: string

definition old_card_title :: "nat \<Rightarrow> old_device_config \<Rightarrow> string" where
  "old_card_title idx dc =
     ''  '' @ or_else (od_station_name dc) (''Device '' @ dec_digits idx) @ ''  ('' @ od_ip dc @ '')''"

definition old_new_card :: "nat \<Rightarrow> old_device_config \<Rightarrow> old_card" where
  "old_new_card idx dc = \<lparr>oc_idx = idx, oc_title = old_card_title idx dc, oc_connected = False, oc_error = [],
     oc_words = replicate 4 ''0x0000'', oc_bits = [], oc_percent = ''0%''\<rparr>"

definition old_card_refresh :: "old_pn \<Rightarrow> old_card \<Rightarrow> old_card" where
  "old_card_refresh op c =
     (let i = oc_idx c;
          c1 = (if old_is_connected op i then c\<lparr>oc_connected := True, oc_error := []\<rparr>
                else c\<lparr>oc_connected := False, oc_error := (case old_device_state op i of Some d \<Rightarrow> ov_error d | None \<Rightarrow> [])\<rparr>)
      in case old_device_state op i of
           None \<Rightarrow> c1
         | Some d \<Rightarrow>
             c1\<lparr>oc_words := map (\<lambda>v. ''0x'' @ word_text v) [ov_stw1 d, ov_nsoll d, ov_zsw1 d, ov_nist d],
                oc_bits := old_decode_zsw1 (ov_zsw1 d),
                oc_percent := dec_int (if ov_nist d \<noteq> 0 then percent (ov_nist d) else 0) @ ''%''\<rparr>)"

definition old_populate_cards :: "old_pn \<Rightarrow> old_card list" where
  "old_populate_cards op =
     List.map_filter (\<lambda>i. map_option (\<lambda>d. old_new_card i (ov_config d)) (old_device_state op i)) [0 ..< old_device_count op]"

definition old_diag_refresh :: "old_pn \<Rightarrow> old_card list \<Rightarrow> old_card list" where
  "old_diag_refresh op cards =
     map (old_card_refresh op) (if length cards \<noteq> old_device_count op then old_populate_cards op else cards)"

section \<open>The main window\<close>

definition old_main_refresh :: "old_gateway_config \<Rightarrow> old_gateway \<Rightarrow> old_pn \<Rightarrow> main_view \<Rightarrow> main_view" where
  "old_main_refresh gc g op v =
     (let n = old_device_count op;
          names = (if length (ma_status v) \<noteq> n
                   then map (\<lambda>i. case old_device_state op i of
                               Some d \<Rightarrow> od_station_name (ov_config d) | None \<Rightarrow> ''Device '' @ dec_digits i) [0 ..< n]
                   else ma_names v)
      in \<lparr>ma_gateway = (if og_running g then Some (ogc_protocol gc, ogc_port gc, og_client_conn g \<noteq> None) else None),
          ma_names = names,
          ma_status = map (\<lambda>i. if old_is_connected op i then Connected
                               else Disconnected (case old_device_state op i of Some d \<Rightarrow> ov_error d | None \<Rightarrow> []))
                        [0 ..< n]\<rparr>)"

definition old_on_close :: "old_gateway \<times> old_pn \<Rightarrow> old_gateway \<times> old_pn" where
  "old_on_close s = (case s of (g, op) \<Rightarrow> (old_stop g, old_pn_stop op))"

section \<open>What is shown\<close>

lemma old_populate_all:
  "old_populate_cards op = map (\<lambda>i. old_new_card i (ov_config (op_devices op ! i))) [0 ..< old_device_count op]"
  unfolding old_populate_cards_def map_filter_def
  by (auto simp: old_device_state_def old_device_count_def filter_id_conv intro!: map_cong)

lemma old_card_keeps [simp]:
  "oc_idx (old_card_refresh op c) = oc_idx c" "oc_title (old_card_refresh op c) = oc_title c"
  by (simp_all add: old_card_refresh_def Let_def split: option.split)

definition old_titles :: "old_pn \<Rightarrow> string list" where
  "old_titles op = map (\<lambda>i. old_card_title i (ov_config (op_devices op ! i))) [0 ..< old_device_count op]"

interpretation old_diag: counted_view "map oc_title" length old_titles old_diag_refresh
  by unfold_locales (simp_all add: old_diag_refresh_def old_titles_def old_populate_all old_new_card_def comp_def)

definition old_names :: "old_pn \<Rightarrow> string list" where
  "old_names op = map (\<lambda>d. od_station_name (ov_config d)) (op_devices op)"

interpretation old_main: counted_view ma_names "\<lambda>v. length (ma_status v)" "\<lambda>(gc, g, op). old_names op"
  "\<lambda>(gc, g, op). old_main_refresh gc g op"
proof unfold_locales
  fix s :: "old_gateway_config \<times> old_gateway \<times> old_pn" and v
  obtain gc g op where s: "s = (gc, g, op)" by (cases s)
  have "map (\<lambda>i. case old_device_state op i of Some d \<Rightarrow> od_station_name (ov_config d) | None \<Rightarrow> ''Device '' @ dec_digits i)
      [0 ..< old_device_count op] = old_names op"
    by (intro nth_equalityI) (simp_all add: old_names_def old_device_state_def old_device_count_def)
  with s show "ma_names ((case s of (gc, g, op) \<Rightarrow> old_main_refresh gc g op) v)
      = (if length (ma_status v) = length (case s of (gc, g, op) \<Rightarrow> old_names op) then ma_names v
         else case s of (gc, g, op) \<Rightarrow> old_names op)"
    by (simp add: old_main_refresh_def Let_def) (simp add: old_names_def old_device_count_def)
  show "length (ma_status ((case s of (gc, g, op) \<Rightarrow> old_main_refresh gc g op) v)) = length (case s of (gc, g, op) \<Rightarrow> old_names op)"
    by (simp add: s old_main_refresh_def old_names_def old_device_count_def Let_def)
qed

lemma old_diag_shape: "map oc_idx cards = [0 ..< length cards] \<Longrightarrow>
    map oc_idx (old_diag_refresh op cards) = [0 ..< length (old_diag_refresh op cards)]"
  by (auto simp: old_diag_refresh_def old_populate_all old_new_card_def comp_def map_idI)

lemma old_diag_shapes: "map oc_idx cards = [0 ..< length cards] \<Longrightarrow>
    map oc_idx (fold old_diag_refresh ops cards) = [0 ..< length (fold old_diag_refresh ops cards)]"
  by (induction ops arbitrary: cards) (simp_all add: old_diag_shape)

text \<open>The cards of the earlier diagnostic window show the words and the connection of the devices as
  they are, but however often they are replaced by as many others, under the names and addresses
  from when the cards were made.\<close>

theorem old_diag_titles:
  "case old_diag_refresh op (fold old_diag_refresh ops (old_populate_cards op0)) of cs \<Rightarrow>
     length cs = old_device_count op
     \<and> (\<forall>i < old_device_count op.
          oc_connected (cs ! i) = ov_connected (op_devices op ! i)
          \<and> oc_words (cs ! i) = map (\<lambda>v. ''0x'' @ word_text v) [ov_stw1 (op_devices op ! i), ov_nsoll (op_devices op ! i),
               ov_zsw1 (op_devices op ! i), ov_nist (op_devices op ! i)])
     \<and> (if list_all (\<lambda>p. old_device_count p = old_device_count op) ps
        then map oc_title (fold old_diag_refresh ps cs) = map oc_title cs else True)"
proof -
  let ?cs0 = "fold old_diag_refresh ops (old_populate_cards op0)"
  let ?cs = "old_diag_refresh op ?cs0"
  have idx: "map oc_idx ?cs = [0 ..< length ?cs]"
    by (intro old_diag_shape old_diag_shapes) (simp add: old_populate_all old_new_card_def comp_def map_idI)
  have len: "length ?cs = old_device_count op"
    by (simp add: old_diag.shown_renew old_titles_def)
  have shown: "oc_connected (?cs ! i) = ov_connected (op_devices op ! i)
      \<and> oc_words (?cs ! i) = map (\<lambda>v. ''0x'' @ word_text v) [ov_stw1 (op_devices op ! i), ov_nsoll (op_devices op ! i),
           ov_zsw1 (op_devices op ! i), ov_nist (op_devices op ! i)]" if i: "i < old_device_count op" for i
  proof -
    obtain c where c: "?cs ! i = old_card_refresh op c"
      using i len by (auto simp: old_diag_refresh_def split: if_splits)
    have "oc_idx (?cs ! i) = i" using arg_cong [OF idx, of "\<lambda>xs. xs ! i"] i len by simp
    then have "oc_idx c = i" by (simp add: c)
    with i show ?thesis
      by (simp add: c old_card_refresh_def old_device_state_def old_is_connected_def old_device_count_def Let_def)
  qed
  have stay: "map oc_title (fold old_diag_refresh ps ?cs) = map oc_title ?cs"
    if "list_all (\<lambda>p. old_device_count p = old_device_count op) ps"
    using that by (intro old_diag.names_stay) (simp add: old_titles_def)
  show ?thesis using shown len stay by simp
qed

text \<open>So do the names in the earlier main window.\<close>

theorem old_main_names:
  "if list_all (\<lambda>(_, _, p). old_device_count p = old_device_count op) ss
   then ma_names (fold (\<lambda>(gc, g, op). old_main_refresh gc g op) ss (old_main_refresh gc g op v))
        = ma_names (old_main_refresh gc g op v)
   else True"
proof -
  have "list_all (\<lambda>t. length (case t of (gc, g, p) \<Rightarrow> old_names p) = length (old_names op)) ss"
    if "list_all (\<lambda>(_, _, p). old_device_count p = old_device_count op) ss"
    using that by (auto simp: list_all_iff old_names_def old_device_count_def)
  then show ?thesis
    using old_main.names_stay [of "(gc, g, op)" ss v] by simp
qed

end
