(* ===== verification/Client_Session.thy ===== *)
theory Client_Session
  imports Client
begin

text \<open>
  The sessions of the drive control panel \<open>profinet_gateway_py/vfd_tcp_client.py\<close>: what clicking
  Connect and Disconnect does, the sockets that are opened, and the poll loops, each in its own
  thread, that run beside the window.  A poll loop that ends posts a disconnect to the window.
  Resolving and connecting is an argument, which names the exception that it raises, if any.
\<close>

section \<open>State\<close>

text \<open>The entry fields; \<open>None\<close> is a byte count that is no number.\<close>

record fields =
  fd_host :: string
  fd_port :: string
  fd_proto :: proto
  fd_outb :: "int option"
  fd_inb :: "int option"
  fd_framed :: bool

datatype cl_status = Not_connected | Bad_port | Connect_failed py_error | Connected_to proto string int

text \<open>A poll loop with its socket and what it read from the fields when it started.\<close>

record poll_worker =
  wk_sock :: nat
  wk_proto :: proto
  wk_conf :: poll_conf

text \<open>The sockets in the order in which they were opened; \<open>ap_posted\<close> counts the disconnects that
  poll loops have handed to the window.\<close>

record app =
  ap_cl :: client
  ap_socks :: "conn list"
  ap_sock :: "nat option"
  ap_workers :: "poll_worker list"
  ap_posted :: nat
  ap_status :: cl_status
  ap_button :: string

definition client_init :: client where
  "client_init = \<lparr>cl_panels = [new_panel], cl_connected = False, cl_tx = 0, cl_rx = 0, cl_rtt = 0,
     cl_rtt_min = None, cl_rtt_max = 0, cl_rtt_avg = 0, cl_posted = []\<rparr>"

definition app_init :: app where
  "app_init = \<lparr>ap_cl = client_init, ap_socks = [], ap_sock = None, ap_workers = [], ap_posted = 0,
     ap_status = Not_connected, ap_button = ''Connect''\<rparr>"

section \<open>Connecting\<close>

type_synonym net = "string \<Rightarrow> int \<Rightarrow> py_error option"

text \<open>The exception that making the socket ends with.  A port outside the range raises once the name
  is resolved; over UDP the target is kept in an attribute, which a socket object does not take.\<close>

definition open_socket :: "net \<Rightarrow> proto \<Rightarrow> string \<Rightarrow> int \<Rightarrow> py_error option" where
  "open_socket net proto host port =
     (if proto = TCP \<or> proto = STM then
        (case net host port of
           Some e \<Rightarrow> Some e
         | None \<Rightarrow> if 0 \<le> port \<and> port \<le> 65535 then None else Some OverflowError)
      else Some AttributeError)"

definition is_oserror :: "py_error \<Rightarrow> bool" where
  "is_oserror e \<longleftrightarrow> e = OSError \<or> e = SocketTimeout"

text \<open>A poll loop reads the fields first; one that finds no number there raises and is gone.\<close>

definition new_worker :: "fields \<Rightarrow> nat \<Rightarrow> nat \<Rightarrow> poll_worker list" where
  "new_worker fd n s =
     (case (fd_outb fd, fd_inb fd) of
        (Some outb, Some inb) \<Rightarrow>
          [\<lparr>wk_sock = s, wk_proto = fd_proto fd, wk_conf = poll_conf_of n outb inb (fd_framed fd)\<rparr>]
      | _ \<Rightarrow> [])"

definition client_connect :: "net \<Rightarrow> fields \<Rightarrow> conn \<Rightarrow> app \<Rightarrow> py_error option \<times> app" where
  "client_connect net fd c a =
     (let host = strip (fd_host fd) in
      case parse_dec (fd_port fd) of
        None \<Rightarrow> (None, a\<lparr>ap_status := Bad_port\<rparr>)
      | Some port \<Rightarrow>
         (case open_socket net (fd_proto fd) host port of
            Some e \<Rightarrow> if is_oserror e then (None, a\<lparr>ap_status := Connect_failed e\<rparr>) else (Some e, a)
          | None \<Rightarrow>
             (let s = length (ap_socks a) in
              (None, a\<lparr>ap_socks := ap_socks a @ [c\<lparr>c_open := True\<rparr>], ap_sock := Some s,
                 ap_cl := client_connected_ok (ap_cl a), ap_button := ''Disconnect'',
                 ap_status := Connected_to (fd_proto fd) host port,
                 ap_workers := ap_workers a @ new_worker fd (length (cl_panels (ap_cl a))) s\<rparr>))))"

definition app_disconnect :: "app \<Rightarrow> app" where
  "app_disconnect a =
     a\<lparr>ap_cl := (ap_cl a)\<lparr>cl_connected := False\<rparr>,
       ap_socks := (case ap_sock a of Some s \<Rightarrow> (ap_socks a)[s := conn_close (ap_socks a ! s)] | None \<Rightarrow> ap_socks a),
       ap_sock := None, ap_button := ''Connect'', ap_status := Not_connected\<rparr>"

definition toggle :: "net \<Rightarrow> fields \<Rightarrow> conn \<Rightarrow> app \<Rightarrow> py_error option \<times> app" where
  "toggle net fd c a = (if cl_connected (ap_cl a) then (None, app_disconnect a) else client_connect net fd c a)"

definition client_on_close :: "app \<Rightarrow> app" where
  "client_on_close a = app_disconnect a"

section \<open>The poll loops beside the window\<close>

definition drop_nth :: "nat \<Rightarrow> 'a list \<Rightarrow> 'a list" where
  "drop_nth i xs = take i xs @ drop (Suc i) xs"

text \<open>A poll loop that leaves its loop posts a disconnect; one that raises is only gone.\<close>

definition worker_ends :: "nat \<Rightarrow> app \<Rightarrow> app" where
  "worker_ends i a = a\<lparr>ap_workers := drop_nth i (ap_workers a), ap_posted := Suc (ap_posted a)\<rparr>"

definition worker_dies :: "nat \<Rightarrow> app \<Rightarrow> app" where
  "worker_dies i a = a\<lparr>ap_workers := drop_nth i (ap_workers a)\<rparr>"

text \<open>One pass of the poll loop \<open>i\<close>.  A socket that was closed raises \<open>OSError\<close>; a pass that waits for the
  network has not happened yet.\<close>

definition worker_pass :: "nat \<Rightarrow> rat \<Rightarrow> app \<Rightarrow> app" where
  "worker_pass i rtt a =
     (if i < length (ap_workers a) then
        (let w = ap_workers a ! i; s = wk_sock w; c = ap_socks a ! s in
         if \<not> cl_connected (ap_cl a) \<or> \<not> c_open c then worker_ends i a
         else
           (case poll_iter (wk_proto w) (wk_conf w) rtt (ap_cl a) c of
              (Go, cl1, c1) \<Rightarrow> a\<lparr>ap_cl := cl1, ap_socks := (ap_socks a)[s := c1]\<rparr>
            | (Break, cl1, c1) \<Rightarrow> worker_ends i (a\<lparr>ap_cl := cl1, ap_socks := (ap_socks a)[s := c1]\<rparr>)
            | (Die e, cl1, c1) \<Rightarrow> worker_dies i (a\<lparr>ap_cl := cl1, ap_socks := (ap_socks a)[s := c1]\<rparr>)
            | (Wait, _, _) \<Rightarrow> a))
      else a)"

definition run_posted :: "app \<Rightarrow> app" where
  "run_posted a = (if ap_posted a > 0 then app_disconnect (a\<lparr>ap_posted := ap_posted a - 1\<rparr>) else a)"

datatype app_event = Click net fields conn | Panels int | Pass nat rat | Posted | Close

fun app_step :: "app_event \<Rightarrow> app \<Rightarrow> app" where
  "app_step (Click net fd c) a = snd (toggle net fd c a)"
| "app_step (Panels n) a = a\<lparr>ap_cl := rebuild_panels n (ap_cl a)\<rparr>"
| "app_step (Pass i rtt) a = worker_pass i rtt a"
| "app_step Posted a = run_posted a"
| "app_step Close a = client_on_close a"

section \<open>The line of statistics\<close>

record rtt_view =
  rv_tx :: nat
  rv_rx :: nat
  rv_rtt :: "(rat \<times> rat \<times> rat \<times> rat) option"

definition refresh_status :: "client \<Rightarrow> rtt_view" where
  "refresh_status cl = \<lparr>rv_tx = cl_tx cl, rv_rx = cl_rx cl,
     rv_rtt = map_option (\<lambda>m. (cl_rtt cl, cl_rtt_avg cl, m, cl_rtt_max cl)) (cl_rtt_min cl)\<rparr>"

section \<open>Invariant\<close>

text \<open>The only open socket is the one of the session.\<close>

definition open_socks :: "app \<Rightarrow> nat list" where
  "open_socks a = filter (\<lambda>s. c_open (ap_socks a ! s)) [0 ..< length (ap_socks a)]"

fun status_ok :: "cl_status \<Rightarrow> bool \<Rightarrow> bool" where
  "status_ok (Connected_to p h port) on \<longleftrightarrow> on \<and> p \<noteq> UDP \<and> 0 \<le> port \<and> port \<le> 65535"
| "status_ok _ on \<longleftrightarrow> \<not> on"

definition app_ok :: "app \<Rightarrow> bool" where
  "app_ok a \<longleftrightarrow>
     (ap_sock a \<noteq> None) = cl_connected (ap_cl a)
     \<and> ap_button a = (if cl_connected (ap_cl a) then ''Disconnect'' else ''Connect'')
     \<and> open_socks a = (case ap_sock a of None \<Rightarrow> [] | Some s \<Rightarrow> [s])
     \<and> status_ok (ap_status a) (cl_connected (ap_cl a))
     \<and> list_all (\<lambda>w. wk_sock w < length (ap_socks a)) (ap_workers a)"

lemma open_socksD:
  assumes "app_ok a" and "s < length (ap_socks a)"
  shows "c_open (ap_socks a ! s) \<longleftrightarrow> ap_sock a = Some s"
proof -
  have "c_open (ap_socks a ! s) \<longleftrightarrow> s \<in> set (open_socks a)"
    using assms(2) by (simp add: open_socks_def)
  moreover have "open_socks a = (case ap_sock a of None \<Rightarrow> [] | Some s \<Rightarrow> [s])"
    using assms(1) by (simp add: app_ok_def)
  ultimately show ?thesis by (cases "ap_sock a") auto
qed

lemma open_socks_same: "length (ap_socks b) = length (ap_socks a) \<Longrightarrow>
    (\<And>s. s < length (ap_socks a) \<Longrightarrow> c_open (ap_socks b ! s) = c_open (ap_socks a ! s)) \<Longrightarrow> open_socks b = open_socks a"
  by (auto simp: open_socks_def intro!: filter_cong)

lemma set_drop_nth: "set (drop_nth i xs) \<subseteq> set xs"
  by (auto simp: drop_nth_def dest: in_set_takeD in_set_dropD)

lemma conn_send_open: "conn_send bs c = (ok, c1) \<Longrightarrow> c_open c1 = c_open c"
  by (auto simp: conn_send_def split: list.splits if_splits)

text \<open>A pass of the poll loop neither connects nor closes anything.\<close>

lemma poll_iter_keeps:
  "poll_iter p pc rtt cl c = (r, cl1, c1) \<Longrightarrow> cl_connected cl1 = cl_connected cl \<and> c_open c1 = c_open c"
  by (auto simp: poll_iter_def track_rtt_def Let_def dest: conn_send_open
      split: sum.splits if_splits prod.splits bool.splits rx.splits)

lemma worker_gone_ok: "app_ok a \<Longrightarrow> app_ok (worker_ends i a) \<and> app_ok (worker_dies i a)"
  using set_drop_nth by (fastforce simp: app_ok_def worker_ends_def worker_dies_def open_socks_def list_all_iff split: option.splits)

lemma step_ok_pass:
  assumes ok: "app_ok a" and i: "i < length (ap_workers a)"
    and it: "poll_iter p pc rtt (ap_cl a) (ap_socks a ! s) = (r, cl1, c1)"
  shows "app_ok (a\<lparr>ap_cl := cl1, ap_socks := (ap_socks a)[s := c1]\<rparr>)"
proof -
  let ?b = "a\<lparr>ap_cl := cl1, ap_socks := (ap_socks a)[s := c1]\<rparr>"
  note keeps = poll_iter_keeps [OF it]
  have "open_socks ?b = open_socks a"
    by (rule open_socks_same)
      (cases "s < length (ap_socks a)"; simp add: nth_list_update list_update_beyond keeps)+
  with ok keeps show ?thesis by (simp add: app_ok_def)
qed

lemma worker_pass_ok: "app_ok a \<Longrightarrow> app_ok (worker_pass i rtt a)"
  by (auto simp: worker_pass_def Let_def worker_gone_ok step_ok_pass split: prod.split step.split)

lemma open_socks_close:
  assumes "app_ok a"
  shows "open_socks (app_disconnect a) = []"
proof -
  have "\<not> c_open (ap_socks (app_disconnect a) ! s)" if "s < length (ap_socks a)" for s
    using open_socksD [OF assms that] that
    by (auto simp: app_disconnect_def nth_list_update conn_close_def split: option.split)
  moreover have "length (ap_socks (app_disconnect a)) = length (ap_socks a)"
    by (simp add: app_disconnect_def split: option.split)
  ultimately show ?thesis by (simp add: open_socks_def)
qed

lemma disconnect_ok:
  assumes ok: "app_ok a"
  shows "app_ok (app_disconnect a)"
proof -
  have "list_all (\<lambda>w. wk_sock w < length (ap_socks a)) (ap_workers a)" using ok by (simp add: app_ok_def)
  with open_socks_close [OF ok] show ?thesis
    by (simp add: app_ok_def) (simp add: app_disconnect_def split: option.split)
qed

lemma posted_ok: "app_ok a \<Longrightarrow> app_ok (run_posted a)"
proof -
  assume "app_ok a"
  then have "app_ok (a\<lparr>ap_posted := n\<rparr>)" for n by (simp add: app_ok_def open_socks_def)
  with \<open>app_ok a\<close> show ?thesis by (simp add: run_posted_def disconnect_ok)
qed

lemma open_socks_new: "open_socks a = [] \<Longrightarrow> ap_socks b = ap_socks a @ [c\<lparr>c_open := True\<rparr>] \<Longrightarrow> open_socks b = [length (ap_socks a)]"
  by (auto simp: open_socks_def filter_empty_conv nth_append)

lemma connect_ok:
  assumes ok: "app_ok a" and off: "\<not> cl_connected (ap_cl a)"
  shows "app_ok (snd (client_connect net fd c a))"
proof (cases "parse_dec (fd_port fd)")
  case None
  with ok off show ?thesis by (simp add: client_connect_def app_ok_def open_socks_def)
next
  case (Some port)
  let ?r = "open_socket net (fd_proto fd) (strip (fd_host fd)) port"
  show ?thesis
  proof (cases ?r)
    case (Some e)
    with ok off \<open>parse_dec (fd_port fd) = Some port\<close> show ?thesis
      by (simp add: client_connect_def app_ok_def open_socks_def)
  next
    case None
    then have port: "fd_proto fd \<noteq> UDP" "0 \<le> port" "port \<le> 65535"
      by (auto simp: open_socket_def split: if_splits option.splits)
    have none: "open_socks a = []" using ok off by (simp add: app_ok_def split: option.splits)
    have "list_all (\<lambda>w. wk_sock w < Suc (length (ap_socks a))) (ap_workers a)"
      using ok by (auto simp: app_ok_def list_all_iff)
    with None port ok open_socks_new [OF none] \<open>parse_dec (fd_port fd) = Some port\<close> show ?thesis
      by (simp add: client_connect_def app_ok_def client_connected_ok_def new_worker_def Let_def split: option.split)
  qed
qed

lemma step_ok: "app_ok a \<Longrightarrow> app_ok (app_step e a)"
proof (cases e)
  case (Panels n)
  assume "app_ok a"
  with Panels show ?thesis by (cases "cl_connected (ap_cl a)") (simp_all add: app_ok_def open_socks_def rebuild_panels_def)
qed (auto simp: toggle_def client_on_close_def disconnect_ok connect_ok worker_pass_ok posted_ok)

lemma steps_ok: "app_ok a \<Longrightarrow> app_ok (fold app_step evs a)"
  by (induction evs arbitrary: a) (simp_all add: step_ok)

lemma init_ok: "app_ok app_init"
  by (simp add: app_ok_def app_init_def client_init_def open_socks_def)

text \<open>A poll loop whose socket is not the one of the session ends, and its disconnect closes the session.\<close>

lemma stale_ends:
  assumes ok: "app_ok a" and i: "i < length (ap_workers a)" and stale: "ap_sock a \<noteq> Some (wk_sock (ap_workers a ! i))"
  shows "\<not> cl_connected (ap_cl (run_posted (worker_pass i rtt a)))"
proof -
  have "\<not> c_open (ap_socks a ! wk_sock (ap_workers a ! i))"
    using ok i stale open_socksD [OF ok] by (simp add: app_ok_def list_all_length)
  with i show ?thesis
    by (simp add: worker_pass_def Let_def worker_ends_def run_posted_def app_disconnect_def)
qed

section \<open>Properties\<close>

text \<open>C8: The sessions of the panel client, whatever is clicked and however the poll loops run: it is
  connected exactly while it holds a socket, which is the only open one; the button and the status
  say so; and a session is never over UDP, and its port is in range.  But a poll loop that has not
  ended when the client connects anew ends the new session.\<close>

theorem client_sessions:
  "case fold app_step evs app_init of a \<Rightarrow>
     (ap_sock a \<noteq> None) = cl_connected (ap_cl a)
     \<and> ap_button a = (if cl_connected (ap_cl a) then ''Disconnect'' else ''Connect'')
     \<and> filter (\<lambda>s. c_open (ap_socks a ! s)) [0 ..< length (ap_socks a)] = (case ap_sock a of None \<Rightarrow> [] | Some s \<Rightarrow> [s])
     \<and> status_ok (ap_status a) (cl_connected (ap_cl a))
     \<and> (\<forall>i < length (ap_workers a). ap_sock a \<noteq> Some (wk_sock (ap_workers a ! i)) \<longrightarrow>
          \<not> cl_connected (ap_cl (fold app_step [Pass i rtt, Posted] a)))"
proof -
  have "app_ok (fold app_step evs app_init)" by (rule steps_ok [OF init_ok])
  with stale_ends [OF this] show ?thesis by (simp add: app_ok_def open_socks_def)
qed

definition tcp_fields :: fields where
  "tcp_fields = \<lparr>fd_host = ''127.0.0.1'', fd_port = ''5000'', fd_proto = TCP, fd_outb = Some 4, fd_inb = Some 4,
     fd_framed = False\<rparr>"

definition fresh_conn :: conn where
  "fresh_conn = \<lparr>c_rx = [], c_send_ok = [], c_sent = [], c_open = True\<rparr>"

text \<open>Connect, Disconnect, Connect: the loop of the first session is still there and ends the second.\<close>

lemma client_sessions_witness:
  "case fold app_step (replicate 3 (Click (\<lambda>_ _. None) tcp_fields fresh_conn)) app_init of a \<Rightarrow>
     cl_connected (ap_cl a) \<and> map wk_sock (ap_workers a) = [0, 1]
     \<and> \<not> cl_connected (ap_cl (fold app_step [Pass 0 1, Posted] a))"
proof -
  let ?a = "fold app_step (replicate 3 (Click (\<lambda>_ _. None) tcp_fields fresh_conn)) app_init"
  have port: "parse_dec ''5000'' = Some 5000" by code_simp
  have a: "cl_connected (ap_cl ?a)" "map wk_sock (ap_workers ?a) = [0, 1]" "ap_sock ?a = Some 1"
    by (simp_all add: numeral_3_eq_3 toggle_def client_connect_def open_socket_def app_init_def client_init_def
        client_connected_ok_def tcp_fields_def new_worker_def app_disconnect_def Let_def port)
  then have "length (ap_workers ?a) = 2" "wk_sock (ap_workers ?a ! 0) = 0"
    by (auto simp: map_eq_Cons_conv)
  with a client_sessions [of "replicate 3 (Click (\<lambda>_ _. None) tcp_fields fresh_conn)" 1] show ?thesis
    by simp
qed

end
