(* ===== verification/Old_Bridge.thy ===== *)
theory Old_Bridge
  imports Old_Ctrl Bridge
begin

text \<open>
  The bridge of the earlier gateway (\<open>profinet_gateway/bridge.py\<close>) as a client of the buffers of
  its server and of its controller: its thread, what a pass leaves alone, that no pass ever raises,
  and which words it carries.
\<close>

section \<open>The thread\<close>

record old_bridge =
  ob_running :: bool
  ob_log :: "br_event list"

definition old_bridge_init :: old_bridge where
  "old_bridge_init = \<lparr>ob_running = False, ob_log = []\<rparr>"

definition old_bridge_start :: "old_bridge \<Rightarrow> old_bridge" where
  "old_bridge_start b =
     (if ob_running b then b else b\<lparr>ob_running := True, ob_log := ob_log b @ [BridgeStarted]\<rparr>)"

definition old_bridge_stop :: "old_bridge \<Rightarrow> old_bridge" where
  "old_bridge_stop b = b\<lparr>ob_running := False, ob_log := ob_log b @ [BridgeStopped]\<rparr>"

text \<open>The loop, for as many passes as it finds the bridge running; an exception ends the thread.\<close>

fun old_bridge_run :: "'d old_world \<Rightarrow> nat \<Rightarrow> old_gateway \<Rightarrow> old_pn \<Rightarrow> py_error option \<times> old_gateway \<times> old_pn" where
  "old_bridge_run w 0 g op = (None, g, op)"
| "old_bridge_run w (Suc k) g op =
     (case old_bridge_pass w [0 ..< length (op_devices op)] g op of
        (None, g1, op1) \<Rightarrow> old_bridge_run w k g1 op1
      | r \<Rightarrow> r)"

section \<open>The buffers\<close>

text \<open>The inputs of a device as the server sends them.\<close>

definition old_get_inputs :: "old_gateway \<Rightarrow> nat \<Rightarrow> bytes" where
  "old_get_inputs g idx = (if idx < length (og_io g) then io_inp (og_io g ! idx) else [])"

interpretation og_port: buffer_port old_get_outputs old_get_inputs old_set_inputs
  by unfold_locales
    (auto simp: old_get_outputs_def old_get_inputs_def old_set_inputs_def slice_set_def Let_def nth_list_update min_def)

section \<open>Words of 16 bits\<close>

definition dev_ok :: "old_dev \<Rightarrow> bool" where
  "dev_ok d \<longleftrightarrow> 0 \<le> ov_zsw1 d \<and> ov_zsw1 d < 65536 \<and> 0 \<le> ov_nist d \<and> ov_nist d < 65536"

text \<open>What a device shows of its drive fits the words of a frame.\<close>

definition words_ok :: "old_pn \<Rightarrow> bool" where
  "words_ok op \<longleftrightarrow> (\<forall>d \<in> set (op_devices op). dev_ok d)"

lemma words_ocall [simp]: "words_ok (ocall c op) = words_ok op"
  by (simp add: words_ok_def)

lemma words_oput: "words_ok op \<Longrightarrow> dev_ok d \<Longrightarrow> words_ok (oput i d op)"
  using set_update_subset_insert [of "op_devices op" i d] by (auto simp: words_ok_def oput_def)

lemma words_nth: "words_ok op \<Longrightarrow> i < length (op_devices op) \<Longrightarrow> dev_ok (op_devices op ! i)"
  by (simp add: words_ok_def)

lemma words_live: "words_ok op \<Longrightarrow> old_live op i = Some d \<Longrightarrow> dev_ok d"
  using old_live_Some [of op i d] by (auto simp: words_nth)

lemma devices_stop [simp]: "op_devices (old_pn_stop op) = []"
proof -
  have "op_devices (fold old_stop_dev ds p) = op_devices p" for ds and p :: old_pn
    by (induction ds arbitrary: p) (simp_all add: old_stop_dev_def)
  then show ?thesis by (simp add: old_pn_stop_def)
qed

lemma words_stop: "words_ok (old_pn_stop op)"
  by (simp add: words_ok_def)

lemma words_init_devs: "words_ok (snd s) \<Longrightarrow> words_ok (snd (fold (old_init_dev w a) dcs s))"
proof (induction dcs arbitrary: s)
  case (Cons dc dcs)
  have "words_ok (snd (old_init_dev w a dc s))"
    using Cons.prems by (auto simp: old_init_dev_def words_ok_def dev_ok_def old_new_dev_def Let_def split: prod.splits)
  then show ?case using Cons.IH by simp
qed simp

lemma words_start: "words_ok op \<Longrightarrow> words_ok (snd (old_pn_start w av a dcs op))"
  by (auto simp: old_pn_start_def words_ok_def intro!: words_init_devs [unfolded words_ok_def])

lemma words_dcp_set [simp]: "words_ok (old_dcp_set h mac dc op) = words_ok op"
  by (simp add: old_dcp_set_def Let_def)

lemma words_configure: "words_ok op \<Longrightarrow> words_ok (snd (old_configure_device w i op))"
  using words_nth [of op i]
  by (auto simp: old_configure_device_def Let_def dev_ok_def intro!: words_oput split: sum.split)

lemma words_connect_all: "words_ok op \<Longrightarrow> words_ok (snd (old_connect_all w is op))"
proof (induction "is" arbitrary: op)
  case (Cons i "is")
  from words_configure [OF Cons.prems, of w i] Cons.IH show ?case
    by (cases "old_configure_device w i op"; cases "fst (old_configure_device w i op)") auto
qed simp

lemma words_services: "words_ok op \<Longrightarrow> words_ok (snd (snd (old_start_services w av cfg g op)))"
proof -
  assume "words_ok op"
  then have "words_ok (snd (if oa_devices cfg \<noteq> [] then old_connect_all w [0 ..< length (oa_devices cfg)]
      (snd (old_pn_start w av (oa_adapter cfg) (oa_devices cfg) op)) else (None, op)))"
    by (simp add: words_connect_all words_start)
  then show ?thesis by (auto simp: old_start_services_def split: prod.splits option.splits)
qed

lemma words_discover: "words_ok op \<Longrightarrow> words_ok (snd (old_discover w av a ms op))"
  by (auto simp: old_discover_def Let_def split: prod.splits)

lemma words_write: "words_ok op \<Longrightarrow> words_ok (old_write_outputs i a b op)"
  using words_live [of op i] by (auto simp: old_write_outputs_def dev_ok_def intro!: words_oput split: option.split)

lemma words_write_raw: "words_ok op \<Longrightarrow> words_ok (old_write_raw i bs op)"
  by (simp add: old_write_raw_def split: option.split)

lemma words_out: "words_ok op \<Longrightarrow> words_ok (old_bridge_out i dc g op)"
  by (simp add: old_bridge_out_def Let_def words_write words_write_raw)

lemma words_read:
  assumes "words_ok op" and "old_read_inputs w i op = ((z, n), op1)"
  shows "0 \<le> z \<and> z < 65536 \<and> 0 \<le> n \<and> n < 65536 \<and> words_ok op1"
  using assms words_live [OF assms(1), of i]
  by (auto simp: old_read_inputs_def dev_ok_def Let_def intro!: words_oput split: option.splits prod.splits if_splits)

lemma words_read_raw: "words_ok op \<Longrightarrow> words_ok (snd (old_read_raw w i n op))"
  by (simp add: old_read_raw_def Let_def split: option.split prod.split)

section \<open>A pass\<close>

definition le_words :: "int \<Rightarrow> int \<Rightarrow> bytes" where
  "le_words a b = rev (be16 a) @ rev (be16 b)"

lemma set_words_ok:
  "0 \<le> z \<Longrightarrow> z < 65536 \<Longrightarrow> 0 \<le> n \<Longrightarrow> n < 65536 \<Longrightarrow>
   old_set_zsw1_nist i z n g = (None, old_set_inputs i (le_words z n) g)"
  by (simp add: old_set_zsw1_nist_def pack_le_def pack_H_ok le_words_def)

text \<open>A pass writes inputs, and nothing else, of the buffers.\<close>

definition inputs_only :: "old_gateway \<Rightarrow> old_gateway \<Rightarrow> bool" where
  "inputs_only g g' \<longleftrightarrow>
     (\<forall>j. old_get_outputs g' j = old_get_outputs g j \<and> length (old_get_inputs g' j) = length (old_get_inputs g j))"

lemma inputs_only_refl [simp]: "inputs_only g g"
  by (simp add: inputs_only_def)

lemma inputs_only_trans: "inputs_only g g1 \<Longrightarrow> inputs_only g1 g2 \<Longrightarrow> inputs_only g g2"
  by (simp add: inputs_only_def)

lemma inputs_only_set [simp]: "inputs_only g (old_set_inputs i d g)"
  by (simp add: inputs_only_def og_port.out_put_in og_port.length_in_put_in)

definition clean :: "old_gateway \<Rightarrow> py_error option \<times> old_gateway \<times> old_pn \<Rightarrow> bool" where
  "clean g r \<longleftrightarrow> (case r of (e, g', op') \<Rightarrow> e = None \<and> inputs_only g g' \<and> words_ok op')"

lemma clean_in: "words_ok op \<Longrightarrow> clean g (old_bridge_in w i dc g op)"
  using words_read_raw [of op w i "nat (od_input_length dc)"]
  by (auto simp: old_bridge_in_def clean_def set_words_ok dest: words_read split: prod.split)

lemma clean_device: "words_ok op \<Longrightarrow> clean g (old_bridge_device w i g op)"
  by (simp add: old_bridge_device_def Let_def clean_in words_out) (simp add: clean_def)

lemma clean_pass: "words_ok op \<Longrightarrow> clean g (old_bridge_pass w is g op)"
proof (induction "is" arbitrary: g op)
  case (Cons i "is")
  obtain e g1 op1 where d: "old_bridge_device w i g op = (e, g1, op1)" by (cases "old_bridge_device w i g op")
  with clean_device [OF Cons.prems, of g w i] have "e = None" "inputs_only g g1" "words_ok op1"
    by (simp_all add: clean_def)
  with Cons.IH [of op1 g1] d show ?case by (auto simp: clean_def intro: inputs_only_trans)
qed (simp add: clean_def)

lemma clean_run: "words_ok op \<Longrightarrow> clean g (old_bridge_run w k g op)"
proof (induction k arbitrary: g op)
  case (Suc k)
  let ?is = "[0 ..< length (op_devices op)]"
  obtain e g1 op1 where p: "old_bridge_pass w ?is g op = (e, g1, op1)" by (cases "old_bridge_pass w ?is g op")
  with clean_pass [OF Suc.prems, of g w ?is] have "e = None" "inputs_only g g1" "words_ok op1"
    by (simp_all add: clean_def)
  with Suc.IH [of op1 g1] p show ?case by (auto simp: clean_def intro: inputs_only_trans)
qed (simp add: clean_def)

lemma words_stats: "words_ok op \<Longrightarrow> words_ok (snd (old_get_stats w i op))"
  by (simp add: old_get_stats_def Let_def split: prod.split)

lemma words_step: "words_ok (snd s) \<Longrightarrow> words_ok (snd (old_step w p s))"
proof (cases s; cases p)
  fix g op "is"
  assume "words_ok (snd s)" "s = (g, op)" "p = OpBridge is"
  then show ?thesis using clean_pass [of op g w "is"] by (auto simp: clean_def split: prod.splits)
qed (auto simp: words_services old_restart_def words_stop words_discover words_write words_stats)

section \<open>Properties\<close>

text \<open>The earlier bridge, after any starts, restarts, scans, passes and stops and with any outcome of
  every call into the library: its loop never ends in an exception, however long it runs, and it
  leaves the outputs of every device and the size of every buffer of the server alone.\<close>

theorem old_bridge_never_raises:
  "case fold (old_step w) ops (g, old_pn_init ok) of (g0, op) \<Rightarrow>
   case old_bridge_run w k g0 op of (e, g1, op1) \<Rightarrow>
     e = None
     \<and> (\<forall>j. old_get_outputs g1 j = old_get_outputs g0 j \<and> length (old_get_inputs g1 j) = length (old_get_inputs g0 j))"
proof -
  have run: "words_ok (snd (fold (old_step w) ops s))" if "words_ok (snd s)" for s
    using that by (induction ops arbitrary: s) (simp_all add: words_step)
  have "words_ok (snd (fold (old_step w) ops (g, old_pn_init ok)))"
    by (rule run) (simp add: words_ok_def old_pn_init_def)
  then show ?thesis
    using clean_run by (fastforce simp: clean_def inputs_only_def split: prod.splits)
qed

end
