(* ===== verification/Old_Exchange.thy ===== *)
theory Old_Exchange
  imports Old_Bridge
begin

text \<open>
  A client of the earlier gateway and its drives: a frame over TCP into the server, a pass of the
  bridge, the calls into the library, and what the next frame answers.
\<close>

section \<open>One drive\<close>

text \<open>What a drive shows after a status call with the calls \<open>h\<close> up to it.\<close>

definition reported :: "'d old_world \<Rightarrow> old_hist \<Rightarrow> old_dev \<Rightarrow> int \<times> int" where
  "reported w h d =
     (case wo_status w h of (rc, z, n) \<Rightarrow> if rc = 0 then (z mod 65536, n mod 65536) else (ov_zsw1 d, ov_nist d))"

definition exchange_calls :: "old_dev \<Rightarrow> int \<times> int \<Rightarrow> old_call list" where
  "exchange_calls d ab = [OSetpoint (ov_handle d) (fst ab) (snd ab), OStatus (ov_handle d)]"

definition exchanged :: "'d old_world \<Rightarrow> old_hist \<Rightarrow> int \<times> int \<Rightarrow> old_dev \<Rightarrow> old_dev" where
  "exchanged w h ab d = d\<lparr>ov_stw1 := fst ab, ov_nsoll := snd ab,
     ov_zsw1 := fst (reported w h d), ov_nist := snd (reported w h d)\<rparr>"

text \<open>A connected drive with a telegram of two words each way.\<close>

definition drive_ok :: "old_dev \<Rightarrow> bool" where
  "drive_ok d \<longleftrightarrow> ov_handle d \<noteq> 0 \<and> ov_connected d \<and> dev_ok d
     \<and> od_output_length (ov_config d) = 4 \<and> od_input_length (ov_config d) = 4"

definition u16s :: "int \<times> int \<Rightarrow> bool" where
  "u16s ab \<longleftrightarrow> 0 \<le> fst ab \<and> fst ab < 65536 \<and> 0 \<le> snd ab \<and> snd ab < 65536"

lemma reported_u16s: "dev_ok d \<Longrightarrow> u16s (reported w h d)"
  by (auto simp: reported_def u16s_def dev_ok_def split: prod.split)

lemma length_le_words [simp]: "length (le_words a b) = 4"
  by (simp add: le_words_def be16_def)

lemma le_words_read:
  "u16s (a, b) \<Longrightarrow> val16 (le_words a b ! 1) (le_words a b ! 0) = a \<and> val16 (le_words a b ! 3) (le_words a b ! 2) = b"
  by (simp add: u16s_def le_words_def be16_def numeral_3_eq_3 numeral_2_eq_2 bytes_simps)

lemma bridge_device_words:
  assumes i: "i < length (op_devices op)" and d: "d = op_devices op ! i" "drive_ok d"
    and out: "old_get_outputs g i = le_words (fst ab) (snd ab)" "u16s ab"
    and h: "h = op_calls op @ exchange_calls d ab"
  shows "old_bridge_device w i g op =
    (None, old_set_inputs i (case reported w h d of (z, n) \<Rightarrow> le_words z n) g,
     op\<lparr>op_devices := (op_devices op)[i := exchanged w h ab d], op_calls := h\<rparr>)"
proof -
  obtain a b where ab: "ab = (a, b)" by (cases ab)
  let ?d1 = "d\<lparr>ov_stw1 := a, ov_nsoll := b\<rparr>"
  let ?p1 = "old_bridge_out i (ov_config d) g op"
  have live: "old_live op i = Some d" using i d by (simp add: old_live_def drive_ok_def)
  have p1: "?p1 = ocall (OSetpoint (ov_handle d) a b) (oput i ?d1 op)"
    using live d(2) out le_words_read [of a b]
    by (simp add: old_bridge_out_def old_write_outputs_def drive_ok_def ab u16s_def)
  have "old_live ?p1 i = Some ?d1"
    unfolding p1 using i d by (simp add: old_live_def oput_def drive_ok_def)
  then have rd: "old_read_inputs w i ?p1 =
      (reported w h d, op\<lparr>op_devices := (op_devices op)[i := exchanged w h ab d], op_calls := h\<rparr>)"
    by (auto simp: old_read_inputs_def p1 ocall_def oput_def h ab exchange_calls_def reported_def exchanged_def Let_def
        split: prod.split)
  obtain z n where zn: "reported w h d = (z, n)" by (cases "reported w h d")
  have "u16s (z, n)" using reported_u16s [of d w h] d(2) zn by (simp add: drive_ok_def)
  then have "old_bridge_in w i (ov_config d) g ?p1 = (None, old_set_inputs i (le_words z n) g,
      op\<lparr>op_devices := (op_devices op)[i := exchanged w h ab d], op_calls := h\<rparr>)"
    using d(2) rd zn by (simp add: old_bridge_in_def drive_ok_def u16s_def set_words_ok)
  with i d zn show ?thesis by (simp add: old_bridge_device_def old_is_connected_def drive_ok_def Let_def)
qed

section \<open>All drives\<close>

lemma bridge_pass_snoc:
  "old_bridge_pass w (is @ [i]) g op =
     (case old_bridge_pass w is g op of (None, g1, op1) \<Rightarrow> old_bridge_device w i g1 op1 | r \<Rightarrow> r)"
  by (induction "is" arbitrary: g op) (auto split: prod.split option.split)

text \<open>The calls of the first \<open>k\<close> drives.\<close>

definition calls_upto :: "old_pn \<Rightarrow> (int \<times> int) list \<Rightarrow> nat \<Rightarrow> old_hist" where
  "calls_upto op ws k = op_calls op @ concat (map (\<lambda>j. exchange_calls (op_devices op ! j) (ws ! j)) [0 ..< k])"

definition after_exchange :: "'d old_world \<Rightarrow> old_pn \<Rightarrow> (int \<times> int) list \<Rightarrow> nat \<Rightarrow> old_dev" where
  "after_exchange w op ws j = exchanged w (calls_upto op ws (Suc j)) (ws ! j) (op_devices op ! j)"

definition status_words :: "old_dev \<Rightarrow> bytes" where
  "status_words d = le_words (ov_zsw1 d) (ov_nist d)"

lemma bridge_pass_words:
  assumes ok: "list_all drive_ok (op_devices op)" and ws: "length ws = length (op_devices op)" "list_all u16s ws"
    and out: "\<And>i. i < length ws \<Longrightarrow> old_get_outputs g i = le_words (fst (ws ! i)) (snd (ws ! i))"
  shows "k \<le> length ws \<Longrightarrow> old_bridge_pass w [0 ..< k] g op =
    (None, fold (\<lambda>j. old_set_inputs j (status_words (after_exchange w op ws j))) [0 ..< k] g,
     op\<lparr>op_devices := map (\<lambda>j. if j < k then after_exchange w op ws j else op_devices op ! j) [0 ..< length ws],
        op_calls := calls_upto op ws k\<rparr>)"
proof (induction k)
  case 0
  have "map ((!) (op_devices op)) [0 ..< length ws] = op_devices op" using ws(1) by (simp add: map_nth)
  then show ?case by (simp add: calls_upto_def)
next
  case (Suc k)
  then have k: "k < length ws" by simp
  let ?d = "op_devices op ! k"
  let ?g = "fold (\<lambda>j. old_set_inputs j (status_words (after_exchange w op ws j))) [0 ..< k] g"
  let ?op = "op\<lparr>op_devices := map (\<lambda>j. if j < k then after_exchange w op ws j else op_devices op ! j) [0 ..< length ws],
     op_calls := calls_upto op ws k\<rparr>"
  have h: "calls_upto op ws (Suc k) = op_calls ?op @ exchange_calls ?d (ws ! k)"
    by (simp add: calls_upto_def)
  have "old_bridge_device w k ?g ?op =
      (None, old_set_inputs k (case reported w (calls_upto op ws (Suc k)) ?d of (z, n) \<Rightarrow> le_words z n) ?g,
       ?op\<lparr>op_devices := (op_devices ?op)[k := exchanged w (calls_upto op ws (Suc k)) (ws ! k) ?d],
           op_calls := calls_upto op ws (Suc k)\<rparr>)"
    using k ok ws out [OF k] h
    by (intro bridge_device_words) (simp_all add: list_all_length og_port.out_fold)
  moreover have "(case reported w (calls_upto op ws (Suc k)) ?d of (z, n) \<Rightarrow> le_words z n) = status_words (after_exchange w op ws k)"
    by (simp add: status_words_def after_exchange_def exchanged_def split: prod.split)
  moreover have "(op_devices ?op)[k := exchanged w (calls_upto op ws (Suc k)) (ws ! k) ?d]
      = map (\<lambda>j. if j < Suc k then after_exchange w op ws j else op_devices op ! j) [0 ..< length ws]"
    using k by (intro nth_equalityI) (auto simp: nth_list_update after_exchange_def less_Suc_eq)
  ultimately show ?case using Suc.IH k by (simp add: bridge_pass_snoc)
qed

section \<open>The frame\<close>

text \<open>The server and the controller have the same devices, each a connected drive with its buffers.\<close>

definition exchange_ready :: "old_gateway \<Rightarrow> old_pn \<Rightarrow> bool" where
  "exchange_ready g op \<longleftrightarrow>
     list_all drive_ok (op_devices op) \<and> og_devices g = map ov_config (op_devices op)
     \<and> length (og_io g) = length (op_devices op)
     \<and> list_all (\<lambda>io. length (io_out io) = 4 \<and> length (io_inp io) = 4) (og_io g)"

definition word_frame :: "(int \<times> int) list \<Rightarrow> bytes" where
  "word_frame ws = concat (map (\<lambda>(a, b). le_words a b) ws)"

lemma length_word_frame: "length (word_frame ws) = 4 * length ws"
  by (induction ws) (auto simp: word_frame_def)

lemma ready_sizes:
  assumes "exchange_ready g op"
  shows "old_out_size g = int (4 * length (op_devices op))" and "old_inp_size g = int (4 * length (op_devices op))"
proof -
  have "sum_list (map (od_output_length \<circ> ov_config) ds) = int (4 * length ds)"
    "sum_list (map (od_input_length \<circ> ov_config) ds) = int (4 * length ds)" if "list_all drive_ok ds" for ds
    using that by (induction ds) (auto simp: drive_ok_def)
  with assms show "old_out_size g = int (4 * length (op_devices op))" "old_inp_size g = int (4 * length (op_devices op))"
    by (simp_all add: exchange_ready_def old_out_size_def old_inp_size_def)
qed

lemma ready_apply:
  assumes r: "exchange_ready g op" and ws: "length ws = length (op_devices op)"
  shows "old_apply (word_frame ws) g = (None, g\<lparr>og_io := map2 (\<lambda>io ab. io\<lparr>io_out := le_words (fst ab) (snd ab)\<rparr>) (og_io g) ws\<rparr>)"
proof -
  let ?ds = "map (\<lambda>(a, b). le_words a b) ws"
  have "list_all2 (\<lambda>dc d. int (length d) = total_output_length dc) (map embed_dev (og_devices g)) ?ds"
    using r ws by (auto simp: exchange_ready_def list_all2_conv_all_nth list_all_length drive_ok_def case_prod_beta)
  moreover have "list_all2 (\<lambda>io d. length (io_out io) \<le> length d) (og_io g) ?ds"
    using r ws by (auto simp: exchange_ready_def list_all2_conv_all_nth list_all_length case_prod_beta)
  ultimately have "old_distribute (word_frame ws) 0 0 (og_devices g) (og_io g)
      = (None, map2 (\<lambda>io d. io\<lparr>io_out := d\<rparr>) (og_io g) ?ds)"
    using apply_flat_slices [of "map embed_dev (og_devices g)" ?ds "og_io g" "[]" "[]" "[]"]
    by (simp add: distribute_embed word_frame_def)
  then show ?thesis
    by (simp add: old_apply_def zip_map2 comp_def case_prod_beta)
qed

lemma inp_frame_all:
  assumes "length (og_io g) = length (og_devices g)"
  shows "old_inp_frame g = Inr (concat (map (old_get_inputs g) [0 ..< length (og_devices g)]))"
proof -
  have "map_err (flat_part (og_io g)) [0 ..< length (og_devices g)] = Inr (map (old_get_inputs g) [0 ..< length (og_devices g)])"
    by (rule map_err_Inr) (simp add: flat_part_def old_get_inputs_def assms)
  then show ?thesis by (simp add: old_inp_frame_def)
qed

lemma ready_iter:
  assumes r: "exchange_ready g op" and ws: "length ws = length (op_devices op)" "0 < length ws"
    and c: "steady (c_rx c)" "stream (c_rx c) = word_frame ws" "c_send_ok c = []"
  shows "\<exists>c1. old_tcp_iter (old_out_size g) (old_inp_size g) g c =
    (Go, g\<lparr>og_io := map2 (\<lambda>io ab. io\<lparr>io_out := le_words (fst ab) (snd ab)\<rparr>) (og_io g) ws\<rparr>, c1)"
proof -
  let ?g1 = "g\<lparr>og_io := map2 (\<lambda>io ab. io\<lparr>io_out := le_words (fst ab) (snd ab)\<rparr>) (og_io g) ws\<rparr>"
  let ?n = "nat (old_out_size g)"
  have n: "?n = length (word_frame ws)" using ws by (simp add: ready_sizes [OF r] length_word_frame)
  have "TimedOut \<notin> set (c_rx c)" using c(1) by (auto simp: steady_def)
  moreover obtain es where "recv_exact ?n 2 [] 0 (c_rx c) = (Got (word_frame ws), es)"
    using recv_exact_stream [OF c(1), of "[]" ?n 2 0] c(2) n by auto
  ultimately have rx: "old_recv_exact ?n [] (c_rx c) = (Got (word_frame ws), es)"
    using recv_agree [of "c_rx c" ?n 2 "[]" 0] by simp
  have len: "length (og_io ?g1) = length (og_devices ?g1)" using r ws by (simp add: exchange_ready_def)
  from rx inp_frame_all [OF len] show ?thesis
    using ws c(3) ready_sizes [OF r] ready_apply [OF r ws(1)]
    by (simp add: old_tcp_iter_def old_send_def conn_send_def Let_def)
qed

section \<open>The calls of a pass\<close>

lemma length_calls_upto: "length (calls_upto op ws k) = length (op_calls op) + 2 * k"
  by (induction k) (simp_all add: calls_upto_def exchange_calls_def)

lemma take_calls:
  assumes "k \<le> n"
  shows "take (length (op_calls op) + 2 * k) (calls_upto op ws n) = calls_upto op ws k"
proof -
  have "[0 ..< n] = [0 ..< k] @ [k ..< n]" using assms by (metis le_add_diff_inverse le0 upt_add_eq_append)
  then have "calls_upto op ws n = calls_upto op ws k @ concat (map (\<lambda>j. exchange_calls (op_devices op ! j) (ws ! j)) [k ..< n])"
    by (simp add: calls_upto_def)
  then show ?thesis by (simp flip: length_calls_upto [of op ws])
qed

lemma calls_all:
  assumes "length ws = length (op_devices op)"
  shows "calls_upto op ws (length ws) = op_calls op @ concat (map2 (\<lambda>d ab.
      [OSetpoint (ov_handle d) (fst ab) (snd ab), OStatus (ov_handle d)]) (op_devices op) ws)"
proof -
  have "map (\<lambda>j. exchange_calls (op_devices op ! j) (ws ! j)) [0 ..< length ws] = map2 exchange_calls (op_devices op) ws"
    by (intro nth_equalityI) (simp_all add: assms)
  then show ?thesis by (simp add: calls_upto_def exchange_calls_def)
qed

lemma set_inputs_fold:
  "length (og_io (fold (\<lambda>j. old_set_inputs j (f j)) is g)) = length (og_io g)
   \<and> og_devices (fold (\<lambda>j. old_set_inputs j (f j)) is g) = og_devices g"
  by (induction "is" arbitrary: g) (simp_all add: old_set_inputs_def Let_def)

section \<open>Properties\<close>

text \<open>C31: The way from a client of the earlier gateway to its drives and back, for any number of
  connected drives with two words each way: of a frame of words, low byte first, each drive is
  called with its own two, in the order of the devices and with one status call behind each; and the
  frame that the next request is answered with holds for each drive the two words of its status call,
  or those from before where that call failed.\<close>

theorem old_exchange:
  assumes ready: "exchange_ready g op" and ws: "length ws = length (op_devices op)" "0 < length ws" "list_all u16s ws"
    and c: "steady (c_rx c)" "stream (c_rx c) = word_frame ws" "c_send_ok c = []"
  shows "\<exists>g1 c1 g2 op2. old_tcp_iter (old_out_size g) (old_inp_size g) g c = (Go, g1, c1)
    \<and> old_bridge_pass w [0 ..< length ws] g1 op = (None, g2, op2)
    \<and> op_calls op2 = op_calls op @ concat (map2 (\<lambda>d ab.
        [OSetpoint (ov_handle d) (fst ab) (snd ab), OStatus (ov_handle d)]) (op_devices op) ws)
    \<and> old_inp_frame g2 = Inr (word_frame (map (\<lambda>j.
        case wo_status w (take (length (op_calls op) + 2 * Suc j) (op_calls op2)) of (rc, z, n) \<Rightarrow>
          if rc = 0 then (z mod 65536, n mod 65536) else (ov_zsw1 (op_devices op ! j), ov_nist (op_devices op ! j)))
        [0 ..< length ws]))"
proof -
  let ?g1 = "g\<lparr>og_io := map2 (\<lambda>io ab. io\<lparr>io_out := le_words (fst ab) (snd ab)\<rparr>) (og_io g) ws\<rparr>"
  let ?st = "\<lambda>j. status_words (after_exchange w op ws j)"
  let ?g2 = "fold (\<lambda>j. old_set_inputs j (?st j)) [0 ..< length ws] ?g1"
  have io: "length (og_io g) = length ws" using ready ws by (simp add: exchange_ready_def)
  have out: "old_get_outputs ?g1 i = le_words (fst (ws ! i)) (snd (ws ! i))" if "i < length ws" for i
    using that io by (simp add: old_get_outputs_def)
  have ok: "list_all drive_ok (op_devices op)" using ready by (simp add: exchange_ready_def)
  note pass = bridge_pass_words [OF ok ws(1,3) out, of "length ws" w, OF _ order_refl]
  have size: "length (?st i) = length (old_get_inputs ?g1 i)" if "i < length ws" for i
    using that io ready by (simp add: status_words_def old_get_inputs_def exchange_ready_def list_all_length)
  have g2: "old_get_inputs ?g2 j = ?st j" if "j < length ws" for j
    using og_port.in_fold [of "length ws" ?st ?g1 j] size that by simp
  have ln: "length (og_io ?g2) = length (og_devices ?g2)" "length (og_devices ?g2) = length ws"
    using ready ws(1) io by (simp_all add: set_inputs_fold exchange_ready_def)
  have eq: "map (old_get_inputs ?g2) [0 ..< length ws] = map ?st [0 ..< length ws]"
    by (rule map_cong) (simp_all add: g2)
  have "old_inp_frame ?g2 = Inr (concat (map ?st [0 ..< length ws]))"
    unfolding inp_frame_all [OF ln(1)] ln(2) eq ..
  moreover have "?st j = (case reported w (calls_upto op ws (Suc j)) (op_devices op ! j) of (a, b) \<Rightarrow> le_words a b)" for j
    by (simp add: status_words_def after_exchange_def exchanged_def case_prod_beta)
  ultimately have frame: "old_inp_frame ?g2 = Inr (word_frame (map (\<lambda>j. reported w (calls_upto op ws (Suc j)) (op_devices op ! j))
      [0 ..< length ws]))"
    by (simp add: word_frame_def comp_def)
  have calls: "calls_upto op ws (length ws) = op_calls op @ concat (map2 (\<lambda>d ab.
      [OSetpoint (ov_handle d) (fst ab) (snd ab), OStatus (ov_handle d)]) (op_devices op) ws)"
    by (rule calls_all [OF ws(1)])
  have "map (\<lambda>j. reported w (calls_upto op ws (Suc j)) (op_devices op ! j)) [0 ..< length ws] =
      map (\<lambda>j. case wo_status w (take (length (op_calls op) + 2 * Suc j) (calls_upto op ws (length ws))) of (rc, z, n) \<Rightarrow>
          if rc = 0 then (z mod 65536, n mod 65536) else (ov_zsw1 (op_devices op ! j), ov_nist (op_devices op ! j))) [0 ..< length ws]"
    by (rule map_cong) (simp_all add: reported_def take_calls del: mult_Suc_right)
  note answer = frame [unfolded this]
  obtain c1 where it: "old_tcp_iter (old_out_size g) (old_inp_size g) g c = (Go, ?g1, c1)"
    using ready_iter [OF ready ws(1,2) c] by blast
  let ?op2 = "op\<lparr>op_devices := map (\<lambda>j. if j < length ws then after_exchange w op ws j else op_devices op ! j) [0 ..< length ws],
     op_calls := calls_upto op ws (length ws)\<rparr>"
  have op2: "op_calls ?op2 = calls_upto op ws (length ws)" by simp
  show ?thesis
    by (rule exI [of _ ?g1], rule exI [of _ c1], rule exI [of _ ?g2], rule exI [of _ ?op2], intro conjI, rule it, rule pass)
      (simp_all only: op2 calls [symmetric] answer)
qed

lemma old_exchange_witness:
  "\<exists>g1 c1 g2 op2. old_tcp_iter 4 4 demo_old old_conn = (Go, g1, c1)
    \<and> old_bridge_pass quiet_world [0] g1 force_pn = (None, g2, op2)
    \<and> op_calls op2 = [OSetpoint 7 0x047F 0x2000, OStatus 7] \<and> old_inp_frame g2 = Inr [0x37, 0x06, 0, 0]"
proof -
  have ready: "exchange_ready demo_old force_pn"
    by (simp add: exchange_ready_def demo_old_def force_pn_def drive_ok_def dev_ok_def old_new_dev_def demo_old_device_def)
  have frame: "stream (c_rx old_conn) = word_frame [(0x047F, 0x2000)]" "steady (c_rx old_conn)" "c_send_ok old_conn = []"
    by (simp_all add: old_conn_def word_frame_def le_words_def be16_def)
  have sizes: "old_out_size demo_old = 4" "old_inp_size demo_old = 4"
    by (simp_all add: ready_sizes [OF ready]) (simp_all add: force_pn_def)
  have "word_frame [(0x0637, 0)] = [0x37, 0x06, 0, 0]"
    by (simp add: word_frame_def le_words_def be16_def)
  then show ?thesis
    using old_exchange [OF ready _ _ _ frame(2,1,3), of quiet_world] sizes
    by (simp add: force_pn_def quiet_world_def u16s_def)
qed

end
