(* ===== verification/Ui_Popups.thy ===== *)
theory Ui_Popups
  imports Ui_Discovery Old_Views
begin

text \<open>
  The small windows over the device dialogs and the diagnostic windows, of the present and of the
  earlier gateway: the list to choose from, the table of a scan
  (\<open>profinet_gateway_py/ui/device_dialog.py\<close>, \<open>profinet_gateway/ui/device_dialog.py\<close>), and the
  statistics (\<open>io_diagnostic.py\<close> of both).  A text is its UTF-8 bytes.
\<close>

section \<open>Choosing from a list\<close>

text \<open>The first item is selected to begin with; OK calls with the selected one, if there is one.\<close>

definition chooser_default :: "'i list \<Rightarrow> nat option" where
  "chooser_default items = (if items \<noteq> [] then Some 0 else None)"

definition chooser_ok :: "(nat \<Rightarrow> 'a \<Rightarrow> 'err + 'a) \<Rightarrow> nat option \<Rightarrow> 'a \<Rightarrow> 'err + 'a" where
  "chooser_ok on_ok sel x = (case sel of Some i \<Rightarrow> on_ok i x | None \<Rightarrow> Inr x)"

definition add_module :: "nat option \<Rightarrow> dialog \<Rightarrow> py_error + dialog" where
  "add_module sel dg = (if gv_modules (dg_gsdml dg) = [] then Inr dg else chooser_ok do_add_module sel dg)"

section \<open>The scan of a device dialog\<close>

text \<open>The values of a row of the table widget: a text that reads as a number comes back as the number.\<close>

definition tk_value :: "string \<Rightarrow> string" where
  "tk_value s = (case parse_dec s of Some i \<Rightarrow> dec_int i | None \<Rightarrow> s)"

definition ellipsis :: string where
  "ellipsis = [char_of (0xE2 :: nat), char_of (0x80 :: nat), char_of (0xA6 :: nat)]"

record scan_win =
  sn_status :: string
  sn_table :: "(string \<times> string \<times> string) list option"

definition scan_row :: "scan_result \<Rightarrow> string \<times> string \<times> string" where
  "scan_row d = (rstrip_nul (sr_name_of_station d), rstrip_nul (sr_ip_str d), mac_bytes_to_str (sr_mac d))"

definition show_scan_result :: "scan_result list \<Rightarrow> scan_win \<Rightarrow> scan_win" where
  "show_scan_result ds sn =
     (if ds = [] then sn\<lparr>sn_status := ''No devices found''\<rparr>
      else \<lparr>sn_status = ''Found '' @ dec_digits (length ds) @ '' device(s)'', sn_table = Some (map scan_row ds)\<rparr>)"

text \<open>The callback for a scan that raised reads the name of the exception after its handler has ended,
  and raises itself: the status stays.\<close>

definition do_scan :: "py_error + scan_result list \<Rightarrow> scan_win \<Rightarrow> scan_win" where
  "do_scan outcome sn = (case outcome of Inl e \<Rightarrow> sn | Inr ds \<Rightarrow> show_scan_result ds sn)"

definition on_scan :: "scan_win \<Rightarrow> scan_win" where
  "on_scan sn = sn\<lparr>sn_status := ''Scanning'' @ ellipsis\<rparr>"

text \<open>The Select button, with the selected row.\<close>

definition pick_scanned :: "nat option \<Rightarrow> scan_win \<Rightarrow> dialog \<Rightarrow> scan_win \<times> dialog" where
  "pick_scanned sel sn dg =
     (case sn_table sn of
        None \<Rightarrow> (sn, dg)
      | Some rows \<Rightarrow>
          (sn\<lparr>sn_table := None\<rparr>,
           case sel of
             None \<Rightarrow> dg
           | Some i \<Rightarrow> (case rows ! i of (nm, ip, mac) \<Rightarrow> scan_select (tk_value nm) (tk_value ip) (tk_value mac) dg)))"

definition old_on_scan :: "scan_win \<Rightarrow> scan_win" where
  "old_on_scan sn = sn\<lparr>sn_status := ''Scanning'' @ ellipsis @ '' (2s)''\<rparr>"

text \<open>In the earlier dialog a window without a selection stays.\<close>

definition old_pick_scanned :: "nat option \<Rightarrow> scan_win \<Rightarrow> old_dialog \<Rightarrow> scan_win \<times> old_dialog" where
  "old_pick_scanned sel sn dg =
     (case (sn_table sn, sel) of
        (Some rows, Some i) \<Rightarrow>
          (case rows ! i of (nm, ip, mac) \<Rightarrow>
             (sn\<lparr>sn_table := None, sn_status := ''Selected: '' @ tk_value nm\<rparr>,
              old_scan_select (tk_value nm) (tk_value ip) (tk_value mac) dg))
      | _ \<Rightarrow> (sn, dg))"

section \<open>Statistics\<close>

text \<open>A time is shown in milliseconds and whole microseconds, or as a dash when it is zero; the header
  of a group of rows has no value.\<close>

datatype stat_val = Num int | Flag bool | Time "(rat \<times> int) option" | Ms rat | Heading | Note string

definition us_shown :: "rat \<Rightarrow> stat_val" where
  "us_shown v = Time (if v \<noteq> 0 then Some (v / 1000, trunc v) else None)"

definition stats_rows :: "stats \<Rightarrow> (string \<times> stat_val) list" where
  "stats_rows st =
     [(''Frames Sent'', Num (st_frames_sent st)), (''Frames Received'', Num (st_frames_received st)),
      (''Missed Cycles'', Num (st_missed_cycles st)), (''Invalid Frames'', Num (st_frames_invalid st)),
      (''Consec. Timeouts'', Num (st_consecutive_timeouts st)), (''Connected'', Flag (st_connected st \<noteq> 0)),
      (''Cyclic Running'', Flag (st_cyclic_running st \<noteq> 0)),
      (em_dash @ '' Cyclic latency '' @ em_dash, Heading),
      (''Cycle time (last)'', us_shown (of_int (st_last_cycle_us st))), (''Cycle time (avg)'', us_shown (st_avg_cycle_us st)),
      (''Cycle time (min)'', us_shown (of_int (st_min_cycle_us st))), (''Cycle time (max)'', us_shown (of_int (st_max_cycle_us st))),
      (''Max jitter'', us_shown (of_int (st_max_jitter_us st)))]"

text \<open>The estimate for the way through the gateway and back: two polls of the bridge and two cycles.\<close>

definition round_trip_rows :: "stats \<Rightarrow> (string \<times> stat_val) list" where
  "round_trip_rows st =
     (let cyc_ms = (if st_avg_cycle_us st \<noteq> 0 then st_avg_cycle_us st else of_int (st_last_cycle_us st)) / 1000 in
      if cyc_ms > 0 then
        [(em_dash @ '' Round-trip '' @ em_dash, Heading), (''Bridge poll'', Ms BRIDGE_PERIOD_MS),
         (''Est. gw'' @ [char_of (0xE2 :: nat), char_of (0x86 :: nat), char_of (0x94 :: nat)] @ ''drive round-trip'',
          Ms (2 * BRIDGE_PERIOD_MS + 2 * cyc_ms)),
         (''  (+ your TCP RTT)'', Note ''= full LabVIEW loop'')]
      else [])"

definition show_stats :: "'c cyc_ops \<Rightarrow> nat \<Rightarrow> string \<Rightarrow> 'c pn_ctrl \<Rightarrow> (string \<times> (string \<times> stat_val) list) option" where
  "show_stats ops idx station pn =
     (case get_stats ops (int idx) pn of
        None \<Rightarrow> None
      | Some st \<Rightarrow> Some (''Stats '' @ em_dash @ '' '' @ or_else station ''Device'', stats_rows st @ round_trip_rows st))"

definition old_stats_rows :: "old_stats \<Rightarrow> (string \<times> stat_val) list" where
  "old_stats_rows st =
     [(''Frames Sent'', Num (ot_frames_sent st)), (''Frames Received'', Num (ot_frames_received st)),
      (''Missed Cycles'', Num (ot_missed_cycles st)), (''Watchdog Timeouts'', Num (ot_watchdog_timeouts st)),
      (''Cycle Counter'', Num (ot_cycle_counter st)), (''Connected'', Flag (ot_connected st \<noteq> 0)),
      (''Cyclic Running'', Flag (ot_cyclic_running st \<noteq> 0))]"

definition old_show_stats :: "'d old_world \<Rightarrow> nat \<Rightarrow> string \<Rightarrow> old_pn \<Rightarrow> (string \<times> (string \<times> stat_val) list) option \<times> old_pn" where
  "old_show_stats w idx station op =
     (case old_get_stats w idx op of (st, op1) \<Rightarrow>
        (map_option (\<lambda>st. (''Stats '' @ em_dash @ '' '' @ or_else station ''Device'', old_stats_rows st)) st, op1))"

section \<open>Texts that are no numbers\<close>

lemma digits_val_None: "c \<in> set s \<Longrightarrow> hex_digit c = None \<Longrightarrow> c \<noteq> CHR ''_'' \<Longrightarrow> digits_val b s acc = None"
proof (induction b s acc rule: digits_val.induct)
  case (2 b d ds acc)
  then show ?case by (cases "c = d") (auto split: list.splits option.splits)
qed simp

lemma literal_val_None: "c \<in> set s \<Longrightarrow> hex_digit c = None \<Longrightarrow> c \<noteq> CHR ''_'' \<Longrightarrow> literal_val b s = None"
  by (auto simp: literal_val_def digits_val_None split: list.split)

text \<open>A text with a character that no number has is none.\<close>

lemma parse_dec_None:
  assumes "c \<in> set s" "hex_digit c = None" "c \<noteq> CHR ''_''" "c \<noteq> CHR ''-''" "c \<noteq> CHR ''+''" "\<not> is_space c"
  shows "parse_dec s = None"
proof -
  have "c \<in> set (strip s)" using assms in_set_strip by blast
  then show ?thesis
    using assms literal_val_None [OF _ assms(2,3)]
    by (auto simp: parse_dec_def signed_val_def split: list.split)
qed

lemma tk_value_dot: "CHR ''.'' \<in> set s \<Longrightarrow> tk_value s = s"
  by (simp add: tk_value_def parse_dec_None [of "CHR ''.''"] hex_digit_def is_space_def ord_c_def)

lemma tk_value_colon: "CHR '':'' \<in> set s \<Longrightarrow> tk_value s = s"
  by (simp add: tk_value_def parse_dec_None [of "CHR '':''"] hex_digit_def is_space_def ord_c_def)

lemma colon_mac: "2 \<le> length mac \<Longrightarrow> CHR '':'' \<in> set (mac_bytes_to_str mac)"
  by (cases mac; cases "tl mac") (auto simp: mac_bytes_to_str_def)

section \<open>What is taken over from a scan\<close>

text \<open>Choosing the device in row \<open>i\<close> of the table takes over its hardware address, which reads back as
  the one that the scan found, and its address; and its name, unless that reads as a number: then
  the number comes instead, without leading zeros, in the present as in the earlier dialog.\<close>

theorem scan_picked:
  assumes "i < length ds" and "2 \<le> length (sr_mac (ds ! i))" and "CHR ''.'' \<in> set (rstrip_nul (sr_ip_str (ds ! i)))"
  shows "case pick_scanned (Some i) (do_scan (Inr ds) (on_scan sn)) dg of (sn1, dg1) \<Rightarrow>
           mac_raw (dg_mac dg1) = Inr (sr_mac (ds ! i))
           \<and> dg_ip dg1 = rstrip_nul (sr_ip_str (ds ! i))
           \<and> dg_name dg1 = (case parse_dec (rstrip_nul (sr_name_of_station (ds ! i))) of
                             None \<Rightarrow> rstrip_nul (sr_name_of_station (ds ! i)) | Some k \<Rightarrow> dec_int k)
           \<and> sn_table sn1 = None
           \<and> (case old_pick_scanned (Some i) (do_scan (Inr ds) (old_on_scan sn)) odg of (_, odg1) \<Rightarrow>
                (odg_name odg1, odg_ip odg1, odg_mac odg1) = (dg_name dg1, dg_ip dg1, dg_mac dg1))"
proof -
  have "ds \<noteq> []" "sr_mac (ds ! i) \<noteq> []" using assms by auto
  then show ?thesis
    using assms tk_value_dot [OF assms(3)] tk_value_colon [OF colon_mac [OF assms(2)]] mac_raw_text [of "sr_mac (ds ! i)"]
    by (simp add: pick_scanned_def old_pick_scanned_def do_scan_def show_scan_result_def scan_row_def scan_select_def
        old_scan_select_def tk_value_def)
qed

lemma scan_zeros_lost:
  "case pick_scanned (Some 0) (do_scan (Inr [\<lparr>sr_name_of_station = ''0815'', sr_ip_str = ''10.0.0.5'', sr_mac = [2, 0, 0, 0, 0, 5],
       sr_netmask = [], sr_gateway = [], sr_vendor_name = [], sr_vendor_id = 0, sr_device_id = 0\<rparr>]) sn) dg of (_, dg1) \<Rightarrow>
     dg_name dg1 = ''815''"
proof -
  have nm: "tk_value (rstrip_nul ''0815'') = ''815''" by code_simp
  then show ?thesis
    by (simp add: pick_scanned_def do_scan_def show_scan_result_def scan_row_def scan_select_def)
qed

section \<open>What the statistics show\<close>

text \<open>The estimate is shown exactly when a cycle has been timed, and is never below two polls; it is
  computed from the mean as soon as there is one.\<close>

lemma round_trip_shown:
  "0 \<le> st_avg_cycle_us st \<Longrightarrow> 0 \<le> st_last_cycle_us st \<Longrightarrow>
   (round_trip_rows st \<noteq> []) = (st_avg_cycle_us st \<noteq> 0 \<or> st_last_cycle_us st \<noteq> 0)
   \<and> (\<forall>l t. (l, Ms t) \<in> set (round_trip_rows st) \<longrightarrow> BRIDGE_PERIOD_MS \<le> t)"
  by (auto simp: round_trip_rows_def Let_def BRIDGE_PERIOD_MS_def)

text \<open>The window opens for every device that is there, connected or not, and says so.\<close>

lemma show_stats_connected:
  "i < device_count pn \<Longrightarrow>
   \<exists>t rows. show_stats ops i nm pn = Some (t, rows) \<and> map_of rows ''Connected'' = Some (Flag (ds_connected (pn_devices pn ! i)))"
  using device_state_at [of i pn]
  by (auto simp: show_stats_def get_stats_def device_state_def stats_rows_def default_stats_def Let_def split: option.split)

end
