(* ===== verification/Ui_Panes.thy ===== *)
theory Ui_Panes
  imports Ui_Popups
begin

text \<open>
  The device dialog of \<open>profinet_gateway_py/ui/device_dialog.py\<close> as a window: its navigation and
  panes, the rows of the rack with their selection, the details, the view of the description file,
  and what its info panes show, over the dialog of \<open>Ui_Device\<close>.  The handlers are the steps of a
  relation; opening a window of its own, a step ends when that window is closed.
\<close>

section \<open>State\<close>

datatype pane = General | Modules | DeviceInfo | ModuleInfo | GsdmlViewer

text \<open>What can be selected in the navigation: one of the two headings, or a pane.\<close>

datatype nav_item = Heading_Configuration | Heading_Description | Nav pane

record dialog_win =
  wn_dialog :: dialog
  wn_title :: string
  wn_header :: "string \<times> string"
  wn_nav :: "nav_item option"
  wn_packed :: "pane list"
  wn_variant_text :: string
  wn_variant_names :: "string list"
  wn_info_variant :: string
  wn_info :: "(string \<times> string) list"
  wn_module_rows :: "(string \<times> string \<times> nat) list"
  wn_rack :: "rack_row list"
  wn_len :: string
  wn_sel :: "string option"
  wn_details :: "data_item list"
  wn_viewer :: viewer
  wn_scan_status :: string
  wn_tables :: "(string \<times> string \<times> string) list list"

definition PANES :: "pane list" where
  "PANES = [General, Modules, DeviceInfo, ModuleInfo, GsdmlViewer]"

section \<open>The info panes\<close>

definition device_info_rows :: "gsdml_device \<Rightarrow> (string \<times> string) list" where
  "device_info_rows g =
     [(''Device family'', or_else (if gv_vendor_name g = [] then [] else gv_device_name g) (gv_device_name g)),
      (''Vendor name'', or_else (gv_vendor_name g) em_dash),
      (''Vendor ID'', ''0x'' @ word_text (gv_vendor_id g)),
      (''Device ID'', ''0x'' @ word_text (gv_device_id g)),
      (''Variants in GSDML'', dec_digits (length (gv_daps g))),
      (''Modules in catalog'', dec_digits (length (gv_modules g))),
      (''GSDML file'', basename (gv_path g))]"

text \<open>\<open>f''0x{ident:08X}''\<close>, the sign counted in the width.\<close>

definition ident_text :: "int \<Rightarrow> string" where
  "ident_text v = ''0x'' @ (if v < 0 then ''-'' @ hex_fmt 7 (nat (- v)) else hex_fmt 8 (nat v))"

definition module_info_rows :: "gsdml_device \<Rightarrow> (string \<times> string \<times> nat) list" where
  "module_info_rows g = map (\<lambda>m. (mi_name m, ident_text (mi_ident m), length (mi_submodules m))) (gv_modules g)"

definition header_text :: "gsdml_device \<Rightarrow> string \<times> string" where
  "header_text g = (''IO Device:  '' @ gv_device_name g,
     ''Vendor 0x'' @ word_text (gv_vendor_id g) @ ''   Device 0x'' @ word_text (gv_device_id g))"

section \<open>Panes\<close>

text \<open>The tree of the description file, where it can be read.\<close>

definition show_pane :: "(string \<Rightarrow> xml option) \<Rightarrow> pane \<Rightarrow> dialog_win \<Rightarrow> dialog_win" where
  "show_pane tree p w =
     (let w1 = w\<lparr>wn_packed := fold removeAll PANES (wn_packed w) @ [p]\<rparr>
      in if p = GsdmlViewer
         then w1\<lparr>wn_viewer := populate_viewer (tree (gv_path (dg_gsdml (wn_dialog w)))) (wn_viewer w)\<rparr> else w1)"

definition on_nav :: "(string \<Rightarrow> xml option) \<Rightarrow> dialog_win \<Rightarrow> dialog_win" where
  "on_nav tree w = (case wn_nav w of Some (Nav p) \<Rightarrow> show_pane tree p w | _ \<Rightarrow> w)"

definition select_nav :: "(string \<Rightarrow> xml option) \<Rightarrow> pane \<Rightarrow> dialog_win \<Rightarrow> dialog_win" where
  "select_nav tree p w = show_pane tree p (w\<lparr>wn_nav := Some (Nav p)\<rparr>)"

text \<open>The rows are deleted, and the selection with them.\<close>

definition show_rack :: "dialog_win \<Rightarrow> dialog_win" where
  "show_rack w = w\<lparr>wn_rack := fst (refresh_rack (wn_dialog w)), wn_len := snd (refresh_rack (wn_dialog w)), wn_sel := None\<rparr>"

definition window_title :: "gsdml_device \<Rightarrow> string" where
  "window_title g = ''netDevice '' @ em_dash @ '' Configuration  '' @ gv_device_name g"

text \<open>The box of variants before one is chosen.\<close>

definition variant_box :: "gsdml_device \<Rightarrow> string" where
  "variant_box g = (if gv_daps g = [] then ''(no variants in GSDML)'' else [])"

definition new_window :: "device_config \<Rightarrow> gsdml_device \<Rightarrow> dialog \<Rightarrow> dialog_win" where
  "new_window cfg g dg =
     \<lparr>wn_dialog = dg, wn_title = window_title g,
      wn_header = header_text g, wn_nav = None, wn_packed = [],
      wn_variant_text = variant_box g, wn_variant_names = map dap_name (gv_daps g), wn_info_variant = dap_display_name g (dc_dap_id cfg),
      wn_info = device_info_rows g, wn_module_rows = module_info_rows g, wn_rack = [], wn_len = [], wn_sel = None,
      wn_details = [], wn_viewer = \<lparr>vw_loaded = False, vw_rows = [], vw_failed = False\<rparr>,
      wn_scan_status = [], wn_tables = []\<rparr>"

text \<open>The text of a combobox is the name at its place.\<close>

definition combo_text :: "nat option \<Rightarrow> dialog_win \<Rightarrow> string" where
  "combo_text i w = (case i of Some k \<Rightarrow> wn_variant_names w ! k | None \<Rightarrow> wn_variant_text w)"

definition window_shown :: "(string \<Rightarrow> xml option) \<Rightarrow> device_config \<Rightarrow> gsdml_device \<Rightarrow> dialog_win" where
  "window_shown tree cfg g =
     (let w = new_window cfg g (dialog_open cfg g);
          w1 = w\<lparr>wn_variant_text := combo_text (dg_combo (wn_dialog w)) w\<rparr>
      in select_nav tree Modules (show_rack w1))"

section \<open>Handlers\<close>

text \<open>A row without an identifier of its own gets one from the toolkit, which starts with an \<open>I\<close>.\<close>

definition row_iid :: "rack_row \<Rightarrow> string" where
  "row_iid r = or_else (rr_iid r) ''I''"

definition rack_event :: "dialog_win \<Rightarrow> py_error + dialog_win" where
  "rack_event w = bindE (on_rack_select (wn_sel w) (wn_dialog w)) (\<lambda>items. Inr (w\<lparr>wn_details := items\<rparr>))"

text \<open>The dialogs over the window give the item chosen, if one was.\<close>

definition press_add :: "nat option \<Rightarrow> dialog_win \<Rightarrow> py_error + dialog_win" where
  "press_add sel w =
     (if gv_modules (dg_gsdml (wn_dialog w)) = [] then Inr w
      else chooser_ok (\<lambda>i w. bindE (do_add_module i (wn_dialog w)) (\<lambda>dg. Inr (show_rack (w\<lparr>wn_dialog := dg\<rparr>)))) sel w)"

text \<open>The drive object that the selection belongs to, if it is in the rack.\<close>

definition selected_do :: "dialog_win \<Rightarrow> py_error + nat option" where
  "selected_do w =
     bindE (selected_do_index (wn_sel w)) (\<lambda>idx.
       Inr (case idx of None \<Rightarrow> None
            | Some i \<Rightarrow> if i < int (length (dg_rack (wn_dialog w))) then Some (nat i) else None))"

definition offered_telegrams :: "nat \<Rightarrow> dialog \<Rightarrow> sub_info list" where
  "offered_telegrams i dg =
     (case get_module (dg_gsdml dg) (do_module_ident (dg_rack dg ! i)) of None \<Rightarrow> [] | Some m \<Rightarrow> telegrams m)"

definition press_submodule :: "nat option \<Rightarrow> dialog_win \<Rightarrow> py_error + dialog_win" where
  "press_submodule sel w =
     bindE (selected_do w) (\<lambda>idx.
       case idx of
         None \<Rightarrow> Inr w
       | Some i \<Rightarrow>
          if offered_telegrams i (wn_dialog w) = [] then Inr w
          else chooser_ok (\<lambda>si w. bindE (do_set_telegram i si (wn_dialog w)) (\<lambda>dg.
                 rack_event ((show_rack (w\<lparr>wn_dialog := dg\<rparr>))\<lparr>wn_sel := Some (''do'' @ dec_digits i)\<rparr>))) sel w)"

definition press_remove :: "dialog_win \<Rightarrow> py_error + dialog_win" where
  "press_remove w =
     bindE (selected_do w) (\<lambda>idx.
       Inr (case idx of None \<Rightarrow> w | Some i \<Rightarrow> show_rack (w\<lparr>wn_dialog := remove_selected i (wn_dialog w)\<rparr>)))"

definition pick_variant :: "nat \<Rightarrow> dialog_win \<Rightarrow> dialog_win" where
  "pick_variant idx w =
     (if idx < length (dap_ids (wn_dialog w)) then
        (let dg = on_dap_change idx (wn_dialog w) in
         (show_rack (w\<lparr>wn_dialog := dg, wn_variant_text := wn_variant_names w ! idx\<rparr>))
           \<lparr>wn_info_variant := dap_display_name (dg_gsdml dg) (dc_dap_id (dg_cfg dg))\<rparr>)
      else w)"

text \<open>A scan runs in a thread, which leaves a callback to the main loop, also after the dialog has
  closed.  The callback for a scan that raised reads the name of the exception after its handler has
  unbound it; the one for devices found opens a table over the dialog, which must still be there.
  Several scans may be under way, so there may be several tables.\<close>

definition press_scan :: "dialog_win \<Rightarrow> dialog_win" where
  "press_scan w = w\<lparr>wn_scan_status := ''Scanning'' @ ellipsis\<rparr>"

definition scan_done :: "py_error + scan_result list \<Rightarrow> dialog_win \<Rightarrow> py_error + dialog_win" where
  "scan_done outcome w =
     (case outcome of
        Inl e \<Rightarrow> Inl (LibError ''NameError'')
      | Inr ds \<Rightarrow>
          if ds = [] then Inr (w\<lparr>wn_scan_status := ''No devices found''\<rparr>)
          else if \<not> dg_open (wn_dialog w) then Inl (LibError ''TclError'')
          else Inr (w\<lparr>wn_tables := wn_tables w @ [map scan_row ds],
                      wn_scan_status := ''Found '' @ dec_digits (length ds) @ '' device(s)''\<rparr>))"

text \<open>The Select button of a table, with its selected row.\<close>

definition pick_row :: "nat \<Rightarrow> nat option \<Rightarrow> dialog_win \<Rightarrow> dialog_win" where
  "pick_row k sel w =
     (let w1 = w\<lparr>wn_tables := take k (wn_tables w) @ drop (Suc k) (wn_tables w)\<rparr>
      in case sel of
           None \<Rightarrow> w1
         | Some i \<Rightarrow> (case wn_tables w ! k ! i of (nm, ip, mac) \<Rightarrow>
             w1\<lparr>wn_dialog := scan_select (tk_value nm) (tk_value ip) (tk_value mac) (wn_dialog w)\<rparr>))"

text \<open>Apply and Cancel close the dialog, and the tables over it with it.\<close>

definition press_apply :: "dialog_win \<Rightarrow> py_error + dialog_win" where
  "press_apply w =
     bindE (ip_check (strip (dg_ip (wn_dialog w)))) (\<lambda>ok.
       Inr (if ok then w\<lparr>wn_dialog := on_apply (wn_dialog w), wn_tables := []\<rparr> else w))"

definition press_cancel :: "dialog_win \<Rightarrow> dialog_win" where
  "press_cancel w = w\<lparr>wn_dialog := on_cancel (wn_dialog w), wn_tables := []\<rparr>"

text \<open>What the user does, and the callback of a scan; the event of the selection comes on its own as
  well, as when rows that were selected are deleted.\<close>

datatype act = ClickNav nav_item | ClickRow nat | RackEvent | PressAdd "nat option" | PressSubmodule "nat option"
  | PressRemove | PickVariant nat | Typed string string string string
  | PressScan | ScanDone "py_error + scan_result list" | PickScanned nat "nat option" | PressApply | PressCancel

fun window_act :: "(string \<Rightarrow> xml option) \<Rightarrow> act \<Rightarrow> dialog_win \<Rightarrow> py_error + dialog_win" where
  "window_act tree (ClickNav n) w = Inr (on_nav tree (w\<lparr>wn_nav := Some n\<rparr>))"
| "window_act tree (ClickRow k) w = rack_event (w\<lparr>wn_sel := Some (row_iid (wn_rack w ! k))\<rparr>)"
| "window_act tree RackEvent w = rack_event w"
| "window_act tree (PressAdd sel) w = press_add sel w"
| "window_act tree (PressSubmodule sel) w = press_submodule sel w"
| "window_act tree PressRemove w = press_remove w"
| "window_act tree (PickVariant i) w = Inr (pick_variant i w)"
| "window_act tree (Typed nm ip sn gw) w =
     Inr (w\<lparr>wn_dialog := (wn_dialog w)\<lparr>dg_name := nm, dg_ip := ip, dg_subnet := sn, dg_gw := gw\<rparr>\<rparr>)"
| "window_act tree PressScan w = Inr (press_scan w)"
| "window_act tree (ScanDone outcome) w = scan_done outcome w"
| "window_act tree (PickScanned k sel) w = Inr (pick_row k sel w)"
| "window_act tree PressApply w = press_apply w"
| "window_act tree PressCancel w = Inr (press_cancel w)"

text \<open>The toolkit lets the user choose what is there, while the dialog is open; the callback of a scan
  comes when it comes.  A handler that raises leaves the window as it is, as each of these does so
  before it has changed anything.\<close>

definition chosen_in :: "nat option \<Rightarrow> nat \<Rightarrow> bool" where
  "chosen_in sel n = (case sel of None \<Rightarrow> True | Some i \<Rightarrow> i < n)"

fun offered :: "dialog_win \<Rightarrow> act \<Rightarrow> bool" where
  "offered w (ScanDone outcome) = True"
| "offered w (ClickRow k) = (dg_open (wn_dialog w) \<and> k < length (wn_rack w))"
| "offered w (PressAdd sel) = (dg_open (wn_dialog w) \<and> chosen_in sel (length (gv_modules (dg_gsdml (wn_dialog w)))))"
| "offered w (PressSubmodule sel) = (dg_open (wn_dialog w) \<and>
     (case selected_do w of Inr (Some i) \<Rightarrow> chosen_in sel (length (offered_telegrams i (wn_dialog w))) | _ \<Rightarrow> True))"
| "offered w (PickVariant i) = (dg_open (wn_dialog w) \<and> i < length (wn_variant_names w))"
| "offered w (PickScanned k sel) = (dg_open (wn_dialog w) \<and> k < length (wn_tables w) \<and> chosen_in sel (length (wn_tables w ! k)))"
| "offered w _ = dg_open (wn_dialog w)"

inductive window_reach :: "(string \<Rightarrow> xml option) \<Rightarrow> device_config \<Rightarrow> gsdml_device \<Rightarrow> dialog_win \<Rightarrow> bool"
  for tree cfg g where
  opened: "window_reach tree cfg g (window_shown tree cfg g)"
| acted: "window_reach tree cfg g w \<Longrightarrow> offered w a \<Longrightarrow> window_act tree a w = Inr w' \<Longrightarrow> window_reach tree cfg g w'"

text \<open>The handlers that raise, and what they raise.\<close>

fun raises :: "act \<Rightarrow> dialog_win \<Rightarrow> py_error option" where
  "raises (ScanDone (Inl e)) w = Some (LibError ''NameError'')"
| "raises (ScanDone (Inr ds)) w = (if ds \<noteq> [] \<and> \<not> dg_open (wn_dialog w) then Some (LibError ''TclError'') else None)"
| "raises PressApply w = (case ip_check (strip (dg_ip (wn_dialog w))) of Inl e \<Rightarrow> Some e | Inr _ \<Rightarrow> None)"
| "raises a w = None"

section \<open>What the window shows\<close>

text \<open>The same description, but for the variant that is selected in it.\<close>

definition same_gsdml :: "gsdml_device \<Rightarrow> gsdml_device \<Rightarrow> bool" where
  "same_gsdml g g' \<longleftrightarrow> g' = g\<lparr>gv_selected := gv_selected g', gv_head_ident := gv_head_ident g'\<rparr>"

lemma same_gsdmlD:
  assumes "same_gsdml g g'"
  shows "gv_daps g' = gv_daps g" "gv_modules g' = gv_modules g" "gv_path g' = gv_path g"
    "device_info_rows g' = device_info_rows g" "module_info_rows g' = module_info_rows g" "header_text g' = header_text g"
  by (subst assms [unfolded same_gsdml_def], simp add: device_info_rows_def module_info_rows_def header_text_def)+

lemma same_gsdml_upd: "same_gsdml g g' \<Longrightarrow> same_gsdml g (g'\<lparr>gv_selected := a, gv_head_ident := b\<rparr>)"
  by (cases g; cases g') (simp add: same_gsdml_def)

lemma same_gsdml_select: "same_gsdml g g' \<Longrightarrow> same_gsdml g (snd (select_dap i g'))"
  by (simp add: select_dap_def same_gsdml_upd split: option.split)

definition variant_name :: "dialog \<Rightarrow> string" where
  "variant_name dg = dap_display_name (dg_gsdml dg) (dc_dap_id (dg_cfg dg))"

text \<open>One pane, the last that was chosen in the navigation.\<close>

definition panes_ok :: "dialog_win \<Rightarrow> bool" where
  "panes_ok w \<longleftrightarrow> (\<exists>p. wn_packed w = [p] \<and> wn_nav w \<in> {Some (Nav p), Some Heading_Configuration, Some Heading_Description})"

definition sel_ok :: "dialog_win \<Rightarrow> bool" where
  "sel_ok w \<longleftrightarrow> selected_do_index (wn_sel w) = Inr None
     \<or> (\<exists>i < length (dg_rack (wn_dialog w)). selected_do_index (wn_sel w) = Inr (Some (int i)))"

definition combo_ok :: "gsdml_device \<Rightarrow> dialog_win \<Rightarrow> bool" where
  "combo_ok g w \<longleftrightarrow> wn_variant_names w = map dap_name (gv_daps g)
     \<and> (case dg_combo (wn_dialog w) of
          None \<Rightarrow> gv_daps g = [] \<and> wn_variant_text w = ''(no variants in GSDML)''
        | Some i \<Rightarrow> i < length (gv_daps g) \<and> wn_variant_text w = dap_name (gv_daps g ! i)
            \<and> dc_dap_id (dg_cfg (wn_dialog w)) = dap_id (gv_daps g ! i))"

definition info_ok :: "device_config \<Rightarrow> gsdml_device \<Rightarrow> dialog_win \<Rightarrow> bool" where
  "info_ok cfg g w \<longleftrightarrow> wn_header w = header_text g \<and> wn_info w = device_info_rows g \<and> wn_module_rows w = module_info_rows g
     \<and> (wn_info_variant w = variant_name (wn_dialog w) \<or> dc_dap_id cfg = [] \<and> wn_info_variant w = dap_display_name g [])"

definition new_viewer :: viewer where
  "new_viewer = \<lparr>vw_loaded = False, vw_rows = [], vw_failed = False\<rparr>"

definition viewer_ok :: "(string \<Rightarrow> xml option) \<Rightarrow> gsdml_device \<Rightarrow> dialog_win \<Rightarrow> bool" where
  "viewer_ok tree g w \<longleftrightarrow> wn_viewer w = populate_viewer (tree (gv_path g)) new_viewer
     \<or> wn_viewer w = new_viewer \<and> wn_packed w \<noteq> [GsdmlViewer]"

definition window_ok :: "(string \<Rightarrow> xml option) \<Rightarrow> device_config \<Rightarrow> gsdml_device \<Rightarrow> dialog_win \<Rightarrow> bool" where
  "window_ok tree cfg g w \<longleftrightarrow> same_gsdml g (dg_gsdml (wn_dialog w)) \<and> panes_ok w \<and> sel_ok w \<and> combo_ok g w
     \<and> info_ok cfg g w \<and> viewer_ok tree g w \<and> (wn_rack w, wn_len w) = refresh_rack (wn_dialog w)"

lemma populate_again [simp]: "populate_viewer d' (populate_viewer d v) = populate_viewer d v"
  by (auto simp: populate_viewer_def split: option.split)

lemma removeAll_PANES: "fold removeAll PANES ps = []"
proof -
  have "p \<in> set PANES" for p by (cases p) (simp_all add: PANES_def)
  moreover have "set (fold removeAll qs ps) = set ps - set qs" for qs
    by (induction qs arbitrary: ps) auto
  ultimately have "set (fold removeAll PANES ps) = {}" by auto
  then show ?thesis by simp
qed

lemma show_pane_fields:
  "wn_packed (show_pane tree p w) = [p]"
  "wn_nav (show_pane tree p w) = wn_nav w" "wn_dialog (show_pane tree p w) = wn_dialog w"
  "wn_sel (show_pane tree p w) = wn_sel w"
  "wn_rack (show_pane tree p w) = wn_rack w" "wn_len (show_pane tree p w) = wn_len w"
  "wn_viewer (show_pane tree p w) =
     (if p = GsdmlViewer then populate_viewer (tree (gv_path (dg_gsdml (wn_dialog w)))) (wn_viewer w) else wn_viewer w)"
  by (simp_all add: show_pane_def Let_def removeAll_PANES)

lemma combo_ok_cong:
  "wn_dialog w' = wn_dialog w \<Longrightarrow> wn_variant_names w' = wn_variant_names w \<Longrightarrow> wn_variant_text w' = wn_variant_text w
   \<Longrightarrow> combo_ok g w' = combo_ok g w"
  by (simp add: combo_ok_def cong: option.case_cong)

lemma info_ok_cong:
  "wn_dialog w' = wn_dialog w \<Longrightarrow> wn_header w' = wn_header w \<Longrightarrow> wn_info w' = wn_info w \<Longrightarrow> wn_module_rows w' = wn_module_rows w
   \<Longrightarrow> wn_info_variant w' = wn_info_variant w \<Longrightarrow> info_ok cfg g w' = info_ok cfg g w"
  by (simp add: info_ok_def)

lemma show_pane_shown:
  "combo_ok g (show_pane tree p w) = combo_ok g w" "info_ok cfg g (show_pane tree p w) = info_ok cfg g w"
  by (rule combo_ok_cong info_ok_cong; simp add: show_pane_def Let_def)+

text \<open>Showing a pane establishes what the panes need, whatever was shown before.\<close>

lemma show_pane_ok:
  assumes "same_gsdml g (dg_gsdml (wn_dialog w))" "sel_ok w" "combo_ok g w" "info_ok cfg g w"
    "wn_viewer w = new_viewer \<or> wn_viewer w = populate_viewer (tree (gv_path g)) new_viewer"
    "(wn_rack w, wn_len w) = refresh_rack (wn_dialog w)" "wn_nav w = Some (Nav p)"
  shows "window_ok tree cfg g (show_pane tree p w)"
proof -
  have "viewer_ok tree g (show_pane tree p w)"
    using assms(5) same_gsdmlD(3) [OF assms(1)] by (auto simp: viewer_ok_def show_pane_fields)
  moreover have "panes_ok (show_pane tree p w)" using assms(7) by (simp add: panes_ok_def show_pane_fields)
  moreover have "sel_ok (show_pane tree p w)" using assms(2) by (simp add: sel_ok_def show_pane_fields)
  ultimately show ?thesis using assms by (simp add: window_ok_def show_pane_fields show_pane_shown)
qed

lemma on_nav_ok:
  assumes ok: "window_ok tree cfg g w"
  shows "window_ok tree cfg g (on_nav tree (w\<lparr>wn_nav := Some n\<rparr>))"
proof -
  let ?w = "w\<lparr>wn_nav := Some n\<rparr>"
  have same: "combo_ok g ?w = combo_ok g w" "info_ok cfg g ?w = info_ok cfg g w" "sel_ok ?w = sel_ok w"
    by (rule combo_ok_cong info_ok_cong; simp)+ (simp add: sel_ok_def)
  show ?thesis
  proof (cases n)
    case (Nav p)
    have "wn_viewer w = new_viewer \<or> wn_viewer w = populate_viewer (tree (gv_path g)) new_viewer"
      using ok unfolding window_ok_def viewer_ok_def by blast
    then have "window_ok tree cfg g (show_pane tree p ?w)"
      using ok same by (intro show_pane_ok) (simp_all add: window_ok_def Nav)
    then show ?thesis by (simp add: on_nav_def Nav)
  next
    case Heading_Configuration
    have "panes_ok ?w" using ok by (auto simp: window_ok_def panes_ok_def Heading_Configuration)
    then show ?thesis using ok same by (simp add: on_nav_def window_ok_def viewer_ok_def Heading_Configuration)
  next
    case Heading_Description
    have "panes_ok ?w" using ok by (auto simp: window_ok_def panes_ok_def Heading_Description)
    then show ?thesis using ok same by (simp add: on_nav_def window_ok_def viewer_ok_def Heading_Description)
  qed
qed

text \<open>The parts that do not depend on the rack.\<close>

definition base_ok :: "(string \<Rightarrow> xml option) \<Rightarrow> device_config \<Rightarrow> gsdml_device \<Rightarrow> dialog_win \<Rightarrow> bool" where
  "base_ok tree cfg g w \<longleftrightarrow>
     same_gsdml g (dg_gsdml (wn_dialog w)) \<and> panes_ok w \<and> combo_ok g w \<and> info_ok cfg g w \<and> viewer_ok tree g w"

lemma window_ok_base:
  "window_ok tree cfg g w \<longleftrightarrow> base_ok tree cfg g w \<and> sel_ok w \<and> (wn_rack w, wn_len w) = refresh_rack (wn_dialog w)"
  unfolding window_ok_def base_ok_def by blast

lemma base_show_rack: "base_ok tree cfg g (show_rack w) = base_ok tree cfg g w"
  by (simp add: base_ok_def show_rack_def panes_ok_def combo_ok_def info_ok_def viewer_ok_def cong: option.case_cong)

lemma base_rest:
  "base_ok tree cfg g (w\<lparr>wn_details := ds\<rparr>) = base_ok tree cfg g w"
  "base_ok tree cfg g (w\<lparr>wn_sel := s\<rparr>) = base_ok tree cfg g w"
  "base_ok tree cfg g (w\<lparr>wn_scan_status := st\<rparr>) = base_ok tree cfg g w"
  "base_ok tree cfg g (w\<lparr>wn_tables := ts\<rparr>) = base_ok tree cfg g w"
  by (simp_all add: base_ok_def panes_ok_def combo_ok_def info_ok_def viewer_ok_def cong: option.case_cong)

text \<open>Changes of the dialog that leave its variant alone.\<close>

definition keeps_variant :: "dialog \<Rightarrow> dialog \<Rightarrow> bool" where
  "keeps_variant dg dg' \<longleftrightarrow> dg_gsdml dg' = dg_gsdml dg \<and> dc_dap_id (dg_cfg dg') = dc_dap_id (dg_cfg dg)
     \<and> dg_combo dg' = dg_combo dg"

lemma base_dialog: "keeps_variant (wn_dialog w) dg \<Longrightarrow> base_ok tree cfg g (w\<lparr>wn_dialog := dg\<rparr>) = base_ok tree cfg g w"
  by (simp add: base_ok_def panes_ok_def combo_ok_def info_ok_def viewer_ok_def variant_name_def keeps_variant_def cong: option.case_cong)

text \<open>What the window shows does not depend on the scans; and a dialog with the same variant and
  rack shows the same.\<close>

lemma window_ok_scans:
  "window_ok tree cfg g (w\<lparr>wn_scan_status := st\<rparr>) = window_ok tree cfg g w"
  "window_ok tree cfg g (w\<lparr>wn_tables := ts\<rparr>) = window_ok tree cfg g w"
  by (simp_all add: window_ok_base base_rest) (simp_all add: sel_ok_def)

lemma window_ok_same:
  assumes "window_ok tree cfg g w" and "keeps_variant (wn_dialog w) dg" and "dg_rack dg = dg_rack (wn_dialog w)"
  shows "window_ok tree cfg g (w\<lparr>wn_dialog := dg\<rparr>)"
proof -
  have "refresh_rack dg = refresh_rack (wn_dialog w)"
    using assms(2,3) by (simp add: keeps_variant_def refresh_rack_def Let_def)
  then show ?thesis
    using assms by (simp add: window_ok_base base_dialog) (simp add: sel_ok_def)
qed

lemma show_rack_ok: "base_ok tree cfg g w \<Longrightarrow> window_ok tree cfg g (show_rack w)"
  by (simp add: window_ok_base base_show_rack) (simp add: show_rack_def sel_ok_def selected_do_index_def)

lemma keeps_variant_steps:
  "do_add_module i dg = Inr dg' \<Longrightarrow> keeps_variant dg dg'" "do_set_telegram i j dg = Inr dg' \<Longrightarrow> keeps_variant dg dg'"
  "keeps_variant dg (remove_selected i dg)" "keeps_variant dg (scan_select nm ip mac dg)"
  by (auto simp: keeps_variant_def do_add_module_def do_set_telegram_def remove_selected_def scan_select_def Let_def
      split: if_splits option.splits)

section \<open>Which handlers raise\<close>

lemma sel_ok_event: "sel_ok w \<Longrightarrow> \<exists>items. rack_event w = Inr (w\<lparr>wn_details := items\<rparr>)"
  by (auto simp: sel_ok_def rack_event_def on_rack_select_def Let_def split: option.split)

lemma sel_ok_selected: "sel_ok w \<Longrightarrow> selected_do w = Inr None \<or> (\<exists>i < length (dg_rack (wn_dialog w)). selected_do w = Inr (Some i))"
  by (auto simp: sel_ok_def selected_do_def)

lemma event_ok: "window_ok tree cfg g w \<Longrightarrow> \<exists>w'. rack_event w = Inr w' \<and> window_ok tree cfg g w'"
  using sel_ok_event [of w] by (auto simp: window_ok_base base_rest sel_ok_def)

lemma click_row_ok:
  assumes ok: "window_ok tree cfg g w" and k: "k < length (wn_rack w)"
  shows "\<exists>w'. rack_event (w\<lparr>wn_sel := Some (row_iid (wn_rack w ! k))\<rparr>) = Inr w' \<and> window_ok tree cfg g w'"
proof (rule event_ok)
  have "wn_rack w ! k \<in> set (fst (refresh_rack (wn_dialog w)))"
    using ok k nth_mem [OF k] by (metis window_ok_base fst_conv)
  then have "selected_do_index (Some (row_iid (wn_rack w ! k))) = Inr None
      \<or> (\<exists>i < length (dg_rack (wn_dialog w)). selected_do_index (Some (row_iid (wn_rack w ! k))) = Inr (Some (int i)))"
    using rack_rows_chosen [of "wn_dialog w"] by (cases "rr_iid (wn_rack w ! k) = []")
      (auto simp: row_iid_def or_else_def selected_do_index_def)
  then show "window_ok tree cfg g (w\<lparr>wn_sel := Some (row_iid (wn_rack w ! k))\<rparr>)"
    using ok by (simp add: window_ok_base base_rest) (simp add: sel_ok_def)
qed

lemma press_add_ok:
  assumes ok: "window_ok tree cfg g w" and sel: "chosen_in sel (length (gv_modules (dg_gsdml (wn_dialog w))))"
  shows "\<exists>w'. press_add sel w = Inr w' \<and> window_ok tree cfg g w'"
proof (cases sel)
  case (Some i)
  with sel obtain dg where dg: "do_add_module i (wn_dialog w) = Inr dg"
    by (auto simp: do_add_module_def Let_def chosen_in_def)
  then have "window_ok tree cfg g (show_rack (w\<lparr>wn_dialog := dg\<rparr>))"
    using ok by (intro show_rack_ok) (simp add: base_dialog [OF keeps_variant_steps(1) [OF dg]] window_ok_base)
  then show ?thesis using ok dg Some by (simp add: press_add_def chooser_ok_def)
qed (use ok in \<open>simp add: press_add_def chooser_ok_def\<close>)

lemma press_remove_ok:
  assumes ok: "window_ok tree cfg g w"
  shows "\<exists>w'. press_remove w = Inr w' \<and> window_ok tree cfg g w'"
proof -
  have "window_ok tree cfg g (show_rack (w\<lparr>wn_dialog := remove_selected i (wn_dialog w)\<rparr>))" for i
    using ok by (intro show_rack_ok) (simp add: base_dialog keeps_variant_steps window_ok_base)
  with ok sel_ok_selected [of w] show ?thesis by (auto simp: press_remove_def window_ok_base)
qed

lemma press_submodule_ok:
  assumes ok: "window_ok tree cfg g w" and sel: "offered w (PressSubmodule sel)"
  shows "\<exists>w'. press_submodule sel w = Inr w' \<and> window_ok tree cfg g w'"
proof -
  consider "selected_do w = Inr None" | i where "selected_do w = Inr (Some i)" "i < length (dg_rack (wn_dialog w))"
    using ok sel_ok_selected [of w] by (auto simp: window_ok_base)
  then show ?thesis
  proof cases
    case 1
    with ok show ?thesis by (simp add: press_submodule_def)
  next
    case (2 i)
    show ?thesis
    proof (cases "offered_telegrams i (wn_dialog w) = [] \<or> sel = None")
      case True
      with 2 ok show ?thesis by (auto simp: press_submodule_def chooser_ok_def)
    next
      case False
      then obtain si where si: "sel = Some si" "offered_telegrams i (wn_dialog w) \<noteq> []" by blast
      then have "si < length (offered_telegrams i (wn_dialog w))" using sel 2 by (simp add: chosen_in_def)
      with si 2 obtain dg where dg: "do_set_telegram i si (wn_dialog w) = Inr dg" "length (dg_rack dg) = length (dg_rack (wn_dialog w))"
        by (auto simp: do_set_telegram_def offered_telegrams_def Let_def split: option.splits)
      let ?w = "(show_rack (w\<lparr>wn_dialog := dg\<rparr>))\<lparr>wn_sel := Some (''do'' @ dec_digits i)\<rparr>"
      have "base_ok tree cfg g ?w"
        using ok by (simp add: base_rest base_show_rack base_dialog [OF keeps_variant_steps(2) [OF dg(1)]] window_ok_base)
      moreover have "sel_ok ?w" using 2 dg(2) by (simp add: sel_ok_def selected_do_index_def show_rack_def)
      ultimately have "window_ok tree cfg g ?w" by (simp add: window_ok_base) (simp add: show_rack_def)
      with event_ok 2 si dg(1) show ?thesis by (simp add: press_submodule_def chooser_ok_def)
    qed
  qed
qed

lemma pick_variant_ok:
  assumes ok: "window_ok tree cfg g w"
  shows "window_ok tree cfg g (pick_variant i w)"
proof (cases "i < length (dap_ids (wn_dialog w))")
  case True
  let ?dg = "on_dap_change i (wn_dialog w)"
  let ?w = "w\<lparr>wn_dialog := ?dg, wn_variant_text := wn_variant_names w ! i\<rparr>"
  let ?w' = "?w\<lparr>wn_info_variant := variant_name ?dg\<rparr>"
  have g: "same_gsdml g (dg_gsdml (wn_dialog w))" and names: "wn_variant_names w = map dap_name (gv_daps g)"
    using ok by (simp_all add: window_ok_def combo_ok_def)
  have i: "i < length (gv_daps g)" using True same_gsdmlD(1) [OF g] by (simp add: dap_ids_def)
  have dg: "dg_combo ?dg = Some i" "dc_dap_id (dg_cfg ?dg) = dap_id (gv_daps g ! i)"
    "dg_gsdml ?dg = snd (select_dap (dap_ids (wn_dialog w) ! i) (dg_gsdml (wn_dialog w)))"
    using True i same_gsdmlD(1) [OF g] by (simp_all add: on_dap_change_def Let_def dap_ids_def)
  have "base_ok tree cfg g ?w'"
    using ok g names i by (simp add: base_ok_def window_ok_def panes_ok_def viewer_ok_def combo_ok_def info_ok_def dg same_gsdml_select)
  then have "window_ok tree cfg g (show_rack ?w')" by (rule show_rack_ok)
  moreover have "pick_variant i w = show_rack ?w'"
    using True by (simp add: pick_variant_def show_rack_def variant_name_def Let_def)
  ultimately show ?thesis by simp
qed (use ok in \<open>simp add: pick_variant_def\<close>)

lemma sync_dap_id [simp]: "dc_dap_id (sync_legacy_from_rack c) = dc_dap_id c"
  by (simp add: sync_legacy_from_rack_def split: list.split)

text \<open>Apply writes the variant that the box shows, which the configuration already has.\<close>

lemma on_apply_keeps:
  assumes "window_ok tree cfg g w"
  shows "keeps_variant (wn_dialog w) (on_apply (wn_dialog w))" and "dg_rack (on_apply (wn_dialog w)) = dg_rack (wn_dialog w)"
proof -
  have g: "same_gsdml g (dg_gsdml (wn_dialog w))" and c: "combo_ok g w"
    using assms by (simp_all add: window_ok_def)
  have "dc_dap_id (dg_cfg (on_apply (wn_dialog w))) = dc_dap_id (dg_cfg (wn_dialog w))"
    using c same_gsdmlD(1) [OF g]
    by (cases "dg_combo (wn_dialog w)") (auto simp: on_apply_def Let_def combo_ok_def dap_ids_def)
  then show "keeps_variant (wn_dialog w) (on_apply (wn_dialog w))"
    by (simp add: keeps_variant_def) (simp add: on_apply_def Let_def)
  show "dg_rack (on_apply (wn_dialog w)) = dg_rack (wn_dialog w)"
    by (simp add: on_apply_def Let_def)
qed

lemma pick_row_ok: "window_ok tree cfg g w \<Longrightarrow> window_ok tree cfg g (pick_row k sel w)"
proof -
  assume ok: "window_ok tree cfg g w"
  have "window_ok tree cfg g (w\<lparr>wn_tables := ts, wn_dialog := scan_select nm ip mac (wn_dialog w)\<rparr>)" for ts nm ip mac
  proof -
    have "window_ok tree cfg g (w\<lparr>wn_tables := ts\<rparr>)" using ok by (simp add: window_ok_scans)
    from window_ok_same [OF this, of "scan_select nm ip mac (wn_dialog w)"] show ?thesis
      using keeps_variant_steps(4) by (simp add: scan_select_def)
  qed
  with ok show ?thesis
    by (auto simp: pick_row_def window_ok_scans Let_def split: option.split prod.split)
qed

lemma press_apply_ok:
  assumes "window_ok tree cfg g w"
  shows "case ip_check (strip (dg_ip (wn_dialog w))) of Inl e \<Rightarrow> press_apply w = Inl e
    | Inr _ \<Rightarrow> \<exists>w'. press_apply w = Inr w' \<and> window_ok tree cfg g w'"
  using assms window_ok_same [OF assms on_apply_keeps [OF assms]]
    window_ok_scans(2) [where w = "w\<lparr>wn_dialog := on_apply (wn_dialog w)\<rparr>" and ts = "[]"]
  by (auto simp: press_apply_def split: sum.split)

lemma press_cancel_ok: "window_ok tree cfg g w \<Longrightarrow> window_ok tree cfg g (press_cancel w)"
  using window_ok_same [of tree cfg g w "on_cancel (wn_dialog w)"]
    window_ok_scans(2) [where w = "w\<lparr>wn_dialog := on_cancel (wn_dialog w)\<rparr>" and ts = "[]"]
  by (simp add: press_cancel_def keeps_variant_def on_cancel_def)

lemma scan_done_ok:
  assumes "window_ok tree cfg g w"
  shows "case raises (ScanDone outcome) w of Some e \<Rightarrow> scan_done outcome w = Inl e
    | None \<Rightarrow> \<exists>w'. scan_done outcome w = Inr w' \<and> window_ok tree cfg g w'"
proof (cases outcome)
  case (Inr ds)
  have "window_ok tree cfg g (w\<lparr>wn_tables := ts, wn_scan_status := st\<rparr>)" for ts st
    using assms by (simp add: window_ok_scans)
  with assms Inr show ?thesis by (simp add: scan_done_def window_ok_scans)
qed (simp add: scan_done_def)

lemma window_act_ok:
  assumes "window_ok tree cfg g w" and "offered w a"
  shows "case raises a w of Some e \<Rightarrow> window_act tree a w = Inl e
    | None \<Rightarrow> \<exists>w'. window_act tree a w = Inr w' \<and> window_ok tree cfg g w'"
proof (cases a)
  case (Typed nm ip sn gw)
  let ?dg = "(wn_dialog w)\<lparr>dg_name := nm, dg_ip := ip, dg_subnet := sn, dg_gw := gw\<rparr>"
  have "keeps_variant (wn_dialog w) ?dg" by (simp add: keeps_variant_def)
  from window_ok_same [OF assms(1) this] show ?thesis by (simp add: Typed)
next
  case (ScanDone outcome)
  with scan_done_ok [OF assms(1), of outcome] show ?thesis by (auto split: option.splits)
next
  case PressApply
  with press_apply_ok [OF assms(1)] show ?thesis by (auto split: sum.split sum.split_asm)
next
  case PressScan
  with assms(1) show ?thesis by (simp add: press_scan_def window_ok_scans)
qed (use assms on_nav_ok click_row_ok event_ok press_add_ok press_submodule_ok press_remove_ok pick_variant_ok
    pick_row_ok press_cancel_ok in \<open>simp_all\<close>)

section \<open>Opening\<close>

lemma index_of_Some: "x \<in> set xs \<Longrightarrow> \<exists>i < length xs. index_of x xs = Some i \<and> xs ! i = x"
  by (induction xs) (auto simp: nth_Cons split: nat.split)

lemma find_dap: "i \<in> set (map dap_id ds) \<Longrightarrow> \<exists>d. find (\<lambda>d. dap_id d = i) ds = Some d"
  by (cases "find (\<lambda>d. dap_id d = i) ds") (auto simp: find_None_iff)

text \<open>The variant of a dialog that was just opened.\<close>

lemma opened_variant:
  fixes cfg :: device_config
  assumes "gv_daps g = d0 # ds"
  defines "did \<equiv> if dc_dap_id cfg \<in> set (map dap_id (gv_daps g)) then dc_dap_id cfg else dap_id d0"
  shows "dc_dap_id (dg_cfg (dialog_open cfg g)) = did" "dg_gsdml (dialog_open cfg g) = snd (select_dap did g)"
    "dg_combo (dialog_open cfg g) = index_of did (map dap_id (gv_daps g))"
  using assms by (simp_all add: dialog_open_def load_identity_def dap_ids_def Let_def)

lemma opened_info:
  "variant_name (dialog_open cfg g) = dap_display_name g (dc_dap_id cfg) \<or> dc_dap_id cfg = []"
proof (cases "gv_daps g")
  case Nil
  then have "dg_gsdml (dialog_open cfg g) = g" by (simp add: dialog_open_def load_identity_def dap_ids_def)
  with Nil show ?thesis by (simp add: variant_name_def dap_display_name_def get_dap_def)
next
  case (Cons d0 ds)
  let ?did = "if dc_dap_id cfg \<in> set (map dap_id (gv_daps g)) then dc_dap_id cfg else dap_id d0"
  have "?did \<in> set (map dap_id (gv_daps g))" by (simp add: Cons)
  then obtain d where d: "find (\<lambda>d. dap_id d = ?did) (gv_daps g) = Some d" using find_dap by blast
  have id: "dap_id d = ?did" using d by (auto simp: find_Some_iff)
  have "variant_name (dialog_open cfg g) = dap_name d"
    using opened_variant [OF Cons, of cfg] d id
    by (auto simp: variant_name_def dap_display_name_def get_dap_def select_dap_def)
  moreover have "dap_display_name g (dc_dap_id cfg) = dap_name d" if "dc_dap_id cfg \<noteq> []"
  proof (cases "dc_dap_id cfg \<in> set (map dap_id (gv_daps g))")
    case False
    then have "find (\<lambda>d. dap_id d = dc_dap_id cfg) (gv_daps g) = None" by (force simp: find_None_iff)
    with False that d Cons show ?thesis by (simp add: dap_display_name_def get_dap_def)
  qed (use that d in \<open>simp add: dap_display_name_def get_dap_def\<close>)
  ultimately show ?thesis by auto
qed

lemma opened_same: "same_gsdml g (dg_gsdml (dialog_open cfg g))"
proof -
  have "same_gsdml g g" by (simp add: same_gsdml_def)
  then show ?thesis
    by (cases "gv_daps g") (simp_all add: dialog_open_def load_identity_def dap_ids_def Let_def same_gsdml_select)
qed

lemma opened_combo:
  fixes cfg g
  defines "w \<equiv> new_window cfg g (dialog_open cfg g)"
  shows "combo_ok g (w\<lparr>wn_variant_text := combo_text (dg_combo (wn_dialog w)) w\<rparr>)"
proof (cases "gv_daps g")
  case Nil
  then show ?thesis
    by (simp add: combo_ok_def combo_text_def w_def new_window_def variant_box_def dialog_open_def load_identity_def dap_ids_def)
next
  case (Cons d0 ds)
  let ?did = "if dc_dap_id cfg \<in> set (map dap_id (gv_daps g)) then dc_dap_id cfg else dap_id d0"
  have "?did \<in> set (map dap_id (gv_daps g))" by (simp add: Cons)
  from index_of_Some [OF this] obtain i
    where "i < length (gv_daps g)" "index_of ?did (map dap_id (gv_daps g)) = Some i" "dap_id (gv_daps g ! i) = ?did"
    by (metis length_map nth_map)
  then show ?thesis
    using opened_variant [OF Cons, of cfg] by (simp add: combo_ok_def combo_text_def w_def new_window_def)
qed

lemma window_shown_ok: "window_ok tree cfg g (window_shown tree cfg g)"
proof -
  let ?w = "new_window cfg g (dialog_open cfg g)"
  let ?w1 = "?w\<lparr>wn_variant_text := combo_text (dg_combo (wn_dialog ?w)) ?w\<rparr>"
  let ?w2 = "(show_rack ?w1)\<lparr>wn_nav := Some (Nav Modules)\<rparr>"
  have "combo_ok g ?w2 = combo_ok g ?w1" by (rule combo_ok_cong) (simp_all add: show_rack_def)
  moreover have "info_ok cfg g ?w2"
    using opened_info [of cfg g] by (auto simp: info_ok_def show_rack_def new_window_def dap_display_name_def)
  moreover have "sel_ok ?w2" by (simp add: sel_ok_def show_rack_def selected_do_index_def)
  ultimately have "window_ok tree cfg g (show_pane tree Modules ?w2)"
    using opened_combo [of g cfg] opened_same [of g cfg]
    by (intro show_pane_ok) (simp_all add: show_rack_def new_window_def new_viewer_def)
  then show ?thesis by (simp add: window_shown_def select_nav_def Let_def)
qed

lemma reach_ok: "window_reach tree cfg g w \<Longrightarrow> window_ok tree cfg g w"
proof (induction rule: window_reach.induct)
  case (acted w a w')
  then show ?case using window_act_ok [of tree cfg g w a] by (auto split: option.split_asm)
qed (rule window_shown_ok)

section \<open>Slots\<close>

text \<open>Every change of the rack is one of the edits of \<open>Ui_Device\<close>.\<close>

lemma rack_event_dialog: "rack_event w = Inr w' \<Longrightarrow> wn_dialog w' = wn_dialog w"
  by (auto simp: rack_event_def bindE_Inr)

lemma on_nav_dialog [simp]: "wn_dialog (on_nav tree w) = wn_dialog w"
  by (simp add: on_nav_def show_pane_fields split: option.split nav_item.split)

lemma edit_of:
  "do_add_module i dg = Inr dg' \<Longrightarrow> \<exists>e. edit_step e dg = Inr dg'"
  "\<exists>e. edit_step e dg = Inr (remove_selected i dg)"
  "\<exists>e. edit_step e dg = Inr (on_dap_change i dg)"
  "\<exists>e. edit_step e dg = Inr (scan_select nm ip mac dg)"
  "\<exists>e. edit_step e dg = Inr (dg\<lparr>dg_name := nm, dg_ip := ip, dg_subnet := sn, dg_gw := gw\<rparr>)"
  using edit_step.simps by metis+

text \<open>Every act edits the dialog, leaves it, or closes it, which leaves the rack.\<close>

lemma act_is_edit:
  assumes "window_act tree a w = Inr w'"
  shows "dg_rack (wn_dialog w') = dg_rack (wn_dialog w) \<or> (\<exists>e. edit_step e (wn_dialog w) = Inr (wn_dialog w'))"
proof (cases a)
  case (PressAdd sel)
  with assms show ?thesis
    by (cases sel) (auto simp: press_add_def chooser_ok_def bindE_Inr show_rack_def intro: edit_of split: if_splits)
next
  case (PressSubmodule sel)
  then obtain idx where idx: "selected_do w = Inr idx" using assms by (auto simp: press_submodule_def bindE_Inr)
  show ?thesis
  proof (cases idx)
    case (Some i)
    show ?thesis
    proof (cases "offered_telegrams i (wn_dialog w) = [] \<or> sel = None")
      case False
      with assms PressSubmodule idx Some obtain j dg where "edit_step (SetTelegram i j) (wn_dialog w) = Inr dg"
        "rack_event ((show_rack (w\<lparr>wn_dialog := dg\<rparr>))\<lparr>wn_sel := Some (''do'' @ dec_digits i)\<rparr>) = Inr w'"
        by (auto simp: press_submodule_def chooser_ok_def bindE_Inr)
      moreover from rack_event_dialog [OF this(2)] have "wn_dialog w' = dg" by (simp add: show_rack_def)
      ultimately show ?thesis by blast
    qed (use assms PressSubmodule idx Some in \<open>auto simp: press_submodule_def chooser_ok_def split: if_splits\<close>)
  qed (use assms PressSubmodule idx in \<open>simp add: press_submodule_def\<close>)
next
  case PressRemove
  with assms show ?thesis
    by (auto simp: press_remove_def bindE_Inr show_rack_def edit_of split: option.splits)
next
  case (PickVariant i)
  then have "wn_dialog w' = wn_dialog w \<or> wn_dialog w' = on_dap_change i (wn_dialog w)"
    using assms by (auto simp: pick_variant_def show_rack_def Let_def)
  then show ?thesis using edit_of(3) by metis
next
  case (Typed nm ip sn gw)
  with assms show ?thesis by (auto simp: edit_of)
next
  case PressScan
  with assms show ?thesis by (auto simp: press_scan_def)
next
  case (ScanDone outcome)
  with assms show ?thesis by (auto simp: scan_done_def split: sum.splits if_splits)
next
  case (PickScanned k sel)
  with assms show ?thesis by (auto simp: pick_row_def scan_select_def Let_def split: option.splits prod.splits)
next
  case PressApply
  with assms show ?thesis by (auto simp: press_apply_def bindE_Inr on_apply_def Let_def)
next
  case PressCancel
  with assms show ?thesis by (auto simp: press_cancel_def on_cancel_def)
qed (use assms rack_event_dialog in fastforce)+

lemma reach_slots:
  "window_reach tree cfg g w \<Longrightarrow> slots_ok (effective_drive_objects cfg) \<Longrightarrow> slots_ok (dg_rack (wn_dialog w))"
proof (induction rule: window_reach.induct)
  case opened
  then show ?case
    by (simp add: window_shown_def select_nav_def show_pane_fields show_rack_def new_window_def Let_def)
next
  case (acted w a w')
  then show ?case using act_is_edit [OF acted.hyps(3)] edit_step_slots by fastforce
qed

section \<open>The window over its life\<close>

lemma raises_iff:
  "raises a w = Some e \<longleftrightarrow>
     (\<exists>x. a = ScanDone (Inl x)) \<and> e = LibError ''NameError''
     \<or> (\<exists>ds. a = ScanDone (Inr ds) \<and> ds \<noteq> []) \<and> \<not> dg_open (wn_dialog w) \<and> e = LibError ''TclError''
     \<or> a = PressApply \<and> ip_check (strip (dg_ip (wn_dialog w))) = Inl e"
  by (cases "(a, w)" rule: raises.cases) (auto split: sum.splits)

text \<open>C30: The device dialog, from opening over any clicks, choices, edits and scans to Apply or Cancel and
  the scans that end after it.  Of what the window offers, exactly three handlers raise: the callback
  of a scan that failed (a NameError), the callback of a scan that found devices after the dialog has
  closed (the toolkit's error), and Apply on an address with digits that are no decimal ones (a
  ValueError); none of the others does.  One pane is shown, the last one chosen; the rows and
  the line of lengths are those of the working rack, whose slots stay distinct; the variant chosen is
  the one of the configuration, and its name stands in the box; the file is read once, the first time
  its view is shown.  The name in the heading stays the one the description had when the dialog was
  opened, and the selected variant of the info pane is that of the configuration unless the
  configuration had none to begin with.\<close>

theorem dialog_window:
  assumes "window_reach tree cfg g w"
  shows "(\<forall>a e. offered w a \<longrightarrow> (window_act tree a w = Inl e \<longleftrightarrow>
       (\<exists>x. a = ScanDone (Inl x)) \<and> e = LibError ''NameError''
       \<or> (\<exists>ds. a = ScanDone (Inr ds) \<and> ds \<noteq> []) \<and> \<not> dg_open (wn_dialog w) \<and> e = LibError ''TclError''
       \<or> a = PressApply \<and> ip_check (strip (dg_ip (wn_dialog w))) = Inl e))
    \<and> (\<exists>p. wn_packed w = [p] \<and> wn_nav w \<in> {Some (Nav p), Some Heading_Configuration, Some Heading_Description})
    \<and> (wn_rack w, wn_len w) = refresh_rack (wn_dialog w)
    \<and> (slots_ok (effective_drive_objects cfg) \<longrightarrow> slots_ok (dg_rack (wn_dialog w)))
    \<and> (case dg_combo (wn_dialog w) of
         None \<Rightarrow> gv_daps g = []
       | Some i \<Rightarrow> wn_variant_text w = dap_name (gv_daps g ! i) \<and> dc_dap_id (dg_cfg (wn_dialog w)) = dap_id (gv_daps g ! i))
    \<and> wn_viewer w \<in> {new_viewer, populate_viewer (tree (gv_path g)) new_viewer}
    \<and> (wn_packed w = [GsdmlViewer] \<longrightarrow> vw_loaded (wn_viewer w))
    \<and> wn_header w = header_text g
    \<and> (wn_info_variant w = variant_name (wn_dialog w) \<or> dc_dap_id cfg = [] \<and> wn_info_variant w = dap_display_name g [])"
proof -
  have ok: "window_ok tree cfg g w" using assms by (rule reach_ok)
  have loaded: "vw_loaded (populate_viewer d new_viewer)" for d
    by (simp add: populate_viewer_def new_viewer_def split: option.split)
  have viewer: "viewer_ok tree g w" and combo: "combo_ok g w" and info: "info_ok cfg g w" and panes: "panes_ok w"
    and rack: "(wn_rack w, wn_len w) = refresh_rack (wn_dialog w)"
    using ok by (simp_all add: window_ok_def)
  have "wn_viewer w \<in> {new_viewer, populate_viewer (tree (gv_path g)) new_viewer}"
    and "wn_packed w = [GsdmlViewer] \<longrightarrow> vw_loaded (wn_viewer w)"
    using viewer loaded by (auto simp: viewer_ok_def)
  moreover have "window_act tree a w = Inl e \<longleftrightarrow>
       (\<exists>x. a = ScanDone (Inl x)) \<and> e = LibError ''NameError''
       \<or> (\<exists>ds. a = ScanDone (Inr ds) \<and> ds \<noteq> []) \<and> \<not> dg_open (wn_dialog w) \<and> e = LibError ''TclError''
       \<or> a = PressApply \<and> ip_check (strip (dg_ip (wn_dialog w))) = Inl e" if "offered w a" for a e
    using window_act_ok [OF ok that] raises_iff [of a w e] by (cases "raises a w") auto
  ultimately show ?thesis
    using rack combo info panes reach_slots [OF assms] unfolding combo_ok_def info_ok_def panes_ok_def by (simp split: option.splits)
qed

text \<open>A description that two devices of the canvas share, with the second variant selected by the other one:
  the dialog of a device without a variant takes the first and shows the second.\<close>

definition shared_gsdml :: gsdml_device where
  "shared_gsdml = demo_gsdml\<lparr>gv_selected := ''B''\<rparr>"

lemma dialog_window_witness:
  "case window_shown (\<lambda>_. None) default_device_config shared_gsdml of w \<Rightarrow>
     wn_info_variant w = ''second'' \<and> variant_name (wn_dialog w) = ''first'' \<and> wn_variant_text w = ''first''
     \<and> window_act (\<lambda>_. None) (ScanDone (Inl OSError)) w = Inl (LibError ''NameError'')
     \<and> (\<exists>w'. window_act (\<lambda>_. None) (PressAdd (Some 0)) w = Inr w' \<and> length (dg_rack (wn_dialog w')) = 2
          \<and> (wn_rack w', wn_len w') = refresh_rack (wn_dialog w'))"
proof -
  let ?w = "window_shown (\<lambda>_. None) default_device_config shared_gsdml"
  have r: "window_reach (\<lambda>_. None) default_device_config shared_gsdml ?w" by (rule opened)
  have off: "offered ?w (PressAdd (Some 0))" "offered ?w (ScanDone (Inl OSError))" by code_simp+
  note raise = dialog_window [OF r, THEN conjunct1, rule_format]
  obtain w' where w': "window_act (\<lambda>_. None) (PressAdd (Some 0)) ?w = Inr w'"
    using raise [OF off(1)] by (cases "window_act (\<lambda>_. None) (PressAdd (Some 0)) ?w") auto
  have "(wn_rack w', wn_len w') = refresh_rack (wn_dialog w')"
    using dialog_window [OF acted [OF r off(1) w']] by blast
  moreover have "case window_act (\<lambda>_. None) (PressAdd (Some 0)) ?w of Inr w' \<Rightarrow> length (dg_rack (wn_dialog w')) = 2 | _ \<Rightarrow> False"
    by code_simp
  moreover have "wn_info_variant ?w = ''second''" "variant_name (wn_dialog ?w) = ''first''" "wn_variant_text ?w = ''first''"
    by code_simp+
  moreover have "window_act (\<lambda>_. None) (ScanDone (Inl OSError)) ?w = Inl (LibError ''NameError'')"
    using raise [OF off(2), of "LibError ''NameError''"] by blast
  ultimately show ?thesis using w' by simp
qed

text \<open>An address whose last part is a superscript two passes \<open>isdigit\<close> and not \<open>int\<close>; one in Arabic
  digits is an address.\<close>

lemma digits_of_other_scripts:
  "ip_check (''10.0.0.'' @ [char_of (0xC2 :: nat), char_of (0xB2 :: nat)]) = Inl ValueError"
  "ip_check (''10.0.0.'' @ [char_of (0xD9 :: nat), char_of (0xA7 :: nat)]) = Inr True"
  by code_simp+

end
