(* ===== verification/Ui_Drawing.thy ===== *)
theory Ui_Drawing
  imports Ui_Canvas
begin

text \<open>
  What the configuration tab (\<open>profinet_gateway_py/ui/pn_config_tab.py\<close>) draws behind its devices:
  the bus with the controller, and a line from the bus to every device, which the code redraws by hand.
\<close>

section \<open>Bus and lines\<close>

datatype shape = Rect int int int int | Text int int string | Line int int int int

definition bus_shapes :: "int \<Rightarrow> shape list" where
  "bus_shapes winfo_width =
     (let width = max winfo_width 1180; y = BUS_Y in
      [Rect 16 (y - 22) 96 (y + 22), Text 56 y (''PC'' @ [CHR 0x0A] @ ''Controller''), Line 96 y (width - 20) y])"

definition connectors :: "win \<Rightarrow> shape list" where
  "connectors w =
     map (\<lambda>cd. case w_cfgs w ! cd_cfg cd of c \<Rightarrow> Line (dc_canvas_x c) BUS_Y (dc_canvas_x c) (dc_canvas_y c - 34)) (w_devs w)"

record drawing =
  dr_bus :: "shape list"
  dr_lines :: "shape list"

definition redraw_connectors :: "win \<Rightarrow> drawing \<Rightarrow> drawing" where
  "redraw_connectors w d = d\<lparr>dr_lines := connectors w\<rparr>"

definition draw_bus :: "int \<Rightarrow> win \<Rightarrow> drawing \<Rightarrow> drawing" where
  "draw_bus width w d = redraw_connectors w (d\<lparr>dr_bus := bus_shapes width\<rparr>)"

section \<open>When lines are drawn\<close>

text \<open>The operations that end with the lines: a device is dropped, moved, or removed.\<close>

fun redraws :: "win \<Rightarrow> win_op \<Rightarrow> bool" where
  "redraws w (Drop items x y) = (w_drag w \<noteq> None \<and> \<not> (\<exists>it \<in> set items. \<exists>cd \<in> set (w_devs w). cd_canvas_id cd = it))"
| "redraws w (Move i x y) = (i < length (w_devs w))"
| "redraws w (RightClick items yes) = (hit items (w_devs w) \<noteq> None \<and> yes)"
| "redraws w _ = False"

text \<open>An operation, or a new width of the canvas.\<close>

datatype draw_op = Op win_op | Resize int

fun draw_step :: "disk \<Rightarrow> draw_op \<Rightarrow> (win \<times> files) \<times> drawing \<Rightarrow> (win \<times> files) \<times> drawing" where
  "draw_step dk (Op p) (s, d) =
     (let s' = win_step dk p s in (s', if redraws (fst s) p then redraw_connectors (fst s') d else d))"
| "draw_step dk (Resize width) (s, d) = (s, draw_bus width (fst s) d)"

text \<open>Loading the configuration adds its devices one after the other, each with the lines.\<close>

definition load_drawn :: "disk \<Rightarrow> nat \<Rightarrow> win \<times> drawing \<Rightarrow> win \<times> drawing" where
  "load_drawn dk c s =
     (case s of (w, d) \<Rightarrow>
        (let w' = load_one dk c w in (w', if readable dk (w_cfgs w ! c) then redraw_connectors w' d else d)))"

lemma same_coords:
  "w_devs w' = w_devs w \<Longrightarrow> w_cfgs w' = w_cfgs w \<Longrightarrow> connectors w' = connectors w"
  by (simp add: connectors_def)

lemma load_path_same: "w_devs (load_path dk p w) = w_devs w \<and> w_cfgs (load_path dk p w) = w_cfgs w"
  by (auto simp: load_path_def new_gsdml_def Let_def split: sum.splits)

lemma load_files_same: "w_devs (load_gsdml_files dk ps w) = w_devs w \<and> w_cfgs (load_gsdml_files dk ps w) = w_cfgs w"
  unfolding load_gsdml_files_def by (induction ps arbitrary: w) (simp_all add: load_path_same)

text \<open>The dialog leaves the places alone, and so do Apply and Cancel.\<close>

lemma dialog_done_place:
  assumes "edits es (dialog_open dc g) = Inr dg"
  shows "dc_canvas_x (dg_cfg (dialog_done ok dg)) = dc_canvas_x dc \<and> dc_canvas_y (dg_cfg (dialog_done ok dg)) = dc_canvas_y dc"
proof -
  have "dg_cfg dg = dc\<lparr>dc_dap_id := dc_dap_id (dg_cfg dg)\<rparr>"
    using edits_cfg [OF assms dialog_open_cfg] by (simp add: same_but_dap_def)
  then have "dc_canvas_x (dg_cfg dg) = dc_canvas_x dc" "dc_canvas_y (dg_cfg dg) = dc_canvas_y dc"
    by (metis device_config.select_convs(8,9) device_config.surjective device_config.update_convs(2))+
  moreover have "dc_canvas_x (sync_legacy_from_rack c) = dc_canvas_x c" for c
    by (simp add: sync_legacy_from_rack_def split: list.split)
  ultimately show ?thesis by (auto simp: dialog_done_def on_apply_def on_cancel_def Let_def)
qed

lemma double_click_lines:
  assumes "double_click items es ok w = Inr w'"
  shows "connectors w' = connectors w"
proof (cases "hit items (w_devs w)")
  case None
  with assms show ?thesis by (simp add: double_click_def)
next
  case (Some i)
  obtain dg where
    dg: "edits es (dialog_open (w_cfgs w ! cd_cfg (w_devs w ! i)) (w_gsdmls w ! cd_gsdml (w_devs w ! i))) = Inr dg"
    and cfgs: "w_cfgs w' = (w_cfgs w)[cd_cfg (w_devs w ! i) := dg_cfg (dialog_done ok dg)]"
    and devs: "\<exists>l. w_devs w' = (w_devs w)[i := (w_devs w ! i)\<lparr>cd_label := l\<rparr>]"
    by (rule double_click_Inr [OF assms Some])
  have "cd_cfg (w_devs w' ! k) = cd_cfg (w_devs w ! k)" "length (w_devs w') = length (w_devs w)"
    if "k < length (w_devs w)" for k
    using devs hit_less [OF Some] that by (auto simp: nth_list_update)
  moreover have "dc_canvas_x (w_cfgs w' ! c) = dc_canvas_x (w_cfgs w ! c) \<and> dc_canvas_y (w_cfgs w' ! c) = dc_canvas_y (w_cfgs w ! c)" for c
    using dialog_done_place [OF dg, of ok]
    by (cases "c = cd_cfg (w_devs w ! i)"; cases "cd_cfg (w_devs w ! i) < length (w_cfgs w)") (simp_all add: cfgs list_update_beyond)
  moreover have "length (w_devs w') = length (w_devs w)" using devs by auto
  ultimately show ?thesis unfolding connectors_def by (intro nth_equalityI) simp_all
qed

text \<open>What is drawn is what is there.\<close>

lemma step_lines:
  assumes "dr_lines d = connectors (fst s)"
  shows "dr_lines (snd (draw_step dk p (s, d))) = connectors (fst (fst (draw_step dk p (s, d))))"
proof (cases p)
  case (Op q)
  obtain w fs where s: "s = (w, fs)" by (cases s)
  have "connectors (fst (win_step dk q (w, fs))) = connectors w" if "\<not> redraws w q"
  proof (cases q)
    case (DoubleClick items es ok)
    then show ?thesis by (auto simp: double_click_lines split: sum.split)
  qed (use that in \<open>auto simp: load_files_same remove_gsdml_def lb_press_def canvas_drop_def right_click_def
      choose_adapter_def apply_restart_def Let_def intro!: same_coords split: option.split\<close>)
  with assms show ?thesis by (simp add: Op s Let_def redraw_connectors_def)
qed (use assms in \<open>simp add: draw_bus_def redraw_connectors_def\<close>)

lemma load_lines:
  assumes "dr_lines d = connectors w"
  shows "case load_drawn dk c (w, d) of (w', d') \<Rightarrow> w' = load_one dk c w \<and> dr_lines d' = connectors w'"
proof (cases "readable dk (w_cfgs w ! c)")
  case False
  have "load_one dk c w = w" using False by (auto simp: load_one_def readable_def Let_def split: sum.split)
  with False assms show ?thesis by (simp add: load_drawn_def)
qed (simp add: load_drawn_def redraw_connectors_def Let_def)

text \<open>The tab as it opens: the bus, then the devices.\<close>

definition tab_opened :: "disk \<Rightarrow> int \<Rightarrow> nat list \<Rightarrow> win \<Rightarrow> win \<times> drawing" where
  "tab_opened dk width refs w = fold (load_drawn dk) refs (w, draw_bus width w \<lparr>dr_bus = [], dr_lines = []\<rparr>)"

lemma tab_opened_lines:
  "fst (tab_opened dk width refs w) = load_from_configs dk refs w
   \<and> dr_lines (snd (tab_opened dk width refs w)) = connectors (load_from_configs dk refs w)"
proof -
  have "fst (fold (load_drawn dk) refs (w, d)) = load_from_configs dk refs w
      \<and> dr_lines (snd (fold (load_drawn dk) refs (w, d))) = connectors (load_from_configs dk refs w)"
    if "dr_lines d = connectors w" for w d
    using that
  proof (induction refs arbitrary: w d)
    case (Cons c refs)
    obtain w1 d1 where w1: "load_drawn dk c (w, d) = (w1, d1)" by fastforce
    then have "w1 = load_one dk c w" "dr_lines d1 = connectors w1" using load_lines [OF Cons.prems, of dk c] by simp_all
    with Cons.IH [of d1 w1] w1 show ?case by (simp add: load_from_configs_def)
  qed (simp add: load_from_configs_def)
  then show ?thesis by (simp add: tab_opened_def draw_bus_def redraw_connectors_def)
qed

text \<open>However the tab is used after it has opened, there is one line for each device on the canvas, from the
  bus straight down to the top of its picture, and at least 56 points long.\<close>

theorem lines_follow:
  "case fold (draw_step dk) ops ((load_from_configs dk refs w, fs), snd (tab_opened dk width refs w)) of ((w', fs'), d) \<Rightarrow>
     dr_lines d = connectors w'
     \<and> (canvas_ok w' \<longrightarrow> list_all (\<lambda>l. \<exists>x y. l = Line x BUS_Y x y \<and> BUS_Y + 56 \<le> y) (dr_lines d))"
proof -
  have lines: "dr_lines (snd (fold (draw_step dk) ops s)) = connectors (fst (fst (fold (draw_step dk) ops s)))"
    if "dr_lines (snd s) = connectors (fst (fst s))" for s
    using that
  proof (induction ops arbitrary: s)
    case (Cons p ops)
    then show ?case using step_lines [of "snd s" "fst s" dk p] by simp
  qed simp
  have "list_all (\<lambda>l. \<exists>x y. l = Line x BUS_Y x y \<and> BUS_Y + 56 \<le> y) (connectors w')" if "canvas_ok w'" for w'
    using that by (fastforce simp: canvas_ok_def connectors_def list_all_iff)
  then show ?thesis
    using lines [of "((load_from_configs dk refs w, fs), snd (tab_opened dk width refs w))"] tab_opened_lines [of dk width refs w]
    by (auto simp: case_prod_beta)
qed

end
