(* ===== verification/Old_Abi.thy ===== *)
theory Old_Abi
  imports Adapters Ui_Device
begin

text \<open>
  The boundary between the earlier gateway and its library in C: the \<open>ctypes\<close> structures and
  function types of \<open>profinet_gateway/profinet_ctrl.py\<close> beside the declarations of
  \<open>include/profinet_api.h\<close>.  Python lays its structures out packed, the header without a packing,
  so a C compiler aligns every field; how 64-bit integers are aligned is an argument.
\<close>

section \<open>Layouts\<close>

datatype cty = U8 | Char8 | U16 | U32 | U64 | Arr cty nat

primrec size_of :: "cty \<Rightarrow> nat" where
  "size_of U8 = 1" | "size_of Char8 = 1" | "size_of U16 = 2" | "size_of U32 = 4" | "size_of U64 = 8"
| "size_of (Arr t n) = size_of t * n"

primrec align_of :: "nat \<Rightarrow> cty \<Rightarrow> nat" where
  "align_of a U8 = 1" | "align_of a Char8 = 1" | "align_of a U16 = 2" | "align_of a U32 = 4" | "align_of a U64 = a"
| "align_of a (Arr t n) = align_of a t"

definition align_up :: "nat \<Rightarrow> nat \<Rightarrow> nat" where
  "align_up a n = (n + a - 1) div a * a"

type_synonym struct = "(string \<times> cty) list"

text \<open>The place and the size of every field from an offset on: packed, and as a C compiler aligns them.\<close>

fun packed :: "nat \<Rightarrow> struct \<Rightarrow> (string \<times> nat \<times> nat) list" where
  "packed off [] = []"
| "packed off ((n, t) # fs) = (n, off, size_of t) # packed (off + size_of t) fs"

definition packed_size :: "struct \<Rightarrow> nat" where
  "packed_size fs = sum_list (map (size_of \<circ> snd) fs)"

fun natural :: "nat \<Rightarrow> nat \<Rightarrow> struct \<Rightarrow> (string \<times> nat \<times> nat) list" where
  "natural a off [] = []"
| "natural a off ((n, t) # fs) =
     (let o' = align_up (align_of a t) off in (n, o', size_of t) # natural a (o' + size_of t) fs)"

definition natural_size :: "nat \<Rightarrow> struct \<Rightarrow> nat" where
  "natural_size a fs =
     align_up (foldr (max \<circ> align_of a \<circ> snd) fs 1)
       (case rev (natural a 0 fs) of [] \<Rightarrow> 0 | (_, off, n) # _ \<Rightarrow> off + n)"

section \<open>The structures\<close>

definition PN_DeviceInfo :: struct where
  "PN_DeviceInfo = [(''mac'', Arr U8 6), (''_pad'', Arr U8 2), (''ip_str'', Arr Char8 16),
     (''name_of_station'', Arr Char8 240), (''vendor_id'', U16), (''device_id'', U16), (''order_id'', Arr Char8 64)]"

definition PN_ARConfig :: struct where
  "PN_ARConfig = [(''device_mac'', Arr U8 6), (''_pad'', Arr U8 2), (''device_ip'', Arr Char8 16),
     (''send_clock_factor'', U16), (''reduction_ratio'', U8), (''_pad2'', U8), (''watchdog_factor'', U16),
     (''_pad3'', Arr U8 2), (''api'', U32), (''slot'', U16), (''subslot'', U16), (''module_ident'', U32),
     (''submodule_ident'', U32)]"

definition PN_Stats :: struct where
  "PN_Stats = [(''frames_sent'', U64), (''frames_received'', U64), (''missed_cycles'', U64), (''watchdog_timeouts'', U64),
     (''cycle_counter'', U32), (''connected'', U8), (''cyclic_running'', U8), (''_pad'', Arr U8 2)]"

text \<open>The same in the header.\<close>

definition h_DeviceInfo :: struct where
  "h_DeviceInfo = [(''mac'', Arr U8 6), (''_pad'', Arr U8 2), (''ip_str'', Arr Char8 16),
     (''name_of_station'', Arr Char8 240), (''vendor_id'', U16), (''device_id'', U16), (''order_id'', Arr Char8 64)]"

definition h_ARConfig :: struct where
  "h_ARConfig = [(''device_mac'', Arr U8 6), (''_pad'', Arr U8 2), (''device_ip'', Arr Char8 16),
     (''send_clock_factor'', U16), (''reduction_ratio'', U8), (''_pad2'', U8), (''watchdog_factor'', U16),
     (''_pad3'', Arr U8 2), (''api'', U32), (''slot'', U16), (''subslot'', U16), (''module_ident'', U32),
     (''submodule_ident'', U32)]"

definition h_Stats :: struct where
  "h_Stats = [(''frames_sent'', U64), (''frames_received'', U64), (''missed_cycles'', U64), (''watchdog_timeouts'', U64),
     (''cycle_counter'', U32), (''connected'', U8), (''cyclic_running'', U8), (''_pad'', Arr U8 2)]"

definition STRUCTS :: "(struct \<times> struct) list" where
  "STRUCTS = [(PN_DeviceInfo, h_DeviceInfo), (PN_ARConfig, h_ARConfig), (PN_Stats, h_Stats)]"

section \<open>The memory of a structure\<close>

text \<open>What Python puts into the memory, given the bytes of every field, and what is read at a place.\<close>

definition image_of :: "struct \<Rightarrow> (string \<Rightarrow> bytes) \<Rightarrow> bytes" where
  "image_of fs v = concat (map (v \<circ> fst) fs)"

definition read_field :: "(string \<times> nat \<times> nat) list \<Rightarrow> string \<Rightarrow> bytes \<Rightarrow> bytes option" where
  "read_field lay n mem = map_option (\<lambda>(off, k). take k (drop off mem)) (map_of lay n)"

definition sized :: "struct \<Rightarrow> (string \<Rightarrow> bytes) \<Rightarrow> bool" where
  "sized fs v \<longleftrightarrow> list_all (\<lambda>(n, t). length (v n) = size_of t) fs"

lemma map_of_packed:
  "(n, t) \<in> set fs \<Longrightarrow> distinct (map fst fs) \<Longrightarrow> sized fs v
   \<Longrightarrow> \<exists>off. map_of (packed (length pre) fs) n = Some (off, size_of t) \<and> take (size_of t) (drop off (pre @ image_of fs v)) = v n"
proof (induction fs arbitrary: pre)
  case (Cons f fs)
  obtain m u where f: "f = (m, u)" by (cases f)
  have len: "length (v m) = size_of u" and sz: "sized fs v" using Cons.prems(3) by (simp_all add: f sized_def)
  show ?case
  proof (cases "n = m")
    case True
    then have "t = u" using Cons.prems(1,2) by (auto simp: f image_iff)
    with True len show ?thesis by (simp add: f image_of_def)
  next
    case False
    then have "(n, t) \<in> set fs" "distinct (map fst fs)" using Cons.prems by (auto simp: f)
    from Cons.IH [OF this sz, of "pre @ v m"] False len show ?thesis by (simp add: f image_of_def)
  qed
qed simp

lemma length_image: "sized fs v \<Longrightarrow> length (image_of fs v) = packed_size fs"
  by (induction fs) (auto simp: sized_def image_of_def packed_size_def)

lemma read_packed:
  assumes "(n, t) \<in> set fs" "distinct (map fst fs)" "sized fs v"
  shows "read_field (packed 0 fs) n (image_of fs v) = Some (v n)"
  using map_of_packed [OF assms, of "[]"] by (auto simp: read_field_def)

text \<open>No field of these structures needs a gap, and none a gap behind it in an array.\<close>

lemma struct_layouts:
  "list_all (\<lambda>(py, c). py = c \<and> natural 4 0 c = packed 0 py \<and> natural_size 4 c = packed_size py
     \<and> natural 8 0 c = packed 0 py \<and> natural_size 8 c = packed_size py \<and> distinct (map fst py)) STRUCTS"
  by code_simp

text \<open>Whatever Python writes into the fields of a structure, the library reads back from the fields of the
  same names, and the other way round, with either alignment of 64-bit integers; also in an array of
  them, where one is as far from the next in C as in Python.\<close>

theorem structs_agree:
  assumes "(py, c) \<in> set STRUCTS" and "a \<in> {4, 8}" and "(n, t) \<in> set c" and "sized py v"
  shows "read_field (natural a 0 c) n (image_of py v) = Some (v n)
    \<and> read_field (packed 0 py) n (image_of c v) = Some (v n) \<and> length (image_of py v) = natural_size a c"
proof -
  have "py = c" "natural a 0 c = packed 0 py" "natural_size a c = packed_size py" "distinct (map fst py)"
    using assms(1,2) struct_layouts by (auto simp: list_all_iff)
  with assms(3,4) show ?thesis by (simp add: read_packed length_image)
qed

section \<open>The configuration of a relation in memory\<close>

definition le32 :: "int \<Rightarrow> bytes" where
  "le32 v = rev (be32 v)"

definition ar_field :: "ar_config \<Rightarrow> string \<Rightarrow> bytes" where
  "ar_field ar n =
     (case map_of
        [(''device_mac'', ar_mac ar), (''_pad'', zeros 2), (''device_ip'', ljust 16 (map of_char (ar_ip ar))),
         (''send_clock_factor'', le16 (ar_send_clock ar)), (''reduction_ratio'', [word_of_int (ar_reduction ar)]),
         (''_pad2'', zeros 1), (''watchdog_factor'', le16 (ar_watchdog ar)), (''_pad3'', zeros 2), (''api'', le32 (ar_api ar)),
         (''slot'', le16 (ar_slot ar)), (''subslot'', le16 (ar_subslot ar)), (''module_ident'', le32 (ar_module ar)),
         (''submodule_ident'', le32 (ar_submodule ar))] n of
        Some bs \<Rightarrow> bs | None \<Rightarrow> [])"

lemma ar_field_sized: "ar_of mac dc = Inr ar \<Longrightarrow> length mac = 6 \<Longrightarrow> sized PN_ARConfig (ar_field ar)"
  by (auto simp: sized_def PN_ARConfig_def ar_field_def ar_of_def le32_def split: if_splits)

text \<open>The library gets the address of the device as sixteen bytes, without a zero behind it when the
  address has sixteen characters, such as one with leading zeros that the dialog accepts.\<close>

lemma ar_ip_read:
  assumes "ar_of mac dc = Inr ar" and "length mac = 6" and "a \<in> {4, 8}"
  shows "read_field (natural a 0 h_ARConfig) ''device_ip'' (image_of PN_ARConfig (ar_field ar)) =
    Some (map of_char (od_ip dc) @ zeros (16 - length (od_ip dc)))"
proof -
  have "(PN_ARConfig, h_ARConfig) \<in> set STRUCTS" "(''device_ip'', Arr Char8 16) \<in> set h_ARConfig"
    by (simp_all add: STRUCTS_def h_ARConfig_def)
  from structs_agree [OF this(1) assms(3) this(2) ar_field_sized [OF assms(1,2)]]
  show ?thesis using assms(1) by (auto simp: ar_field_def ar_of_def ljust_def split: if_splits)
qed

lemma zeros_accepted: "ip_ok ''0192.168.001.010'' \<and> length ''0192.168.001.010'' = 16"
proof -
  have "ip_ok ''0192.168.001.010''" by code_simp
  then show ?thesis by simp
qed

section \<open>The functions\<close>

text \<open>Types of arguments in \<open>ctypes\<close>, and of parameters in the header.\<close>

datatype pty = P_char_p | P_void_p | P_int32 | P_uint8 | P_uint16 | P_uint32 | P_char | P_struct string | P_ptr pty | P_arr pty nat

datatype hty = H_handle | H_int32 | H_uint8 | H_uint16 | H_uint32 | H_char | H_struct string | H_ptr hty | H_arr hty nat

text \<open>An array is passed as the address of its first element.\<close>

primrec agrees :: "pty \<Rightarrow> hty \<Rightarrow> bool" where
  "agrees P_char_p h = (h = H_ptr H_char)"
| "agrees P_void_p h = (h = H_handle)"
| "agrees P_int32 h = (h = H_int32)"
| "agrees P_uint8 h = (h = H_uint8)"
| "agrees P_uint16 h = (h = H_uint16)"
| "agrees P_uint32 h = (h = H_uint32)"
| "agrees P_char h = (h = H_char)"
| "agrees (P_struct s) h = (h = H_struct s)"
| "agrees (P_ptr p) h = (case h of H_ptr h' \<Rightarrow> agrees p h' | _ \<Rightarrow> False)"
| "agrees (P_arr p n) h =
     (case h of H_ptr h' \<Rightarrow> agrees p h' | H_arr h' m \<Rightarrow> m = n \<and> agrees p h' | _ \<Rightarrow> False)"

text \<open>The attribute, the symbol, the result and the arguments of each function bound.\<close>

definition ADAPTER_ARR :: pty where "ADAPTER_ARR = P_arr (P_arr P_char 256) 16"

definition BINDING :: "(string \<times> string \<times> pty option \<times> pty list) list" where
  "BINDING =
    [(''_PN_GetVersion'', ''PN_GetVersion'', None, [P_char_p, P_uint32]),
     (''_PN_EnumAdapters'', ''PN_EnumerateAdapters'', Some P_int32, [ADAPTER_ARR, P_int32, P_ptr P_int32]),
     (''_PN_GetAdapterName'', ''PN_GetAdapterName'', Some P_int32, [P_int32, P_char_p, P_int32]),
     (''_PN_Initialize'', ''PN_Initialize'', Some P_int32, [P_char_p, P_ptr P_void_p]),
     (''_PN_Shutdown'', ''PN_Shutdown'', Some P_int32, [P_void_p]),
     (''_PN_GetLastError'', ''PN_GetLastError'', Some P_int32, [P_void_p, P_char_p, P_uint32]),
     (''_PN_DCPDiscover'', ''PN_DCPDiscover'', Some P_int32,
        [P_void_p, P_ptr (P_struct ''PN_DeviceInfo''), P_int32, P_ptr P_int32, P_uint32]),
     (''_PN_DCPSetIP'', ''PN_DCPSetIP'', Some P_int32, [P_void_p, P_arr P_uint8 6, P_char_p, P_char_p, P_char_p]),
     (''_PN_DCPSetName'', ''PN_DCPSetName'', Some P_int32, [P_void_p, P_arr P_uint8 6, P_char_p]),
     (''_PN_Connect'', ''PN_Connect'', Some P_int32, [P_void_p, P_ptr (P_struct ''PN_ARConfig'')]),
     (''_PN_Disconnect'', ''PN_Disconnect'', Some P_int32, [P_void_p]),
     (''_PN_IsConnected'', ''PN_IsConnected'', Some P_int32, [P_void_p]),
     (''_PN_DriveSetpoint'', ''PN_DriveSetpoint'', Some P_int32, [P_void_p, P_uint16, P_uint16]),
     (''_PN_DriveStatus'', ''PN_DriveStatus'', Some P_int32, [P_void_p, P_ptr P_uint16, P_ptr P_uint16]),
     (''_PN_WriteOutputs'', ''PN_WriteOutputs'', Some P_int32, [P_void_p, P_ptr P_uint8, P_uint16]),
     (''_PN_ReadInputs'', ''PN_ReadInputs'', Some P_int32, [P_void_p, P_ptr P_uint8, P_uint16]),
     (''_PN_GetStats'', ''PN_GetStats'', Some P_int32, [P_void_p, P_ptr (P_struct ''PN_Stats'')])]"

definition PROTOTYPES :: "(string \<times> hty option \<times> hty list) list" where
  "PROTOTYPES =
    [(''PN_Initialize'', Some H_int32, [H_ptr H_char, H_ptr H_handle]),
     (''PN_Shutdown'', Some H_int32, [H_handle]),
     (''PN_GetVersion'', None, [H_ptr H_char, H_uint32]),
     (''PN_EnumerateAdapters'', Some H_int32, [H_ptr (H_arr H_char 256), H_int32, H_ptr H_int32]),
     (''PN_GetAdapterName'', Some H_int32, [H_int32, H_ptr H_char, H_int32]),
     (''PN_LoadGSDML'', Some H_int32, [H_handle, H_ptr H_char]),
     (''PN_GetModuleList'', Some H_int32, [H_handle, H_ptr (H_struct ''PN_ModuleDesc''), H_int32, H_ptr H_int32]),
     (''PN_DCPDiscover'', Some H_int32,
        [H_handle, H_ptr (H_struct ''PN_DeviceInfo''), H_int32, H_ptr H_int32, H_uint32]),
     (''PN_GetDiscoveredDevice'', Some H_int32, [H_handle, H_int32, H_ptr (H_struct ''PN_DeviceInfo'')]),
     (''PN_DCPSetIP'', Some H_int32, [H_handle, H_ptr H_uint8, H_ptr H_char, H_ptr H_char, H_ptr H_char]),
     (''PN_DCPSetName'', Some H_int32, [H_handle, H_ptr H_uint8, H_ptr H_char]),
     (''PN_Connect'', Some H_int32, [H_handle, H_ptr (H_struct ''PN_ARConfig'')]),
     (''PN_Disconnect'', Some H_int32, [H_handle]),
     (''PN_IsConnected'', Some H_int32, [H_handle]),
     (''PN_WriteOutputs'', Some H_int32, [H_handle, H_ptr H_uint8, H_uint16]),
     (''PN_ReadInputs'', Some H_int32, [H_handle, H_ptr H_uint8, H_uint16]),
     (''PN_DriveSetpoint'', Some H_int32, [H_handle, H_uint16, H_uint16]),
     (''PN_DriveStatus'', Some H_int32, [H_handle, H_ptr H_uint16, H_ptr H_uint16]),
     (''PN_GetStats'', Some H_int32, [H_handle, H_ptr (H_struct ''PN_Stats'')]),
     (''PN_ResetStats'', Some H_int32, [H_handle]),
     (''PN_GetLastError'', Some H_int32, [H_handle, H_ptr H_char, H_uint32])]"


fun symbol_of :: "old_call \<Rightarrow> string \<times> nat" where
  "symbol_of (OInit _) = (''PN_Initialize'', 2)"
| "symbol_of (OShutdown _) = (''PN_Shutdown'', 1)"
| "symbol_of (ODisconnect _) = (''PN_Disconnect'', 1)"
| "symbol_of (OSetName _ _ _) = (''PN_DCPSetName'', 3)"
| "symbol_of (OSetIp _ _ _ _ _) = (''PN_DCPSetIP'', 5)"
| "symbol_of (OConnect _ _) = (''PN_Connect'', 2)"
| "symbol_of (OSetpoint _ _ _) = (''PN_DriveSetpoint'', 3)"
| "symbol_of (OWrite _ _) = (''PN_WriteOutputs'', 3)"
| "symbol_of (OStatus _) = (''PN_DriveStatus'', 3)"
| "symbol_of (ORead _ _) = (''PN_ReadInputs'', 3)"
| "symbol_of (ODiscover _ _) = (''PN_DCPDiscover'', 5)"
| "symbol_of (OStats _) = (''PN_GetStats'', 2)"

lemma binding_rows:
  "list_all (\<lambda>(_, fn, res, args).
      case map_of PROTOTYPES fn of
        None \<Rightarrow> False
      | Some (hres, hargs) \<Rightarrow> rel_option agrees res hres \<and> list_all2 agrees args hargs) BINDING"
  by code_simp

text \<open>Every function is bound with the types of the header, and every call that the controller makes is to
  one of them, with as many arguments as it has parameters.\<close>

theorem binding_agrees:
  "(\<forall>(attr, fn, res, args) \<in> set BINDING. \<exists>hres hargs. map_of PROTOTYPES fn = Some (hres, hargs)
      \<and> rel_option agrees res hres \<and> list_all2 agrees args hargs)
   \<and> (case symbol_of c of (fn, n) \<Rightarrow> \<exists>attr res args. (attr, fn, res, args) \<in> set BINDING \<and> length args = n)"
proof
  show "\<forall>(attr, fn, res, args) \<in> set BINDING. \<exists>hres hargs. map_of PROTOTYPES fn = Some (hres, hargs)
      \<and> rel_option agrees res hres \<and> list_all2 agrees args hargs"
    using binding_rows by (fastforce simp: list_all_iff split: option.splits)
  show "case symbol_of c of (fn, n) \<Rightarrow> \<exists>attr res args. (attr, fn, res, args) \<in> set BINDING \<and> length args = n"
    by (cases c) (auto simp: BINDING_def)
qed

section \<open>The library as loaded\<close>

text \<open>Without the file there is no library; with it, a symbol that it lacks is only logged, and its attribute
  is \<open>None\<close>.\<close>

datatype lib = NoLib | Lib "string list"

definition load_lib :: "bool \<Rightarrow> (string \<Rightarrow> bool) \<Rightarrow> lib" where
  "load_lib found exports = (if found then Lib (filter exports (map (fst \<circ> snd) BINDING)) else NoLib)"

fun bound :: "lib \<Rightarrow> string \<Rightarrow> bool" where
  "bound NoLib s = False" | "bound (Lib ss) s = (s \<in> set ss)"

text \<open>The text of a buffer that the library filled; decoding is left out.\<close>

definition c_text :: "bytes \<Rightarrow> bytes" where
  "c_text = takeWhile (\<lambda>b. b \<noteq> 0)"

definition get_version :: "lib \<Rightarrow> bytes \<Rightarrow> bytes" where
  "get_version lib buf = (if bound lib ''PN_GetVersion'' then c_text buf else map of_char ''?'')"

definition old_enumerate :: "lib \<Rightarrow> bytes list \<Rightarrow> bytes list" where
  "old_enumerate lib names = (if bound lib ''PN_EnumerateAdapters'' then map old_adapter_name names else [])"

text \<open>Without a library the attribute was never set; but there is no handle then either.\<close>

definition get_last_error :: "lib \<Rightarrow> nat \<Rightarrow> bytes \<Rightarrow> py_error + bytes" where
  "get_last_error lib handle buf =
     (case lib of
        NoLib \<Rightarrow> Inl AttributeError
      | Lib _ \<Rightarrow> Inr (if bound lib ''PN_GetLastError'' \<and> handle \<noteq> 0 then c_text buf else []))"

text \<open>What \<open>stop\<close> calls for a handle: only what the library has.\<close>

definition lib_stop_calls :: "lib \<Rightarrow> nat \<Rightarrow> old_call list" where
  "lib_stop_calls lib h =
     (if bound lib ''PN_Disconnect'' then [ODisconnect h] else []) @ (if bound lib ''PN_Shutdown'' then [OShutdown h] else [])"

text \<open>With a library that has every function of the header, stopping is what the controller's model does.\<close>

lemma lib_stop_calls_all:
  "ov_handle d \<noteq> 0 \<Longrightarrow> op_calls (old_stop_dev d op)
     = op_calls op @ lib_stop_calls (load_lib True (\<lambda>s. s \<in> fst ` set PROTOTYPES)) (ov_handle d)"
  by (simp add: old_stop_dev_def ocall_def lib_stop_calls_def load_lib_def BINDING_def PROTOTYPES_def)

end
