(* ===== verification/Sim_Main.thy ===== *)
theory Sim_Main
  imports Sim_System Adapters
begin

text \<open>
  The simulator as a program (\<open>simulator/vfd_sim.py\<close>): the wrapper of the capture library, the start and
  the end of the threads, and the command line.  Every thread is at the head of its loop, where it
  looks whether to stop, in the body, or gone; a step of a thread is one of the two, so that stopping
  may fall between them.  What the library and the sockets answer is an argument of the step.  Two
  properties are about the life of the threads: how they end, and that those of past sessions do not.
\<close>

section \<open>State\<close>

datatype place = Head | Body | Gone

text \<open>A cyclic thread with its period, its cycle counter and the time of its next frame.\<close>

type_synonym cyc = "place \<times> int \<times> int \<times> int"

record sim_run =
  rn_sim :: sim
  rn_pcap :: bool
  rn_sock :: bool
  rn_stop :: bool
  rn_pkt :: place
  rn_rpc :: place
  rn_cyc :: "cyc list"
  rn_frames :: "bytes list"
  rn_null_reads :: nat

section \<open>The capture library\<close>

definition pcap_send :: "bytes \<Rightarrow> sim_run \<Rightarrow> sim_run" where
  "pcap_send frame r = (if rn_pcap r then r\<lparr>rn_frames := rn_frames r @ [frame]\<rparr> else r)"

text \<open>A packet with its return code, which is 1 when there is one; the call is made with whatever the handle
  is, and with none after closing.\<close>

definition pcap_recv :: "int \<times> bytes option \<Rightarrow> sim_run \<Rightarrow> bytes option \<times> sim_run" where
  "pcap_recv res r =
     (case res of (rc, data) \<Rightarrow>
        (if rc = 1 then data else None, if rn_pcap r then r else r\<lparr>rn_null_reads := rn_null_reads r + 1\<rparr>))"

definition pcap_close :: "sim_run \<Rightarrow> sim_run" where
  "pcap_close r = (if rn_pcap r then r\<lparr>rn_pcap := False\<rparr> else r)"

text \<open>What a handler sends and starts; a cyclic thread takes its period and its first time when it starts.\<close>

fun run_act :: "int \<Rightarrow> sim_act \<Rightarrow> sim_run \<Rightarrow> sim_run" where
  "run_act now (PcapSend f) r = pcap_send f r"
| "run_act now (RpcSend bs a) r = r"
| "run_act now SpawnCyclic r =
     r\<lparr>rn_cyc := rn_cyc r @ [(Head, cyclic_period (rn_sim r), 0, now + cyclic_period (rn_sim r))]\<rparr>"

definition finish :: "int \<Rightarrow> sim_res \<Rightarrow> sim_run \<Rightarrow> place \<times> sim_run" where
  "finish now res r =
     (case res of (e, s, acts) \<Rightarrow> (if e = None then Head else Gone, fold (run_act now) acts (r\<lparr>rn_sim := s\<rparr>)))"

section \<open>Threads\<close>

definition check :: "sim_run \<Rightarrow> place" where
  "check r = (if rn_stop r then Gone else Body)"

definition pkt_body :: "int \<Rightarrow> int \<times> bytes option \<Rightarrow> sim_run \<Rightarrow> sim_run" where
  "pkt_body now res r =
     (case pcap_recv res r of (ev, r1) \<Rightarrow>
        (case finish now (pkt_step (rn_sim r1) ev) r1 of (p, r2) \<Rightarrow> r2\<lparr>rn_pkt := p\<rparr>))"

definition rpc_body :: "int \<Rightarrow> rpc_ev \<Rightarrow> sim_run \<Rightarrow> sim_run" where
  "rpc_body now ev r =
     (case ev of
        RpcTimeout \<Rightarrow> r\<lparr>rn_rpc := Head\<rparr>
      | RpcBroken \<Rightarrow> r\<lparr>rn_rpc := Gone\<rparr>
      | RpcData buf frm \<Rightarrow> (case finish now (rpc_dispatch (rn_sim r) buf frm) r of (p, r2) \<Rightarrow> r2\<lparr>rn_rpc := p\<rparr>))"

definition cyc_body :: "int \<Rightarrow> nat \<Rightarrow> sim_run \<Rightarrow> sim_run" where
  "cyc_body now i r =
     (case rn_cyc r ! i of (_, period, cc, nxt) \<Rightarrow>
        (case cyclic_turn period now (rn_sim r) (cc, nxt) of (res, cc', nxt') \<Rightarrow>
          (case finish now res r of (p, r2) \<Rightarrow> r2\<lparr>rn_cyc := (rn_cyc r2)[i := (p, period, cc', nxt')]\<rparr>)))"

definition cyc_check :: "nat \<Rightarrow> sim_run \<Rightarrow> sim_run" where
  "cyc_check i r = (case rn_cyc r ! i of (_, rest) \<Rightarrow> r\<lparr>rn_cyc := (rn_cyc r)[i := (check r, rest)]\<rparr>)"

inductive thread_step :: "sim_run \<Rightarrow> sim_run \<Rightarrow> bool" where
  pkt_head: "rn_pkt r = Head \<Longrightarrow> thread_step r (r\<lparr>rn_pkt := check r\<rparr>)"
| pkt_body: "rn_pkt r = Body \<Longrightarrow> thread_step r (pkt_body now res r)"
| rpc_head: "rn_rpc r = Head \<Longrightarrow> thread_step r (r\<lparr>rn_rpc := check r\<rparr>)"
| rpc_body: "rn_rpc r = Body \<Longrightarrow> thread_step r (rpc_body now ev r)"
| cyc_head: "i < length (rn_cyc r) \<Longrightarrow> fst (rn_cyc r ! i) = Head \<Longrightarrow> thread_step r (cyc_check i r)"
| cyc_body: "i < length (rn_cyc r) \<Longrightarrow> fst (rn_cyc r ! i) = Body \<Longrightarrow> thread_step r (cyc_body now i r)"

inductive_cases thread_stepE: "thread_step r r'"

section \<open>Start and stop\<close>

text \<open>Opening the capture gives an error text or none; then the addresses are read, and the port is taken.\<close>

definition sim_new :: "string option \<Rightarrow> bool \<Rightarrow> bytes \<Rightarrow> string \<Rightarrow> string \<Rightarrow> bool \<Rightarrow> py_error + sim_run" where
  "sim_new open_error port_free name ip mac auto_sim =
     (case open_error of
        Some msg \<Rightarrow> Inl (RuntimeError (''pcap_open_live failed: '' @ msg))
      | None \<Rightarrow>
          bindE (sim_init name ip mac auto_sim) (\<lambda>s.
            if \<not> port_free then Inl OSError
            else Inr \<lparr>rn_sim = s, rn_pcap = True, rn_sock = True, rn_stop = False, rn_pkt = Gone, rn_rpc = Gone,
                      rn_cyc = [], rn_frames = [], rn_null_reads = 0\<rparr>))"

definition sim_start :: "sim_run \<Rightarrow> sim_run" where
  "sim_start r = r\<lparr>rn_pkt := Head, rn_rpc := Head\<rparr>"

text \<open>Stopping sets the event, waits a tenth of a second for the threads, and closes.\<close>

definition stop_event :: "sim_run \<Rightarrow> sim_run" where
  "stop_event r = r\<lparr>rn_stop := True\<rparr>"

definition stop_close :: "sim_run \<Rightarrow> sim_run" where
  "stop_close r = pcap_close (r\<lparr>rn_sock := False\<rparr>)"

inductive run_reach :: "sim_run \<Rightarrow> bool" where
  started: "sim_new None True name ip mac auto_sim = Inr r \<Longrightarrow> run_reach (sim_start r)"
| thread: "run_reach r \<Longrightarrow> thread_step r r' \<Longrightarrow> run_reach r'"
| stopped: "run_reach r \<Longrightarrow> run_reach (stop_event r)"
| closed: "run_reach r \<Longrightarrow> rn_stop r \<Longrightarrow> run_reach (stop_close r)"

section \<open>What a handler starts\<close>

lemma spawns_simps [simp]:
  "spawns [] = 0" "spawns (PcapSend f # acts) = spawns acts" "spawns (RpcSend b a # acts) = spawns acts"
  "spawns (SpawnCyclic # acts) = Suc (spawns acts)"
  by (simp_all add: spawns_def)

lemma pkt_spawns: "pkt_step s ev = (e, s', acts) \<Longrightarrow> spawns acts = 0"
  by (auto simp: pkt_step_def dcp_handle_identify_def dcp_identify_response_def dcp_handle_set_def Let_def
      split: option.splits sum.splits if_splits prod.splits)

lemma cyc_spawns: "cyclic_turn p now s ct = ((e, s', acts), ct') \<Longrightarrow> spawns acts = 0"
  by (auto simp: cyclic_turn_def split: prod.splits if_splits sum.splits)

lemma dcontrol_spawns: "rpc_dcontrol s buf frm = (e, s', acts) \<Longrightarrow> spawns acts \<le> 1"
  by (auto simp: rpc_dcontrol_def Let_def split: if_splits sum.splits option.splits prod.splits)

lemma connect_spawns: "rpc_connect s buf frm = (e, s', acts) \<Longrightarrow> spawns acts = 0"
  by (auto simp: rpc_connect_def Let_def split: if_splits sum.splits)

lemma rpc_spawns: "rpc_dispatch s buf frm = (e, s', acts) \<Longrightarrow> spawns acts \<le> 1"
  by (auto simp: rpc_dispatch_def rpc_write_def rpc_release_def Let_def split: if_splits sum.splits
      dest: dcontrol_spawns connect_spawns)

text \<open>What performing actions leaves alone, and the threads it adds.\<close>

lemma run_act_fields [simp]:
  "rn_stop (run_act now act r) = rn_stop r" "rn_pcap (run_act now act r) = rn_pcap r" "rn_pkt (run_act now act r) = rn_pkt r"
  "rn_rpc (run_act now act r) = rn_rpc r" "rn_null_reads (run_act now act r) = rn_null_reads r"
  by (cases act; simp add: pcap_send_def)+

lemma run_act_all [simp]:
  "rn_stop (fold (run_act now) acts r) = rn_stop r" "rn_pcap (fold (run_act now) acts r) = rn_pcap r"
  "rn_pkt (fold (run_act now) acts r) = rn_pkt r" "rn_rpc (fold (run_act now) acts r) = rn_rpc r"
  "rn_null_reads (fold (run_act now) acts r) = rn_null_reads r"
  by (induction acts arbitrary: r) simp_all

lemma run_act_frames: "\<not> rn_pcap r \<Longrightarrow> rn_frames (fold (run_act now) acts r) = rn_frames r"
proof (induction acts arbitrary: r)
  case (Cons act acts)
  then show ?case by (cases act) (simp_all add: pcap_send_def)
qed simp

lemma run_act_cyc: "\<exists>new. rn_cyc (fold (run_act now) acts r) = rn_cyc r @ new \<and> length new = spawns acts \<and> fst ` set new \<subseteq> {Head}"
proof (induction acts arbitrary: r)
  case (Cons act acts)
  show ?case
  proof (cases act)
    case SpawnCyclic
    with Cons.IH [of "run_act now SpawnCyclic r"] show ?thesis by auto
  next
    case (PcapSend f)
    have "rn_cyc (pcap_send f r) = rn_cyc r" by (simp add: pcap_send_def)
    with Cons.IH [of "run_act now (PcapSend f) r"] PcapSend show ?thesis by simp
  next
    case (RpcSend b a)
    with Cons.IH [of r] show ?thesis by simp
  qed
qed simp

section \<open>Stopping ends\<close>

fun weight :: "place \<Rightarrow> nat" where
  "weight Gone = 0" | "weight Head = 1" | "weight Body = 2"

text \<open>The steps that the threads can still make once they are told to stop; a request in the middle of which
  they are told may start one more.\<close>

definition work :: "sim_run \<Rightarrow> nat" where
  "work r = weight (rn_pkt r) + weight (rn_rpc r) + (if rn_rpc r = Body then 1 else 0) + sum_list (map (weight \<circ> fst) (rn_cyc r))"

definition all_gone :: "sim_run \<Rightarrow> bool" where
  "all_gone r \<longleftrightarrow> rn_pkt r = Gone \<and> rn_rpc r = Gone \<and> list_all (\<lambda>c. fst c = Gone) (rn_cyc r)"

lemma weight_new: "fst ` set new \<subseteq> {Head} \<Longrightarrow> sum_list (map (weight \<circ> fst) new) = length new"
  by (induction new) auto

lemma weight_update: "i < length cs \<Longrightarrow> weight p < weight (fst (cs ! i)) \<Longrightarrow>
    sum_list (map (weight \<circ> fst) (cs[i := (p, rest)])) < sum_list (map (weight \<circ> fst) cs)"
proof (induction cs arbitrary: i)
  case (Cons c cs)
  then show ?case by (cases i) auto
qed simp

lemma finish_cyc:
  assumes "finish now (e, s, acts) r = (p, r')"
  shows "p = (if e = None then Head else Gone) \<and> rn_stop r' = rn_stop r \<and> rn_pcap r' = rn_pcap r \<and> rn_pkt r' = rn_pkt r
    \<and> rn_rpc r' = rn_rpc r \<and> rn_null_reads r' = rn_null_reads r \<and> (\<not> rn_pcap r \<longrightarrow> rn_frames r' = rn_frames r)
    \<and> (\<exists>new. rn_cyc r' = rn_cyc r @ new \<and> length new = spawns acts \<and> fst ` set new \<subseteq> {Head})"
  using assms run_act_cyc [of now acts "r\<lparr>rn_sim := s\<rparr>"] run_act_frames [of "r\<lparr>rn_sim := s\<rparr>" now acts]
  by (auto simp: finish_def)

text \<open>What a step of a thread does once the event is set.\<close>

definition reads_left :: "sim_run \<Rightarrow> nat" where
  "reads_left r = rn_null_reads r + (if rn_pkt r = Body then 1 else 0)"

definition quieter :: "sim_run \<Rightarrow> sim_run \<Rightarrow> bool" where
  "quieter r r' \<longleftrightarrow> rn_stop r' \<and> work r' < work r \<and> rn_pcap r' = rn_pcap r \<and> (\<not> rn_pcap r \<longrightarrow> rn_frames r' = rn_frames r)
     \<and> reads_left r' \<le> reads_left r"

lemma pkt_body_quieter:
  assumes "rn_stop r" and "rn_pkt r = Body"
  shows "quieter r (pkt_body now res r)"
proof -
  obtain ev r1 where r1: "pcap_recv res r = (ev, r1)" by fastforce
  then have eq: "rn_cyc r1 = rn_cyc r" "rn_stop r1 = rn_stop r" "rn_pcap r1 = rn_pcap r" "rn_rpc r1 = rn_rpc r"
    "rn_frames r1 = rn_frames r" "rn_null_reads r1 \<le> Suc (rn_null_reads r)"
    by (auto simp: pcap_recv_def split: prod.splits if_splits)
  obtain e s acts where p: "pkt_step (rn_sim r1) ev = (e, s, acts)" by (cases "pkt_step (rn_sim r1) ev") auto
  obtain q r2 where f: "finish now (e, s, acts) r1 = (q, r2)" by fastforce
  have "rn_cyc r2 = rn_cyc r" using finish_cyc [OF f] pkt_spawns [OF p] eq by auto
  moreover have "q \<noteq> Body" "weight q \<le> 1" using finish_cyc [OF f] by auto
  ultimately show ?thesis
    using assms eq finish_cyc [OF f] by (simp add: pkt_body_def r1 p f quieter_def work_def reads_left_def)
qed

lemma rpc_body_quieter:
  assumes "rn_stop r" and "rn_rpc r = Body"
  shows "quieter r (rpc_body now ev r)"
proof (cases ev)
  case (RpcData buf frm)
  obtain e s acts where p: "rpc_dispatch (rn_sim r) buf frm = (e, s, acts)" by (cases "rpc_dispatch (rn_sim r) buf frm") auto
  obtain q r2 where f: "finish now (e, s, acts) r = (q, r2)" by fastforce
  obtain new where new: "rn_cyc r2 = rn_cyc r @ new" "length new \<le> 1" "fst ` set new \<subseteq> {Head}"
    using finish_cyc [OF f] rpc_spawns [OF p] by auto
  have "sum_list (map (weight \<circ> fst) new) \<le> 1" using weight_new [OF new(3)] new(2) by simp
  moreover have "q \<noteq> Body" "weight q \<le> 1" using finish_cyc [OF f] by auto
  ultimately show ?thesis
    using assms finish_cyc [OF f] new(1) by (simp add: rpc_body_def RpcData p f quieter_def work_def reads_left_def)
qed (use assms in \<open>simp_all add: rpc_body_def quieter_def work_def reads_left_def\<close>)

lemma cyc_quieter:
  assumes "rn_stop r" and i: "i < length (rn_cyc r)"
  shows "fst (rn_cyc r ! i) = Head \<Longrightarrow> quieter r (cyc_check i r)"
    and "fst (rn_cyc r ! i) = Body \<Longrightarrow> quieter r (cyc_body now i r)"
proof -
  obtain at0 period cc nxt where c: "rn_cyc r ! i = (at0, period, cc, nxt)" by (cases "rn_cyc r ! i")
  show "quieter r (cyc_check i r)" if "fst (rn_cyc r ! i) = Head"
    using that assms weight_update [OF i, of Gone "(period, cc, nxt)"] c
    by (simp add: cyc_check_def check_def quieter_def work_def reads_left_def)
  obtain e s acts cc' nxt' where p: "cyclic_turn period now (rn_sim r) (cc, nxt) = ((e, s, acts), cc', nxt')"
    by (cases "cyclic_turn period now (rn_sim r) (cc, nxt)") auto
  obtain q r2 where f: "finish now (e, s, acts) r = (q, r2)" by fastforce
  have "rn_cyc r2 = rn_cyc r" using finish_cyc [OF f] cyc_spawns [OF p] by auto
  moreover have "weight q \<le> 1" using finish_cyc [OF f] by auto
  ultimately show "quieter r (cyc_body now i r)" if "fst (rn_cyc r ! i) = Body"
    using that assms c finish_cyc [OF f] weight_update [OF i, of q "(period, cc', nxt')"]
    by (simp add: cyc_body_def p f quieter_def work_def reads_left_def)
qed

lemma step_quieter: "thread_step r r' \<Longrightarrow> rn_stop r \<Longrightarrow> quieter r r'"
proof (erule thread_stepE)
  assume "rn_stop r" "r' = r\<lparr>rn_pkt := check r\<rparr>" "rn_pkt r = Head"
  then show ?thesis by (simp add: quieter_def check_def work_def reads_left_def)
next
  assume "rn_stop r" "r' = r\<lparr>rn_rpc := check r\<rparr>" "rn_rpc r = Head"
  then show ?thesis by (simp add: quieter_def check_def work_def reads_left_def)
qed (simp_all add: pkt_body_quieter rpc_body_quieter cyc_quieter)

lemma steps_quieter:
  "(thread_step ^^ n) r r' \<Longrightarrow> rn_stop r \<Longrightarrow> rn_stop r' \<and> work r' + n \<le> work r \<and> rn_pcap r' = rn_pcap r
     \<and> (\<not> rn_pcap r \<longrightarrow> rn_frames r' = rn_frames r) \<and> reads_left r' \<le> reads_left r"
proof (induction n arbitrary: r')
  case (Suc n)
  then obtain q where q: "(thread_step ^^ n) r q" "thread_step q r'" by auto
  with Suc show ?case using step_quieter [OF q(2)] by (fastforce simp: quieter_def)
qed simp

lemma thread_progress: "all_gone r \<or> (\<exists>r'. thread_step r r')"
proof (cases "all_gone r")
  case False
  then consider "rn_pkt r \<noteq> Gone" | "rn_rpc r \<noteq> Gone" | i where "i < length (rn_cyc r)" "fst (rn_cyc r ! i) \<noteq> Gone"
    by (auto simp: all_gone_def list_all_length)
  then have "\<exists>r'. thread_step r r'"
  proof cases
    case 1
    then show ?thesis using pkt_head [of r] pkt_body [of r] by (cases "rn_pkt r") blast+
  next
    case 2
    then show ?thesis using rpc_head [of r] rpc_body [of r] by (cases "rn_rpc r") blast+
  next
    case (3 i)
    then show ?thesis using cyc_head [of i r] cyc_body [of i r] by (cases "fst (rn_cyc r ! i)") blast+
  qed
  then show ?thesis ..
qed simp

lemma weight_le: "weight p \<le> 2"
  by (cases p) simp_all

lemma work_le: "work r \<le> 5 + 2 * length (rn_cyc r)"
proof -
  have "sum_list (map (weight \<circ> fst) cs) \<le> 2 * length cs" for cs :: "cyc list"
  proof (induction cs)
    case (Cons c cs)
    then show ?case using weight_le [of "fst c"] by simp
  qed simp
  from this [of "rn_cyc r"] show ?thesis
    using weight_le [of "rn_pkt r"] weight_le [of "rn_rpc r"] by (simp add: work_def)
qed

text \<open>C37: Stopping the simulator.  Once the event is set, its threads make at most two steps each, and one of the
  server may start a last cyclic thread; when no step is left, all have ended.  Once the capture is
  closed no frame goes out, and the library is asked for a packet without a handle at most once,
  and only by a packet thread that looked at the event before it was set.\<close>

theorem simulator_stops:
  assumes "rn_stop r" and "(thread_step ^^ n) r r'"
  shows "n \<le> 5 + 2 * length (rn_cyc r)
    \<and> (all_gone r' \<or> (\<exists>r''. thread_step r' r''))
    \<and> (\<not> rn_pcap r \<longrightarrow> rn_frames r' = rn_frames r)
    \<and> rn_null_reads r' \<le> rn_null_reads r + (if rn_pkt r = Body then 1 else 0)"
proof -
  have "work r \<le> 5 + 2 * length (rn_cyc r)" by (rule work_le)
  then show ?thesis
    using steps_quieter [OF assms(2,1)] thread_progress [of r'] by (auto simp: reads_left_def)
qed

text \<open>A simulator that is stopped while its packet thread is between its look at the event and the capture.\<close>

definition demo_run :: sim_run where
  "demo_run = \<lparr>rn_sim = demo_sim, rn_pcap = True, rn_sock = True, rn_stop = False, rn_pkt = Body, rn_rpc = Head,
     rn_cyc = [(Head, 1000000, 0, 0)], rn_frames = [], rn_null_reads = 0\<rparr>"

lemma simulator_stops_witness:
  "case stop_close (stop_event demo_run) of r \<Rightarrow>
     \<exists>r'. (thread_step ^^ 1) r r' \<and> rn_null_reads r' = 1 \<and> rn_frames r' = rn_frames r \<and> (\<exists>r''. thread_step r' r'')"
proof -
  let ?r = "stop_close (stop_event demo_run)" and ?r' = "pkt_body 0 (0, None) (stop_close (stop_event demo_run))"
  have r: "rn_stop ?r" "rn_pkt ?r = Body" "\<not> rn_pcap ?r"
    by (simp_all add: demo_run_def stop_event_def stop_close_def pcap_close_def)
  have step: "(thread_step ^^ 1) ?r ?r'" unfolding relpowp_1 using r(2) by (rule thread_step.pkt_body)
  have "rn_null_reads ?r' = 1" "\<not> all_gone ?r'"
    by (simp_all add: pkt_body_def pcap_recv_def pkt_step_def finish_def stop_close_def pcap_close_def stop_event_def
        demo_run_def all_gone_def)
  with step simulator_stops [OF r(1) step] r(3) show ?thesis by auto
qed

section \<open>Sessions and their threads\<close>

text \<open>A run of the threads with the datagrams that the server takes in it: every step but the
  body of the server leaves a server that is about to receive where it is.\<close>

inductive served :: "sim_run \<Rightarrow> rpc_ev list \<Rightarrow> sim_run \<Rightarrow> bool" where
  nothing: "served r [] r"
| another: "thread_step r r1 \<Longrightarrow> rn_rpc r = Body \<longrightarrow> rn_rpc r1 = Body \<Longrightarrow> served r1 evs r2 \<Longrightarrow> served r evs r2"
| datagram: "rn_rpc r = Body \<Longrightarrow> served (rpc_body now ev r) evs r2 \<Longrightarrow> served r (ev # evs) r2"

text \<open>Sessions in the datagrams: Connect, ApplicationReady and Release in turn, from any peers,
  with any timeouts between them; the number is that of the cyclic threads still to start.\<close>

datatype stage = Free | Asked | Serving

fun session_evs :: "stage \<Rightarrow> nat \<Rightarrow> rpc_ev list \<Rightarrow> bool" where
  "session_evs st n (RpcTimeout # evs) = session_evs st n evs"
| "session_evs Free n (RpcData b a # evs) = (is_connect b \<and> session_evs Asked n evs)"
| "session_evs Asked (Suc n) (RpcData b a # evs) = (is_ready b \<and> session_evs Serving n evs)"
| "session_evs Serving n (RpcData b a # evs) = (is_release b \<and> session_evs Free n evs)"
| "session_evs Free n [] = (n = 0)"
| "session_evs st n evs = False"

definition stage_ok :: "stage \<Rightarrow> sim \<Rightarrow> bool" where
  "stage_ok st s \<longleftrightarrow> (st = Serving) = sm_cyclic_started s \<and> (st = Asked \<longrightarrow> sm_ctrl_addr s \<noteq> None)"

definition alive :: "sim_run \<Rightarrow> bool" where
  "alive r \<longleftrightarrow> sim_wf (rn_sim r) \<and> \<not> rn_stop r \<and> rn_pcap r \<and> (\<forall>c \<in> set (rn_cyc r). fst c \<noteq> Gone)"

definition same_session :: "sim \<Rightarrow> sim \<Rightarrow> bool" where
  "same_session s s' \<longleftrightarrow> sm_cyclic_started s' = sm_cyclic_started s \<and> sm_ctrl_addr s' = sm_ctrl_addr s
     \<and> sm_phase s' = sm_phase s"

lemma stage_ok_same: "same_session s s' \<Longrightarrow> stage_ok st s' = stage_ok st s"
  by (simp add: same_session_def stage_ok_def)

lemma rx_same_session: "same_session s (cyclic_rx s buf)"
  by (simp add: same_session_def cyclic_rx_def compute_profidrive_def Let_def)

lemma pkt_same_session: "pkt_step s ev = (e, s', acts) \<Longrightarrow> same_session s s'"
  using pkt_step_cases [of s ev] rx_same_session by (auto simp: same_session_def)

lemma turn_same_session: "cyclic_turn p now s ct = ((e, s', acts), ct') \<Longrightarrow> same_session s s'"
  by (auto simp: same_session_def cyclic_turn_def split: prod.splits if_splits sum.splits)

lemma run_act_sim [simp]: "rn_sim (fold (run_act now) acts r) = rn_sim r"
proof (induction acts arbitrary: r)
  case (Cons act acts)
  then show ?case by (cases act) (simp_all add: pcap_send_def)
qed simp

lemma finish_sim: "finish now (e, s, acts) r = (p, r') \<Longrightarrow> rn_sim r' = s"
  by (auto simp: finish_def)

lemma cyc_body_alive:
  assumes "alive r" and i: "i < length (rn_cyc r)"
  shows "alive (cyc_body now i r) \<and> length (rn_cyc (cyc_body now i r)) = length (rn_cyc r)
    \<and> same_session (rn_sim r) (rn_sim (cyc_body now i r)) \<and> rn_rpc (cyc_body now i r) = rn_rpc r"
proof -
  obtain at0 period cc nxt where c: "rn_cyc r ! i = (at0, period, cc, nxt)" by (cases "rn_cyc r ! i")
  obtain s' acts cc' nxt' where t: "cyclic_turn period now (rn_sim r) (cc, nxt) = ((None, s', acts), cc', nxt')" "sim_wf s'"
    using cyclic_turn_wf [of "rn_sim r" period now "(cc, nxt)"] assms(1) by (auto simp: alive_def)
  obtain q r2 where f: "finish now (None, s', acts) r = (q, r2)" by fastforce
  have "rn_cyc r2 = rn_cyc r" using finish_cyc [OF f] cyc_spawns [OF t(1)] by auto
  then show ?thesis
    using assms t(2) finish_cyc [OF f] finish_sim [OF f] turn_same_session [OF t(1)] c
    by (auto simp: cyc_body_def t f alive_def dest: set_update_subset_insert [THEN subsetD])
qed

text \<open>A turn that is due sends its frame.\<close>

lemma cyc_body_sends:
  assumes "alive r" and "rn_cyc r ! i = (Body, period, cc, nxt)" and "nxt \<le> now"
  shows "\<exists>f. rn_frames (cyc_body now i r) = rn_frames r @ [f]"
  using assms cyclic_frame_bytes [of "rn_sim r" cc]
  by (simp add: cyc_body_def cyclic_turn_def alive_def finish_def pcap_send_def)

lemma pkt_body_alive:
  assumes "alive r"
  shows "alive (pkt_body now res r) \<and> rn_cyc (pkt_body now res r) = rn_cyc r
    \<and> same_session (rn_sim r) (rn_sim (pkt_body now res r)) \<and> rn_rpc (pkt_body now res r) = rn_rpc r"
proof -
  obtain ev r1 where r1: "pcap_recv res r = (ev, r1)" by fastforce
  then have eq: "r1 = r" using assms by (auto simp: pcap_recv_def alive_def split: prod.splits)
  obtain s' where t: "pkt_step (rn_sim r) ev = (None, s', [])" "sim_wf s'"
    using pkt_step_wf [of "rn_sim r" ev] assms by (auto simp: alive_def)
  show ?thesis
    using assms t(2) pkt_same_session [OF t(1)] by (simp add: pkt_body_def r1 eq t finish_def alive_def)
qed

lemma rpc_body_alive:
  assumes "alive r"
  shows "alive (rpc_body now ev r)" and "length (rn_cyc r) \<le> length (rn_cyc (rpc_body now ev r))"
    and "rn_rpc (rpc_body now ev r) \<noteq> Body"
proof -
  have "alive (rpc_body now ev r) \<and> length (rn_cyc r) \<le> length (rn_cyc (rpc_body now ev r))
    \<and> rn_rpc (rpc_body now ev r) \<noteq> Body"
  proof (cases ev)
    case (RpcData buf frm)
    obtain e s' acts where d: "rpc_dispatch (rn_sim r) buf frm = (e, s', acts)" "sim_wf s'"
      using rpc_dispatch_wf [of "rn_sim r" buf frm] assms by (auto simp: alive_def)
    obtain q r2 where f: "finish now (e, s', acts) r = (q, r2)" by fastforce
    obtain new where new: "rn_cyc r2 = rn_cyc r @ new" "fst ` set new \<subseteq> {Head}"
      using finish_cyc [OF f] by auto
    have "\<forall>c \<in> set new. fst c \<noteq> Gone" using new(2) by auto
    then show ?thesis
      using assms d(2) finish_cyc [OF f] finish_sim [OF f] new(1)
      by (auto simp: rpc_body_def RpcData d f alive_def)
  qed (use assms in \<open>simp_all add: rpc_body_def alive_def\<close>)
  then show "alive (rpc_body now ev r)" and "length (rn_cyc r) \<le> length (rn_cyc (rpc_body now ev r))"
    and "rn_rpc (rpc_body now ev r) \<noteq> Body" by blast+
qed

text \<open>What a step of any thread does while nobody told it to stop.\<close>

lemma step_alive:
  assumes "thread_step r r'" and "alive r"
  shows "alive r'" and "length (rn_cyc r) \<le> length (rn_cyc r')"
    and "(rn_rpc r = Body \<longrightarrow> rn_rpc r' = Body) \<Longrightarrow> length (rn_cyc r') = length (rn_cyc r)
      \<and> same_session (rn_sim r) (rn_sim r') \<and> (rn_rpc r \<noteq> Gone \<longrightarrow> rn_rpc r' \<noteq> Gone)"
proof -
  have "alive r' \<and> length (rn_cyc r) \<le> length (rn_cyc r')
      \<and> ((rn_rpc r = Body \<longrightarrow> rn_rpc r' = Body) \<longrightarrow> length (rn_cyc r') = length (rn_cyc r)
        \<and> same_session (rn_sim r) (rn_sim r') \<and> (rn_rpc r \<noteq> Gone \<longrightarrow> rn_rpc r' \<noteq> Gone))"
    using assms(1)
  proof cases
    case (pkt_body now res)
    then show ?thesis using pkt_body_alive [OF assms(2)] by simp
  next
    case (rpc_body now ev)
    then show ?thesis using rpc_body_alive [OF assms(2), of now ev] by simp
  next
    case (cyc_head i)
    then show ?thesis using assms(2)
      by (auto simp: cyc_check_def check_def alive_def same_session_def case_prod_beta
          dest: set_update_subset_insert [THEN subsetD])
  next
    case (cyc_body i now)
    then show ?thesis using cyc_body_alive [OF assms(2), of i now] by simp
  qed (use assms(2) in \<open>simp_all add: check_def alive_def same_session_def\<close>)
  then show "alive r'" and "length (rn_cyc r) \<le> length (rn_cyc r')"
    and "(rn_rpc r = Body \<longrightarrow> rn_rpc r' = Body) \<Longrightarrow> length (rn_cyc r') = length (rn_cyc r)
      \<and> same_session (rn_sim r) (rn_sim r') \<and> (rn_rpc r \<noteq> Gone \<longrightarrow> rn_rpc r' \<noteq> Gone)" by blast+
qed

lemma steps_alive: "thread_step\<^sup>*\<^sup>* r r' \<Longrightarrow> alive r \<Longrightarrow> alive r' \<and> length (rn_cyc r) \<le> length (rn_cyc r')"
  by (induction rule: rtranclp_induct) (auto dest: step_alive)

text \<open>What the server does with the next datagram of a session.\<close>

definition listens :: "stage \<Rightarrow> nat \<Rightarrow> sim \<Rightarrow> bool" where
  "listens st n s \<longleftrightarrow> st \<noteq> Free \<or> 0 < n \<or> sm_phase s = dev_phase.Listening"

lemma serve_connect:
  assumes "alive r" and "stage_ok Free (rn_sim r)" and "is_connect b"
  shows "rn_rpc (rpc_body now (RpcData b a) r) = Head \<and> stage_ok Asked (rn_sim (rpc_body now (RpcData b a) r))
    \<and> length (rn_cyc (rpc_body now (RpcData b a) r)) = length (rn_cyc r)"
proof -
  have b: "24 \<le> length b" "u16le b 22 = Inr 0" "44 \<le> length b" using assms(3) by (auto simp: is_connect_def)
  obtain s1 q where c: "connect_scan (drop 40 b) 0 (connect_reset (rn_sim r)) = Inr s1"
    "rpc_connect (rn_sim r) b a = (None, s1\<lparr>sm_ctrl_addr := Some a, sm_phase := Connected\<rparr>, [RpcSend q a])"
    using rpc_connect_wf [of "rn_sim r" b a] assms(1) b(3) by (auto simp: alive_def)
  have "sm_cyclic_started s1 = sm_cyclic_started (rn_sim r)"
    using connect_scan_started [OF c(1)] by (simp add: connect_reset_def)
  then show ?thesis
    using assms(2) b by (simp add: rpc_body_def rpc_dispatch_def c(2) finish_def stage_ok_def)
qed

lemma serve_ready:
  assumes "alive r" and "stage_ok Asked (rn_sim r)" and "is_ready b"
  shows "rn_rpc (rpc_body now (RpcData b a) r) = Head \<and> stage_ok Serving (rn_sim (rpc_body now (RpcData b a) r))
    \<and> length (rn_cyc (rpc_body now (RpcData b a) r)) = Suc (length (rn_cyc r))"
proof -
  have b: "24 \<le> length b" "u16le b 22 = Inr 2" using assms(3) by (auto simp: is_ready_def)
  obtain c where "sm_ctrl_addr (rn_sim r) = Some c"
    using assms(2) by (auto simp: stage_ok_def)
  then show ?thesis
    using rpc_dcontrol_ready [of "rn_sim r" b a] assms b
    by (auto simp: rpc_body_def rpc_dispatch_def finish_def stage_ok_def alive_def Let_def)
qed

lemma serve_release:
  assumes "alive r" and "is_release b"
  shows "rn_rpc (rpc_body now (RpcData b a) r) = Head \<and> stage_ok Free (rn_sim (rpc_body now (RpcData b a) r))
    \<and> sm_phase (rn_sim (rpc_body now (RpcData b a) r)) = dev_phase.Listening
    \<and> length (rn_cyc (rpc_body now (RpcData b a) r)) = length (rn_cyc r)"
  using rpc_release_wf [of "rn_sim r" b a] assms
  by (auto simp: rpc_body_def rpc_dispatch_def finish_def stage_ok_def alive_def is_release_def)

lemma serve_step:
  assumes "alive r" and "stage_ok st (rn_sim r)" and "listens st n (rn_sim r)" and "session_evs st n (ev # evs)"
  shows "\<exists>st' n'. session_evs st' n' evs \<and> rn_rpc (rpc_body now ev r) = Head
    \<and> stage_ok st' (rn_sim (rpc_body now ev r)) \<and> listens st' n' (rn_sim (rpc_body now ev r))
    \<and> length (rn_cyc (rpc_body now ev r)) + n' = length (rn_cyc r) + n"
proof (cases ev)
  case RpcTimeout
  then show ?thesis
    using assms by (intro exI [of _ st] exI [of _ n]) (simp add: rpc_body_def)
next
  case RpcBroken
  with assms(4) show ?thesis by (cases st; cases n) auto
next
  case (RpcData b a)
  show ?thesis
  proof (cases st)
    case Free
    with assms RpcData show ?thesis
      using serve_connect [of r b now a] by (intro exI [of _ Asked] exI [of _ n]) (simp add: listens_def)
  next
    case Asked
    then obtain k where "n = Suc k" "is_ready b" "session_evs Serving k evs"
      using assms(4) RpcData by (cases n) auto
    with assms Asked RpcData show ?thesis
      using serve_ready [of r b now a] by (intro exI [of _ Serving] exI [of _ k]) (simp add: listens_def)
  next
    case Serving
    with assms RpcData show ?thesis
      using serve_release [of r b now a] by (intro exI [of _ Free] exI [of _ n]) (simp add: listens_def)
  qed
qed

lemma session_evs_Nil: "session_evs st n [] \<longleftrightarrow> st = Free \<and> n = 0"
  by (cases st; cases n) auto

lemma served_sessions:
  "served r evs r' \<Longrightarrow> alive r \<Longrightarrow> stage_ok st (rn_sim r) \<Longrightarrow> listens st n (rn_sim r) \<Longrightarrow> session_evs st n evs \<Longrightarrow>
   alive r' \<and> length (rn_cyc r') = length (rn_cyc r) + n \<and> sm_phase (rn_sim r') = dev_phase.Listening"
proof (induction arbitrary: st n rule: served.induct)
  case (nothing r)
  then show ?case by (auto simp: session_evs_Nil listens_def)
next
  case (another r r1 evs r2)
  note a = step_alive [OF another.hyps(1) another.prems(1)]
  have same: "length (rn_cyc r1) = length (rn_cyc r)" "same_session (rn_sim r) (rn_sim r1)"
    using a(3) [OF another.hyps(2)] by auto
  have "stage_ok st (rn_sim r1)" "listens st n (rn_sim r1)"
    using another.prems(2,3) stage_ok_same [OF same(2)] same(2) by (auto simp: listens_def same_session_def)
  from another.IH [OF a(1) this another.prems(4)] show ?case
    by (simp add: same(1))
next
  case (datagram r now ev evs r2)
  obtain st' n' where s: "session_evs st' n' evs" "stage_ok st' (rn_sim (rpc_body now ev r))"
    "listens st' n' (rn_sim (rpc_body now ev r))" "length (rn_cyc (rpc_body now ev r)) + n' = length (rn_cyc r) + n"
    using serve_step [OF datagram.prems, of now] by blast
  from datagram.IH [OF rpc_body_alive(1) [OF datagram.prems(1)] s(2,3,1)] s(4) show ?case
    by simp
qed

text \<open>The server can always take the datagrams of the sessions.\<close>

lemma sessions_served:
  "alive r \<Longrightarrow> stage_ok st (rn_sim r) \<Longrightarrow> listens st n (rn_sim r) \<Longrightarrow> session_evs st n evs \<Longrightarrow>
   rn_rpc r = Head \<Longrightarrow> \<exists>r'. served r evs r'"
proof (induction evs arbitrary: st n r)
  case Nil
  then show ?case using served.nothing by blast
next
  case (Cons ev evs)
  let ?b = "r\<lparr>rn_rpc := Body\<rparr>"
  have b: "alive ?b" "stage_ok st (rn_sim ?b)" "listens st n (rn_sim ?b)" "rn_rpc ?b = Body"
    using Cons.prems by (simp_all add: alive_def)
  obtain st' n' where s: "session_evs st' n' evs" "rn_rpc (rpc_body 0 ev ?b) = Head"
    "stage_ok st' (rn_sim (rpc_body 0 ev ?b))" "listens st' n' (rn_sim (rpc_body 0 ev ?b))"
    using serve_step [OF b(1-3) Cons.prems(4), of 0] by blast
  then obtain r' where "served (rpc_body 0 ev ?b) evs r'"
    using Cons.IH [OF rpc_body_alive(1) [OF b(1)] s(3,4,1,2)] by blast
  then have "served ?b (ev # evs) r'"
    by (rule served.datagram [OF b(4)])
  moreover have "thread_step r ?b"
    using rpc_head [OF Cons.prems(5)] Cons.prems(1) by (simp add: check_def alive_def)
  ultimately show ?case
    using served.another [of r ?b] Cons.prems(5) by fastforce
qed

text \<open>C21: Cyclic threads accumulate.  From a start with a six-octet address on, whatever the other
  threads do in between, n sessions of Connect, ApplicationReady and Release start n cyclic threads more and
  leave the device listening.  Release ends none of them: until the stop event no step of any thread
  ends a cyclic thread, neither by its own check nor by an exception, and each one in its body goes on
  sending its frame when it is due.  The sessions can always be served.\<close>

theorem cyclic_threads_accumulate:
  assumes "sim_new None True name ip mac auto_sim = Inr r0" and "length (sm_mac (rn_sim r0)) = 6"
    and "thread_step\<^sup>*\<^sup>* (sim_start r0) r" and "\<not> sm_cyclic_started (rn_sim r)"
    and "session_evs Free n evs" and "0 < n"
  shows "(\<forall>r'. served r evs r' \<longrightarrow> length (rn_cyc r') = length (rn_cyc r) + n \<and> sm_phase (rn_sim r') = dev_phase.Listening
      \<and> (\<forall>r''. thread_step\<^sup>*\<^sup>* r' r'' \<longrightarrow> length (rn_cyc r') \<le> length (rn_cyc r'') \<and> (\<forall>c \<in> set (rn_cyc r''). fst c \<noteq> Gone)
          \<and> (\<forall>i < length (rn_cyc r''). \<forall>now period cc nxt. rn_cyc r'' ! i = (Body, period, cc, nxt) \<and> nxt \<le> now \<longrightarrow>
               (\<exists>f. rn_frames (cyc_body now i r'') = rn_frames r'' @ [f]))))
    \<and> (rn_rpc r = Head \<longrightarrow> (\<exists>r'. served r evs r'))"
proof -
  have "alive (sim_start r0)"
    using assms(1,2) by (auto simp: sim_new_def sim_start_def alive_def bindE_Inr dest: sim_init_wf)
  then have al: "alive r" using steps_alive [OF assms(3)] by blast
  have st: "stage_ok Free (rn_sim r)" "listens Free n (rn_sim r)"
    using assms(4,6) by (simp_all add: stage_ok_def listens_def)
  have gone: "alive r'' \<Longrightarrow> c \<in> set (rn_cyc r'') \<Longrightarrow> fst c \<noteq> Gone" for r'' c
    by (simp add: alive_def)
  have "length (rn_cyc r') = length (rn_cyc r) + n \<and> sm_phase (rn_sim r') = dev_phase.Listening
      \<and> (\<forall>r''. thread_step\<^sup>*\<^sup>* r' r'' \<longrightarrow> length (rn_cyc r') \<le> length (rn_cyc r'') \<and> (\<forall>c \<in> set (rn_cyc r''). fst c \<noteq> Gone)
          \<and> (\<forall>i < length (rn_cyc r''). \<forall>now period cc nxt. rn_cyc r'' ! i = (Body, period, cc, nxt) \<and> nxt \<le> now \<longrightarrow>
               (\<exists>f. rn_frames (cyc_body now i r'') = rn_frames r'' @ [f])))" if "served r evs r'" for r'
    using served_sessions [OF that al st assms(5)] steps_alive [of r'] cyc_body_sends gone by blast
  then show ?thesis
    using sessions_served [OF al st assms(5)] by blast
qed

definition demo_fresh :: sim_run where
  "demo_fresh = \<lparr>rn_sim = demo_sim, rn_pcap = True, rn_sock = True, rn_stop = False, rn_pkt = Gone, rn_rpc = Gone,
     rn_cyc = [], rn_frames = [], rn_null_reads = 0\<rparr>"

definition demo_session :: "rpc_ev list" where
  "demo_session = [RpcData demo_connect (''a'', 1), RpcTimeout, RpcData demo_ready (''a'', 1), RpcData (zeros 22 @ [1, 0]) (''a'', 1)]"

lemma cyclic_threads_accumulate_witness:
  "\<exists>r'. served (sim_start demo_fresh) (demo_session @ demo_session @ demo_session) r' \<and> length (rn_cyc r') = 3
    \<and> (\<forall>c \<in> set (rn_cyc r'). fst c \<noteq> Gone)"
proof -
  have new: "sim_new None True (map (\<lambda>c. of_nat (ord_c c)) ''vfd'') ''192.168.1.50'' ''02:00:00:11:22:33'' True = Inr demo_fresh"
    using demo_sim_init by (simp add: sim_new_def demo_fresh_def)
  have six: "length (sm_mac (rn_sim demo_fresh)) = 6"
    using demo_sim_init by (simp add: demo_fresh_def)
  have "\<not> sm_cyclic_started demo_sim" unfolding demo_sim_def by code_simp
  then have off: "\<not> sm_cyclic_started (rn_sim (sim_start demo_fresh))"
    by (simp add: demo_fresh_def sim_start_def)
  have "is_release (zeros 22 @ [1, 0])" unfolding is_release_def by code_simp
  then have evs: "session_evs Free 3 (demo_session @ demo_session @ demo_session)"
    using demo_connect(1) demo_ready by (simp add: demo_session_def numeral_3_eq_3)
  have "rn_rpc (sim_start demo_fresh) = Head" "length (rn_cyc (sim_start demo_fresh)) = 0"
    by (simp_all add: sim_start_def demo_fresh_def)
  then show ?thesis
    using cyclic_threads_accumulate [OF new six rtranclp.rtrancl_refl off evs] by fastforce
qed

section \<open>The command line\<close>

record sim_args =
  sa_adapter :: "string option"
  sa_name :: bytes
  sa_ip :: string
  sa_mac :: string
  sa_manual :: bool
  sa_list :: bool

definition default_args :: sim_args where
  "default_args = \<lparr>sa_adapter = None, sa_name = map of_char ''vfd-simulator'', sa_ip = ''192.168.1.50'',
     sa_mac = ''02:00:00:11:22:33'', sa_manual = False, sa_list = False\<rparr>"

definition NO_LIB :: string where
  "NO_LIB = ''wpcap.dll not found '' @ em_dash @ '' install Npcap from https://npcap.com/''"

text \<open>How the program begins: it returns, exits with a code, raises, or runs.  An adapter is given or asked
  for; when the simulator cannot be made the program says so and exits.\<close>

datatype begun = Returned "string list" | Exited nat | Raised py_error | Running sim_run

definition sim_choose :: "(string \<times> string) list \<Rightarrow> string \<Rightarrow> sim_args \<Rightarrow> pick" where
  "sim_choose adapters answer args =
     (case sa_adapter args of
        Some a \<Rightarrow> if a \<noteq> [] then Picked a else pick_adapter adapters answer
      | None \<Rightarrow> pick_adapter adapters answer)"

definition adapter_line :: "string \<times> string \<Rightarrow> string" where
  "adapter_line nd = snd nd @ [CHR 0x0A] @ ''    '' @ fst nd"

definition sim_main :: "bool \<Rightarrow> (string \<times> string) list option \<Rightarrow> string \<Rightarrow> (string \<Rightarrow> string option) \<Rightarrow> bool \<Rightarrow> sim_args \<Rightarrow> begun" where
  "sim_main has_lib nodes answer open_error port_free args =
     (if \<not> has_lib then Raised (RuntimeError NO_LIB)
      else if sa_list args then Returned (map adapter_line (sim_adapters nodes))
      else
        (case sim_choose (sim_adapters nodes) answer args of
           Exit \<Rightarrow> Exited 1
         | PickError e \<Rightarrow> Raised e
         | Picked a \<Rightarrow>
             (case sim_new (open_error a) port_free (sa_name args) (sa_ip args) (sa_mac args) (\<not> sa_manual args) of
                Inl e \<Rightarrow> Exited 1
              | Inr r \<Rightarrow> Running (sim_start r))))"

text \<open>The line of each second, until the interrupt from the keyboard stops it.\<close>

definition console :: "sim_run list \<Rightarrow> string list" where
  "console rs = map (\<lambda>r. ''  '' @ status_line (rn_sim r)) rs"

definition interrupted :: "sim_run \<Rightarrow> sim_run" where
  "interrupted r = stop_close (stop_event r)"

text \<open>The program runs exactly when the library is there, no list was asked for, an adapter was given or
  picked that can be captured on, the addresses can be read, and the port is free.\<close>

theorem main_runs:
  "(\<exists>r. sim_main has_lib nodes answer open_error port_free args = Running r) \<longleftrightarrow>
     has_lib \<and> \<not> sa_list args \<and> port_free
     \<and> (\<exists>a. sim_choose (sim_adapters nodes) answer args = Picked a \<and> open_error a = None)
     \<and> (\<exists>s. sim_init (sa_name args) (sa_ip args) (sa_mac args) (\<not> sa_manual args) = Inr s)"
  by (auto simp: sim_main_def sim_new_def bindE_def split: pick.splits sum.splits option.splits if_splits)

lemma main_default:
  "\<exists>r. sim_main True (Some [(''eth0'', [])]) [] (\<lambda>_. None) True default_args = Running r \<and> length (sm_mac (rn_sim r)) = 6"
proof -
  have "case sim_main True (Some [(''eth0'', [])]) [] (\<lambda>_. None) True default_args of
      Running r \<Rightarrow> length (sm_mac (rn_sim r)) = 6 | _ \<Rightarrow> False" by code_simp
  then show ?thesis by (auto split: begun.splits)
qed

end
