(* ===== verification/Spec2Isabelle.thy ===== *)
theory Spec2Isabelle
  imports System Config Pn_Patch Pn_Slots Pn_Connect Sim_System Gsdml Ui_Io Ui_Discovery Ui_Canvas Ui_Views Realtime
    Adapters Old_Canvas Old_Views Client_Session Old_Exchange Ui_Panes Ui_Drawing Old_Abi Sim_Main
begin

text \<open>
  A verification development for the Python part of a PROFINET drive gateway: the gateway of
  \<open>src/profinet_gateway_py\<close>, its panel client, the device simulator of
  \<open>src/simulator/vfd_sim.py\<close>, and the earlier gateway of \<open>src/profinet_gateway\<close>
  over a library in C.

  The program.  A PC runs three services that share one process.  The PROFINET controller
  (\<open>profinet_ctrl.py\<close>) connects each configured drive over the third-party
  \<open>profinet\<close> package and exchanges cyclic process data with it.  The gateway server
  (\<open>gateway_server.py\<close>) offers that data to clients on the network, over TCP
  request/response, a TCP stream, an STM message stream or UDP, in a flat or a framed layout.
  The bridge (\<open>bridge.py\<close>) copies between the two, one pass per cycle.
  \<open>main.py\<close> starts, stops and restarts the services from the configuration of
  \<open>config.py\<close>; \<open>vfd_tcp_client.py\<close> is a client with a panel per drive;
  \<open>gsdml.py\<close> reads the device description files; the simulator plays a drive.

  The theories, in the order of their imports.
    \<^item> \<open>Prelude\<close>, \<open>Py_Str\<close>: bytes, slices and \<open>struct\<close> codes of Python, exceptions,
      strings and number literals; the collections and lemmas all components share.
    \<^item> \<open>Config\<close>: the dataclasses as records, loading and saving of \<open>config.json\<close>
      (JSON text is its parsed value), the effective drive objects and their lengths.
    \<^item> \<open>Framing\<close>: interfaces as locales, \<open>block_codec\<close> (blocks between markers) and
      \<open>block_walker\<close> (a loop that walks them); the relation \<open>leftmost_blocks\<close>, which says without
      a loop what blocks any bytes hold; and the resynchronisation lemmas.
    \<^item> \<open>Gateway\<close>, \<open>Gw_Socket\<close>: the \<open>GatewayServer\<close> state, buffers, both layouts, the
      watchdog; then the socket loops, over scripts of what \<open>recv\<close> returns.  The gateway's
      walk interprets the locales (\<open>gw_walk\<close>).
    \<^item> \<open>Client\<close>: \<open>vfd_tcp_client.py\<close>, its own walk interpreting the same locales
      (\<open>cl_walk\<close>), and what the gateway and the client make of each other's frames.
    \<^item> \<open>Client_Session\<close>: its sessions: connecting, disconnecting, and the poll loops that run
      beside the window, each with its socket.
    \<^item> \<open>Pn_Ctrl\<close>: devices, adapters, start and stop, cyclic IO and queries of
      \<open>ProfinetCtrl\<close>; the cyclic controller of the package is a parameter.
    \<^item> \<open>Bridge\<close>: the bridge over the interface \<open>buffer_port\<close>, interpreted on the
      gateway (\<open>gw_port\<close>).
    \<^item> \<open>System\<close>: \<open>main.py\<close>, and the services together as an inductive step relation
      with its reachable states.
    \<^item> \<open>Pn_Layout\<close>, \<open>Pn_Patch\<close>, \<open>Pn_Slots\<close>, \<open>Pn_Connect\<close>: the rest of
      \<open>profinet_ctrl.py\<close>: frame layout and IOCR block; the functions it installs into the
      package at run time; the rack of slots; and \<open>configure_device\<close> as actions with
      exceptions, over every outcome of every call into the package, with rules for the
      combinators.
    \<^item> \<open>Sim_Wire\<close>, \<open>Sim\<close>, \<open>Sim_Rpc\<close>, \<open>Sim_Session\<close>, \<open>Sim_System\<close>: the
      simulator: byte helpers and cursor, state and drive, DCP and cyclic frames, the RPC
      server, and its threads as an inductive step relation.
    \<^item> \<open>Sim_Main\<close>: the simulator as a program: the wrapper of the capture library, its threads from
      start to stop with the look at the stop event as a step of its own, and the command line; the
      life of its threads, those of past sessions included.
    \<^item> \<open>Gsdml\<close>: \<open>gsdml.py\<close>: the element tree, names, texts, data items, variants and picture
      of a description file, and the device built from it and from what the package reads.
    \<^item> \<open>Actions\<close>, \<open>Pn_Dcp\<close>: actions with exceptions and their rules, shared by
      \<open>Pn_Connect\<close> and the DCP tools of \<open>profinet_ctrl.py\<close>.
    \<^item> \<open>Ui_Device\<close>, \<open>Ui_Canvas\<close>, \<open>Ui_Discovery\<close>, \<open>Ui_Io\<close>, \<open>Ui_Views\<close>: the windows of
      \<open>ui\<close> without their widgets: the device dialog; the configuration window over a store of the
      objects it shares with the application; discovery; hex dump and forced outputs; and what the
      rack, the view of a description file, the diagnostic, monitor and main windows show.
    \<^item> \<open>Ui_Panes\<close>, \<open>Ui_Drawing\<close>: the device dialog as a window, with its navigation, panes, rows,
      scans, Apply and Cancel, over its life and that of the scans that end after it; and the bus and the lines that the configuration tab draws.
    \<^item> \<open>Realtime\<close>, \<open>Adapters\<close>: the calls that tune the process; the adapters as the earlier
      gateway and the simulator list them, and healing a stale adapter name.
    \<^item> \<open>Old_Config\<close>, \<open>Old_Gateway\<close>, \<open>Old_Ctrl\<close>: the earlier gateway: its configuration
      and how the two versions read each other's; its server, compared with the present one; its
      controller over the library in C, whose calls are recorded and answered by a world, with its
      bridge and the start of its services.
    \<^item> \<open>Old_Bridge\<close>: its bridge as a client of \<open>buffer_port\<close> (\<open>og_port\<close>): that no pass raises;
      \<open>Old_Exchange\<close>: a frame of a client through its server, its bridge and the calls into the
      library, and the answer of the next frame.
    \<^item> \<open>Old_Abi\<close>: the structures and functions that its controller binds, beside the header of the
      library in C: layouts, memory images, types and numbers of arguments.
    \<^item> \<open>Old_Gsdml\<close>, \<open>Old_Ui\<close>, \<open>Old_Canvas\<close>, \<open>Old_Views\<close>: its reader of description
      files, its device dialog and forced words, its configuration window, and what it shows.
    \<^item> \<open>Ui_Popups\<close>: the small windows of both versions: lists to choose from, the table of a scan,
      statistics.  The windows that renew their names with the number of devices interpret
      \<open>counted_view\<close> of \<open>Ui_Views\<close>.
  This theory holds the properties that span components.

  Correspondence.  A class is a record with the prefix of its theory, a method a function from
  the record to the new record and its result.  An exception is a value of \<open>py_error\<close>, in a sum
  or beside the state that it leaves.  A loop that waits on a socket, a capture or a timer is a
  fold over a list of the events it sees, so it ends with the list; a loop over a buffer
  recurses on what is left of it and is proved to end.  Python integers are \<open>int\<close>, bytes are
  \<open>8 word list\<close>, and packing wraps or raises as \<open>struct\<close> does.  Threads interleave at the
  granularity of their handlers, which the code runs under locks or on whole buffers.

  What the lemmas show.  Round trips of every frame and block format; that the framed walk over
  any bytes applies exactly the leftmost well-formed blocks; that no network input ends a gateway
  handler or makes a buffer outgrow its size, and that only a flat STM server can leave one shorter,
  until a full frame comes; that a TCP session depends on the byte stream only and not on its
  segments; the path from a silent client to zero outputs on the drive; the partition of the
  cyclic frame; that connecting a device ends connected, or with everything closed again; for
  the simulator its negotiation, the exact inputs that end its server, and its invariant; and for
  the windows which words, addresses and configurations reach the services, when sockets stay
  open, what the windows share with the running application, that the device dialog always shows
  its own rack, and exactly which of its handlers raise; that a simulator that is told to stop does, and that until
  then it ends no cyclic thread; for the earlier gateway what the
  present server changes, that no handle of the library is lost, what its configuration loses, which
  description files it cannot read, how a frame of a client reaches the drives and comes back, and
  what becomes of the words that it forces.

  No fuel and no bounds are needed: every function is total.

  Simplifications.  A send of the client that fails ends its poll loop, also where the code would
  take a timeout of \<open>sendall\<close> for a missed answer; a worker whose socket is closed ends before
  it builds its frame.  The capture library is called in one step with the test that it is open.
  The names of a description file are read by a pass that raises nothing of its own.  The properties
  of the simulator's runs start from a MAC address of six octets (the code takes any).  White space
  that \<open>strip\<close> removes is that of ASCII; digits are those of Unicode, read from the bytes of UTF-8.

  Not modelled: the widgets of the windows, the colours and fixed texts of their labels, the
  decimal places of fractions, the pictures of devices, most log lines, the ctypes bindings of
  the capture library, the log of the package, the capture test, and the C library with its tester
  and C simulator, of which only the header is used.  What is left of the Python files beyond that is
  imports, colours, sizes and the placing of widgets, which carry no behaviour of their own.
  The \<open>profinet\<close> package is not part of the repository: its calls are parameters, with any result
  and any exception allowed.  Message texts of built-in exceptions are reduced to the class.
\<close>

section \<open>A small installation, on which the properties are evaluated\<close>

definition demo_device :: device_config where
  "demo_device = default_device_config\<lparr>dc_station_name := ''drive''\<rparr>"

definition demo_gateway :: "bool \<Rightarrow> gateway" where
  "demo_gateway framed = gw_init\<lparr>gw_framed := framed, gw_running := True,
     gw_device_configs := [demo_device, demo_device], gw_watchdog_ms := 100, gw_last_rx_t := 1,
     gw_io := [\<lparr>io_out = [4, 126, 1, 0], io_inp = [1, 2, 3, 4]\<rparr>, \<lparr>io_out = zeros 4, io_inp = [0, 0, 0x40, 0]\<rparr>]\<rparr>"

definition demo_panels :: "panel list" where
  "demo_panels = [set_stw1 STW1_RUN new_panel, nsoll_from_scale 50 new_panel]"

definition demo_conn :: "recv_ev list \<Rightarrow> conn" where
  "demo_conn es = \<lparr>c_rx = es, c_send_ok = [], c_sent = [], c_open = True\<rparr>"

named_theorems demo_simps "evaluation on the small installation"

lemmas [demo_simps] = demo_device_def demo_gateway_def demo_conn_def gw_init_def default_device_config_def
  uniform_def gw_sized_def io_sizes_def cfg_sizes_def lengths_ok_def total_output_length_def
  total_input_length_def effective_drive_objects_def

lemma zeros_4 [demo_simps]: "zeros 4 = [0, 0, 0, 0]"
  by (simp add: zeros_def numeral_eq_Suc)

lemma demo_uniform: "uniform 4 4 (demo_gateway framed)"
  by (simp add: demo_simps)

lemma demo_io [simp]: "length (gw_io (demo_gateway framed)) = 2" "gw_framed (demo_gateway framed) = framed"
  by (simp_all add: demo_gateway_def)

section \<open>Client, gateway and drives\<close>

text \<open>C1: One request and response over TCP, flat or framed, whatever the segmentation.  The
  output frame the panel client builds sets, in the gateway, the control word and the
  setpoint of every device to the client's; the reply, when the client receives it,
  gives the client the status and actual words of every device.\<close>

theorem tcp_exchange:
  assumes "uniform out_b in_b g" and "4 \<le> out_b" and "out_b < 65536" and "4 \<le> in_b" and "in_b < 65536"
    and "pc = \<lparr>pc_n = length (gw_io g), pc_out_b = out_b, pc_in_b = in_b, pc_framed = gw_framed g\<rparr>"
    and "length (cl_panels cl) = length (gw_io g)" and "0 < length (gw_io g)" and "length (gw_io g) \<le> 256"
    and "client_frame (gw_framed g) out_b (cl_panels cl) = Inr f"
    and "steady (c_rx c)" and "stream (c_rx c) = f" and "c_send_ok c = []" and "c_send_ok cc = []"
  shows "\<exists>g' c' reply. tcp_iter (out_frame_size g) (in_frame_size g) t g c = (Go, g', c')
    \<and> c_sent c' = c_sent c @ [reply]
    \<and> (\<forall>i < length (gw_io g). get_stw1_nsoll g' i =
         (pan_stw1 (cl_panels cl ! i) mod 65536, pan_nsoll (cl_panels cl ! i) mod 65536))
    \<and> (\<forall>es. steady es \<and> stream es = reply \<longrightarrow>
         (\<exists>cl' cc'. poll_iter TCP pc rtt cl (cc\<lparr>c_rx := es\<rparr>) = (Go, cl', cc') \<and> c_sent cc' = c_sent cc @ [f]
           \<and> cl_posted cl' = cl_posted cl @ [map (\<lambda>i. let d = get_inputs g i in
               (val16 (d ! 0) (d ! 1), val16 (d ! 2) (d ! 3))) [0 ..< length (gw_io g)]]))"
proof -
  obtain g' c' reply where r: "tcp_iter (out_frame_size g) (in_frame_size g) t g c = (Go, g', c')"
    "c_sent c' = c_sent c @ [reply]" "int (length reply) = in_frame_size g"
    "client_vals (gw_framed g) (length (cl_panels cl)) in_b reply = map (word_pair \<circ> io_inp) (gw_io g)"
    "map io_out (gw_io g') = map (panel_slot out_b) (cl_panels cl)"
    using gateway_answers [of out_b in_b g "cl_panels cl" c t] assms by auto
  have words: "get_stw1_nsoll g' i = (pan_stw1 (cl_panels cl ! i) mod 65536, pan_nsoll (cl_panels cl ! i) mod 65536)"
    if i: "i < length (gw_io g)" for i
  proof -
    have len: "length (gw_io g') = length (gw_io g)"
      using arg_cong [OF r(5), of length] assms(7) by simp
    then have "get_outputs g' i = panel_slot out_b (cl_panels cl ! i)"
      using arg_cong [OF r(5), of "\<lambda>xs. xs ! i"] assms(7) i by (simp add: get_outputs_def)
    then show ?thesis
      using assms(2) by (simp add: get_stw1_nsoll_def Let_def words_of_panel_slot)
  qed
  have "map (word_pair \<circ> io_inp) (gw_io g) = map (\<lambda>i. let d = get_inputs g i in
      (val16 (d ! 0) (d ! 1), val16 (d ! 2) (d ! 3))) [0 ..< length (gw_io g)]"
    by (rule nth_equalityI) (simp_all add: word_pair_def get_inputs_def Let_def)
  moreover have "length reply = poll_inp_size pc"
    using r(3) unfolding uniform_frame_sizes(2) [OF assms(1)] of_nat_eq_iff by (simp add: poll_inp_size_def assms(6))
  ultimately have "\<exists>cl' cc'. poll_iter TCP pc rtt cl (cc\<lparr>c_rx := es\<rparr>) = (Go, cl', cc') \<and> c_sent cc' = c_sent cc @ [f]
      \<and> cl_posted cl' = cl_posted cl @ [map (\<lambda>i. let d = get_inputs g i in
          (val16 (d ! 0) (d ! 1), val16 (d ! 2) (d ! 3))) [0 ..< length (gw_io g)]]"
    if "steady es" "stream es = reply" for es
    using that r(4) client_accepts [of pc cl f "cc\<lparr>c_rx := es\<rparr>" reply rtt] assms(6,7,10,14) by auto
  with words r(1,2) show ?thesis by blast
qed

lemma tcp_exchange_witness:
  "\<exists>f g' c'. client_frame True 4 demo_panels = Inr f \<and>
     tcp_iter (out_frame_size (demo_gateway True)) (in_frame_size (demo_gateway True)) 2 (demo_gateway True)
       (demo_conn [Data (take 3 f), Data (drop 3 f)]) = (Go, g', c') \<and>
     get_stw1_nsoll g' 0 = (0x47F, 0) \<and> get_stw1_nsoll g' 1 = (0, 0x2000)"
proof -
  obtain f where f: "client_frame True 4 demo_panels = Inr f" "3 < length f"
  proof -
    have "client_frame True 4 demo_panels = Inr (blocks.enc_all (map (panel_slot 4) demo_panels))"
      by (rule client_frame_framed) simp_all
    moreover have "3 < length (blocks.enc_all (map (panel_slot 4) demo_panels))"
      by (simp add: blocks.enc_all_def demo_panels_def len_simps FRAME_OVERHEAD_7)
    ultimately show ?thesis using that by blast
  qed
  define cl where "cl = \<lparr>cl_panels = demo_panels, cl_connected = True, cl_tx = 0, cl_rx = 0, cl_rtt = 0,
     cl_rtt_min = None, cl_rtt_max = 0, cl_rtt_avg = 0, cl_posted = []\<rparr>"
  have "length (cl_panels cl) = 2" "\<forall>i < 2. pan_stw1 (cl_panels cl ! i) = [0x47F, 0] ! i \<and> pan_nsoll (cl_panels cl ! i) = [0, 0x2000] ! i"
    by (simp_all add: cl_def demo_panels_def less_2_cases_iff set_stw1_def nsoll_from_scale_def new_panel_def
        STW1_RUN_def NSOLL_100PCT_def py_round_def Let_def and_mask16)
  then show ?thesis
    using tcp_exchange [OF demo_uniform [of True], of _ cl f "demo_conn [Data (take 3 f), Data (drop 3 f)]" "demo_conn []" 2 3] f
    by (fastforce simp: demo_conn_def cl_def)
qed

text \<open>C2: In every state that the interleaved threads can reach after the services started,
  whatever the peers send and in every protocol and framing: the input buffers have their
  configured sizes and no output buffer outgrows its own, the gateway's and the controller's
  devices agree, and the next input frame can be built.  Unless the server is STM in flat
  mode, where a short frame leaves short buffers, every output buffer has exactly its
  configured size.\<close>

theorem running_system_consistent:
  assumes "start_services available cfg s0 = (None, s1)" and "payloads_fit (ac_devices cfg)"
    and "pn_ok (s_pn s0)" and "pn_devices (s_pn s0) = []"
    and "sys_reach ops s1 s"
  shows "gw_bounded (s_gw s) \<and> gw_device_configs (s_gw s) = ac_devices cfg
    \<and> (gc_framed (ac_gateway cfg) \<or> upper (gc_protocol (ac_gateway cfg)) \<noteq> ''STM'' \<longrightarrow> gw_sized (s_gw s))
    \<and> (\<exists>f. build_inputs (s_gw s) = Inr f)
    \<and> (\<forall>i ds. pn_get i (s_pn s) = Some ds \<longrightarrow> ds_config ds = ac_devices cfg ! nat i)"
proof -
  have inv: "sys_inv (ac_devices cfg)
      (gc_framed (ac_gateway cfg) \<or> upper (gc_protocol (ac_gateway cfg)) \<noteq> ''STM'') s"
    by (rule sys_inv_reach [OF assms(5) start_services_inv [OF assms(1-4)]])
  then have "\<exists>f. build_inputs (s_gw s) = Inr f"
    by (simp add: sys_inv_def gw_ok_def build_inputs_bounded)
  moreover have "ds_config ds = ac_devices cfg ! nat i" if "pn_get i (s_pn s) = Some ds" for i ds
  proof -
    have i: "nat i < length (pn_devices (s_pn s))" "ds = pn_devices (s_pn s) ! nat i"
      using that by (auto simp: pn_get_def split: if_splits)
    then have "map ds_config (pn_devices (s_pn s)) = ac_devices cfg"
      using inv by (auto simp: sys_inv_def)
    then show ?thesis
      using i by (metis nth_map)
  qed
  ultimately show ?thesis
    using inv by (auto simp: sys_inv_def gw_ok_def)
qed

definition demo_config :: app_config where
  "demo_config = default_app_config\<lparr>ac_devices := [demo_device]\<rparr>"

definition demo_sys :: "unit sys" where
  "demo_sys = \<lparr>s_gw = gw_init, s_pn = pn_init True, s_br = br_init\<rparr>"

lemma demo_start: "start_services [] demo_config demo_sys = (None, snd (start_services [] demo_config demo_sys))"
  by (simp add: start_services_def demo_config_def default_app_config_def default_gateway_config_def demo_sys_def
      gw_configure_def fresh_io_def bytearray_n_def demo_simps Let_def)

lemma running_system_consistent_witness:
  "gw_sized (watchdog_pass 5 (s_gw (snd (start_services [] demo_config demo_sys))))"
proof -
  have "gw_running (s_gw (snd (start_services [] demo_config demo_sys)))"
    by (simp add: start_services_def demo_config_def default_app_config_def default_gateway_config_def demo_sys_def
      gw_configure_def fresh_io_def bytearray_n_def demo_simps Let_def gw_start_def gw_say_def)
  then have "sys_reach ops (snd (start_services [] demo_config demo_sys))
      ((snd (start_services [] demo_config demo_sys))\<lparr>s_gw := watchdog_pass 5 (s_gw (snd (start_services [] demo_config demo_sys)))\<rparr>)"
    for ops
    by (rule sys_reach.step [OF sys_reach.start sys_step.watchdog])
  moreover have "payloads_fit (ac_devices demo_config)" and "pn_ok (s_pn demo_sys)" "pn_devices (s_pn demo_sys) = []"
    and "upper (gc_protocol (ac_gateway demo_config)) \<noteq> ''STM''"
    by (simp_all add: demo_config_def default_app_config_def default_gateway_config_def payloads_fit_def
        demo_sys_def pn_init_def demo_simps upper_def upper_c_def ord_c_def)
  ultimately show ?thesis
    using running_system_consistent [OF demo_start] by fastforce
qed

text \<open>C3: When the client has been silent for longer than the watchdog time, one pass of the
  watchdog and one pass of the bridge write zeros to every slot of a connected drive, over
  its whole output image, and its control word and setpoint read zero.\<close>

theorem silent_client_stops_drive:
  assumes "silent t gw" and "gw_sized gw" and "pn_get (int i) pn = Some ds" and "ds_connected ds"
    and "ds_cyclic ds = Some c" and "i < length (gw_device_configs gw)"
    and "ds_config ds = gw_device_configs gw ! i" and "4 \<le> total_output_length (ds_config ds)"
  shows "\<exists>ws ds'. pn_get (int i) (snd (bridge_pass ops (watchdog_pass t gw, pn))) = Some ds'
    \<and> ds_cyclic ds' = Some (set_outputs_all ops ws c)
    \<and> concat (map (\<lambda>(_, _, d). d) ws) =
        zeros (if ds_dos ds = [] then nat (total_output_length (ds_config ds)) else rack_out_total (ds_dos ds))
    \<and> map (\<lambda>(slot, subslot, _). (slot, subslot)) ws =
        (if ds_dos ds = [] then [(ds_slot ds, ds_subslot ds)]
         else map (\<lambda>(slot, subslot, _). (slot, subslot)) (filter (\<lambda>(_, _, n, _). 0 < n) (ds_dos ds)))
    \<and> ds_stw1 ds' = 0 \<and> ds_nsoll ds' = 0"
  using bridge_after_watchdog [OF assms, of ops]
    zero_writes_zero [of "nat (total_output_length (ds_config ds))" ds]
    zero_writes_slots [of "nat (total_output_length (ds_config ds))" ds]
  by blast

definition log_ops :: "(int \<times> int \<times> bytes) list cyc_ops" where
  "log_ops = \<lparr>set_output_data = (\<lambda>slot subslot d c. Inr (c @ [(slot, subslot, d)])),
     get_input_data = (\<lambda>slot subslot c. Inr (Some [1, 2, 3, 4])), cyc_stats_of = (\<lambda>c. None),
     cyc_is_running = (\<lambda>c. Some True)\<rparr>"

definition demo_drive :: "(int \<times> int \<times> bytes) list dev_state" where
  "demo_drive = (new_dev_state demo_device)\<lparr>ds_connected := True, ds_cyclic := Some [], ds_dos := [(1, 1, 2, 4), (2, 1, 2, 0)]\<rparr>"

definition demo_ctrl :: "(int \<times> int \<times> bytes) list pn_ctrl" where
  "demo_ctrl = (pn_init True)\<lparr>pn_devices := [demo_drive, demo_drive]\<rparr>"

lemmas [demo_simps] = demo_drive_def demo_ctrl_def pn_init_def new_dev_state_def pn_get_def

lemma silent_client_stops_drive_witness:
  "\<exists>ds'. pn_get 1 (snd (bridge_pass log_ops (watchdog_pass 2 (demo_gateway False), demo_ctrl))) = Some ds'
     \<and> ds_stw1 ds' = 0"
proof -
  have "silent 2 (demo_gateway False)" and "gw_sized (demo_gateway False)"
    using demo_uniform by (simp_all add: silent_def demo_gateway_def uniform_def)
  then have "\<exists>ws ds'. pn_get (int 1) (snd (bridge_pass log_ops (watchdog_pass 2 (demo_gateway False), demo_ctrl))) = Some ds'
    \<and> ds_cyclic ds' = Some (set_outputs_all log_ops ws [])
    \<and> concat (map (\<lambda>(_, _, d). d) ws) =
        zeros (if ds_dos demo_drive = [] then nat (total_output_length (ds_config demo_drive)) else rack_out_total (ds_dos demo_drive))
    \<and> map (\<lambda>(slot, subslot, _). (slot, subslot)) ws =
        (if ds_dos demo_drive = [] then [(ds_slot demo_drive, ds_subslot demo_drive)]
         else map (\<lambda>(slot, subslot, _). (slot, subslot)) (filter (\<lambda>(_, _, n, _). 0 < n) (ds_dos demo_drive)))
    \<and> ds_stw1 ds' = 0 \<and> ds_nsoll ds' = 0"
    by (rule silent_client_stops_drive) (simp_all add: demo_simps)
  then show ?thesis by auto
qed

text \<open>C4: A request/response session over TCP depends on the bytes of the stream only: in
  whatever segments whole output frames arrive, the handler serves them one by one as the
  reference server \<open>serve_frames\<close> does, and sends its replies in order.\<close>

theorem tcp_session_segments:
  assumes "gw_sized g" and "inputs_fit g" and "gw_running g"
    and "\<forall>(t, f) \<in> set tfs. int (length f) = out_frame_size g" and "0 < out_frame_size g" and "0 < in_frame_size g"
    and "steady (c_rx c)" and "stream (c_rx c) = concat (map snd tfs)" and "c_send_ok c = []"
  shows "\<exists>c'. tcp_loop (out_frame_size g) (in_frame_size g) (map fst tfs) g c = (Go, fst (serve_frames tfs g), c')
    \<and> c_sent c' = c_sent c @ snd (serve_frames tfs g) \<and> stream (c_rx c') = []"
  using assms by (rule tcp_loop_serves)

lemma demo_fit: "gw_sized (demo_gateway framed)" "inputs_fit (demo_gateway framed)" "gw_running (demo_gateway framed)"
  by (simp_all add: inputs_fit_def demo_simps)

lemma demo_sizes: "out_frame_size (demo_gateway False) = 8" "in_frame_size (demo_gateway False) = 8"
  by (simp_all add: out_frame_size_def in_frame_size_def demo_simps)

lemma tcp_session_segments_witness:
  "\<exists>c'. tcp_loop 8 8 [2, 3] (demo_gateway False) (demo_conn [Data [1, 2, 3], Data [4, 5, 6, 7, 8, 9, 10], Data [11, 12, 13, 14, 15, 16]])
    = (Go, fst (serve_frames [(2, [1, 2, 3, 4, 5, 6, 7, 8]), (3, [9, 10, 11, 12, 13, 14, 15, 16])] (demo_gateway False)), c')"
proof -
  let ?tfs = "[(2, [1, 2, 3, 4, 5, 6, 7, 8]), (3, [9, 10, 11, 12, 13, 14, 15, 16])] :: (rat \<times> bytes) list"
  let ?c = "demo_conn [Data [1, 2, 3], Data [4, 5, 6, 7, 8, 9, 10], Data [11, 12, 13, 14, 15, 16]]"
  have "\<exists>c'. tcp_loop (out_frame_size (demo_gateway False)) (in_frame_size (demo_gateway False)) (map fst ?tfs)
      (demo_gateway False) ?c = (Go, fst (serve_frames ?tfs (demo_gateway False)), c')
    \<and> c_sent c' = c_sent ?c @ snd (serve_frames ?tfs (demo_gateway False)) \<and> stream (c_rx c') = []"
    by (rule tcp_session_segments) (simp_all only: demo_fit, simp_all add: demo_sizes demo_conn_def)
  then show ?thesis
    unfolding demo_sizes list.map fst_conv by blast
qed

text \<open>C5: No input from the network makes a handler thread die of an exception, changes an
  input buffer or makes an output buffer outgrow its configured size: whatever a TCP,
  streaming, STM or UDP peer sends, in whatever segments, with timeouts, disconnects and
  socket errors anywhere.  Every handler but flat STM also keeps the configured sizes
  exactly; flat STM can leave shorter buffers, until a frame of the full size restores
  them.\<close>

theorem network_keeps_gateway:
  fixes g :: gateway and c :: conn and t :: rat and d :: bytes
  fixes inp_size a ok
  assumes "gw_bounded g" and "inputs_fit g"
  defines "tcp \<equiv> tcp_iter (out_frame_size g) inp_size t g c"
    and "strm \<equiv> stream_rx (out_frame_size g) t g c"
    and "stm \<equiv> stm_rx t g c"
    and "udp \<equiv> udp_iter (out_frame_size g) d a t ok g"
  shows "(\<forall>r \<in> {tcp, strm, stm}. (\<forall>e. fst r \<noteq> Die e) \<and> gw_bounded (fst (snd r))
      \<and> (\<forall>i. get_inputs (fst (snd r)) i = get_inputs g i))
    \<and> (\<forall>e. fst udp \<noteq> Die e) \<and> gw_bounded (fst (snd udp)) \<and> (\<forall>i. get_inputs (fst (snd udp)) i = get_inputs g i)
    \<and> (gw_sized g \<longrightarrow> gw_sized (fst (snd tcp)) \<and> gw_sized (fst (snd strm)) \<and> gw_sized (fst (snd udp))
         \<and> (gw_framed g \<longrightarrow> gw_sized (fst (snd stm))))
    \<and> (\<not> gw_framed g \<and> out_frame_size g \<le> int (length d) \<longrightarrow> gw_sized (fst (snd (rx_apply t d g c))))"
proof -
  have ok: "gw_ok g"
    using assms(1,2) by (simp add: gw_ok_def)
  note good = tcp_iter_good [OF ok, of inp_size t c, folded tcp_def] stream_rx_good [OF ok, of t c, folded strm_def]
    stm_rx_good [OF ok, of t c, folded stm_def] udp_iter_good [OF ok, of d a t ok, folded udp_def]
  have inp: "get_inputs (fst (snd r)) i = get_inputs g i" if "good_step keep g r" for keep i and r :: "step \<times> gateway \<times> 'x"
    by (rule get_inputs_cong [OF good_stepD(2) [OF that]])
  have "\<forall>r \<in> {tcp, strm, stm}. (\<forall>e. fst r \<noteq> Die e) \<and> gw_bounded (fst (snd r))
      \<and> (\<forall>i. get_inputs (fst (snd r)) i = get_inputs g i)"
    using good(1-3) inp good_stepD(1,4) by blast
  moreover have "gw_sized (fst (snd (rx_apply t d g c)))" if "\<not> gw_framed g" "out_frame_size g \<le> int (length d)"
    using apply_outputs_full_size [of "mon_rx t d g" d] assms(1) that by (auto simp: rx_apply_def)
  moreover have "(\<forall>e. fst udp \<noteq> Die e) \<and> gw_bounded (fst (snd udp))
      \<and> (\<forall>i. get_inputs (fst (snd udp)) i = get_inputs g i)"
    using good_stepD(1,4) [OF good(4)] inp [OF good(4)] by blast
  moreover note good_stepD(5) [OF good(1)] good_stepD(5) [OF good(2)] good_stepD(5) [OF good(3)]
    good_stepD(5) [OF good(4)]
  ultimately show ?thesis by simp
qed

lemma network_keeps_gateway_witness:
  "gw_sized (fst (snd (tcp_iter (out_frame_size (demo_gateway False)) 8 2 (demo_gateway False)
     (demo_conn [Data [1, 2, 3], TimedOut, Broken]))))
   \<and> gw_bounded (fst (snd (stm_rx 2 (demo_gateway False) (demo_conn [Data [0, 0, 0, 2, 7, 8]]))))
   \<and> \<not> gw_sized (fst (snd (stm_rx 2 (demo_gateway False) (demo_conn [Data [0, 0, 0, 2, 7, 8]]))))"
proof -
  have g: "gw_bounded (demo_gateway False)" "inputs_fit (demo_gateway False)" "gw_sized (demo_gateway False)"
    using demo_fit(1,2) [of False] by (simp_all add: gw_sized_bounded)
  have "\<not> gw_sized (fst (snd (stm_rx 2 (demo_gateway False) (demo_conn [Data [0, 0, 0, 2, 7, 8]]))))"
    by code_simp
  then show ?thesis
    using network_keeps_gateway [OF g(1,2), of 8 2 "demo_conn [Data [1, 2, 3], TimedOut, Broken]"]
      network_keeps_gateway [OF g(1,2), of 8 2 "demo_conn [Data [0, 0, 0, 2, 7, 8]]"] g(3) by simp
qed

text \<open>C6: From any bytes whatever, the framed walk takes exactly the leftmost non-overlapping
  well-formed blocks, each with its start marker, drive, length, payload and end marker: those
  blocks are unique, their payloads are applied in order, noise, lone markers and blocks with
  a wrong length or end marker apply nothing, and no buffer changes its size.\<close>

theorem framed_resync:
  assumes "gw_framed g"
  shows "(\<exists>!ps. leftmost_blocks data ps)
    \<and> (\<forall>ps. leftmost_blocks data ps \<longrightarrow>
         apply_outputs data g = (None, g\<lparr>gw_io := fold put_payload ps (gw_io g)\<rparr>)
       \<and> io_sizes (fold put_payload ps (gw_io g)) = io_sizes (gw_io g))"
proof -
  have "\<exists>!ps. leftmost_blocks data ps"
    by (rule ex1I [of _ "scan data"]) (use leftmost_blocks_ex leftmost_blocks_scan in blast)+
  moreover have "apply_outputs data g = (None, g\<lparr>gw_io := fold put_payload ps (gw_io g)\<rparr>)"
    if "leftmost_blocks data ps" for ps
    using assms leftmost_blocks_scan [OF that] by (simp add: apply_outputs_def apply_framed_scan)
  ultimately show ?thesis by simp
qed

text \<open>A block whose end marker is wrong, in front of a good one.\<close>

lemma framed_resync_witness:
  "apply_outputs ([0xAA, 0x55, 0, 0, 2, 7, 7, 0x55, 0xAB] @ frame_block 1 [9, 8] @ [0x55]) (demo_gateway True) =
    (None, (demo_gateway True)\<lparr>gw_io := put_payload (1, [9, 8]) (gw_io (demo_gateway True))\<rparr>)"
proof -
  let ?data = "[0xAA, 0x55, 0, 0, 2, 7, 7, 0x55, 0xAB] @ frame_block 1 [9, 8] @ [0x55]"
  have fr: "gw_framed (demo_gateway True)"
    by (simp add: demo_simps)
  have "scan ?data = [(1, [9, 8])]"
    by code_simp
  then have "leftmost_blocks ?data [(1, [9, 8])]"
    using leftmost_blocks_ex [of ?data] by simp
  then show ?thesis
    using framed_resync [OF fr, of ?data] by simp
qed

text \<open>C7: Over STM, the client's message, in any segments and with any pauses, delivers exactly
  its frame to the gateway, leaving what follows in the stream; and the gateway's message
  delivers exactly its frame to the client.\<close>

theorem stm_roundtrip:
  assumes "gw_running g" and "frame \<noteq> []" and "length frame \<le> 1000000"
    and "poll_msg STM frame = Inr msg" and "lively (c_rx c)" and "stream (c_rx c) = msg @ rest"
  shows "(\<exists>es'. stm_rx t g c = rx_apply t frame g (c\<lparr>c_rx := es'\<rparr>) \<and> stream es' = rest)
    \<and> stm_wrap frame = Inr msg
    \<and> (\<forall>n es. steady es \<and> stream es = msg @ rest \<longrightarrow>
         (\<exists>es'. recv_reply STM n es = (Got frame, es') \<and> stream es' = rest))"
proof -
  have msg: "msg = be32 (int (length frame)) @ frame"
    using assms(3,4) by (simp add: poll_msg_def pack_I_ok)
  then have "\<exists>es'. stm_rx t g c = rx_apply t frame g (c\<lparr>c_rx := es'\<rparr>) \<and> stream es' = rest"
    using stm_rx_frame [OF assms(1,5), of frame rest t] assms(2,3,6) by auto
  moreover have "stm_wrap frame = Inr msg"
    using assms(3) msg by (simp add: stm_wrap_def pack_I_ok)
  moreover have "\<exists>es'. recv_reply STM n es = (Got frame, es') \<and> stream es' = rest"
    if "steady es" "stream es = msg @ rest" for n es
    using that recv_reply_stm [of es frame rest n] msg assms(3) by simp
  ultimately show ?thesis by blast
qed

lemma stm_roundtrip_witness:
  "\<exists>es'. stm_rx 2 (demo_gateway False) (demo_conn [Data [0, 0], TimedOut, Data [0, 2, 7, 8, 9]]) =
     rx_apply 2 [7, 8] (demo_gateway False) (demo_conn es') \<and> stream es' = [9]"
  using stm_roundtrip [OF demo_fit(3) [of False], of "[7, 8]" "[0, 0, 0, 2, 7, 8]"
      "demo_conn [Data [0, 0], TimedOut, Data [0, 2, 7, 8, 9]]" "[9]" 2]
  by (simp add: poll_msg_def pack_I_ok be32_def be16_def demo_conn_def)

text \<open>C9: A pass of the bridge treats each device on its own: a connected drive gets its output
  image cut into its slots, the gateway gets the drive's inputs, every other buffer and
  device stays as it is, and a device that is not connected is left alone.\<close>

theorem bridge_pass_per_device:
  assumes "pn_get (int i) pn = Some ds"
  shows "pn_get (int i) (snd (bridge_pass ops (gw, pn))) =
      Some (if ds_connected ds then device_after ops (get_outputs gw i) ds else ds)
    \<and> get_outputs (fst (bridge_pass ops (gw, pn))) j = get_outputs gw j
    \<and> get_inputs (fst (bridge_pass ops (gw, pn))) i =
      (case (if ds_connected ds then inputs_after ops (get_outputs gw i) ds else None) of
         None \<Rightarrow> get_inputs gw i
       | Some d \<Rightarrow> take (length (get_inputs gw i)) d @ drop (length d) (get_inputs gw i))"
proof -
  note f = bridge_fold [where ops = ops and gw = gw and pn = pn and n = "device_count pn", OF order_refl]
  have i: "i < device_count pn"
    using assms by (auto simp: pn_get_def device_count_def split: if_splits)
  have off: "\<not> ds_connected ds \<Longrightarrow> device_after ops d ds = ds \<and> inputs_after ops d ds = None" for d
    by (simp add: device_after_def inputs_after_def)
  have "pn_get (int i) (snd (bridge_pass ops (gw, pn))) = Some (device_after ops (get_outputs gw i) ds)"
    using f(4) [OF assms] i by (simp add: bridge_pass_def)
  moreover have "get_outputs (fst (bridge_pass ops (gw, pn))) j = get_outputs gw j"
    using f(2) by (simp add: bridge_pass_def)
  moreover have "get_inputs (fst (bridge_pass ops (gw, pn))) i =
      (case inputs_after ops (get_outputs gw i) ds of None \<Rightarrow> get_inputs gw i
       | Some d \<Rightarrow> take (length (get_inputs gw i)) d @ drop (length d) (get_inputs gw i))"
    using f(5) [OF assms] i
    by (simp add: bridge_pass_def set_inputs_opt_def gw_port.in_put_in split: option.splits)
  ultimately show ?thesis
    using off by (cases "ds_connected ds") auto
qed

lemma bridge_pass_per_device_witness:
  "get_inputs (fst (bridge_pass log_ops (demo_gateway False, demo_ctrl))) 0 = [1, 2, 3, 4]"
proof -
  have "pn_get (int 0) demo_ctrl = Some demo_drive"
    by (simp add: demo_simps)
  from bridge_pass_per_device [OF this, of log_ops "demo_gateway False"] show ?thesis
    by (simp add: inputs_after_def inputs_of_def device_inputs_def device_outputs_def read_raw_inputs_def io_ready_def
        log_ops_def demo_simps get_inputs_def get_outputs_def Let_def)
qed

end
